(* ===== verification/Prelude.thy ===== *)
theory Prelude
  imports Main "HOL-Library.Word" "HOL-Library.Char_ord"
begin

unbundle bit_operations_syntax

text \<open>
  Shared vocabulary of the development: octets and characters, the failure-carrying result
  type with its sequencing operator, and the generic lemmas on lists and words that the
  components share.

  A C++ \<open>std::string\<close> is a sequence of 8-bit units, so it is an Isabelle \<open>string\<close>
  (a list of 8-bit \<open>char\<close>s); a \<open>std::byte\<close> or \<open>unsigned char\<close> is an
  \<open>8 word\<close>.
\<close>

named_theorems ce_codec \<open>round-trip laws of encoders and decoders\<close>
named_theorems ce_inv \<open>preservation of well-formedness invariants\<close>

type_synonym byte = "8 word"
type_synonym binary = "byte list"
type_synonym u32 = "32 word"
type_synonym u64 = "64 word"


section \<open>Characters and octets\<close>

text \<open>\<open>static_cast<unsigned char>(character)\<close> and its inverse.\<close>

definition uchar :: "char \<Rightarrow> byte" where
  "uchar c = word_of_nat (of_char c)"

definition char_of_byte :: "byte \<Rightarrow> char" where
  "char_of_byte b = char_of (unat b)"

lemma unat_uchar [simp]: "unat (uchar c) = of_char c"
  by (simp add: uchar_def unat_of_nat)

lemma char_of_byte_uchar [simp]: "char_of_byte (uchar c) = c"
  by (simp add: char_of_byte_def)

lemma uchar_char_of_byte [simp]: "uchar (char_of_byte b) = b"
proof -
  have "unat b < 256" using unsigned_less [of b, where ?'a = nat] by simp
  then show ?thesis by (simp add: uchar_def char_of_byte_def)
qed

lemma uchar_eq_iff [simp]: "uchar c = uchar d \<longleftrightarrow> c = d"
  by (metis char_of_byte_uchar)

lemma unat_byte_less [simp]: "unat (b :: byte) < 256"
  using unsigned_less [of b, where ?'a = nat] by simp

lemma byte_eq_iff_unat: "(a :: byte) = b \<longleftrightarrow> unat a = unat b"
  by (rule word_unat_eq_iff)


section \<open>Results: a failure or a value\<close>

text \<open>
  \<open>std::expected<T, E>\<close> is the sum \<open>'e + 'a\<close>. The idiom
  \<open>if (!x) return forward_failure(x.error()); use(*x)\<close> is \<open>and_then x use\<close>.
\<close>

definition and_then :: "'e + 'a \<Rightarrow> ('a \<Rightarrow> 'e + 'b) \<Rightarrow> 'e + 'b" where
  "and_then m f = (case m of Inl e \<Rightarrow> Inl e | Inr x \<Rightarrow> f x)"

lemma and_then_simps [simp]:
  "and_then (Inl e) f = Inl e"
  "and_then (Inr x) f = f x"
  by (simp_all add: and_then_def)

lemma and_then_eq_Inr:
  "and_then m f = Inr y \<longleftrightarrow> (\<exists>x. m = Inr x \<and> f x = Inr y)"
  by (cases m) auto

lemma and_then_eq_Inl:
  "and_then m f = Inl e \<longleftrightarrow> m = Inl e \<or> (\<exists>x. m = Inr x \<and> f x = Inl e)"
  by (cases m) auto

lemma and_then_assoc: "and_then (and_then m f) g = and_then m (\<lambda>x. and_then (f x) g)"
  by (cases m) auto

lemma and_then_Inr_id [simp]: "and_then m Inr = m"
  by (cases m) auto

lemma and_then_cong [fundef_cong]:
  "m = m' \<Longrightarrow> (\<And>x. m' = Inr x \<Longrightarrow> f x = f' x) \<Longrightarrow> and_then m f = and_then m' f'"
  by (cases m') auto

definition is_ok :: "'e + 'a \<Rightarrow> bool" where
  "is_ok m = (case m of Inl _ \<Rightarrow> False | Inr _ \<Rightarrow> True)"

lemma is_ok_simps [simp]: "is_ok (Inl e) = False" "is_ok (Inr x) = True"
  by (simp_all add: is_ok_def)

lemma is_ok_iff: "is_ok m \<longleftrightarrow> (\<exists>x. m = Inr x)"
  by (cases m) auto


section \<open>Lists\<close>

lemma takeWhile_all_append [simp]:
  "\<forall>x \<in> set xs. P x \<Longrightarrow> takeWhile P (xs @ ys) = xs @ takeWhile P ys"
  by (induction xs) auto

lemma dropWhile_all_append [simp]:
  "\<forall>x \<in> set xs. P x \<Longrightarrow> dropWhile P (xs @ ys) = dropWhile P ys"
  by (induction xs) auto

end
