(* ===== verification/Errors.thy ===== *)
theory Errors
  imports Prelude
begin

text \<open>
  The error model of \<open>include/cloudevents/result.hpp\<close>: the error codes, the compile-time
  diagnosis \<open>static_error\<close>, the run-time \<open>error\<close>, and the functions that build a failure.
  A \<open>result<T>\<close> is \<open>error + 'a\<close>; \<open>result<void>\<close> is \<open>error + unit\<close>.
\<close>

datatype errc =
    missing_required_attribute
  | invalid_attribute_name
  | reserved_attribute_name
  | invalid_attribute_value
  | unsupported_spec_version
  | invalid_timestamp
  | invalid_content_type
  | parse_error
  | type_mismatch
  | out_of_range
  | data_conflict
  | invalid_base64
  | invalid_utf8
  | not_a_cloudevent
  | invalid_argument

fun errc_text :: "errc \<Rightarrow> string" where
  "errc_text missing_required_attribute = ''missing_required_attribute''"
| "errc_text invalid_attribute_name = ''invalid_attribute_name''"
| "errc_text reserved_attribute_name = ''reserved_attribute_name''"
| "errc_text invalid_attribute_value = ''invalid_attribute_value''"
| "errc_text unsupported_spec_version = ''unsupported_spec_version''"
| "errc_text invalid_timestamp = ''invalid_timestamp''"
| "errc_text invalid_content_type = ''invalid_content_type''"
| "errc_text parse_error = ''parse_error''"
| "errc_text type_mismatch = ''type_mismatch''"
| "errc_text out_of_range = ''out_of_range''"
| "errc_text data_conflict = ''data_conflict''"
| "errc_text invalid_base64 = ''invalid_base64''"
| "errc_text invalid_utf8 = ''invalid_utf8''"
| "errc_text not_a_cloudevent = ''not_a_cloudevent''"
| "errc_text invalid_argument = ''invalid_argument''"

record static_error =
  s_code :: errc
  s_detail :: string
  s_where :: string

record error =
  err_code :: errc
  err_detail :: string
  err_where :: string

type_synonym 'a result = "error + 'a"

definition widen :: "static_error \<Rightarrow> error" where
  "widen d = \<lparr>err_code = s_code d, err_detail = s_detail d, err_where = s_where d\<rparr>"

definition fail :: "errc \<Rightarrow> string \<Rightarrow> string \<Rightarrow> 'a result" where
  "fail code detail loc = Inl \<lparr>err_code = code, err_detail = detail, err_where = loc\<rparr>"

definition fail_static :: "static_error \<Rightarrow> 'a result" where
  "fail_static d = Inl (widen d)"

definition fail_static_at :: "static_error \<Rightarrow> string \<Rightarrow> 'a result" where
  "fail_static_at d loc = Inl \<lparr>err_code = s_code d, err_detail = s_detail d, err_where = loc\<rparr>"

definition forward_failure :: "error \<Rightarrow> 'a result" where
  "forward_failure e = Inl e"

definition forward_failure_at :: "error \<Rightarrow> string \<Rightarrow> 'a result" where
  "forward_failure_at e loc = Inl (e\<lparr>err_where := loc\<rparr>)"

text \<open>
  \<open>and_then_at m loc f\<close> is the idiom that forwards a failure of \<open>m\<close> with its location
  replaced: \<open>if (!m) return forward_failure(std::move(m).error(), loc); f(*m)\<close>.
\<close>

definition and_then_at :: "'a result \<Rightarrow> string \<Rightarrow> ('a \<Rightarrow> 'b result) \<Rightarrow> 'b result" where
  "and_then_at m loc f = (case m of Inl e \<Rightarrow> forward_failure_at e loc | Inr x \<Rightarrow> f x)"

lemma and_then_at_simps [simp]:
  "and_then_at (Inr x) loc f = f x"
  "and_then_at (Inl e) loc f = Inl (e\<lparr>err_where := loc\<rparr>)"
  by (simp_all add: and_then_at_def forward_failure_at_def)

lemma and_then_at_eq_Inr:
  "and_then_at m loc f = Inr y \<longleftrightarrow> (\<exists>x. m = Inr x \<and> f x = Inr y)"
  by (cases m) auto

lemma and_then_at_eq_Inl:
  "and_then_at m loc f = Inl e \<longleftrightarrow>
     (\<exists>e'. m = Inl e' \<and> e = e'\<lparr>err_where := loc\<rparr>) \<or> (\<exists>x. m = Inr x \<and> f x = Inl e)"
  by (cases m) auto

lemma fail_neq_Inr [simp]: "fail c d w \<noteq> Inr x" "Inr x \<noteq> fail c d w"
  by (simp_all add: fail_def)

lemma is_ok_fail [simp]: "\<not> is_ok (fail c d w)"
  by (simp add: fail_def)

definition fails_with :: "errc \<Rightarrow> 'a result \<Rightarrow> bool" where
  "fails_with code m = (case m of Inl e \<Rightarrow> err_code e = code | Inr _ \<Rightarrow> False)"

lemma fails_with_simps [simp]:
  "fails_with c (Inr x) = False"
  "fails_with c (Inl e) \<longleftrightarrow> err_code e = c"
  "fails_with c (fail c' d w) \<longleftrightarrow> c' = c"
  by (simp_all add: fails_with_def fail_def)

lemma fails_with_not_ok: "fails_with c m \<Longrightarrow> \<not> is_ok m"
  by (cases m) auto

lemma errc_text_inj: "errc_text a = errc_text b \<Longrightarrow> a = b"
  by (cases a; cases b; simp)

end
