(* ===== verification/Patterns.thy ===== *)
theory Patterns
  imports Errors
begin

text \<open>
  The pattern language of the regular-expression literals that the SDK hands to
  \<open>ctre::match\<close>: repeated character classes, sequence, alternative, option and capture group.
  \<open>rx_match\<close> is the documented meaning of a whole-subject match with greedy, backtracking
  repetition; the anchors \<open>^\<close> and \<open>$\<close> at the ends of a pattern add nothing to a
  whole-subject match and are left out. \<open>rx_parse\<close> says, independently of any search order,
  that a text is an instance of a pattern and which texts its groups hold; the matcher is proved
  sound and complete for it.
\<close>

datatype rx =
    Chars "char \<Rightarrow> bool" nat "nat option"
  | Then rx rx
  | Or rx rx
  | Maybe rx
  | Group nat rx

type_synonym captures = "(nat \<times> string) list"

abbreviation once :: "(char \<Rightarrow> bool) \<Rightarrow> rx" where
  "once P \<equiv> Chars P (Suc 0) (Some (Suc 0))"

abbreviation exactly :: "nat \<Rightarrow> (char \<Rightarrow> bool) \<Rightarrow> rx" where
  "exactly n P \<equiv> Chars P n (Some n)"

abbreviation star :: "(char \<Rightarrow> bool) \<Rightarrow> rx" where
  "star P \<equiv> Chars P 0 None"

abbreviation plus1 :: "(char \<Rightarrow> bool) \<Rightarrow> rx" where
  "plus1 P \<equiv> Chars P (Suc 0) None"

abbreviation lit :: "char \<Rightarrow> rx" where
  "lit c \<equiv> once (\<lambda>x. x = c)"


section \<open>The matcher\<close>

primrec run_chars ::
  "(char \<Rightarrow> bool) \<Rightarrow> nat \<Rightarrow> nat option \<Rightarrow> string \<Rightarrow> (string \<Rightarrow> 'r option) \<Rightarrow> 'r option"
where
  "run_chars P m n [] k = (if m = 0 then k [] else None)"
| "run_chars P m n (c # cs) k =
     (case (if P c \<and> n \<noteq> Some 0
            then run_chars P (m - 1) (map_option (\<lambda>x. x - 1) n) cs k else None) of
        Some r \<Rightarrow> Some r
      | None \<Rightarrow> if m = 0 then k (c # cs) else None)"

primrec rx_run ::
  "rx \<Rightarrow> string \<Rightarrow> captures \<Rightarrow> (string \<Rightarrow> captures \<Rightarrow> captures option) \<Rightarrow> captures option"
where
  "rx_run (Chars P m n) s caps k = run_chars P m n s (\<lambda>rest. k rest caps)"
| "rx_run (Then a b) s caps k = rx_run a s caps (\<lambda>rest caps'. rx_run b rest caps' k)"
| "rx_run (Or a b) s caps k =
     (case rx_run a s caps k of Some r \<Rightarrow> Some r | None \<Rightarrow> rx_run b s caps k)"
| "rx_run (Maybe a) s caps k =
     (case rx_run a s caps k of Some r \<Rightarrow> Some r | None \<Rightarrow> k s caps)"
| "rx_run (Group i a) s caps k =
     rx_run a s caps (\<lambda>rest caps'. k rest ((i, take (length s - length rest) s) # caps'))"

definition rx_match :: "rx \<Rightarrow> string \<Rightarrow> captures option" where
  "rx_match r s = rx_run r s [] (\<lambda>rest caps. if rest = [] then Some caps else None)"


section \<open>What a pattern denotes\<close>

definition in_range :: "nat \<Rightarrow> nat option \<Rightarrow> nat \<Rightarrow> bool" where
  "in_range m n l \<longleftrightarrow> m \<le> l \<and> (case n of None \<Rightarrow> True | Some x \<Rightarrow> l \<le> x)"

lemma in_range_simps [simp]:
  "in_range m None l \<longleftrightarrow> m \<le> l"
  "in_range m (Some x) l \<longleftrightarrow> m \<le> l \<and> l \<le> x"
  by (simp_all add: in_range_def)

inductive rx_parse :: "rx \<Rightarrow> string \<Rightarrow> captures \<Rightarrow> captures \<Rightarrow> bool" where
  chars: "\<forall>c \<in> set u. P c \<Longrightarrow> in_range m n (length u) \<Longrightarrow> rx_parse (Chars P m n) u caps caps"
| seq: "rx_parse a u caps caps' \<Longrightarrow> rx_parse b v caps' caps'' \<Longrightarrow>
     rx_parse (Then a b) (u @ v) caps caps''"
| left: "rx_parse a u caps caps' \<Longrightarrow> rx_parse (Or a b) u caps caps'"
| right: "rx_parse b u caps caps' \<Longrightarrow> rx_parse (Or a b) u caps caps'"
| present: "rx_parse a u caps caps' \<Longrightarrow> rx_parse (Maybe a) u caps caps'"
| absent: "rx_parse (Maybe a) [] caps caps"
| captured: "rx_parse a u caps caps' \<Longrightarrow> rx_parse (Group i a) u caps ((i, u) # caps')"

inductive_simps rx_parse_Chars: "rx_parse (Chars P m n) u caps caps'"
inductive_simps rx_parse_Then: "rx_parse (Then a b) w caps caps'"
inductive_simps rx_parse_Or: "rx_parse (Or a b) u caps caps'"
inductive_simps rx_parse_Maybe: "rx_parse (Maybe a) u caps caps'"
inductive_simps rx_parse_Group: "rx_parse (Group i a) u caps caps'"

lemmas rx_parse_simps =
  rx_parse_Chars rx_parse_Then rx_parse_Or rx_parse_Maybe rx_parse_Group

lemma run_chars_sound:
  "run_chars P m n s k = Some out \<Longrightarrow>
   \<exists>u v. s = u @ v \<and> (\<forall>c \<in> set u. P c) \<and> in_range m n (length u) \<and> k v = Some out"
proof (induction s arbitrary: m n)
  case Nil
  then show ?case by (auto simp: in_range_def split: if_splits option.splits)
next
  case (Cons c cs)
  show ?case
  proof (cases "P c \<and> n \<noteq> Some 0 \<and>
      run_chars P (m - 1) (map_option (\<lambda>x. x - 1) n) cs k = Some out")
    case True
    with Cons.IH obtain u v where "cs = u @ v" "\<forall>c \<in> set u. P c" "k v = Some out"
      and "in_range (m - 1) (map_option (\<lambda>x. x - 1) n) (length u)" by blast
    with True show ?thesis
      by (intro exI [of _ "c # u"] exI [of _ v]) (cases n; auto)
  next
    case False
    with Cons.prems have "m = 0" "k (c # cs) = Some out"
      by (auto split: if_splits option.splits)
    then show ?thesis
      by (intro exI [of _ "[]"] exI [of _ "c # cs"]) (cases n; auto)
  qed
qed

lemma run_chars_complete:
  "\<forall>c \<in> set u. P c \<Longrightarrow> in_range m n (length u) \<Longrightarrow> k v \<noteq> None \<Longrightarrow>
   run_chars P m n (u @ v) k \<noteq> None"
proof (induction u arbitrary: m n)
  case Nil
  then have "m = 0" by (simp add: in_range_def)
  with Nil show ?case by (cases v) (auto split: option.splits)
next
  case (Cons c u)
  then have "in_range (m - 1) (map_option (\<lambda>x. x - 1) n) (length u)" "n \<noteq> Some 0" "P c"
    by (cases n; auto)+
  with Cons.prems Cons.IH [of "m - 1" "map_option (\<lambda>x. x - 1) n"]
  obtain r where "run_chars P (m - 1) (map_option (\<lambda>x. x - 1) n) (u @ v) k = Some r" by auto
  with \<open>n \<noteq> Some 0\<close> \<open>P c\<close> show ?case by simp
qed

lemma rx_run_sound:
  "rx_run r s caps k = Some out \<Longrightarrow>
   \<exists>u v caps'. s = u @ v \<and> rx_parse r u caps caps' \<and> k v caps' = Some out"
proof (induction r arbitrary: s caps k)
  case (Chars P m n)
  then show ?case by (auto dest!: run_chars_sound intro: rx_parse.chars)
next
  case (Then a b)
  from Then.prems have "rx_run a s caps (\<lambda>rest caps'. rx_run b rest caps' k) = Some out" by simp
  from Then.IH(1) [OF this] obtain u v caps' where
    s: "s = u @ v" and a: "rx_parse a u caps caps'" and b: "rx_run b v caps' k = Some out" by blast
  from Then.IH(2) [OF b] s a show ?case by (metis append.assoc rx_parse.seq)
next
  case (Or a b)
  show ?case
  proof (cases "rx_run a s caps k")
    case None
    with Or.prems Or.IH(2) [of s caps k] show ?thesis by (auto intro: rx_parse.right)
  next
    case (Some r)
    with Or.prems Or.IH(1) [of s caps k] show ?thesis by (auto intro: rx_parse.left)
  qed
next
  case (Maybe a)
  show ?case
  proof (cases "rx_run a s caps k")
    case None
    with Maybe.prems show ?thesis by (auto intro: rx_parse.absent)
  next
    case (Some r)
    with Maybe.prems Maybe.IH [of s caps k] show ?thesis by (auto intro: rx_parse.present)
  qed
next
  case (Group i a)
  from Group.prems have "rx_run a s caps
      (\<lambda>rest caps'. k rest ((i, take (length s - length rest) s) # caps')) = Some out" by simp
  from Group.IH [OF this] obtain u v caps' where "s = u @ v" "rx_parse a u caps caps'"
    "k v ((i, take (length s - length v) s) # caps') = Some out" by blast
  then show ?case by (intro exI [of _ u] exI [of _ v]) (auto intro: rx_parse.captured)
qed

lemma rx_run_complete:
  "rx_parse r u caps caps' \<Longrightarrow> \<forall>c. k v c \<noteq> None \<Longrightarrow> rx_run r (u @ v) c0 k \<noteq> None"
proof (induction r u caps caps' arbitrary: v k c0 rule: rx_parse.induct)
  case (chars u P m n caps)
  then show ?case by (simp add: run_chars_complete)
next
  case (left a u caps caps' b)
  then obtain out where "rx_run a (u @ v) c0 k = Some out" by blast
  then show ?case by (simp split: option.splits)
next
  case (right b u caps caps' a)
  then obtain out where "rx_run b (u @ v) c0 k = Some out" by blast
  then show ?case by (simp split: option.splits)
next
  case (present a u caps caps')
  then obtain out where "rx_run a (u @ v) c0 k = Some out" by blast
  then show ?case by (simp split: option.splits)
next
  case (absent a caps)
  then show ?case by (simp split: option.splits)
qed simp_all

theorem rx_match_sound: "rx_match r s = Some caps \<Longrightarrow> rx_parse r s [] caps"
  unfolding rx_match_def by (drule rx_run_sound) (auto split: if_splits)

theorem rx_match_complete: "rx_parse r s c c' \<Longrightarrow> rx_match r s \<noteq> None"
  using rx_run_complete [of r s c c' "\<lambda>rest caps. if rest = [] then Some caps else None" "[]"]
  by (simp add: rx_match_def)

lemma rx_match_iff: "rx_match r s \<noteq> None \<longleftrightarrow> (\<exists>caps. rx_parse r s [] caps)"
  using rx_match_sound rx_match_complete by fast

text \<open>When a text has one reading only, that reading is what the matcher returns.\<close>

lemma rx_match_unique:
  "rx_parse r s [] caps \<Longrightarrow> (\<And>caps'. rx_parse r s [] caps' \<Longrightarrow> caps' = caps) \<Longrightarrow>
   rx_match r s = Some caps"
  using rx_match_complete rx_match_sound by fast


lemma rx_parse_once: "rx_parse (once P) u caps caps' \<longleftrightarrow> (\<exists>c. u = [c] \<and> P c) \<and> caps' = caps"
  by (cases u; cases "tl u") (auto simp: rx_parse_Chars)

lemma rx_parse_plus1:
  "rx_parse (plus1 P) u caps caps' \<longleftrightarrow> u \<noteq> [] \<and> (\<forall>c \<in> set u. P c) \<and> caps' = caps"
  by (cases u) (auto simp: rx_parse_Chars)

lemma rx_parse_star:
  "rx_parse (star P) u caps caps' \<longleftrightarrow> (\<forall>c \<in> set u. P c) \<and> caps' = caps"
  by (auto simp: rx_parse_Chars)

text \<open>A sequence of patterns.\<close>

fun rx_seq :: "rx list \<Rightarrow> rx" where
  "rx_seq [] = Chars (\<lambda>_. False) 0 (Some 0)"
| "rx_seq [r] = r"
| "rx_seq (r # rs) = Then r (rx_seq rs)"


section \<open>Character classes\<close>

definition is_digit :: "char \<Rightarrow> bool" where
  "is_digit c \<longleftrightarrow> CHR ''0'' \<le> c \<and> c \<le> CHR ''9''"

definition is_lower :: "char \<Rightarrow> bool" where
  "is_lower c \<longleftrightarrow> CHR ''a'' \<le> c \<and> c \<le> CHR ''z''"

definition is_upper :: "char \<Rightarrow> bool" where
  "is_upper c \<longleftrightarrow> CHR ''A'' \<le> c \<and> c \<le> CHR ''Z''"

text \<open>The class \<open>\s\<close>: space, tab, line feed, vertical tab, form feed, carriage return.\<close>

definition is_space :: "char \<Rightarrow> bool" where
  "is_space c \<longleftrightarrow> c \<in> {CHR '' '', CHR 0x09, CHR 0x0A, CHR 0x0B, CHR 0x0C, CHR 0x0D}"

text \<open>The class \<open>.\<close>: the subject is one line, so the dot is any character.\<close>

definition any_char :: "char \<Rightarrow> bool" where
  "any_char c = True"

lemmas char_class_defs = is_digit_def is_lower_def is_upper_def is_space_def any_char_def

end
