(* ===== verification/Decimal.thy ===== *)
theory Decimal
  imports Patterns
begin

text \<open>
  Decimal text: the parts of the standard library that the SDK uses to write and read numbers
  (\<open>std::to_string\<close>, \<open>std::from_chars\<close>, the zero-padded fields of \<open>std::format\<close>) and
  the digit loop \<open>detail::to_int\<close> of the timestamp parser.
\<close>

definition digit_char :: "nat \<Rightarrow> char" where
  "digit_char d = char_of (48 + d)"

fun dec_nat :: "nat \<Rightarrow> string" where
  "dec_nat n = (if n < 10 then [digit_char n] else dec_nat (n div 10) @ [digit_char (n mod 10)])"

declare dec_nat.simps [simp del]

definition dec_int :: "int \<Rightarrow> string" where
  "dec_int i = (if i < 0 then CHR ''-'' # dec_nat (nat (- i)) else dec_nat (nat i))"

text \<open>\<open>detail::to_int\<close>: the accumulating loop over the digits of a capture.\<close>

definition to_int :: "string \<Rightarrow> nat" where
  "to_int capture = fold (\<lambda>c value. value * 10 + (of_char c - 48)) capture 0"

text \<open>A field \<open>{:0w}\<close> of \<open>std::format\<close>: the sign counts towards the width.\<close>

definition zero_padded :: "nat \<Rightarrow> int \<Rightarrow> string" where
  "zero_padded w i =
     (if i < 0
      then CHR ''-'' # replicate (w - 1 - length (dec_nat (nat (- i)))) (CHR ''0'') @ dec_nat (nat (- i))
      else replicate (w - length (dec_nat (nat i))) (CHR ''0'') @ dec_nat (nat i))"

primrec fixed_digits :: "nat \<Rightarrow> nat \<Rightarrow> string" where
  "fixed_digits 0 n = []"
| "fixed_digits (Suc w) n = fixed_digits w (n div 10) @ [digit_char (n mod 10)]"


section \<open>Digits and values\<close>

lemma is_digit_iff: "is_digit c \<longleftrightarrow> 48 \<le> (of_char c :: nat) \<and> (of_char c :: nat) \<le> 57"
  by (simp add: is_digit_def less_eq_char_def)

lemma of_digit_char [simp]: "d < 10 \<Longrightarrow> (of_char (digit_char d) :: nat) = 48 + d"
  by (simp add: digit_char_def)

lemma is_digit_digit_char [simp]: "d < 10 \<Longrightarrow> is_digit (digit_char d)"
  by (simp add: is_digit_iff)

lemma digit_char_of [simp]: "is_digit c \<Longrightarrow> digit_char (of_char c - 48) = c"
  by (auto simp: digit_char_def is_digit_iff)

lemma to_int_Nil [simp]: "to_int [] = 0"
  by (simp add: to_int_def)

lemma to_int_snoc [simp]: "to_int (ds @ [c]) = to_int ds * 10 + (of_char c - 48)"
  by (simp add: to_int_def)

lemma to_int_append: "to_int (xs @ ys) = to_int xs * 10 ^ length ys + to_int ys"
  by (induction ys rule: rev_induct) (simp_all add: algebra_simps flip: append_assoc)

lemma to_int_less: "\<forall>c \<in> set ds. is_digit c \<Longrightarrow> to_int ds < 10 ^ length ds"
proof (induction ds rule: rev_induct)
  case Nil
  then show ?case by simp
next
  case (snoc c ds)
  then have "to_int ds + 1 \<le> 10 ^ length ds" "(of_char c :: nat) - 48 < 10"
    by (auto simp: is_digit_iff)
  then show ?case by simp
qed

lemma length_fixed_digits [simp]: "length (fixed_digits w n) = w"
  by (induction w arbitrary: n) simp_all

lemma fixed_digits_are_digits: "\<forall>c \<in> set (fixed_digits w n). is_digit c"
  by (induction w arbitrary: n) auto

lemma to_int_fixed_digits: "to_int (fixed_digits w n) = n mod 10 ^ w"
  by (induction w arbitrary: n) (simp_all add: mod_mult2_eq)

lemma fixed_digits_to_int:
  "\<forall>c \<in> set ds. is_digit c \<Longrightarrow> length ds = w \<Longrightarrow> fixed_digits w (to_int ds) = ds"
proof (induction ds arbitrary: w rule: rev_induct)
  case Nil
  then show ?case by simp
next
  case (snoc c ds)
  from snoc.prems obtain w' where w: "w = Suc w'" "length ds = w'" by auto
  have "(of_char c :: nat) - 48 < 10" "is_digit c" using snoc.prems by (auto simp: is_digit_iff)
  with snoc w show ?case by simp
qed

lemma fixed_digits_split:
  "fixed_digits (a + b) n = fixed_digits a (n div 10 ^ b) @ fixed_digits b (n mod 10 ^ b)"
proof (induction b arbitrary: n)
  case 0
  then show ?case by simp
next
  case (Suc b)
  have "n mod 10 ^ Suc b div 10 = n div 10 mod 10 ^ b" "n mod 10 ^ Suc b mod 10 = n mod 10"
    by (simp_all add: mod_mult2_eq mod_mod_cancel)
  moreover have "n div 10 ^ Suc b = n div 10 div 10 ^ b" by (simp add: div_mult2_eq)
  ultimately show ?case using Suc.IH [of "n div 10"] by simp
qed

lemma take_fixed_digits:
  "k \<le> w \<Longrightarrow> take k (fixed_digits w n) = fixed_digits k (n div 10 ^ (w - k))"
  using fixed_digits_split [of k "w - k" n] by simp

lemma dec_nat_neq_Nil [simp]: "dec_nat n \<noteq> []"
  by (subst dec_nat.simps) simp

lemma dec_nat_digits: "\<forall>c \<in> set (dec_nat n). is_digit c"
proof (induction n rule: dec_nat.induct)
  case (1 n)
  then show ?case by (cases "n < 10") (simp_all add: dec_nat.simps [of n])
qed

lemma to_int_dec_nat [simp]: "to_int (dec_nat n) = n"
proof (induction n rule: dec_nat.induct)
  case (1 n)
  show ?case
  proof (cases "n < 10")
    case True
    then show ?thesis using to_int_snoc [of "[]"] by (simp add: dec_nat.simps [of n])
  next
    case False
    with 1 show ?thesis by (simp add: dec_nat.simps [of n])
  qed
qed

lemma length_dec_nat_le: "0 < w \<Longrightarrow> n < 10 ^ w \<Longrightarrow> length (dec_nat n) \<le> w"
proof (induction n arbitrary: w rule: dec_nat.induct)
  case (1 n)
  show ?case
  proof (cases "n < 10")
    case True
    with 1 show ?thesis by (simp add: dec_nat.simps [of n])
  next
    case False
    with "1.prems" obtain w' where w: "w = Suc w'" "0 < w'"
      by (cases w; cases "w - 1") auto
    with "1.prems" have "n div 10 < 10 ^ w'" by (simp add: less_mult_imp_div_less mult.commute)
    with "1.IH" [OF False, of w'] w False show ?thesis by (simp add: dec_nat.simps [of n])
  qed
qed

lemma to_int_replicate_0: "to_int (replicate k (CHR ''0'') @ ds) = to_int ds"
proof -
  have "to_int (replicate k (CHR ''0'')) = 0"
    by (induction k) (simp_all add: replicate_append_same [symmetric])
  then show ?thesis by (simp add: to_int_append)
qed

lemma zero_padded_fixed:
  assumes "0 < w" "0 \<le> i" "i < 10 ^ w"
  shows "zero_padded w i = fixed_digits w (nat i)"
proof -
  let ?s = "replicate (w - length (dec_nat (nat i))) (CHR ''0'') @ dec_nat (nat i)"
  have "nat i < 10 ^ w" using assms by (simp add: nat_less_iff)
  then have len: "length ?s = w" using length_dec_nat_le [of w "nat i"] assms by simp
  have "\<forall>c \<in> set ?s. is_digit c" using dec_nat_digits by (auto simp: is_digit_def)
  from fixed_digits_to_int [OF this len] have "fixed_digits w (nat i) = ?s"
    by (simp add: to_int_replicate_0)
  then show ?thesis using assms by (simp add: zero_padded_def)
qed


section \<open>std::from_chars for a 32-bit signed integer\<close>

text \<open>
  The base-10 overload: an optional minus sign and the longest run of digits. \<open>None\<close> is an
  error code (no digits, or a value outside the type); the second component is the text from
  \<open>stop\<close> on.
\<close>

definition int32_min :: int where "int32_min = - 2147483648"
definition int32_max :: int where "int32_max = 2147483647"

text \<open>The limits of \<open>std::int64_t\<close>.\<close>

definition int64_min :: int where "int64_min = - (2 ^ 63)"
definition int64_max :: int where "int64_max = 2 ^ 63 - 1"

definition from_chars_int32 :: "string \<Rightarrow> (int \<times> string) option" where
  "from_chars_int32 s =
     (let neg = (s \<noteq> [] \<and> hd s = CHR ''-'');
          body = (if neg then tl s else s);
          digits = takeWhile is_digit body;
          value = (if neg then - int (to_int digits) else int (to_int digits))
      in if digits = [] \<or> value < int32_min \<or> int32_max < value then None
         else Some (value, dropWhile is_digit body))"

lemma minus_is_no_digit: "\<not> is_digit (CHR ''-'')"
  by (simp add: is_digit_def)

lemma from_chars_dec_int:
  assumes "int32_min \<le> i" "i \<le> int32_max"
  shows "from_chars_int32 (dec_int i) = Some (i, [])"
proof -
  have d: "takeWhile is_digit (dec_nat n) = dec_nat n" "dropWhile is_digit (dec_nat n) = []" for n
    using dec_nat_digits [of n] by (simp_all add: takeWhile_eq_all_conv dropWhile_eq_Nil_conv)
  have "is_digit (hd (dec_nat n))" for n
    using dec_nat_digits [of n] by simp
  then have h: "hd (dec_nat n) \<noteq> CHR ''-''" for n
    by (metis minus_is_no_digit)
  show ?thesis using assms by (simp add: from_chars_int32_def dec_int_def Let_def d h dec_nat_digits)
qed

end
