(* ===== verification/Civil.thy ===== *)
theory Civil
  imports Prelude
begin

text \<open>
  The proleptic Gregorian calendar of \<open>std::chrono\<close>, the part of the standard library that
  \<open>detail/timestamp.hpp\<close> uses: \<open>year_month_day::ok\<close>, the conversion of a date to
  \<open>sys_days\<close> and back. Years start in March for the computation, so that the leap day is the
  last day of its year; the two conversions are proved to be inverse to each other.
\<close>

definition leap_year :: "int \<Rightarrow> bool" where
  "leap_year y \<longleftrightarrow> y mod 4 = 0 \<and> (y mod 100 \<noteq> 0 \<or> y mod 400 = 0)"

definition days_in_month :: "int \<Rightarrow> int \<Rightarrow> int" where
  "days_in_month y m =
     (if m = 2 then (if leap_year y then 29 else 28)
      else if m = 4 \<or> m = 6 \<or> m = 9 \<or> m = 11 then 30 else 31)"

definition valid_date :: "int \<Rightarrow> int \<Rightarrow> int \<Rightarrow> bool" where
  "valid_date y m d \<longleftrightarrow> 1 \<le> m \<and> m \<le> 12 \<and> 1 \<le> d \<and> d \<le> days_in_month y m"

text \<open>The number of the month with March as 0, and the first day of a month in the March year.\<close>

definition march_month :: "int \<Rightarrow> int" where
  "march_month m = (if 2 < m then m - 3 else m + 9)"

definition month_start :: "int \<Rightarrow> int" where
  "month_start mp = (153 * mp + 2) div 5"

definition days_from_civil :: "int \<Rightarrow> int \<Rightarrow> int \<Rightarrow> int" where
  "days_from_civil y m d =
     (let y' = (if m \<le> 2 then y - 1 else y);
          era = y' div 400;
          yoe = y' mod 400;
          doy = month_start (march_month m) + d - 1
      in era * 146097 + (yoe * 365 + yoe div 4 - yoe div 100 + doy) - 719468)"

text \<open>The year and the day of a day number inside an era of 146097 days.\<close>

definition split_era :: "int \<Rightarrow> int \<times> int" where
  "split_era doe =
     (let cent = min 3 (doe div 36524);
          rem = doe - 36524 * cent;
          quad = rem div 1461;
          rem2 = rem - 1461 * quad;
          yr = min 3 (rem2 div 365)
      in (100 * cent + 4 * quad + yr, rem2 - 365 * yr))"

definition civil_from_days :: "int \<Rightarrow> int \<times> int \<times> int" where
  "civil_from_days z =
     (let era = (z + 719468) div 146097;
          (yoe, doy) = split_era ((z + 719468) mod 146097);
          mp = (5 * doy + 2) div 153;
          d = doy - month_start mp + 1;
          m = (if mp < 10 then mp + 3 else mp - 9);
          y = era * 400 + yoe
      in (if m \<le> 2 then y + 1 else y, m, d))"


section \<open>Days inside an era\<close>

definition era_day :: "int \<Rightarrow> int \<Rightarrow> int" where
  "era_day yoe doy = yoe * 365 + yoe div 4 - yoe div 100 + doy"

text \<open>The last day of the March year \<open>yoe\<close>: a leap day ends it when the next year is leap.\<close>

definition last_day :: "int \<Rightarrow> int" where
  "last_day yoe = (if (yoe + 1) mod 4 = 0 \<and> ((yoe + 1) mod 100 \<noteq> 0 \<or> yoe = 399) then 365 else 364)"

lemma yoe_digits:
  fixes yoe :: int
  assumes "0 \<le> yoe" "yoe < 400"
  obtains c q r where "yoe = 100 * c + 4 * q + r" "0 \<le> c" "c \<le> 3" "0 \<le> q" "q \<le> 24" "0 \<le> r" "r \<le> 3"
proof
  show "yoe = 100 * (yoe div 100) + 4 * (yoe mod 100 div 4) + yoe mod 4"
    by (simp add: mod_mod_cancel [of 4 100 yoe, symmetric])
qed (use assms in simp_all)

lemma era_day_digits:
  fixes c q r :: int
  assumes "0 \<le> c" "0 \<le> q" "q \<le> 24" "0 \<le> r" "r \<le> 3"
  shows "era_day (100 * c + 4 * q + r) doy = 36524 * c + 1461 * q + 365 * r + doy"
proof -
  have "(100 * c + 4 * q + r) div 4 = 25 * c + q" "(100 * c + 4 * q + r) div 100 = c"
    using assms by simp_all
  then show ?thesis by (simp add: era_day_def algebra_simps)
qed

lemma last_day_digits:
  fixes c q r :: int
  assumes "0 \<le> c" "c \<le> 3" "0 \<le> q" "q \<le> 24" "0 \<le> r" "r \<le> 3"
  shows "last_day (100 * c + 4 * q + r) = (if r = 3 \<and> (q \<noteq> 24 \<or> c = 3) then 365 else 364)"
proof -
  have "100 * c + 4 * q + r + 1 = 4 * (25 * c + q) + (r + 1)" by simp
  then have "(100 * c + 4 * q + r + 1) mod 4 = (r + 1) mod 4" by (simp only: mod_mult_self4)
  also have "\<dots> = 0 \<longleftrightarrow> r = 3" using assms(5,6) by presburger
  finally have four: "(100 * c + 4 * q + r + 1) mod 4 = 0 \<longleftrightarrow> r = 3" .
  have "100 * c + 4 * q + 3 + 1 = 100 * c + (4 * q + 4)" by simp
  then have "(100 * c + 4 * q + 3 + 1) mod 100 = (4 * q + 4) mod 100" by (simp only: mod_mult_self4)
  also have "\<dots> = 0 \<longleftrightarrow> q = 24" using assms(3,4) by presburger
  finally have hundred: "(100 * c + 4 * q + 3 + 1) mod 100 = 0 \<longleftrightarrow> q = 24" .
  have "100 * c + 4 * q + 3 = 399 \<longleftrightarrow> c = 3 \<and> q = 24"
    using assms(1-4) by presburger
  with four hundred show ?thesis by (auto simp: last_day_def)
qed

lemma split_era_era_day:
  assumes "0 \<le> yoe" "yoe < 400" "0 \<le> doy" "doy \<le> last_day yoe"
  shows "split_era (era_day yoe doy) = (yoe, doy)"
proof -
  from assms(1,2) obtain c q r where yoe: "yoe = 100 * c + 4 * q + r"
    and b: "0 \<le> c" "c \<le> 3" "0 \<le> q" "q \<le> 24" "0 \<le> r" "r \<le> 3" by (rule yoe_digits)
  have doy: "doy \<le> (if r = 3 \<and> (q \<noteq> 24 \<or> c = 3) then 365 else 364)"
    using assms(4) by (simp add: yoe last_day_digits b)
  have day: "era_day yoe doy = 36524 * c + 1461 * q + 365 * r + doy"
    using b by (simp add: yoe era_day_digits)
  have rest: "1461 * q + 365 * r + doy \<le> 36524" "c < 3 \<Longrightarrow> 1461 * q + 365 * r + doy < 36524"
    using b doy by (auto split: if_splits)
  have cent: "min 3 (era_day yoe doy div 36524) = c"
  proof (cases "c = 3")
    case True
    have "3 \<le> era_day yoe doy div 36524" using b assms(3) True by (simp add: day)
    with True show ?thesis by simp
  next
    case False
    then have "era_day yoe doy div 36524 = c"
      using b assms(3) rest(2) by (simp add: day)
    with b show ?thesis by simp
  qed
  have quad: "(1461 * q + 365 * r + doy) div 1461 = q"
    using b doy assms(3) by (simp split: if_splits)
  have yr: "min 3 ((365 * r + doy) div 365) = r"
    using b doy assms(3) by (auto simp: min_def split: if_splits)
  have rem: "era_day yoe doy - 36524 * c = 1461 * q + 365 * r + doy" by (simp add: day)
  have rem2: "1461 * q + 365 * r + doy - 1461 * q = 365 * r + doy" by simp
  show ?thesis
    unfolding split_era_def Let_def cent rem quad rem2 yr by (simp add: yoe)
qed

lemma era_day_split_era:
  assumes "0 \<le> doe" "doe < 146097" "split_era doe = (yoe, doy)"
  shows "era_day yoe doy = doe" and "0 \<le> yoe" and "yoe < 400" and "0 \<le> doy" and "doy \<le> last_day yoe"
proof -
  define c where "c = min 3 (doe div 36524)"
  define rm where "rm = doe - 36524 * c"
  define q where "q = rm div 1461"
  define rm2 where "rm2 = rm - 1461 * q"
  define r where "r = min 3 (rm2 div 365)"
  have c: "0 \<le> c" "c \<le> 3" using assms by (auto simp: c_def)
  have rm: "0 \<le> rm" "rm \<le> 36524" "rm = 36524 \<Longrightarrow> c = 3"
  proof -
    have "36524 * (doe div 36524) \<le> doe" "doe < 36524 * (doe div 36524) + 36524" by linarith+
    with assms(1,2) show "0 \<le> rm" "rm \<le> 36524" "rm = 36524 \<Longrightarrow> c = 3"
      unfolding rm_def c_def by (auto simp: min_def split: if_splits)
  qed
  have q: "0 \<le> q" "q \<le> 24" using rm by (auto simp: q_def)
  have rm2: "0 \<le> rm2" "rm2 \<le> 1460" "q = 24 \<Longrightarrow> rm2 = 1460 \<Longrightarrow> c = 3"
    using rm unfolding rm2_def q_def by (auto simp: minus_mult_div_eq_mod)
  have r: "0 \<le> r" "r \<le> 3" "365 * r \<le> rm2" "rm2 \<le> 365 * r + 365" "rm2 = 365 * r + 365 \<Longrightarrow> r = 3 \<and> rm2 = 1460"
  proof -
    have "365 * (rm2 div 365) \<le> rm2" "rm2 < 365 * (rm2 div 365) + 365" by linarith+
    with rm2(1,2) show "0 \<le> r" "r \<le> 3" "365 * r \<le> rm2" "rm2 \<le> 365 * r + 365"
      "rm2 = 365 * r + 365 \<Longrightarrow> r = 3 \<and> rm2 = 1460"
      unfolding r_def by (auto simp: min_def split: if_splits)
  qed
  have y: "yoe = 100 * c + 4 * q + r" and d: "doy = rm2 - 365 * r"
    using assms(3) by (simp_all add: split_era_def Let_def c_def rm_def q_def rm2_def r_def)
  show "era_day yoe doy = doe"
    using c q r by (simp add: y d era_day_digits rm2_def rm_def)
  show "0 \<le> yoe" "yoe < 400" "0 \<le> doy" using c q r by (simp_all add: y d)
  have "doy \<le> 364 \<or> doy = 365 \<and> r = 3 \<and> (q = 24 \<longrightarrow> c = 3)"
    using r(4,5) rm2(3) unfolding d by (cases "rm2 = 365 * r + 365") auto
  then show "doy \<le> last_day yoe" using c q r(1,2) by (auto simp: y last_day_digits)
qed



section \<open>Months inside a March year\<close>

lemma march_month_cases:
  assumes "1 \<le> m" "m \<le> 12"
  shows "0 \<le> march_month m" "march_month m \<le> 11"
    "(if march_month m < 10 then march_month m + 3 else march_month m - 9) = m"
  using assms by (auto simp: march_month_def)

lemma month_start_bounds:
  "5 * month_start mp \<le> 153 * mp + 2" "153 * mp + 2 < 5 * month_start mp + 5"
  unfolding month_start_def by linarith+

lemma month_of_day_iff:
  "(5 * doy + 2) div 153 = mp \<longleftrightarrow> month_start mp \<le> doy \<and> doy < month_start (mp + 1)"
proof -
  obtain u where u: "u = month_start (mp + 1)" by simp
  have u5: "5 * u \<le> 153 * mp + 155" "153 * mp + 155 < 5 * u + 5"
    using month_start_bounds [of "mp + 1"] by (simp_all add: u)
  have "(5 * doy + 2) div 153 = mp \<longleftrightarrow> 153 * mp \<le> 5 * doy + 2 \<and> 5 * doy + 2 < 153 * mp + 153"
    by linarith
  also have "\<dots> \<longleftrightarrow> month_start mp \<le> doy \<and> doy < u"
    using month_start_bounds [of mp] u5 by linarith
  finally show ?thesis by (simp only: u)
qed

lemma twelve_cases:
  assumes "0 \<le> (mp :: int)" "mp \<le> 11"
  shows "mp = 0 \<or> mp = 1 \<or> mp = 2 \<or> mp = 3 \<or> mp = 4 \<or> mp = 5 \<or> mp = 6 \<or> mp = 7 \<or>
    mp = 8 \<or> mp = 9 \<or> mp = 10 \<or> mp = 11"
  using assms by presburger

lemma month_lengths:
  assumes "0 \<le> mp" "mp \<le> 11"
  shows "days_in_month y (if mp < 10 then mp + 3 else mp - 9) =
    (if mp = 11 then (if leap_year y then 29 else 28) else month_start (mp + 1) - month_start mp)"
  using twelve_cases [OF assms] by (elim disjE) (simp_all add: days_in_month_def month_start_def)

lemma month_start_11: "month_start 11 = 337" "month_start 12 = 367" "month_start 0 = 0"
  by (simp_all add: month_start_def)

lemma month_start_mono: "a \<le> b \<Longrightarrow> month_start a \<le> month_start b"
  by (simp add: month_start_def zdiv_mono1)

lemma leap_last_day: "last_day (y mod 400) = (if leap_year (y + 1) then 365 else 364)"
proof -
  have "y mod 400 mod 4 = y mod 4" "y mod 400 mod 100 = y mod 100" by (simp_all add: mod_mod_cancel)
  then have m: "(y mod 400 + 1) mod 4 = (y + 1) mod 4" "(y mod 400 + 1) mod 100 = (y + 1) mod 100"
    by (metis mod_add_left_eq)+
  have "0 \<le> y mod 400" "y mod 400 < 400" by simp_all
  then have "(y mod 400 + 1) mod 400 = 0 \<longleftrightarrow> y mod 400 = 399"
    by (cases "y mod 400 = 399") auto
  then have "(y + 1) mod 400 = 0 \<longleftrightarrow> y mod 400 = 399" by (simp only: mod_add_left_eq)
  then show ?thesis by (simp add: last_day_def leap_year_def m)
qed

lemma era_day_bounds:
  assumes "0 \<le> yoe" "yoe < 400" "0 \<le> doy" "doy \<le> last_day yoe"
  shows "0 \<le> era_day yoe doy" "era_day yoe doy < 146097"
proof -
  from assms(1,2) obtain c q r where yoe: "yoe = 100 * c + 4 * q + r"
    and b: "0 \<le> c" "c \<le> 3" "0 \<le> q" "q \<le> 24" "0 \<le> r" "r \<le> 3" by (rule yoe_digits)
  show "0 \<le> era_day yoe doy" "era_day yoe doy < 146097"
    using assms(3,4) b by (auto simp: yoe era_day_digits last_day_digits split: if_splits)
qed


section \<open>The two conversions are inverse\<close>

definition civil_year :: "int \<Rightarrow> int \<Rightarrow> int" where
  "civil_year y m = (if m \<le> 2 then y - 1 else y)"

definition civil_doy :: "int \<Rightarrow> int \<Rightarrow> int" where
  "civil_doy m d = month_start (march_month m) + d - 1"

lemma days_from_civil_era:
  "days_from_civil y m d = civil_year y m div 400 * 146097 +
     era_day (civil_year y m mod 400) (civil_doy m d) - 719468"
  by (simp add: days_from_civil_def civil_year_def civil_doy_def era_day_def Let_def)

lemma civil_doy_range:
  assumes "valid_date y m d"
  shows "month_start (march_month m) \<le> civil_doy m d"
    and "civil_doy m d < month_start (march_month m + 1)"
    and "civil_doy m d \<le> last_day (civil_year y m mod 400)"
proof -
  have m: "1 \<le> m" "m \<le> 12" and d: "1 \<le> d" "d \<le> days_in_month y m"
    using assms by (simp_all add: valid_date_def)
  note mp = march_month_cases [OF m]
  have len: "days_in_month y m = (if march_month m = 11 then (if leap_year y then 29 else 28)
      else month_start (march_month m + 1) - month_start (march_month m))"
    using month_lengths [OF mp(1,2), of y] by (simp add: mp(3))
  show "month_start (march_month m) \<le> civil_doy m d" using d by (simp add: civil_doy_def)
  show "civil_doy m d < month_start (march_month m + 1)"
    using d by (auto simp: civil_doy_def len month_start_11 split: if_splits)
  show "civil_doy m d \<le> last_day (civil_year y m mod 400)"
  proof (cases "march_month m = 11")
    case True
    then have m2: "m = 2" using m by (auto simp: march_month_def split: if_splits)
    have "d \<le> (if leap_year y then 29 else 28)" using d(2) by (simp add: days_in_month_def m2)
    with True m2 show ?thesis
      by (simp add: civil_doy_def leap_last_day civil_year_def month_start_11 split: if_splits)
  next
    case False
    then have "month_start (march_month m + 1) \<le> month_start 11"
      using mp by (intro month_start_mono) simp
    with False d show ?thesis by (auto simp: civil_doy_def len leap_last_day month_start_11)
  qed
qed

theorem civil_from_days_from_civil:
  assumes "valid_date y m d"
  shows "civil_from_days (days_from_civil y m d) = (y, m, d)"
proof -
  define y' where "y' = civil_year y m"
  define doy where "doy = civil_doy m d"
  have m: "1 \<le> m" "m \<le> 12" using assms by (simp_all add: valid_date_def)
  note r = civil_doy_range [OF assms, folded y'_def doy_def]
  have "0 \<le> month_start (march_month m)"
    using month_start_mono [of 0 "march_month m"] march_month_cases [OF m] by (simp add: month_start_11)
  with r(1) have doy0: "0 \<le> doy" by simp
  have ymod: "0 \<le> y' mod 400" "y' mod 400 < 400" by simp_all
  note bounds = era_day_bounds [OF ymod doy0 r(3)]
  have z: "days_from_civil y m d + 719468 = y' div 400 * 146097 + era_day (y' mod 400) doy"
    by (simp add: days_from_civil_era y'_def doy_def)
  have era: "(days_from_civil y m d + 719468) div 146097 = y' div 400"
    "(days_from_civil y m d + 719468) mod 146097 = era_day (y' mod 400) doy"
    unfolding z using bounds by simp_all
  have mp: "(5 * doy + 2) div 153 = march_month m" using r(1,2) by (simp add: month_of_day_iff)
  have d: "doy - month_start (march_month m) + 1 = d" by (simp add: doy_def civil_doy_def)
  have year: "(if m \<le> 2 then y' div 400 * 400 + y' mod 400 + 1 else y' div 400 * 400 + y' mod 400) = y"
    by (simp add: y'_def civil_year_def)
  show ?thesis
    unfolding civil_from_days_def Let_def era split_era_era_day [OF ymod doy0 r(3)] prod.case mp d
      march_month_cases(3) [OF m] year by simp
qed

theorem days_from_civil_from_days:
  assumes "civil_from_days z = (y, m, d)"
  shows "days_from_civil y m d = z" and "valid_date y m d"
proof -
  define doe where "doe = (z + 719468) mod 146097"
  define era where "era = (z + 719468) div 146097"
  obtain yoe doy where s: "split_era doe = (yoe, doy)" by fastforce
  have doe: "0 \<le> doe" "doe < 146097" by (simp_all add: doe_def)
  note e = era_day_split_era [OF doe s]
  define mp where "mp = (5 * doy + 2) div 153"
  have mp: "0 \<le> mp" "mp \<le> 11"
    using e(4,5) unfolding mp_def last_day_def by (auto split: if_splits)
  have m: "m = (if mp < 10 then mp + 3 else mp - 9)" and d: "d = doy - month_start mp + 1"
    and y: "y = (if m \<le> 2 then era * 400 + yoe + 1 else era * 400 + yoe)"
  proof -
    have "civil_from_days z =
      (if (if mp < 10 then mp + 3 else mp - 9) \<le> 2 then era * 400 + yoe + 1 else era * 400 + yoe,
       if mp < 10 then mp + 3 else mp - 9, doy - month_start mp + 1)"
      unfolding civil_from_days_def Let_def doe_def [symmetric] era_def [symmetric] s prod.case
        mp_def [symmetric] by (rule refl)
    with assms have e: "(y, m, d) = (if (if mp < 10 then mp + 3 else mp - 9) \<le> 2
       then era * 400 + yoe + 1 else era * 400 + yoe,
       if mp < 10 then mp + 3 else mp - 9, doy - month_start mp + 1)" by (simp only:)
    show "m = (if mp < 10 then mp + 3 else mp - 9)" "d = doy - month_start mp + 1"
      using e by (simp_all only: prod.inject)
    with e show "y = (if m \<le> 2 then era * 400 + yoe + 1 else era * 400 + yoe)"
      by (simp only: prod.inject)
  qed
  have mm: "march_month m = mp" using mp by (auto simp: m march_month_def)
  have doy: "civil_doy m d = doy" by (simp add: civil_doy_def mm d)
  have yr: "civil_year y m = era * 400 + yoe" by (simp add: civil_year_def y)
  have ydm: "(era * 400 + yoe) div 400 = era" "(era * 400 + yoe) mod 400 = yoe" using e(2,3) by simp_all
  have "z + 719468 = era * 146097 + doe" by (simp add: era_def doe_def)
  then show "days_from_civil y m d = z"
    unfolding days_from_civil_era doy yr ydm e(1) by simp
  have dm: "month_start mp \<le> doy" "doy < month_start (mp + 1)"
    using month_of_day_iff [of doy mp] by (simp_all add: mp_def)
  have "d \<le> days_in_month y m"
  proof (cases "mp = 11")
    case True
    then have "m = 2" by (simp add: m)
    have "leap_year y \<longleftrightarrow> last_day yoe = 365"
    proof -
      have "y = era * 400 + yoe + 1" using \<open>m = 2\<close> by (simp add: y)
      then show ?thesis using leap_last_day [of "era * 400 + yoe", unfolded ydm(2)] by simp
    qed
    moreover have "last_day yoe = 365 \<or> last_day yoe = 364" by (simp add: last_day_def)
    ultimately show ?thesis using True \<open>m = 2\<close> e(5)
      by (auto simp: d days_in_month_def month_start_11)
  next
    case False
    with month_lengths [OF mp, of y] dm show ?thesis by (simp add: d flip: m)
  qed
  moreover have "1 \<le> d" using dm by (simp add: d)
  ultimately show "valid_date y m d" using mp by (auto simp: valid_date_def m)
qed

text \<open>The epoch, and one day further is one day later.\<close>

lemma days_from_civil_epoch: "days_from_civil 1970 1 1 = 0"
  by (simp add: days_from_civil_def march_month_def month_start_def)

lemma days_from_civil_next:
  "days_from_civil y m (d + 1) = days_from_civil y m d + 1"
  by (simp add: days_from_civil_def Let_def)

end
