(* ===== verification/Timestamps.thy ===== *)
theory Timestamps
  imports Decimal Civil
begin

text \<open>
  \<open>include/cloudevents/detail/timestamp.hpp\<close>: the timestamp type, the RFC 3339 reader
  \<open>parse_timestamp\<close> and the writer \<open>to_string\<close>. An instant is a count of nanoseconds in a
  64-bit integer; the one arithmetic that can leave the 64 bits, the addition of the offset in
  \<open>to_string\<close>, is written with its wrap-around (signed overflow is undefined in C++, and two's
  complement is what the supported compilers produce without sanitizers).
\<close>

section \<open>The timestamp type\<close>

datatype offset_form = utc_designator | numeric

definition max_fractional_digits :: nat where "max_fractional_digits = 9"
definition last_hour :: nat where "last_hour = 23"
definition last_minute :: nat where "last_minute = 59"
definition leap_second :: nat where "leap_second = 60"
definition minutes_per_hour :: int where "minutes_per_hour = 60"

text \<open>\<open>fraction_digits::make\<close>; the value is the count.\<close>

definition fraction_digits_make :: "nat \<Rightarrow> nat result" where
  "fraction_digits_make count =
     (if count > max_fractional_digits
      then fail invalid_attribute_value
        ''a nanosecond instant expresses at most nine fractional digits'' (dec_nat count)
      else Inr count)"

record timestamp =
  ts_utc :: int
  ts_offset :: int
  ts_form :: offset_form
  ts_digits :: nat


section \<open>Reading\<close>

definition fraction_pattern :: rx where
  "fraction_pattern = Maybe (rx_seq [lit CHR ''.'', Group 7 (Chars is_digit 1 (Some 9))])"

definition zone_pattern :: rx where
  "zone_pattern = Or (Group 8 (once (\<lambda>c. c = CHR ''Z'' \<or> c = CHR ''z'')))
     (rx_seq [Group 9 (once (\<lambda>c. c = CHR ''+'' \<or> c = CHR ''-'')),
       Group 10 (exactly 2 is_digit), lit CHR '':'', Group 11 (exactly 2 is_digit)])"

definition rfc3339_pattern :: rx where
  "rfc3339_pattern = rx_seq
     [Group 1 (exactly 4 is_digit), lit CHR ''-'', Group 2 (exactly 2 is_digit), lit CHR ''-'',
      Group 3 (exactly 2 is_digit), once (\<lambda>c. c = CHR ''T'' \<or> c = CHR ''t''),
      Group 4 (exactly 2 is_digit), lit CHR '':'', Group 5 (exactly 2 is_digit), lit CHR '':'',
      Group 6 (exactly 2 is_digit),
      fraction_pattern, zone_pattern]"

definition capture :: "captures \<Rightarrow> nat \<Rightarrow> string" where
  "capture caps i = (case map_of caps i of Some s \<Rightarrow> s | None \<Rightarrow> [])"

definition is_valid_date :: "nat \<Rightarrow> nat \<Rightarrow> nat \<Rightarrow> bool" where
  "is_valid_date year month day \<longleftrightarrow> valid_date (int year) (int month) (int day)"

text \<open>The loop over the fraction digits: \<open>subsecond += place * digit; place /= 10\<close>.\<close>

definition first_fraction_place :: int where "first_fraction_place = 100000000"

fun add_fraction :: "string \<Rightarrow> int \<Rightarrow> int \<Rightarrow> int" where
  "add_fraction [] place subsecond = subsecond"
| "add_fraction (digit # ds) place subsecond =
     add_fraction ds (place div 10) (subsecond + place * int (of_char digit - 48))"

text \<open>The largest whole second of a nanosecond count, less one.\<close>

definition representable :: int where "representable = 9223372035"

text \<open>The fraction group: the digit count and the nanoseconds.\<close>

definition read_fraction :: "string \<Rightarrow> string option \<Rightarrow> (nat \<times> int) result" where
  "read_fraction txt fraction =
     (case fraction of
        None \<Rightarrow> Inr (0, 0)
      | Some digits \<Rightarrow>
          (case fraction_digits_make (length digits) of
             Inl e \<Rightarrow> fail (err_code e) (err_detail e) txt
           | Inr counted \<Rightarrow> Inr (counted, add_fraction digits first_fraction_place 0)))"

text \<open>The zone groups: the form and the offset in minutes.\<close>

definition read_offset :: "string \<Rightarrow> captures \<Rightarrow> (offset_form \<times> int) result" where
  "read_offset txt caps =
     (case map_of caps 8 of
        Some _ \<Rightarrow> Inr (utc_designator, 0)
      | None \<Rightarrow>
          let offset_hour = to_int (capture caps 10); offset_minute = to_int (capture caps 11)
          in if offset_hour > last_hour \<or> offset_minute > last_minute
             then fail invalid_timestamp ''offset out of range'' txt
             else let offset = int offset_hour * 60 + int offset_minute
               in Inr (numeric, if capture caps 9 = ''-'' then - offset else offset))"

definition make_timestamp ::
  "string \<Rightarrow> int \<Rightarrow> nat \<times> int \<Rightarrow> offset_form \<times> int \<Rightarrow> timestamp result" where
  "make_timestamp txt local_seconds fraction zone =
     (let (fractional_digits, subsecond) = fraction; (form, offset) = zone;
          since_epoch = local_seconds - offset * 60
      in if since_epoch > representable \<or> since_epoch < - representable
         then fail out_of_range
           ''instant is outside the range a nanosecond-resolution clock can represent (roughly the years 1678 to 2262)''
           txt
         else Inr \<lparr>ts_utc = since_epoch * 1000000000 + subsecond, ts_offset = offset,
                    ts_form = form, ts_digits = fractional_digits\<rparr>)"

definition read_fields :: "string \<Rightarrow> captures \<Rightarrow> timestamp result" where
  "read_fields txt caps =
     (let year = to_int (capture caps 1);
          month = to_int (capture caps 2);
          day = to_int (capture caps 3);
          hour = to_int (capture caps 4);
          minute = to_int (capture caps 5);
          second = to_int (capture caps 6)
      in if \<not> is_valid_date year month day
         then fail invalid_timestamp ''no such calendar date'' txt
         else if hour > last_hour \<or> minute > last_minute
         then fail invalid_timestamp ''hour or minute out of range'' txt
         else if second > leap_second
         then fail invalid_timestamp ''second out of range'' txt
         else and_then (read_fraction txt (map_of caps 7)) (\<lambda>fraction.
           and_then (read_offset txt caps) (\<lambda>zone.
             let days = days_from_civil (int year) (int month) (int day);
                 time_of_day = int hour * 3600 + int minute * 60 + int second
             in make_timestamp txt (days * 86400 + time_of_day) fraction zone)))"

definition parse_timestamp :: "string \<Rightarrow> timestamp result" where
  "parse_timestamp txt =
     (case rx_match rfc3339_pattern txt of
        None \<Rightarrow> fail invalid_timestamp ''not an RFC 3339 date-time'' txt
      | Some caps \<Rightarrow> read_fields txt caps)"


section \<open>Writing\<close>

definition wrap64 :: "int \<Rightarrow> int" where
  "wrap64 x = (x + 2 ^ 63) mod 2 ^ 64 - 2 ^ 63"

definition ns_per_day :: int where "ns_per_day = 86400000000000"

text \<open>\<open>value.utc + value.offset\<close>, in 64-bit nanoseconds.\<close>

definition local_time :: "timestamp \<Rightarrow> int" where
  "local_time t = wrap64 (ts_utc t + ts_offset t * 60000000000)"

definition to_string :: "timestamp \<Rightarrow> string" where
  "to_string t =
     (let lt = local_time t;
          days = lt div ns_per_day;
          (year, month, day) = civil_from_days days;
          since_midnight = wrap64 (lt - days * ns_per_day);
          hours = since_midnight div 3600000000000;
          minutes = (since_midnight - hours * 3600000000000) div 60000000000;
          seconds = (since_midnight - hours * 3600000000000 - minutes * 60000000000) div 1000000000;
          nanos = since_midnight - hours * 3600000000000 - minutes * 60000000000 - seconds * 1000000000;
          fraction =
            (if ts_digits t > 0
             then CHR ''.'' # take (min (ts_digits t) max_fractional_digits)
               (fixed_digits max_fractional_digits (nat nanos))
             else []);
          offset_minutes = ts_offset t;
          offset_magnitude = (if offset_minutes < 0 then - offset_minutes else offset_minutes);
          date_time =
            zero_padded 4 year @ ''-'' @ zero_padded 2 month @ ''-'' @ zero_padded 2 day @ ''T'' @
            zero_padded 2 hours @ '':'' @ zero_padded 2 minutes @ '':'' @ zero_padded 2 seconds @ fraction
      in if ts_form t = utc_designator then date_time @ ''Z''
         else date_time @ (if offset_minutes < 0 then ''-'' else ''+'') @
           zero_padded 2 (offset_magnitude div minutes_per_hour) @ '':'' @
           zero_padded 2 (offset_magnitude mod minutes_per_hour))"


section \<open>The shape of an RFC 3339 text\<close>

definition digits :: "nat \<Rightarrow> string \<Rightarrow> bool" where
  "digits n u \<longleftrightarrow> length u = n \<and> (\<forall>c \<in> set u. is_digit c)"

definition rfc_text ::
  "string \<Rightarrow> string \<Rightarrow> string \<Rightarrow> char \<Rightarrow> string \<Rightarrow> string \<Rightarrow> string \<Rightarrow> string \<Rightarrow> string \<Rightarrow> string" where
  "rfc_text y mo d sep h mi sec fr zn =
     y @ ''-'' @ mo @ ''-'' @ d @ [sep] @ h @ '':'' @ mi @ '':'' @ sec @ fr @ zn"

definition fraction_part :: "string \<Rightarrow> captures \<Rightarrow> bool" where
  "fraction_part fr caps \<longleftrightarrow> fr = [] \<and> caps = [] \<or>
     (\<exists>ds. fr = CHR ''.'' # ds \<and> 1 \<le> length ds \<and> length ds \<le> 9 \<and> (\<forall>c \<in> set ds. is_digit c) \<and>
        caps = [(7, ds)])"

definition zone_part :: "string \<Rightarrow> captures \<Rightarrow> bool" where
  "zone_part zn caps \<longleftrightarrow> (zn = ''Z'' \<or> zn = ''z'') \<and> caps = [(8, zn)] \<or>
     (\<exists>sg oh om. sg \<in> {''+'', ''-''} \<and> digits 2 oh \<and> digits 2 om \<and> zn = sg @ oh @ '':'' @ om \<and>
        caps = [(11, om), (10, oh), (9, sg)])"

definition rfc_captures ::
  "string \<Rightarrow> string \<Rightarrow> string \<Rightarrow> string \<Rightarrow> string \<Rightarrow> string \<Rightarrow> captures \<Rightarrow> captures \<Rightarrow> captures" where
  "rfc_captures y mo d h mi sec cf cz =
     cz @ cf @ [(6, sec), (5, mi), (4, h), (3, d), (2, mo), (1, y)]"

definition rfc_shape ::
  "string \<Rightarrow> string \<Rightarrow> string \<Rightarrow> string \<Rightarrow> char \<Rightarrow> string \<Rightarrow> string \<Rightarrow> string \<Rightarrow> string \<Rightarrow> captures \<Rightarrow>
   string \<Rightarrow> captures \<Rightarrow> bool" where
  "rfc_shape s y mo d sep h mi sec fr cf zn cz \<longleftrightarrow>
     digits 4 y \<and> digits 2 mo \<and> digits 2 d \<and> digits 2 h \<and> digits 2 mi \<and> digits 2 sec \<and>
     (sep = CHR ''T'' \<or> sep = CHR ''t'') \<and> fraction_part fr cf \<and> zone_part zn cz \<and>
     s = rfc_text y mo d sep h mi sec fr zn"

lemma parse_digits: "rx_parse (Group i (exactly n is_digit)) u caps caps' \<longleftrightarrow> digits n u \<and> caps' = (i, u) # caps"
  by (auto simp: rx_parse_Chars rx_parse_Group digits_def)

lemma parse_group_once:
  "rx_parse (Group i (once P)) u c c' \<longleftrightarrow> (\<exists>x. u = [x] \<and> P x) \<and> c' = (i, u) # c"
  by (auto simp: rx_parse_Group rx_parse_once)

lemma parse_then_digits:
  "rx_parse (Then (Group i (exactly n is_digit)) b) w caps caps' \<longleftrightarrow>
     (\<exists>u v. w = u @ v \<and> digits n u \<and> rx_parse b v ((i, u) # caps) caps')"
  unfolding rx_parse_Then parse_digits by blast

lemma parse_then_once:
  "rx_parse (Then (once P) b) w caps caps' \<longleftrightarrow> (\<exists>x v. w = [x] @ v \<and> P x \<and> rx_parse b v caps caps')"
  unfolding rx_parse_Then rx_parse_once by blast

lemma parse_fraction_sound:
  assumes "rx_parse fraction_pattern u caps caps'"
  shows "\<exists>c. caps' = c @ caps \<and> fraction_part u c"
  using assms unfolding fraction_pattern_def rx_seq.simps rx_parse_Maybe parse_then_once
    rx_parse_Group rx_parse_Chars
proof (elim disjE exE conjE)
  fix x ds ca
  assume "u = [x] @ ds" "x = CHR ''.''" "caps' = (7, ds) # ca" "\<forall>c \<in> set ds. is_digit c"
    "in_range 1 (Some 9) (length ds)" "ca = caps"
  then show ?thesis
    by (intro exI [of _ "[(7, ds)]"]) (simp add: fraction_part_def)
next
  assume "u = []" "caps' = caps"
  then show ?thesis by (intro exI [of _ "[]"]) (simp add: fraction_part_def)
qed

lemma parse_fraction_complete:
  assumes "fraction_part u c"
  shows "rx_parse fraction_pattern u caps (c @ caps)"
  using assms unfolding fraction_part_def
proof (elim disjE conjE exE)
  assume "u = []" "c = []"
  then show ?thesis by (simp add: fraction_pattern_def rx_parse.absent)
next
  fix ds
  assume u: "u = CHR ''.'' # ds" and c: "c = [(7, ds)]"
    and "1 \<le> length ds" "length ds \<le> 9" "\<forall>c \<in> set ds. is_digit c"
  then have "rx_parse (Chars is_digit 1 (Some 9)) ds caps caps"
    by (simp add: rx_parse_Chars)
  then have "rx_parse (Then (lit CHR ''.'') (Group 7 (Chars is_digit 1 (Some 9))))
      (''.'' @ ds) caps ((7, ds) # caps)"
    by (intro rx_parse.seq rx_parse.captured) (simp add: rx_parse_once)
  then show ?thesis
    by (auto simp: fraction_pattern_def u c intro: rx_parse.present)
qed

lemma parse_zone_sound:
  "rx_parse zone_pattern u caps caps' \<Longrightarrow> \<exists>c. caps' = c @ caps \<and> zone_part u c"
  unfolding zone_pattern_def rx_seq.simps rx_parse_Or rx_parse_Then parse_group_once parse_digits
    rx_parse_once
  by (erule disjE; clarify) (auto simp: zone_part_def)

lemma parse_zone_complete:
  assumes "zone_part u c"
  shows "rx_parse zone_pattern u caps (c @ caps)"
  using assms unfolding zone_part_def
proof (elim disjE conjE exE)
  fix sg oh om
  assume sg: "sg \<in> {''+'', ''-''}" and d: "digits 2 oh" "digits 2 om"
    and u: "u = sg @ oh @ '':'' @ om" and c: "c = [(11, om), (10, oh), (9, sg)]"
  let ?sign = "Group 9 (once (\<lambda>c. c = CHR ''+'' \<or> c = CHR ''-''))"
  let ?two = "\<lambda>i. Group i (exactly 2 is_digit)"
  have p: "rx_parse ?sign sg caps ((9, sg) # caps)"
    "rx_parse (?two 10) oh ((9, sg) # caps) ((10, oh) # (9, sg) # caps)"
    "rx_parse (lit CHR '':'') '':'' ((10, oh) # (9, sg) # caps) ((10, oh) # (9, sg) # caps)"
    "rx_parse (?two 11) om ((10, oh) # (9, sg) # caps) (c @ caps)"
    using sg d by (auto simp: parse_group_once parse_digits rx_parse_once c)
  have "rx_parse (Then ?sign (Then (?two 10) (Then (lit CHR '':'') (?two 11)))) u caps (c @ caps)"
    unfolding u by (rule rx_parse.seq [OF p(1) rx_parse.seq [OF p(2) rx_parse.seq [OF p(3,4)]]])
  then show ?thesis
    unfolding zone_pattern_def rx_seq.simps by (rule rx_parse.right)
qed (auto simp: zone_pattern_def parse_group_once intro: rx_parse.left)

lemma rfc3339_sound:
  assumes "rx_parse rfc3339_pattern s [] caps"
  shows "\<exists>y mo d sep h mi sec fr cf zn cz. caps = rfc_captures y mo d h mi sec cf cz \<and>
    rfc_shape s y mo d sep h mi sec fr cf zn cz"
proof -
  from assms obtain y mo d sep h mi sec fr zn ca where
    fr: "rx_parse fraction_pattern fr [(6, sec), (5, mi), (4, h), (3, d), (2, mo), (1, y)] ca"
    and zn: "rx_parse zone_pattern zn ca caps"
    and "digits 4 y" "digits 2 mo" "digits 2 d" "digits 2 h" "digits 2 mi" "digits 2 sec"
      "sep = CHR ''T'' \<or> sep = CHR ''t''" "s = rfc_text y mo d sep h mi sec fr zn"
    unfolding rfc3339_pattern_def rx_seq.simps parse_then_digits parse_then_once
      rx_parse_Then [of fraction_pattern]
    by - (elim exE conjE, rule that, assumption, assumption, assumption, assumption, assumption,
        assumption, assumption, assumption, assumption, simp add: rfc_text_def)
  moreover from parse_fraction_sound [OF fr] parse_zone_sound [OF zn] obtain cf cz where
    "fraction_part fr cf" "zone_part zn cz" "caps = rfc_captures y mo d h mi sec cf cz"
    by (auto simp: rfc_captures_def)
  ultimately show ?thesis unfolding rfc_shape_def by blast
qed

lemma rfc3339_complete:
  assumes "rfc_shape s y mo d sep h mi sec fr cf zn cz"
  shows "rx_parse rfc3339_pattern s [] (rfc_captures y mo d h mi sec cf cz)"
proof -
  let ?c = "[(6, sec), (5, mi), (4, h), (3, d), (2, mo), (1, y)] :: captures"
  have shape: "digits 4 y" "digits 2 mo" "digits 2 d" "digits 2 h" "digits 2 mi" "digits 2 sec"
    "sep = CHR ''T'' \<or> sep = CHR ''t''" "fraction_part fr cf" "zone_part zn cz"
    "s = rfc_text y mo d sep h mi sec fr zn"
    using assms by (simp_all add: rfc_shape_def)
  have dg: "rx_parse (Group i (exactly n is_digit)) u c ((i, u) # c)" if "digits n u" for i n u c
    using that by (simp add: parse_digits)
  have lt: "rx_parse (lit x) [x] c c" for x c by (simp add: rx_parse_once)
  have sp: "rx_parse (once (\<lambda>c. c = CHR ''T'' \<or> c = CHR ''t'')) [sep] c c" for c
    using shape(7) by (auto simp: rx_parse_once)
  note tail = rx_parse.seq [OF parse_fraction_complete [OF shape(8)] parse_zone_complete [OF shape(9)]]
  show ?thesis
    unfolding rfc3339_pattern_def rx_seq.simps rfc_captures_def shape(10) rfc_text_def
    by (rule rx_parse.seq [OF dg [OF shape(1)] rx_parse.seq [OF lt rx_parse.seq [OF dg [OF shape(2)]
        rx_parse.seq [OF lt rx_parse.seq [OF dg [OF shape(3)] rx_parse.seq [OF sp
        rx_parse.seq [OF dg [OF shape(4)] rx_parse.seq [OF lt rx_parse.seq [OF dg [OF shape(5)]
        rx_parse.seq [OF lt rx_parse.seq [OF dg [OF shape(6)] tail]]]]]]]]]]])
qed

text \<open>A text has one reading.\<close>

lemma zone_starts: "zone_part zn cz \<Longrightarrow> zn \<noteq> [] \<and> \<not> is_digit (hd zn) \<and> hd zn \<noteq> CHR ''.''"
  by (auto simp: zone_part_def is_digit_def)

lemma zone_part_unique:
  assumes "zone_part zn c" "zone_part zn c'"
  shows "c = c'"
  using assms by (auto simp: zone_part_def digits_def append_eq_append_conv)

lemma fraction_zone_unique:
  assumes fr: "fraction_part fr cf" "fraction_part fr' cf'" and zn: "zone_part zn cz" "zone_part zn' cz'"
    and eq: "fr @ zn = fr' @ zn'"
  shows "fr = fr' \<and> cf = cf' \<and> zn = zn' \<and> cz = cz'"
proof -
  have key: "ds = ds' \<and> zn = zn'"
    if "ds @ zn = ds' @ zn'" "\<forall>c \<in> set ds. is_digit c" "\<forall>c \<in> set ds'. is_digit c" for ds ds'
  proof -
    have "takeWhile is_digit (xs @ z) = xs" if "\<forall>c \<in> set xs. is_digit c" "z \<noteq> []" "\<not> is_digit (hd z)" for xs z
      using that by (cases z) auto
    with that zn [THEN zone_starts] have "ds = ds'" by metis
    with that show ?thesis by simp
  qed
  have "fr = fr' \<and> cf = cf' \<and> zn = zn'"
    using fr eq zn [THEN zone_starts] key
    unfolding fraction_part_def by (elim disjE exE conjE) auto
  with zn zone_part_unique show ?thesis by blast
qed

lemma rfc_shape_unique:
  assumes "rfc_shape s y mo d sep h mi sec fr cf zn cz"
    and "rfc_shape s y' mo' d' sep' h' mi' sec' fr' cf' zn' cz'"
  shows "y = y'" "mo = mo'" "d = d'" "sep = sep'" "h = h'" "mi = mi'" "sec = sec'" "fr = fr'"
    "cf = cf'" "zn = zn'" "cz = cz'"
proof -
  note a = assms [unfolded rfc_shape_def digits_def]
  have "rfc_text y mo d sep h mi sec fr zn = rfc_text y' mo' d' sep' h' mi' sec' fr' zn'"
    using a by simp
  then have e: "y = y' \<and> mo = mo' \<and> d = d' \<and> sep = sep' \<and> h = h' \<and> mi = mi' \<and> sec = sec' \<and> fr @ zn = fr' @ zn'"
    using a unfolding rfc_text_def by (auto simp: append_eq_append_conv)
  moreover have "fr = fr' \<and> cf = cf' \<and> zn = zn' \<and> cz = cz'"
    using a e by (intro fraction_zone_unique) auto
  ultimately show "y = y'" "mo = mo'" "d = d'" "sep = sep'" "h = h'" "mi = mi'" "sec = sec'" "fr = fr'"
    "cf = cf'" "zn = zn'" "cz = cz'" by auto
qed

lemma rx_match_rfc3339:
  assumes "rfc_shape s y mo d sep h mi sec fr cf zn cz"
  shows "rx_match rfc3339_pattern s = Some (rfc_captures y mo d h mi sec cf cz)"
proof (rule rx_match_unique [OF rfc3339_complete [OF assms]])
  fix caps
  assume "rx_parse rfc3339_pattern s [] caps"
  from rfc3339_sound [OF this] rfc_shape_unique [OF assms]
  show "caps = rfc_captures y mo d h mi sec cf cz" by metis
qed

lemma parse_timestamp_shape:
  assumes "rfc_shape s y mo d sep h mi sec fr cf zn cz"
  shows "parse_timestamp s = read_fields s (rfc_captures y mo d h mi sec cf cz)"
  by (simp add: parse_timestamp_def rx_match_rfc3339 [OF assms])

lemma parse_timestamp_ok_shape:
  assumes "parse_timestamp s = Inr t"
  obtains y mo d sep h mi sec fr cf zn cz where "rfc_shape s y mo d sep h mi sec fr cf zn cz"
    and "read_fields s (rfc_captures y mo d h mi sec cf cz) = Inr t"
proof (cases "rx_match rfc3339_pattern s")
  case None
  with assms show ?thesis by (simp add: parse_timestamp_def)
next
  case (Some caps)
  from rfc3339_sound [OF rx_match_sound [OF this]] that assms Some show ?thesis
    by (auto simp: parse_timestamp_def)
qed

lemma rfc_captures_lookup:
  assumes "fraction_part fr cf" "zone_part zn cz"
  shows "capture (rfc_captures y mo d h mi sec cf cz) 1 = y"
    "capture (rfc_captures y mo d h mi sec cf cz) 2 = mo"
    "capture (rfc_captures y mo d h mi sec cf cz) 3 = d"
    "capture (rfc_captures y mo d h mi sec cf cz) 4 = h"
    "capture (rfc_captures y mo d h mi sec cf cz) 5 = mi"
    "capture (rfc_captures y mo d h mi sec cf cz) 6 = sec"
    "map_of (rfc_captures y mo d h mi sec cf cz) 7 = map_of cf 7"
  using assms
  by (auto simp: capture_def rfc_captures_def fraction_part_def zone_part_def)

lemma zone_captures_lookup:
  "fraction_part fr cf \<Longrightarrow> 8 \<le> i \<Longrightarrow> map_of (rfc_captures y mo d h mi sec cf cz) i = map_of cz i"
  by (auto simp: rfc_captures_def fraction_part_def map_add_def split: option.splits)

lemma read_offset_captures:
  "fraction_part fr cf \<Longrightarrow> read_offset s (rfc_captures y mo d h mi sec cf cz) = read_offset s cz"
  by (simp add: read_offset_def capture_def zone_captures_lookup Let_def cong: option.case_cong if_cong)

end
