(* ===== verification/Timestamp_Laws.thy ===== *)
theory Timestamp_Laws
  imports Timestamps
begin

text \<open>
  The laws of \<open>parse_timestamp\<close> and \<open>to_string\<close>: what a parsed timestamp satisfies, the round
  trip from a timestamp through its text, and the byte-for-byte round trip from a text through
  its timestamp, with the texts and instants for which they hold.
\<close>

section \<open>The groups as numbers\<close>

definition fraction_text :: "nat \<Rightarrow> int \<Rightarrow> string" where
  "fraction_text k n = (if k > 0 then CHR ''.'' # fixed_digits k (nat n div 10 ^ (9 - k)) else [])"

definition zone_text :: "offset_form \<Rightarrow> int \<Rightarrow> string" where
  "zone_text form off =
     (if form = utc_designator then ''Z''
      else (if off < 0 then ''-'' else ''+'') @ fixed_digits 2 (nat (\<bar>off\<bar> div 60)) @ '':'' @
        fixed_digits 2 (nat (\<bar>off\<bar> mod 60)))"

lemma to_int_Cons: "to_int (c # ds) = (of_char c - 48) * 10 ^ length ds + to_int ds"
  using to_int_append [of "[c]" ds] to_int_snoc [of "[]" c] by simp

lemma add_fraction_value:
  assumes "length ds \<le> Suc p"
  shows "add_fraction ds (10 ^ p) acc = acc + int (to_int ds * 10 ^ (Suc p - length ds))"
  using assms
proof (induction ds arbitrary: p acc)
  case Nil
  then show ?case by simp
next
  case (Cons c ds)
  show ?case
  proof (cases p)
    case 0
    with Cons.prems show ?thesis by (simp add: to_int_Cons)
  next
    case (Suc q)
    let ?c = "of_char c - 48 :: nat" and ?r = "(10 :: nat) ^ (Suc q - length ds)"
    have "(10 :: int) ^ p div 10 = 10 ^ q" by (simp add: Suc)
    then have "add_fraction (c # ds) (10 ^ p) acc = acc + 10 ^ p * int ?c + int (to_int ds * ?r)"
      using Cons by (simp add: Suc)
    also have "(10 :: int) ^ p * int ?c = int (?c * 10 ^ p)" by simp
    also have "(10 :: nat) ^ p = 10 ^ length ds * ?r"
      using Cons.prems by (simp add: Suc flip: power_add)
    also have "acc + int (?c * (10 ^ length ds * ?r)) + int (to_int ds * ?r) =
        acc + int (to_int (c # ds) * ?r)"
      by (simp add: to_int_Cons distrib_right mult.assoc del: of_nat_mult flip: of_nat_add)
    finally show ?thesis using Suc by simp
  qed
qed

lemma fraction_read:
  assumes "fraction_part fr cf"
  obtains k n where "read_fraction s (map_of cf 7) = Inr (k, n)" "fr = fraction_text k n"
    "k \<le> 9" "0 \<le> n" "n < 1000000000" "n mod 10 ^ (9 - k) = 0"
  using assms unfolding fraction_part_def
proof (elim disjE exE conjE)
  assume "fr = []" "cf = []"
  then show thesis by (intro that [of 0 0]) (simp_all add: read_fraction_def fraction_text_def)
next
  fix ds
  assume ds: "fr = CHR ''.'' # ds" "1 \<le> length ds" "length ds \<le> 9" "\<forall>c \<in> set ds. is_digit c" "cf = [(7, ds)]"
  let ?k = "length ds"
  let ?n = "to_int ds * 10 ^ (9 - ?k)"
  have "to_int ds < 10 ^ ?k" using ds(4) by (rule to_int_less)
  then have "?n < 10 ^ ?k * 10 ^ (9 - ?k)" by (rule mult_strict_right_mono) simp
  also have "(10 :: nat) ^ ?k * 10 ^ (9 - ?k) = 1000000000" using ds(3) by (simp flip: power_add)
  finally have n: "?n < 1000000000" .
  have "add_fraction ds first_fraction_place 0 = int ?n"
    using add_fraction_value [of ds 8 0] ds(3) by (simp add: first_fraction_place_def)
  then have r: "read_fraction s (map_of cf 7) = Inr (?k, int ?n)"
    using ds by (simp add: read_fraction_def fraction_digits_make_def max_fractional_digits_def)
  have t: "fr = fraction_text ?k (int ?n)"
    using ds(1,2) fixed_digits_to_int [OF ds(4) refl] by (auto simp: fraction_text_def simp del: of_nat_mult)
  have m: "int ?n mod 10 ^ (9 - ?k) = 0" by simp
  show thesis
    by (rule that [OF r t ds(3) _ _ m]; insert n)
      (simp_all only: of_nat_0_le_iff of_nat_less_numeral_iff)
qed

lemma digit_char_0: "digit_char 0 = CHR ''0''"
proof -
  have "char_of (of_char (CHR ''0'') :: nat) = CHR ''0''" by (rule char_of_char)
  then show ?thesis by (simp add: digit_char_def)
qed

lemma digits_fixed: "digits n ds \<Longrightarrow> fixed_digits n (to_int ds) = ds"
  by (simp add: digits_def fixed_digits_to_int)

lemma digits_less: "digits n ds \<Longrightarrow> to_int ds < 10 ^ n"
  using to_int_less [of ds] by (auto simp: digits_def)

lemma digits_fixed_digits: "digits n (fixed_digits n k)"
  using fixed_digits_are_digits by (simp add: digits_def)

lemma zone_read:
  assumes zn: "zone_part zn cz" and ok: "read_offset s cz = Inr (form, off)"
  shows "\<bar>off\<bar> < 1440" "form = utc_designator \<longrightarrow> off = 0"
    "zn \<noteq> ''z'' \<Longrightarrow> zn \<noteq> ''-00:00'' \<Longrightarrow> zn = zone_text form off"
proof -
  have "\<bar>off\<bar> < 1440 \<and> (form = utc_designator \<longrightarrow> off = 0) \<and>
    (zn \<noteq> ''z'' \<longrightarrow> zn \<noteq> ''-00:00'' \<longrightarrow> zn = zone_text form off)"
    using zn unfolding zone_part_def
  proof (elim disjE exE conjE)
    fix sg oh om
    assume sg: "sg \<in> {''+'', ''-''}" and d: "digits 2 oh" "digits 2 om"
      and u: "zn = sg @ oh @ '':'' @ om" and c: "cz = [(11, om), (10, oh), (9, sg)]"
    have g: "capture cz 10 = oh" "capture cz 11 = om" "capture cz 9 = sg" "map_of cz 8 = None"
      by (simp_all add: c capture_def)
    let ?o = "int (to_int oh) * 60 + int (to_int om)"
    have r: "to_int oh \<le> 23" "to_int om \<le> 59" "form = numeric" "off = (if sg = ''-'' then - ?o else ?o)"
      using ok g by (auto simp: read_offset_def Let_def last_hour_def last_minute_def split: if_splits)
    have a: "\<bar>off\<bar> div 60 = int (to_int oh)" "\<bar>off\<bar> mod 60 = int (to_int om)" using r by auto
    have z: "to_int oh = 0 \<and> to_int om = 0" if "?o = 0" using that by linarith
    have e: "oh = ''00''" if "to_int oh = 0" using digits_fixed [OF d(1)] that by (simp add: numeral_2_eq_2 digit_char_0)
    have e': "om = ''00''" if "to_int om = 0" using digits_fixed [OF d(2)] that by (simp add: numeral_2_eq_2 digit_char_0)
    have "zn = zone_text form off" if "zn \<noteq> ''-00:00''"
    proof -
      have "sg = ''-'' \<Longrightarrow> ?o \<noteq> 0"
        using that z e e' by (auto simp: u)
      then have "sg = (if off < 0 then ''-'' else ''+'')"
        using sg r(4) by auto
      then show ?thesis
        unfolding zone_text_def a u using r(3) d by (simp add: digits_fixed)
    qed
    moreover have "\<bar>off\<bar> < 1440" using r by auto
    ultimately show ?thesis using r(3) by simp
  qed (use ok in \<open>auto simp: read_offset_def zone_text_def\<close>)
  then show "\<bar>off\<bar> < 1440" "form = utc_designator \<longrightarrow> off = 0"
    "zn \<noteq> ''z'' \<Longrightarrow> zn \<noteq> ''-00:00'' \<Longrightarrow> zn = zone_text form off" by auto
qed


section \<open>What a successful reading says\<close>

text \<open>The local time of day and date, in nanoseconds since the epoch, before the offset is taken off.\<close>

definition civil_time :: "int \<Rightarrow> int \<Rightarrow> int \<Rightarrow> int \<Rightarrow> int" where
  "civil_time days h mi sec = days * 86400 + h * 3600 + mi * 60 + sec"

definition ts_ok :: "timestamp \<Rightarrow> bool" where
  "ts_ok t \<longleftrightarrow>
     \<bar>ts_offset t\<bar> < 1440 \<and> (ts_form t = utc_designator \<longrightarrow> ts_offset t = 0) \<and> ts_digits t \<le> 9 \<and>
     - representable * 1000000000 \<le> ts_utc t \<and> ts_utc t < representable * 1000000000 + 1000000000 \<and>
     ts_utc t mod 10 ^ (9 - ts_digits t) = 0"

definition local_fits :: "timestamp \<Rightarrow> bool" where
  "local_fits t \<longleftrightarrow> - (2 ^ 63) \<le> ts_utc t + ts_offset t * 60000000000 \<and>
     ts_utc t + ts_offset t * 60000000000 < 2 ^ 63"

lemma parse_timestamp_fields:
  assumes "rfc_shape s y mo d sep h mi sec fr cf zn cz"
  shows "parse_timestamp s =
    (if \<not> is_valid_date (to_int y) (to_int mo) (to_int d)
     then fail invalid_timestamp ''no such calendar date'' s
     else if to_int h > last_hour \<or> to_int mi > last_minute
     then fail invalid_timestamp ''hour or minute out of range'' s
     else if to_int sec > leap_second
     then fail invalid_timestamp ''second out of range'' s
     else and_then (read_fraction s (map_of cf 7)) (\<lambda>fraction.
       and_then (read_offset s cz) (\<lambda>zone.
         make_timestamp s
           (civil_time (days_from_civil (int (to_int y)) (int (to_int mo)) (int (to_int d)))
              (int (to_int h)) (int (to_int mi)) (int (to_int sec))) fraction zone)))"
proof -
  have p: "fraction_part fr cf" "zone_part zn cz" using assms by (simp_all add: rfc_shape_def)
  show ?thesis
    by (simp add: parse_timestamp_shape [OF assms] read_fields_def Let_def rfc_captures_lookup [OF p]
        read_offset_captures [OF p(1)] civil_time_def add.assoc del: One_nat_def)
qed

lemma parse_timestamp_Inr:
  assumes shape: "rfc_shape s y mo d sep h mi sec fr cf zn cz" and ok: "parse_timestamp s = Inr t"
  obtains n where "valid_date (int (to_int y)) (int (to_int mo)) (int (to_int d))"
    "to_int h \<le> 23" "to_int mi \<le> 59" "to_int sec \<le> 60" "0 \<le> n" "n < 1000000000"
    "n mod 10 ^ (9 - ts_digits t) = 0"
    "fr = fraction_text (ts_digits t) n" "ts_digits t \<le> 9"
    "read_offset s cz = Inr (ts_form t, ts_offset t)"
    "\<bar>ts_utc t - n\<bar> \<le> representable * 1000000000"
    "ts_utc t + ts_offset t * 60000000000 =
       civil_time (days_from_civil (int (to_int y)) (int (to_int mo)) (int (to_int d)))
         (int (to_int h)) (int (to_int mi)) (int (to_int sec)) * 1000000000 + n"
proof -
  have p: "fraction_part fr cf" "zone_part zn cz" using shape by (simp_all add: rfc_shape_def)
  from fraction_read [OF p(1), of s] obtain k n where
    fr: "read_fraction s (map_of cf 7) = Inr (k, n)" "fr = fraction_text k n" "k \<le> 9"
      "0 \<le> n" "n < 1000000000" "n mod 10 ^ (9 - k) = 0" by metis
  define L where "L = civil_time (days_from_civil (int (to_int y)) (int (to_int mo)) (int (to_int d)))
         (int (to_int h)) (int (to_int mi)) (int (to_int sec))"
  note eq = ok [unfolded parse_timestamp_fields [OF shape], folded L_def]
  from eq have g: "valid_date (int (to_int y)) (int (to_int mo)) (int (to_int d))"
    "to_int h \<le> 23" "to_int mi \<le> 59" "to_int sec \<le> 60"
    by (simp_all add: is_valid_date_def last_hour_def last_minute_def leap_second_def split: if_splits)
  from eq g fr(1) obtain form off where z: "read_offset s cz = Inr (form, off)"
    and m: "make_timestamp s L (k, n) (form, off) = Inr t"
    by (auto simp: and_then_eq_Inr split: if_splits)
  from m have r: "\<bar>L - off * 60\<bar> \<le> representable"
    and t: "t = \<lparr>ts_utc = (L - off * 60) * 1000000000 + n, ts_offset = off, ts_form = form, ts_digits = k\<rparr>"
    by (auto simp: make_timestamp_def Let_def split: if_splits)
  show thesis
    by (rule that [of n])
      (use g fr z r in \<open>simp_all add: t abs_mult, simp_all add: L_def algebra_simps\<close>)
qed

lemma fraction_multiple:
  fixes u x n :: int
  assumes "k \<le> 9" "u = x * 1000000000 + n"
  shows "u mod 10 ^ (9 - k) = 0 \<longleftrightarrow> n mod 10 ^ (9 - k) = 0"
proof -
  have "(10 :: int) ^ (9 - k) dvd 1000000000"
    using le_imp_power_dvd [of "9 - k" 9 "10 :: int"] by simp
  then have "10 ^ (9 - k) dvd x * 1000000000" by (rule dvd_mult)
  then show ?thesis unfolding assms(2) mod_eq_0_iff_dvd by (rule dvd_add_right_iff)
qed

lemma parse_timestamp_ts_ok:
  assumes "parse_timestamp s = Inr t"
  shows "ts_ok t"
proof -
  from assms obtain y mo d sep h mi sec fr cf zn cz where
    shape: "rfc_shape s y mo d sep h mi sec fr cf zn cz" by (rule parse_timestamp_ok_shape)
  from parse_timestamp_Inr [OF shape assms] obtain n where
    n: "0 \<le> n" "n < 1000000000" "n mod 10 ^ (9 - ts_digits t) = 0" "ts_digits t \<le> 9"
    and z: "read_offset s cz = Inr (ts_form t, ts_offset t)"
    and r: "\<bar>ts_utc t - n\<bar> \<le> representable * 1000000000"
    and L: "\<exists>x. ts_utc t + ts_offset t * 60000000000 = x * 1000000000 + n" by metis
  have "zone_part zn cz" using shape by (simp add: rfc_shape_def)
  note z = zone_read [OF this z]
  from L obtain x where u: "ts_utc t = (x - ts_offset t * 60) * 1000000000 + n" by (auto simp: algebra_simps)
  have "ts_utc t mod 10 ^ (9 - ts_digits t) = 0" using n(3) fraction_multiple [OF n(4) u] by simp
  then show ?thesis using n z r by (auto simp: ts_ok_def)
qed


section \<open>What the writer writes\<close>

lemma civil_year_range:
  assumes "civil_from_days z = (y, m, d)" "-106752 \<le> z" "z \<le> 106751"
  shows "1600 \<le> y \<and> y \<le> 2400"
proof -
  define doe where "doe = (z + 719468) mod 146097"
  obtain yoe doy where s: "split_era doe = (yoe, doy)" by fastforce
  have "0 \<le> doe" "doe < 146097" by (simp_all add: doe_def)
  note b = era_day_split_era [OF this s]
  have "4 \<le> (z + 719468) div 146097" "(z + 719468) div 146097 \<le> 5" using assms(2,3) by linarith+
  then have "(z + 719468) div 146097 = 4 \<or> (z + 719468) div 146097 = 5" by linarith
  then show ?thesis
    using assms(1) b s by (auto simp: civil_from_days_def Let_def doe_def [symmetric] split: if_splits)
qed

lemma valid_date_bounds:
  "valid_date y m d \<Longrightarrow> 1 \<le> m \<and> m \<le> 12 \<and> 1 \<le> d \<and> d \<le> 31"
  by (auto simp: valid_date_def days_in_month_def split: if_splits)

lemma wrap64_id: "- (2 ^ 63) \<le> x \<Longrightarrow> x < 2 ^ 63 \<Longrightarrow> wrap64 x = x"
  by (simp add: wrap64_def)

lemma civil_time_day:
  assumes "0 \<le> h" "h \<le> 23" "0 \<le> mi" "mi \<le> 59" "0 \<le> sec" "sec \<le> 59" "0 \<le> n" "n < 1000000000"
  shows "(civil_time D h mi sec * 1000000000 + n) div ns_per_day = D"
    "civil_time D h mi sec * 1000000000 + n - D * ns_per_day =
       h * 3600000000000 + mi * 60000000000 + sec * 1000000000 + n"
proof -
  have "civil_time D h mi sec * 1000000000 + n =
      D * ns_per_day + (h * 3600000000000 + mi * 60000000000 + sec * 1000000000 + n)"
    by (simp add: civil_time_def ns_per_day_def)
  moreover have "0 \<le> h * 3600000000000 + mi * 60000000000 + sec * 1000000000 + n"
    "h * 3600000000000 + mi * 60000000000 + sec * 1000000000 + n < ns_per_day"
    using assms by (simp_all add: ns_per_day_def)
  ultimately show "(civil_time D h mi sec * 1000000000 + n) div ns_per_day = D"
    "civil_time D h mi sec * 1000000000 + n - D * ns_per_day =
       h * 3600000000000 + mi * 60000000000 + sec * 1000000000 + n"
    by (simp_all add: ns_per_day_def)
qed

lemma hms_split:
  fixes h mi sec n :: int
  assumes "0 \<le> mi" "mi \<le> 59" "0 \<le> sec" "sec \<le> 59" "0 \<le> n" "n < 1000000000"
  defines "x \<equiv> h * 3600000000000 + mi * 60000000000 + sec * 1000000000 + n"
  shows "x div 3600000000000 = h" "(x - h * 3600000000000) div 60000000000 = mi"
    "(x - h * 3600000000000 - mi * 60000000000) div 1000000000 = sec"
    "x - h * 3600000000000 - mi * 60000000000 - sec * 1000000000 = n"
proof -
  have "x = h * 3600000000000 + (mi * 60000000000 + sec * 1000000000 + n)"
    "mi * 60000000000 + sec * 1000000000 + n < 3600000000000"
    "0 \<le> mi * 60000000000 + sec * 1000000000 + n" using assms by (simp_all add: x_def)
  then show "x div 3600000000000 = h" by simp
  have "x - h * 3600000000000 = mi * 60000000000 + (sec * 1000000000 + n)"
    "sec * 1000000000 + n < 60000000000" "0 \<le> sec * 1000000000 + n" using assms by (simp_all add: x_def)
  then show "(x - h * 3600000000000) div 60000000000 = mi" by simp
  have "x - h * 3600000000000 - mi * 60000000000 = sec * 1000000000 + n" by (simp add: x_def)
  then show "(x - h * 3600000000000 - mi * 60000000000) div 1000000000 = sec" using assms by simp
  show "x - h * 3600000000000 - mi * 60000000000 - sec * 1000000000 = n" by (simp add: x_def)
qed

lemma fraction_digits_text:
  "k \<le> 9 \<Longrightarrow> (if k > 0 then CHR ''.'' # take (min k max_fractional_digits)
      (fixed_digits max_fractional_digits (nat n)) else []) = fraction_text k n"
  by (simp add: fraction_text_def max_fractional_digits_def take_fixed_digits)

lemma to_string_fields:
  assumes time: "ts_utc t + ts_offset t * 60000000000 = civil_time D h mi sec * 1000000000 + n"
    and fits: "local_fits t"
    and ok: "\<bar>ts_offset t\<bar> < 1440" "ts_digits t \<le> 9"
    and date: "civil_from_days D = (y, mo, d)"
    and b: "0 \<le> h" "h \<le> 23" "0 \<le> mi" "mi \<le> 59" "0 \<le> sec" "sec \<le> 59" "0 \<le> n" "n < 1000000000"
  shows "to_string t = rfc_text (fixed_digits 4 (nat y)) (fixed_digits 2 (nat mo)) (fixed_digits 2 (nat d))
      (CHR ''T'') (fixed_digits 2 (nat h)) (fixed_digits 2 (nat mi)) (fixed_digits 2 (nat sec))
      (fraction_text (ts_digits t) n) (zone_text (ts_form t) (ts_offset t))"
proof -
  let ?x = "h * 3600000000000 + mi * 60000000000 + sec * 1000000000 + n"
  have lt: "local_time t = civil_time D h mi sec * 1000000000 + n"
    unfolding local_time_def time [symmetric] using fits by (intro wrap64_id) (simp_all add: local_fits_def)
  have days: "local_time t div ns_per_day = D" "local_time t - D * ns_per_day = ?x"
    unfolding lt using civil_time_day [OF b] by simp_all
  have mid: "wrap64 (local_time t - D * ns_per_day) = ?x"
    unfolding days(2) using b by (intro wrap64_id) simp_all
  note hms = hms_split [OF b(3-8), of h]
  have x: "0 \<le> ?x" "?x < ns_per_day" using b by (simp_all add: ns_per_day_def)
  have "- (2 ^ 63) \<le> D * ns_per_day + ?x" "D * ns_per_day + ?x < 2 ^ 63"
    using fits days(2) lt time by (simp_all add: local_fits_def)
  with x have "- 106752 \<le> D" "D \<le> 106751" by (simp_all add: ns_per_day_def)
  from civil_year_range [OF date this] have y: "0 \<le> y" "y < 10 ^ 4" by simp_all
  have md: "0 \<le> mo" "mo < 10 ^ 2" "0 \<le> d" "d < 10 ^ 2"
    using valid_date_bounds [OF days_from_civil_from_days(2) [OF date]] by simp_all
  have off: "(if ts_offset t < 0 then - ts_offset t else ts_offset t) = \<bar>ts_offset t\<bar>" by simp
  have z: "zero_padded 2 (\<bar>ts_offset t\<bar> div minutes_per_hour) = fixed_digits 2 (nat (\<bar>ts_offset t\<bar> div 60))"
    "zero_padded 2 (\<bar>ts_offset t\<bar> mod minutes_per_hour) = fixed_digits 2 (nat (\<bar>ts_offset t\<bar> mod 60))"
    unfolding minutes_per_hour_def by (rule zero_padded_fixed; use ok(1) in simp)+
  have f: "zero_padded 4 y = fixed_digits 4 (nat y)" "zero_padded 2 mo = fixed_digits 2 (nat mo)"
    "zero_padded 2 d = fixed_digits 2 (nat d)" "zero_padded 2 h = fixed_digits 2 (nat h)"
    "zero_padded 2 mi = fixed_digits 2 (nat mi)" "zero_padded 2 sec = fixed_digits 2 (nat sec)"
    using y md b by (simp_all add: zero_padded_fixed)
  show ?thesis
    unfolding to_string_def Let_def days(1) mid hms date prod.case off z f fraction_digits_text [OF ok(2)]
    by (simp add: rfc_text_def zone_text_def)
qed


section \<open>The round trips\<close>

lemma fraction_part_text:
  "k \<le> 9 \<Longrightarrow> fraction_part (fraction_text k n)
     (if k > 0 then [(7, fixed_digits k (nat n div 10 ^ (9 - k)))] else [])"
  using fixed_digits_are_digits by (auto simp: fraction_part_def fraction_text_def)

lemma read_fraction_text:
  assumes k: "k \<le> 9" and n: "0 \<le> n" "n < 1000000000" "n mod 10 ^ (9 - k) = 0"
  shows "read_fraction s (map_of (if k > 0 then [(7, fixed_digits k (nat n div 10 ^ (9 - k)))] else []) 7) =
     Inr (k, n)"
proof (cases "k = 0")
  case True
  with n have "n = 0" by simp
  with True show ?thesis by (simp add: read_fraction_def)
next
  case False
  let ?q = "nat n div 10 ^ (9 - k)"
  obtain q where q: "n = 10 ^ (9 - k) * q" using n(3) by (auto simp: mod_eq_0_iff_dvd elim: dvdE)
  have "(10 :: int) ^ (9 - k) * q < 10 ^ (9 - k) * 10 ^ k"
    using n(2) k by (simp add: q flip: power_add)
  then have "q < 10 ^ k" by simp
  have "0 < (10 :: int) ^ (9 - k)" by simp
  then have q0: "0 \<le> q" using n(1) by (simp only: q zero_le_mult_iff) linarith
  have nq: "nat n = 10 ^ (9 - k) * nat q" using q0 by (simp add: q nat_mult_distrib nat_power_eq)
  have "nat q < 10 ^ k" using \<open>q < 10 ^ k\<close> q0 by (simp add: nat_less_iff)
  with nq have v: "?q = nat q" "to_int (fixed_digits k ?q) = nat q" by (simp_all add: to_int_fixed_digits)
  have "add_fraction (fixed_digits k ?q) first_fraction_place 0 = n"
    using add_fraction_value [of "fixed_digits k ?q" 8 0] k v q0
    by (simp add: first_fraction_place_def q mult.commute)
  then show ?thesis using False k
    by (simp add: read_fraction_def fraction_digits_make_def max_fractional_digits_def)
qed

lemma zone_text_read:
  assumes "\<bar>off\<bar> < 1440" "form = utc_designator \<longrightarrow> off = 0"
  obtains cz where "zone_part (zone_text form off) cz" "read_offset s cz = Inr (form, off)"
proof (cases "form = utc_designator")
  case True
  then show thesis
    using assms by (intro that [of "[(8, ''Z'')]"]) (simp_all add: zone_part_def zone_text_def read_offset_def)
next
  case False
  define a where "a = nat (\<bar>off\<bar> div 60)"
  define b where "b = nat (\<bar>off\<bar> mod 60)"
  define sg where "sg = (if off < 0 then ''-'' else ''+'')"
  let ?cz = "[(11, fixed_digits 2 b), (10, fixed_digits 2 a), (9, sg)]"
  have ab: "a \<le> 23" "b \<le> 59" "int a * 60 + int b = \<bar>off\<bar>"
    using assms(1) by (simp_all add: a_def b_def) linarith+
  have f: "form = numeric" using False by (cases form) auto
  have "zone_part (zone_text form off) ?cz"
    by (rule zone_part_def [THEN iffD2], rule disjI2,
        intro exI [of _ sg] exI [of _ "fixed_digits 2 a"] exI [of _ "fixed_digits 2 b"])
      (simp add: zone_text_def f sg_def a_def b_def digits_fixed_digits)
  moreover have "read_offset s ?cz = Inr (form, off)"
    using ab by (simp add: read_offset_def capture_def to_int_fixed_digits last_hour_def last_minute_def f sg_def)
  ultimately show thesis by (rule that)
qed

lemma split_civil_time:
  fixes L :: int
  obtains D h mi sec n where "L = civil_time D h mi sec * 1000000000 + n"
    "0 \<le> h" "h \<le> 23" "0 \<le> mi" "mi \<le> 59" "0 \<le> sec" "sec \<le> 59" "0 \<le> n" "n < 1000000000"
proof -
  have split: "\<exists>q r. x = q * k + r \<and> 0 \<le> r \<and> r \<le> k - 1" if "0 < k" for x k :: int
    using that by (intro exI [of _ "x div k"] exI [of _ "x mod k"]) simp
  obtain s n where s: "L = s * 1000000000 + n" "0 \<le> n" "n \<le> 999999999" using split [of 1000000000 L] by auto
  obtain m sec where m: "s = m * 60 + sec" "0 \<le> sec" "sec \<le> 59" using split [of 60 s] by auto
  obtain x mi where x: "m = x * 60 + mi" "0 \<le> mi" "mi \<le> 59" using split [of 60 m] by auto
  obtain D h where h: "x = D * 24 + h" "0 \<le> h" "h \<le> 23" using split [of 24 x] by auto
  show thesis
    by (rule that [of D h mi sec n]) (use s m x h in \<open>simp_all add: civil_time_def\<close>)
qed

text \<open>
  What the writer writes has the shape that the reader asks for, and its digits are the fields of
  the local time.
\<close>

lemma to_string_shape:
  assumes time: "ts_utc t + ts_offset t * 60000000000 = civil_time D h mi sec * 1000000000 + n"
    and fits: "local_fits t"
    and k: "\<bar>ts_offset t\<bar> < 1440" "ts_digits t \<le> 9" and form: "ts_form t = utc_designator \<longrightarrow> ts_offset t = 0"
    and date: "civil_from_days D = (y, mo, d)"
    and b: "0 \<le> h" "h \<le> 23" "0 \<le> mi" "mi \<le> 59" "0 \<le> sec" "sec \<le> 59" "0 \<le> n" "n < 1000000000"
  obtains cz where
    "rfc_shape (to_string t) (fixed_digits 4 (nat y)) (fixed_digits 2 (nat mo)) (fixed_digits 2 (nat d))
      (CHR ''T'') (fixed_digits 2 (nat h)) (fixed_digits 2 (nat mi)) (fixed_digits 2 (nat sec))
      (fraction_text (ts_digits t) n)
      (if ts_digits t > 0 then [(7, fixed_digits (ts_digits t) (nat n div 10 ^ (9 - ts_digits t)))] else [])
      (zone_text (ts_form t) (ts_offset t)) cz"
    "read_offset (to_string t) cz = Inr (ts_form t, ts_offset t)"
    "int (to_int (fixed_digits 4 (nat y))) = y" "int (to_int (fixed_digits 2 (nat mo))) = mo"
    "int (to_int (fixed_digits 2 (nat d))) = d" "to_int (fixed_digits 2 (nat h)) = nat h"
    "to_int (fixed_digits 2 (nat mi)) = nat mi" "to_int (fixed_digits 2 (nat sec)) = nat sec"
    "valid_date y mo d" "days_from_civil y mo d = D"
proof -
  note written = to_string_fields [OF time fits k date b]
  obtain cz where cz: "zone_part (zone_text (ts_form t) (ts_offset t)) cz"
      "read_offset (to_string t) cz = Inr (ts_form t, ts_offset t)"
    using k form by (metis zone_text_read)
  have v: "valid_date y mo d" "days_from_civil y mo d = D"
    using days_from_civil_from_days [OF date] by simp_all
  have "- (2 ^ 63) \<le> D * ns_per_day + ns_per_day" "D * ns_per_day < 2 ^ 63"
    using fits b by (simp_all add: local_fits_def time civil_time_def ns_per_day_def)
  then have "- 106752 \<le> D" "D \<le> 106751" by (simp_all add: ns_per_day_def)
  from civil_year_range [OF date this] valid_date_bounds [OF v(1)]
  have small: "nat y mod 10000 = nat y" "nat mo mod 100 = nat mo" "nat d mod 100 = nat d"
    and pos: "0 \<le> y" "0 \<le> mo" "0 \<le> d"
    by (auto intro!: mod_less simp: nat_less_iff)
  show thesis
    by (rule that [of cz]; use v pos b cz written fraction_part_text [OF k(2)] in
        \<open>simp add: rfc_shape_def digits_fixed_digits to_int_fixed_digits small\<close>)
qed

text \<open>Every well-formed timestamp whose local time fits the clock is read back from its text.\<close>

lemma parse_timestamp_to_string:
  assumes ok: "ts_ok t" and fits: "local_fits t"
  shows "parse_timestamp (to_string t) = Inr t"
proof -
  note o = ok [unfolded ts_ok_def]
  obtain D h mi sec n where time: "ts_utc t + ts_offset t * 60000000000 = civil_time D h mi sec * 1000000000 + n"
    and b: "0 \<le> h" "h \<le> 23" "0 \<le> mi" "mi \<le> 59" "0 \<le> sec" "sec \<le> 59" "0 \<le> n" "n < 1000000000"
    by (rule split_civil_time)
  obtain y mo d where date: "civil_from_days D = (y, mo, d)" by (metis prod_cases3)
  have k: "\<bar>ts_offset t\<bar> < 1440" "ts_digits t \<le> 9" "ts_form t = utc_designator \<longrightarrow> ts_offset t = 0"
    using o by simp_all
  obtain cz where shape:
    "rfc_shape (to_string t) (fixed_digits 4 (nat y)) (fixed_digits 2 (nat mo)) (fixed_digits 2 (nat d))
      (CHR ''T'') (fixed_digits 2 (nat h)) (fixed_digits 2 (nat mi)) (fixed_digits 2 (nat sec))
      (fraction_text (ts_digits t) n)
      (if ts_digits t > 0 then [(7, fixed_digits (ts_digits t) (nat n div 10 ^ (9 - ts_digits t)))] else [])
      (zone_text (ts_form t) (ts_offset t)) cz"
    and cz: "read_offset (to_string t) cz = Inr (ts_form t, ts_offset t)"
    and num: "int (to_int (fixed_digits 4 (nat y))) = y" "int (to_int (fixed_digits 2 (nat mo))) = mo"
      "int (to_int (fixed_digits 2 (nat d))) = d" "to_int (fixed_digits 2 (nat h)) = nat h"
      "to_int (fixed_digits 2 (nat mi)) = nat mi" "to_int (fixed_digits 2 (nat sec)) = nat sec"
    and v: "valid_date y mo d" "days_from_civil y mo d = D"
    by (rule to_string_shape [OF time fits k date b])
  let ?L = "civil_time D h mi sec - ts_offset t * 60"
  have utc: "ts_utc t = ?L * 1000000000 + n" using time by (simp add: algebra_simps)
  have "?L \<le> representable" "- representable \<le> ?L" using o utc b by simp_all
  then have made: "make_timestamp (to_string t) (civil_time D h mi sec) (ts_digits t, n) (ts_form t, ts_offset t) = Inr t"
    using utc by (cases t) (simp add: make_timestamp_def Let_def)
  have "n mod 10 ^ (9 - ts_digits t) = 0"
    using o fraction_multiple [OF k(2) utc] by simp
  note fr = read_fraction_text [OF k(2) b(7,8) this]
  show ?thesis
    unfolding parse_timestamp_fields [OF shape] fr cz is_valid_date_def num
    using v b made by (simp add: last_hour_def last_minute_def leap_second_def not_less nat_le_iff)
qed

text \<open>
  A local time that does not fit wraps around, and what is then written names an instant beyond the
  range: the reader refuses it.
\<close>

lemma wrap64_turn: "w = 2 ^ 64 \<or> w = - (2 ^ 64) \<Longrightarrow> wrap64 (x + w) = wrap64 x"
proof -
  have "(x + 2 ^ 63 + 2 ^ 64) mod 2 ^ 64 = (x + 2 ^ 63) mod 2 ^ 64" "(x + 2 ^ 63 - 2 ^ 64) mod 2 ^ 64 = (x + 2 ^ 63) mod 2 ^ 64"
    by (rule mod_add_self2, rule minus_mod_self2)
  then show "w = 2 ^ 64 \<or> w = - (2 ^ 64) \<Longrightarrow> wrap64 (x + w) = wrap64 x"
    by (elim disjE) (simp_all add: wrap64_def algebra_simps)
qed

lemma wrapped_text:
  assumes ok: "ts_ok t" and fits: "\<not> local_fits t"
  shows "\<not> is_ok (parse_timestamp (to_string t))"
proof
  assume "is_ok (parse_timestamp (to_string t))"
  then obtain t' where read: "parse_timestamp (to_string t) = Inr t'" by (auto simp: is_ok_iff)
  note o = ok [unfolded ts_ok_def representable_def]
  let ?lt = "ts_utc t + ts_offset t * 60000000000"
  obtain w where w: "w = 2 ^ 64 \<or> w = - (2 ^ 64)" "- (2 ^ 63) \<le> ?lt + w" "?lt + w < 2 ^ 63"
  proof (cases "?lt < 0")
    case True
    then show thesis using o fits by (intro that [of "2 ^ 64"]) (auto simp: local_fits_def)
  next
    case False
    then show thesis using o fits by (intro that [of "- (2 ^ 64)"]) (auto simp: local_fits_def)
  qed
  let ?t = "t\<lparr>ts_utc := ts_utc t + w\<rparr>"
  have local: "local_time t = local_time ?t"
    using wrap64_turn [OF w(1), of ?lt] by (simp add: local_time_def algebra_simps)
  have kept: "ts_offset ?t = ts_offset t" "ts_form ?t = ts_form t" "ts_digits ?t = ts_digits t" by simp_all
  have same: "to_string t = to_string ?t" by (simp only: to_string_def local kept)
  have fits': "local_fits ?t" using w by (simp add: local_fits_def algebra_simps)
  obtain D h mi sec n where time: "ts_utc ?t + ts_offset ?t * 60000000000 = civil_time D h mi sec * 1000000000 + n"
    and b: "0 \<le> h" "h \<le> 23" "0 \<le> mi" "mi \<le> 59" "0 \<le> sec" "sec \<le> 59" "0 \<le> n" "n < 1000000000"
    by (rule split_civil_time)
  obtain y mo d where date: "civil_from_days D = (y, mo, d)" by (metis prod_cases3)
  have k: "\<bar>ts_offset ?t\<bar> < 1440" "ts_digits ?t \<le> 9" "ts_form ?t = utc_designator \<longrightarrow> ts_offset ?t = 0"
    using o by simp_all
  obtain cz where shape: "rfc_shape (to_string t) (fixed_digits 4 (nat y)) (fixed_digits 2 (nat mo)) (fixed_digits 2 (nat d))
      (CHR ''T'') (fixed_digits 2 (nat h)) (fixed_digits 2 (nat mi)) (fixed_digits 2 (nat sec))
      (fraction_text (ts_digits ?t) n)
      (if ts_digits ?t > 0 then [(7, fixed_digits (ts_digits ?t) (nat n div 10 ^ (9 - ts_digits ?t)))] else [])
      (zone_text (ts_form ?t) (ts_offset ?t)) cz"
      and zone: "read_offset (to_string t) cz = Inr (ts_form ?t, ts_offset ?t)"
      and num: "int (to_int (fixed_digits 4 (nat y))) = y" "int (to_int (fixed_digits 2 (nat mo))) = mo"
      "int (to_int (fixed_digits 2 (nat d))) = d" "to_int (fixed_digits 2 (nat h)) = nat h"
      "to_int (fixed_digits 2 (nat mi)) = nat mi" "to_int (fixed_digits 2 (nat sec)) = nat sec"
      "valid_date y mo d" "days_from_civil y mo d = D"
    by (rule to_string_shape [OF time fits' k date b, folded same])
  from parse_timestamp_Inr [OF shape read] obtain n' where "0 \<le> n'" "n' < 1000000000"
    "read_offset (to_string t) cz = Inr (ts_form t', ts_offset t')"
    "ts_utc t' + ts_offset t' * 60000000000 =
      civil_time (days_from_civil y mo d) (int (nat h)) (int (nat mi)) (int (nat sec)) * 1000000000 + n'"
    unfolding num(1-6) by metis
  then have "ts_utc t' < ts_utc ?t + 1000000000" "ts_utc ?t < ts_utc t' + 1000000000"
    using time b zone num(8) by auto
  moreover have "ts_ok t'" by (rule parse_timestamp_ts_ok [OF read])
  ultimately show False using w(1) o unfolding ts_ok_def representable_def by auto
qed

text \<open>
  The texts that name an instant in the one spelling the writer uses: an upper-case separator
  and zone designator, no leap second, no negative zero offset.
\<close>

definition canonical_text :: "string \<Rightarrow> bool" where
  "canonical_text s \<longleftrightarrow> s ! 10 = CHR ''T'' \<and> take 2 (drop 17 s) \<noteq> ''60'' \<and> last s \<noteq> CHR ''z'' \<and>
     drop (length s - 6) s \<noteq> ''-00:00''"

lemma rfc_text_parts:
  assumes "digits 4 y" "digits 2 mo" "digits 2 d" "digits 2 h" "digits 2 mi" "digits 2 sec"
  shows "rfc_text y mo d sep h mi sec fr zn ! 10 = sep"
    "take 2 (drop 17 (rfc_text y mo d sep h mi sec fr zn)) = sec"
  using assms by (auto simp: rfc_text_def digits_def nth_append)

lemma rfc_text_zone:
  assumes "zn = ''z'' \<or> zn = ''-00:00''"
  shows "\<not> canonical_text (rfc_text y mo d sep h mi sec fr zn)"
proof -
  have "rfc_text y mo d sep h mi sec fr zn = u @ zn"
    if "u = y @ ''-'' @ mo @ ''-'' @ d @ [sep] @ h @ '':'' @ mi @ '':'' @ sec @ fr" for u
    by (simp add: that rfc_text_def)
  then obtain u where "rfc_text y mo d sep h mi sec fr zn = u @ zn" by blast
  with assms show ?thesis by (auto simp: canonical_text_def)
qed

lemma digits_sixty: "digits 2 sec \<Longrightarrow> to_int sec = 60 \<Longrightarrow> sec = ''60''"
  using digits_fixed [of 2 sec] digits_fixed [of 2 "''60''"]
  by (simp add: digits_def is_digit_def to_int_Cons numeral_2_eq_2)

text \<open>An accepted canonical text is written back byte for byte.\<close>

theorem to_string_parse_timestamp:
  assumes ok: "parse_timestamp s = Inr t" and canon: "canonical_text s" and fits: "local_fits t"
  shows "to_string t = s"
proof -
  from ok obtain y mo d sep h mi sec fr cf zn cz where
    shape: "rfc_shape s y mo d sep h mi sec fr cf zn cz" by (rule parse_timestamp_ok_shape)
  from parse_timestamp_Inr [OF shape ok] obtain n where
    date: "valid_date (int (to_int y)) (int (to_int mo)) (int (to_int d))"
    and b: "to_int h \<le> 23" "to_int mi \<le> 59" "to_int sec \<le> 60" "0 \<le> n" "n < 1000000000"
    and fr: "fr = fraction_text (ts_digits t) n" "ts_digits t \<le> 9"
    and z: "read_offset s cz = Inr (ts_form t, ts_offset t)"
    and time: "ts_utc t + ts_offset t * 60000000000 =
       civil_time (days_from_civil (int (to_int y)) (int (to_int mo)) (int (to_int d)))
         (int (to_int h)) (int (to_int mi)) (int (to_int sec)) * 1000000000 + n" by metis
  note sh = shape [unfolded rfc_shape_def]
  then have dg: "digits 4 y" "digits 2 mo" "digits 2 d" "digits 2 h" "digits 2 mi" "digits 2 sec"
    and s: "s = rfc_text y mo d sep h mi sec fr zn" and zp: "zone_part zn cz" by simp_all
  note c = canon [unfolded canonical_text_def s rfc_text_parts [OF dg]]
  have "to_int sec \<noteq> 60" using digits_sixty [OF dg(6)] c by blast
  then have sec: "int (to_int sec) \<le> 59" using b(3) by simp
  have "zn \<noteq> ''z''" "zn \<noteq> ''-00:00''" using canon s rfc_text_zone by blast+
  from zone_read(3) [OF zp z this] have zn: "zn = zone_text (ts_form t) (ts_offset t)" .
  have "to_string t = rfc_text (fixed_digits 4 (to_int y)) (fixed_digits 2 (to_int mo)) (fixed_digits 2 (to_int d))
      (CHR ''T'') (fixed_digits 2 (to_int h)) (fixed_digits 2 (to_int mi)) (fixed_digits 2 (to_int sec))
      (fraction_text (ts_digits t) n) (zone_text (ts_form t) (ts_offset t))"
    using to_string_fields [OF time fits zone_read(1) [OF zp z] fr(2) civil_from_days_from_civil [OF date]]
      b sec by simp
  also have "\<dots> = s" using c dg by (simp add: s digits_fixed fr(1) zn)
  finally show ?thesis .
qed


section \<open>Instants and texts at the edges\<close>

lemma read_offset_text: "read_offset s cz = Inr z \<Longrightarrow> read_offset s' cz = Inr z"
  by (auto simp: read_offset_def Let_def split: option.splits if_splits)

text \<open>A leap second is read as the first second of the next minute.\<close>

theorem parse_timestamp_leap_second:
  assumes "digits 4 y" "digits 2 mo" "digits 2 d" "digits 2 h" "digits 2 mi"
    and "zone_part zn cz" "sep = CHR ''T''"
    and ok: "parse_timestamp (rfc_text y mo d sep h mi ''59'' [] zn) = Inr t"
    and leap: "parse_timestamp (rfc_text y mo d sep h mi ''60'' [] zn) = Inr t'"
  shows "t' = t\<lparr>ts_utc := ts_utc t + 1000000000\<rparr>"
proof -
  have d: "digits 2 ''59''" "digits 2 ''60''" by (simp_all add: digits_def is_digit_def)
  have sh: "rfc_shape (rfc_text y mo d sep h mi s [] zn) y mo d sep h mi s [] [] zn cz"
    if "digits 2 s" for s
    using assms that by (simp add: rfc_shape_def fraction_part_def)
  define D where "D = days_from_civil (int (to_int y)) (int (to_int mo)) (int (to_int d))"
  have *: "ts_digits u = 0 \<and> read_offset (rfc_text y mo d sep h mi s [] zn) cz = Inr (ts_form u, ts_offset u) \<and>
      ts_utc u + ts_offset u * 60000000000 =
        civil_time D (int (to_int h)) (int (to_int mi)) (int (to_int s)) * 1000000000"
    if "digits 2 s" "parse_timestamp (rfc_text y mo d sep h mi s [] zn) = Inr u" for s u
  proof -
    from parse_timestamp_Inr [OF sh [OF that(1)] that(2)] obtain n where
      n: "0 \<le> n" "n < 1000000000" "n mod 10 ^ (9 - ts_digits u) = 0" "[] = fraction_text (ts_digits u) n"
        "read_offset (rfc_text y mo d sep h mi s [] zn) cz = Inr (ts_form u, ts_offset u)"
        "ts_utc u + ts_offset u * 60000000000 =
          civil_time D (int (to_int h)) (int (to_int mi)) (int (to_int s)) * 1000000000 + n"
      unfolding D_def by metis
    then have "ts_digits u = 0" by (simp add: fraction_text_def split: if_splits)
    with n show ?thesis by simp
  qed
  note t = * [OF d(1) ok] and t' = * [OF d(2) leap]
  have "ts_form t' = ts_form t \<and> ts_offset t' = ts_offset t"
    using t t' read_offset_text [of _ cz] by (metis Inr_inject prod.inject)
  moreover from this t t' have "ts_utc t' = ts_utc t + 1000000000"
    by (simp add: civil_time_def to_int_Cons)
  ultimately show ?thesis using t t' by (cases t; cases t') simp
qed

text \<open>
  The parser accepts 2262-04-12T23:46:14+23:59, whose local time is beyond the last
  nanosecond that a 64-bit count holds; the writer's addition of the offset overflows and it is
  written back as a time of the year 1677.
\<close>

theorem local_time_overflow:
  "(case parse_timestamp ''2262-04-12T23:46:14+23:59'' of
      Inr t \<Rightarrow> t = \<lparr>ts_utc = 9223372034000000000, ts_offset = 1439, ts_form = numeric, ts_digits = 0\<rparr> \<and>
        \<not> local_fits t \<and> to_string t = ''1677-09-22T00:11:40+23:59''
    | Inl _ \<Rightarrow> False)"
  by code_simp

text \<open>
  C32: a well-formed timestamp whose local time fits a 64-bit nanosecond count is read back,
  offset, precision and zone form included, from the text \<open>to_string\<close> writes for it.
\<close>

theorem timestamp_round_trip:
  assumes "ts_ok t" "local_fits t"
  shows "parse_timestamp (to_string t) = Inr t"
  using assms by (rule parse_timestamp_to_string)

definition sample_time :: timestamp where
  "sample_time = \<lparr>ts_utc = 1709208000500000000, ts_offset = 330, ts_form = numeric, ts_digits = 1\<rparr>"

lemma sample_time_ok: "ts_ok sample_time" "local_fits sample_time"
  by (simp_all add: sample_time_def ts_ok_def local_fits_def representable_def)

theorem timestamp_round_trip_witness: "parse_timestamp (to_string sample_time) = Inr sample_time"
  using sample_time_ok by (rule timestamp_round_trip)

theorem to_string_parse_timestamp_witness:
  "\<exists>t. parse_timestamp ''2024-02-29T17:30:00.5+05:30'' = Inr t \<and> to_string t = ''2024-02-29T17:30:00.5+05:30''"
proof -
  have p: "parse_timestamp ''2024-02-29T17:30:00.5+05:30'' = Inr sample_time" unfolding sample_time_def by code_simp
  have c: "canonical_text ''2024-02-29T17:30:00.5+05:30''" by code_simp
  from to_string_parse_timestamp [OF p c sample_time_ok(2)] p show ?thesis by blast
qed

theorem parse_timestamp_leap_second_witness:
  "\<exists>t. parse_timestamp ''2016-12-31T23:59:59Z'' = Inr t \<and>
     parse_timestamp ''2016-12-31T23:59:60Z'' = Inr (t\<lparr>ts_utc := ts_utc t + 1000000000\<rparr>)"
proof -
  have d: "digits 4 ''2016''" "digits 2 ''12''" "digits 2 ''31''" "digits 2 ''23''" "digits 2 ''59''"
    by (simp_all add: digits_def is_digit_def)
  have z: "zone_part ''Z'' [(8, ''Z'')]" by (simp add: zone_part_def)
  have r: "rfc_text ''2016'' ''12'' ''31'' (CHR ''T'') ''23'' ''59'' ''59'' [] ''Z'' = ''2016-12-31T23:59:59Z''"
    "rfc_text ''2016'' ''12'' ''31'' (CHR ''T'') ''23'' ''59'' ''60'' [] ''Z'' = ''2016-12-31T23:59:60Z''"
    by (simp_all add: rfc_text_def)
  have p: "parse_timestamp ''2016-12-31T23:59:59Z'' =
      Inr \<lparr>ts_utc = 1483228799000000000, ts_offset = 0, ts_form = utc_designator, ts_digits = 0\<rparr>"
    "parse_timestamp ''2016-12-31T23:59:60Z'' =
      Inr \<lparr>ts_utc = 1483228800000000000, ts_offset = 0, ts_form = utc_designator, ts_digits = 0\<rparr>"
    by code_simp+
  from parse_timestamp_leap_second [OF d(1-5) z refl, unfolded r, OF p] p show ?thesis by auto
qed

end
