(* ===== verification/Utf8.thy ===== *)
theory Utf8
  imports Errors
begin

text \<open>
  The UTF-8 validator of \<open>include/cloudevents/attributes.hpp\<close> (namespace
  \<open>ce::v2::detail\<close>): the lead-byte table, the continuation loop and the range check, on
  octets and 32-bit code points, and its equivalence with the definition of UTF-8 by an
  encoder of Unicode scalar values.
\<close>

section \<open>The validator\<close>

record utf8_lead =
  lead_length :: nat
  lead_payload :: u32

definition read_utf8_lead :: "byte \<Rightarrow> utf8_lead" where
  "read_utf8_lead lead =
     (if lead < 0x80 then \<lparr>lead_length = 1, lead_payload = ucast lead\<rparr>
      else if lead AND 0xE0 = 0xC0 then \<lparr>lead_length = 2, lead_payload = ucast lead AND 0x1F\<rparr>
      else if lead AND 0xF0 = 0xE0 then \<lparr>lead_length = 3, lead_payload = ucast lead AND 0x0F\<rparr>
      else if lead AND 0xF8 = 0xF0 then \<lparr>lead_length = 4, lead_payload = ucast lead AND 0x07\<rparr>
      else \<lparr>lead_length = 0, lead_payload = 0\<rparr>)"

definition utf8_floor :: "nat \<Rightarrow> u32" where
  "utf8_floor len = (if len = 2 then 0x80 else if len = 3 then 0x800 else 0x10000)"

definition utf8_code_point_allowed :: "nat \<Rightarrow> u32 \<Rightarrow> bool" where
  "utf8_code_point_allowed len code \<longleftrightarrow>
     utf8_floor len \<le> code \<and> code \<le> 0x10FFFF \<and> (code < 0xD800 \<or> 0xDFFF < code)"

text \<open>The loop over the continuation bytes; \<open>None\<close> is its early \<open>return false\<close>.\<close>

fun read_continuations :: "string \<Rightarrow> u32 \<Rightarrow> u32 option" where
  "read_continuations [] code = Some code"
| "read_continuations (c # cs) code =
     (if uchar c AND 0xC0 \<noteq> 0x80 then None
      else read_continuations cs (push_bit 6 code OR (ucast (uchar c) AND 0x3F)))"

function is_valid_utf8 :: "string \<Rightarrow> bool" where
  "is_valid_utf8 text =
     (if text = [] then True
      else let lead = read_utf8_lead (uchar (hd text)); len = lead_length lead in
        if len = 0 \<or> len > length text then False
        else case read_continuations (take (len - 1) (drop 1 text)) (lead_payload lead) of
            None \<Rightarrow> False
          | Some code \<Rightarrow>
              if len > 1 \<and> \<not> utf8_code_point_allowed len code then False
              else is_valid_utf8 (drop len text))"
  by pat_completeness auto
termination
  by (relation "measure length") auto

declare is_valid_utf8.simps [simp del]


section \<open>Masks as ranges\<close>

lemma unat_and_mask: "unat (w AND mask n) = unat w mod 2 ^ n"
  for w :: "'a::len word"
  by (metis take_bit_eq_mask take_bit_eq_mod unsigned_take_bit_eq)

lemma unat_and_not_mask:
  fixes b :: byte
  assumes "M = NOT (mask n)" and "n \<le> 8"
  shows "unat (b AND M) = unat b div 2 ^ n * 2 ^ n"
proof -
  have "b AND M = push_bit n (drop_bit n b)"
    using assms by (auto simp: bit_eq_iff bit_simps)
  then have "unat (b AND M) = take_bit 8 (push_bit n (drop_bit n (take_bit 8 (unat b))))"
    by (simp only: unsigned_push_bit_eq unsigned_drop_bit_eq) simp
  moreover have "unat b div 2 ^ n * 2 ^ n < 256"
    using unat_byte_less [of b] by (metis div_mult_mod_eq le_add1 le_less_trans)
  ultimately show ?thesis
    by (simp add: push_bit_eq_mult drop_bit_eq_div take_bit_eq_mod)
qed

text \<open>The four tests of the lead-byte table and the continuation test, as ranges.\<close>

lemma lead_tests:
  fixes b :: byte
  shows "b < 0x80 \<longleftrightarrow> unat b < 128"
    and "b AND 0xE0 = 0xC0 \<longleftrightarrow> 192 \<le> unat b \<and> unat b < 224"
    and "b AND 0xF0 = 0xE0 \<longleftrightarrow> 224 \<le> unat b \<and> unat b < 240"
    and "b AND 0xF8 = 0xF0 \<longleftrightarrow> 240 \<le> unat b \<and> unat b < 248"
    and "b AND 0xC0 = 0x80 \<longleftrightarrow> 128 \<le> unat b \<and> unat b < 192"
  by (simp_all add: word_less_nat_alt word_unat_eq_iff unat_and_not_mask [of _ 5] unat_and_not_mask [of _ 4]
      unat_and_not_mask [of _ 3] unat_and_not_mask [of _ 6] mask_eq_exp_minus_1) linarith+

lemma unat_low_masks:
  fixes b :: byte
  shows "unat (ucast b AND (0x1F :: u32)) = unat b mod 32"
    and "unat (ucast b AND (0x0F :: u32)) = unat b mod 16"
    and "unat (ucast b AND (0x07 :: u32)) = unat b mod 8"
    and "unat (ucast b AND (0x3F :: u32)) = unat b mod 64"
  using unat_and_mask [of "ucast b :: u32" 5] unat_and_mask [of "ucast b :: u32" 4]
    unat_and_mask [of "ucast b :: u32" 3] unat_and_mask [of "ucast b :: u32" 6]
  by (simp_all add: mask_eq_exp_minus_1 unsigned_ucast_eq take_bit_eq_mod mod_mod_cancel)

text \<open>One turn of the continuation loop, where the shift does not overflow.\<close>

lemma unat_shift_in:
  assumes "unat (code :: u32) < 2 ^ 26"
  shows "unat (push_bit 6 code OR (ucast (uchar c) AND 0x3F)) = unat code * 64 + of_char c mod 64"
proof -
  let ?low = "ucast (uchar c) AND (0x3F :: u32)"
  have low: "unat ?low = of_char c mod 64" by (simp add: unat_low_masks)
  have "?low = take_bit 6 (ucast (uchar c))"
    by (simp add: take_bit_eq_mask mask_eq_exp_minus_1)
  then have "push_bit 6 code AND ?low = 0"
    by (simp only:) (rule bit_eqI, simp add: bit_simps)
  then have sum: "push_bit 6 code OR ?low = push_bit 6 code + ?low"
    by (rule disjunctive_add_eq_or [symmetric])
  have hi: "unat (push_bit 6 code) = unat code * 64"
    using assms by (simp add: push_bit_eq_mult unat_word_ariths(2))
  have "unat (push_bit 6 code + ?low) = unat (push_bit 6 code) + unat ?low"
    using assms by (intro unat_add_lem [THEN iffD1]) (simp only: hi low, simp)
  then show ?thesis by (simp only: sum hi low)
qed


section \<open>UTF-8 as an encoding of Unicode scalar values\<close>

definition scalar_value :: "nat \<Rightarrow> bool" where
  "scalar_value cp \<longleftrightarrow> cp \<le> 0x10FFFF \<and> \<not> (0xD800 \<le> cp \<and> cp \<le> 0xDFFF)"

definition utf8_encode :: "nat \<Rightarrow> string" where
  "utf8_encode cp =
     (if cp < 0x80 then [char_of cp]
      else if cp < 0x800 then [char_of (0xC0 + cp div 64), char_of (0x80 + cp mod 64)]
      else if cp < 0x10000 then
        [char_of (0xE0 + cp div 4096), char_of (0x80 + cp div 64 mod 64), char_of (0x80 + cp mod 64)]
      else
        [char_of (0xF0 + cp div 262144), char_of (0x80 + cp div 4096 mod 64),
         char_of (0x80 + cp div 64 mod 64), char_of (0x80 + cp mod 64)])"

definition continuation :: "char \<Rightarrow> bool" where
  "continuation c \<longleftrightarrow> 128 \<le> (of_char c :: nat) \<and> (of_char c :: nat) < 192"

lemma read_lead_cases:
  "(of_char c :: nat) < 128 \<Longrightarrow> read_utf8_lead (uchar c) = \<lparr>lead_length = 1, lead_payload = ucast (uchar c)\<rparr>"
  "192 \<le> (of_char c :: nat) \<Longrightarrow> (of_char c :: nat) < 224 \<Longrightarrow>
     read_utf8_lead (uchar c) = \<lparr>lead_length = 2, lead_payload = ucast (uchar c) AND 0x1F\<rparr>"
  "224 \<le> (of_char c :: nat) \<Longrightarrow> (of_char c :: nat) < 240 \<Longrightarrow>
     read_utf8_lead (uchar c) = \<lparr>lead_length = 3, lead_payload = ucast (uchar c) AND 0x0F\<rparr>"
  "240 \<le> (of_char c :: nat) \<Longrightarrow> (of_char c :: nat) < 248 \<Longrightarrow>
     read_utf8_lead (uchar c) = \<lparr>lead_length = 4, lead_payload = ucast (uchar c) AND 0x07\<rparr>"
  "128 \<le> (of_char c :: nat) \<Longrightarrow> (of_char c :: nat) < 192 \<or> 248 \<le> (of_char c :: nat) \<Longrightarrow>
     lead_length (read_utf8_lead (uchar c)) = 0"
  by (auto simp: read_utf8_lead_def lead_tests)

lemma read_continuations_nat:
  "unat code < 2 ^ (32 - 6 * length cs) \<Longrightarrow> length cs \<le> 3 \<Longrightarrow>
   read_continuations cs code =
     (if \<forall>c \<in> set cs. continuation c
      then Some (word_of_nat (fold (\<lambda>c acc. acc * 64 + of_char c mod 64) cs (unat code))) else None)"
proof (induction cs arbitrary: code)
  case Nil
  then show ?case by simp
next
  case (Cons c cs)
  have small: "unat code < 2 ^ 26"
    using Cons.prems(1) power_increasing [of "32 - 6 * length (c # cs)" 26 "2 :: nat"] by simp
  have "unat code * 64 + of_char c mod 64 < 2 ^ (32 - 6 * length (c # cs)) * 64"
  proof -
    have "(of_char c mod 64 :: nat) < 64" by simp
    with Cons.prems(1) show ?thesis by linarith
  qed
  also have "2 ^ (32 - 6 * length (c # cs)) * 64 = (2 :: nat) ^ (32 - 6 * length cs)"
  proof -
    have "32 - 6 * length cs = 32 - 6 * length (c # cs) + 6" using Cons.prems(2) by simp
    then show ?thesis by (simp only: power_add) simp
  qed
  finally have "unat (push_bit 6 code OR (ucast (uchar c) AND 0x3F)) < 2 ^ (32 - 6 * length cs)"
    by (simp only: unat_shift_in [OF small])
  with Cons.IH [of "push_bit 6 code OR (ucast (uchar c) AND 0x3F)"] Cons.prems(2)
  show ?case
    by (simp only: read_continuations.simps unat_shift_in [OF small])
      (auto simp: lead_tests continuation_def)
qed

definition accumulate :: "nat \<Rightarrow> string \<Rightarrow> nat" where
  "accumulate p ds = fold (\<lambda>c acc. acc * 64 + of_char c mod 64) ds p"

definition code_allowed :: "nat \<Rightarrow> nat \<Rightarrow> bool" where
  "code_allowed len cp \<longleftrightarrow> (if len = 2 then 0x80 else if len = 3 then 0x800 else 0x10000) \<le> cp \<and> scalar_value cp"

lemma utf8_code_point_allowed_nat:
  "cp < 2 ^ 32 \<Longrightarrow> utf8_code_point_allowed len (word_of_nat cp) \<longleftrightarrow> code_allowed len cp"
  by (auto simp: utf8_code_point_allowed_def code_allowed_def utf8_floor_def scalar_value_def
      word_le_nat_alt word_less_nat_alt unat_of_nat)

lemma accumulate_less:
  "p < 2 ^ n \<Longrightarrow> accumulate p ds < 2 ^ (n + 6 * length ds)"
proof (induction ds arbitrary: p n)
  case Nil
  then show ?case by (simp add: accumulate_def)
next
  case (Cons d ds)
  have "(of_char d mod 64 :: nat) < 64" by simp
  with Cons.prems have "p * 64 + of_char d mod 64 < 2 ^ n * 64" by linarith
  then have "p * 64 + of_char d mod 64 < 2 ^ (n + 6)" by (simp add: power_add)
  from Cons.IH [OF this] show ?case by (simp add: accumulate_def algebra_simps)
qed

lemma is_valid_utf8_Nil [simp]: "is_valid_utf8 []"
  by (simp add: is_valid_utf8.simps)

lemma is_valid_utf8_ascii:
  "(of_char c :: nat) < 128 \<Longrightarrow> is_valid_utf8 (c # cs) \<longleftrightarrow> is_valid_utf8 cs"
  by (simp add: is_valid_utf8.simps [of "c # cs"] read_lead_cases)

lemma is_valid_utf8_bad_lead:
  "128 \<le> (of_char c :: nat) \<Longrightarrow> (of_char c :: nat) < 192 \<or> 248 \<le> (of_char c :: nat) \<Longrightarrow>
   \<not> is_valid_utf8 (c # cs)"
  by (simp add: is_valid_utf8.simps [of "c # cs"] read_lead_cases Let_def)

lemma is_valid_utf8_short:
  "lead_length (read_utf8_lead (uchar c)) > length (c # cs) \<Longrightarrow> \<not> is_valid_utf8 (c # cs)"
  by (simp add: is_valid_utf8.simps [of "c # cs"] Let_def)

lemma is_valid_utf8_multi:
  assumes lead: "read_utf8_lead (uchar c) = \<lparr>lead_length = Suc k, lead_payload = p\<rparr>"
    and k: "0 < k" "k \<le> 3" and p: "unat p < 32" and ds: "length ds = k"
  shows "is_valid_utf8 (c # ds @ rest) \<longleftrightarrow>
    (\<forall>d \<in> set ds. continuation d) \<and> code_allowed (Suc k) (accumulate (unat p) ds) \<and> is_valid_utf8 rest"
proof -
  have "5 \<le> 32 - 6 * k" using k by linarith
  then have "(2 :: nat) ^ 5 \<le> 2 ^ (32 - 6 * k)" by (rule power_increasing) simp
  with p ds have "unat p < 2 ^ (32 - 6 * length ds)" by simp
  then have rc: "read_continuations ds p =
      (if \<forall>d \<in> set ds. continuation d then Some (word_of_nat (accumulate (unat p) ds)) else None)"
    using k ds by (simp add: read_continuations_nat accumulate_def)
  have "accumulate (unat p) ds < 2 ^ (5 + 6 * length ds)"
    by (rule accumulate_less) (use p in simp)
  also have "\<dots> \<le> 2 ^ 32" using k ds by (intro power_increasing) auto
  finally have "utf8_code_point_allowed (Suc k) (word_of_nat (accumulate (unat p) ds)) \<longleftrightarrow>
      code_allowed (Suc k) (accumulate (unat p) ds)"
    by (rule utf8_code_point_allowed_nat)
  with rc k ds show ?thesis
    by (subst is_valid_utf8.simps) (simp add: lead Let_def)
qed

lemma continuation_mod: "continuation x \<Longrightarrow> (of_char x :: nat) mod 64 = of_char x - 128"
proof -
  assume "continuation x"
  then have "(of_char x :: nat) = (of_char x - 128) + 64 * 2" "(of_char x :: nat) - 128 < 64"
    unfolding continuation_def by linarith+
  then show ?thesis by (metis mod_less mod_mult_self2)
qed

text \<open>The three multi-byte forms over the numbers the octets hold.\<close>

lemma is_valid_utf8_2:
  assumes "192 \<le> (of_char c :: nat)" "(of_char c :: nat) < 224"
  shows "is_valid_utf8 (c # d # rest) \<longleftrightarrow> continuation d \<and>
    code_allowed 2 ((of_char c - 192) * 64 + (of_char d - 128)) \<and> is_valid_utf8 rest"
proof -
  have "(of_char c :: nat) mod 32 = of_char c - 192"
    using assms by (simp add: mod_if)
  then show ?thesis
    using is_valid_utf8_multi [OF read_lead_cases(2) [OF assms, unfolded numeral_2_eq_2], of "[d]" rest]
    by (auto simp: unat_low_masks accumulate_def numeral_2_eq_2 continuation_mod)
qed

lemma is_valid_utf8_3:
  assumes "224 \<le> (of_char c :: nat)" "(of_char c :: nat) < 240"
  shows "is_valid_utf8 (c # d # e # rest) \<longleftrightarrow> continuation d \<and> continuation e \<and>
    code_allowed 3 ((of_char c - 224) * 4096 + (of_char d - 128) * 64 + (of_char e - 128)) \<and>
    is_valid_utf8 rest"
proof -
  have "(of_char c :: nat) mod 16 = of_char c - 224"
    using assms by (simp add: mod_if)
  then show ?thesis
    using is_valid_utf8_multi [OF read_lead_cases(3) [OF assms, unfolded numeral_3_eq_3], of "[d, e]" rest]
    by (auto simp: unat_low_masks accumulate_def numeral_3_eq_3 continuation_mod algebra_simps)
qed

lemma is_valid_utf8_4:
  assumes "240 \<le> (of_char c :: nat)" "(of_char c :: nat) < 248"
  shows "is_valid_utf8 (c # d # e # f # rest) \<longleftrightarrow> continuation d \<and> continuation e \<and> continuation f \<and>
    code_allowed 4 ((of_char c - 240) * 262144 + (of_char d - 128) * 4096 +
      (of_char e - 128) * 64 + (of_char f - 128)) \<and> is_valid_utf8 rest"
proof -
  have "(of_char c :: nat) mod 8 = of_char c - 240"
    using assms by (simp add: mod_if)
  moreover have "(4 :: nat) = Suc 3" by simp
  ultimately show ?thesis
    using is_valid_utf8_multi [OF read_lead_cases(4) [OF assms, unfolded \<open>4 = Suc 3\<close>], of "[d, e, f]" rest]
    by (auto simp: unat_low_masks accumulate_def continuation_mod algebra_simps)
qed

lemma continuation_char_of [simp]: "n < 64 \<Longrightarrow> continuation (char_of (128 + n :: nat))"
  by (simp add: continuation_def)

lemma digits_64:
  fixes n :: nat
  shows "n div 64 * 64 + n mod 64 = n"
    and "n div 4096 * 64 + n div 64 mod 64 = n div 64"
    and "n div 262144 * 64 + n div 4096 mod 64 = n div 4096"
proof -
  show "n div 4096 * 64 + n div 64 mod 64 = n div 64"
    using div_mult_mod_eq [of "n div 64" 64] by (simp flip: div_mult2_eq)
  show "n div 262144 * 64 + n div 4096 mod 64 = n div 4096"
    using div_mult_mod_eq [of "n div 4096" 64] by (simp flip: div_mult2_eq)
qed simp

lemma is_valid_utf8_encode [simp]:
  assumes "scalar_value cp"
  shows "is_valid_utf8 (utf8_encode cp @ rest) \<longleftrightarrow> is_valid_utf8 rest"
proof -
  have top: "cp < 0x110000" using assms by (simp add: scalar_value_def)
  consider "cp < 0x80" | "0x80 \<le> cp" "cp < 0x800" | "0x800 \<le> cp" "cp < 0x10000" | "0x10000 \<le> cp"
    by linarith
  then show ?thesis
  proof cases
    case 1
    then show ?thesis by (simp add: utf8_encode_def is_valid_utf8_ascii)
  next
    case 2
    then have "cp div 64 < 32" by simp
    moreover have "cp div 64 * 64 + cp mod 64 = cp" by simp
    ultimately show ?thesis
      using 2 assms by (simp add: utf8_encode_def is_valid_utf8_2 code_allowed_def)
  next
    case 3
    then have "cp div 4096 < 16" by simp
    moreover have "cp div 4096 * 4096 + cp div 64 mod 64 * 64 + cp mod 64 = cp"
      using digits_64(1,2) [of cp] by linarith
    ultimately show ?thesis
      using 3 assms by (simp add: utf8_encode_def is_valid_utf8_3 code_allowed_def)
  next
    case 4
    with top have "cp div 262144 < 8" by simp
    moreover have "cp div 262144 * 262144 + cp div 4096 mod 64 * 4096 + cp div 64 mod 64 * 64 + cp mod 64 = cp"
      using digits_64 [of cp] by linarith
    ultimately show ?thesis
      using 4 assms by (simp add: utf8_encode_def is_valid_utf8_4 code_allowed_def)
  qed
qed

text \<open>Conversely the first character of an accepted text is an encoded scalar value.\<close>

lemma char_of_eqI: "n < 256 \<Longrightarrow> of_char c = (n :: nat) \<Longrightarrow> char_of n = c"
  by auto

lemma encode_digits:
  fixes a b :: nat
  assumes "b < 64"
  shows "(a * 64 + b) div 64 = a" and "(a * 64 + b) mod 64 = b"
  using assms by simp_all

lemma utf8_encode_2:
  assumes "192 \<le> (of_char c :: nat)" "(of_char c :: nat) < 224" "continuation d"
    and "code_allowed 2 ((of_char c - 192) * 64 + (of_char d - 128))"
  shows "utf8_encode ((of_char c - 192) * 64 + (of_char d - 128)) = [c, d]"
proof -
  define a b where "a = (of_char c :: nat) - 192" and "b = (of_char d :: nat) - 128"
  have c: "of_char c = 192 + a" "a < 32" and d: "of_char d = 128 + b" "b < 64"
    using assms(1-3) by (auto simp: a_def b_def continuation_def)
  then have "a * 64 + b < 0x800" by linarith
  with assms(4) show ?thesis
    unfolding a_def [symmetric] b_def [symmetric]
    using c d by (simp add: utf8_encode_def code_allowed_def encode_digits char_of_eqI)
qed

lemma utf8_encode_3:
  assumes "224 \<le> (of_char c :: nat)" "(of_char c :: nat) < 240" "continuation d" "continuation e"
    and "code_allowed 3 ((of_char c - 224) * 4096 + (of_char d - 128) * 64 + (of_char e - 128))"
  shows "utf8_encode ((of_char c - 224) * 4096 + (of_char d - 128) * 64 + (of_char e - 128)) = [c, d, e]"
proof -
  define a b b' where "a = (of_char c :: nat) - 224" and "b = (of_char d :: nat) - 128"
    and "b' = (of_char e :: nat) - 128"
  have c: "of_char c = 224 + a" "a < 16" and d: "of_char d = 128 + b" "b < 64"
    and e: "of_char e = 128 + b'" "b' < 64"
    using assms(1-4) by (auto simp: a_def b_def b'_def continuation_def)
  define cp where "cp = a * 4096 + b * 64 + b'"
  have cp: "cp = (a * 64 + b) * 64 + b'" by (simp add: cp_def)
  have q1: "cp div 64 = a * 64 + b" and r1: "cp mod 64 = b'"
    unfolding cp using e by (simp_all only: encode_digits)
  have "cp div 4096 = cp div 64 div 64" by (simp flip: div_mult2_eq)
  then have q2: "cp div 4096 = a" using d by (simp add: q1 encode_digits)
  have r2: "cp div 64 mod 64 = b" using d by (simp add: q1 encode_digits)
  have "cp < 0x10000" using c d e by (simp add: cp_def)
  with assms(5) show ?thesis
    unfolding a_def [symmetric] b_def [symmetric] b'_def [symmetric] cp_def [symmetric]
    using c d e by (simp add: utf8_encode_def code_allowed_def q2 r2 r1 char_of_eqI)
qed

lemma utf8_encode_4:
  assumes "240 \<le> (of_char c :: nat)" "(of_char c :: nat) < 248"
    and "continuation d" "continuation e" "continuation f"
    and "code_allowed 4 ((of_char c - 240) * 262144 + (of_char d - 128) * 4096 +
      (of_char e - 128) * 64 + (of_char f - 128))"
  shows "utf8_encode ((of_char c - 240) * 262144 + (of_char d - 128) * 4096 +
      (of_char e - 128) * 64 + (of_char f - 128)) = [c, d, e, f]"
proof -
  define a b b' b'' where "a = (of_char c :: nat) - 240" and "b = (of_char d :: nat) - 128"
    and "b' = (of_char e :: nat) - 128" and "b'' = (of_char f :: nat) - 128"
  have c: "of_char c = 240 + a" "a < 8" and d: "of_char d = 128 + b" "b < 64"
    and e: "of_char e = 128 + b'" "b' < 64" and f: "of_char f = 128 + b''" "b'' < 64"
    using assms(1-5) by (auto simp: a_def b_def b'_def b''_def continuation_def)
  define cp where "cp = a * 262144 + b * 4096 + b' * 64 + b''"
  have cp: "cp = ((a * 64 + b) * 64 + b') * 64 + b''" by (simp add: cp_def)
  have q1: "cp div 64 = (a * 64 + b) * 64 + b'" and r1: "cp mod 64 = b''"
    unfolding cp using f by (simp_all only: encode_digits)
  have "cp div 4096 = cp div 64 div 64" by (simp flip: div_mult2_eq)
  then have q2: "cp div 4096 = a * 64 + b" using e by (simp add: q1 encode_digits)
  have "cp div 262144 = cp div 4096 div 64" by (simp flip: div_mult2_eq)
  then have q3: "cp div 262144 = a" using d by (simp add: q2 encode_digits)
  have r2: "cp div 64 mod 64 = b'" unfolding q1 by (rule encode_digits(2) [OF e(2)])
  have r3: "cp div 4096 mod 64 = b" using d by (simp add: q2 encode_digits)
  show ?thesis
    using assms(6)
    unfolding a_def [symmetric] b_def [symmetric] b'_def [symmetric] b''_def [symmetric] cp_def [symmetric]
    using c d e f by (simp add: utf8_encode_def code_allowed_def q3 r3 r2 r1 char_of_eqI)
qed

lemma is_valid_utf8_first:
  assumes "is_valid_utf8 (c # cs)"
  shows "\<exists>cp rest. scalar_value cp \<and> c # cs = utf8_encode cp @ rest \<and> is_valid_utf8 rest"
proof -
  consider "(of_char c :: nat) < 128" | "128 \<le> (of_char c :: nat)" "(of_char c :: nat) < 192"
    | "192 \<le> (of_char c :: nat)" "(of_char c :: nat) < 224" | "224 \<le> (of_char c :: nat)" "(of_char c :: nat) < 240"
    | "240 \<le> (of_char c :: nat)" "(of_char c :: nat) < 248" | "248 \<le> (of_char c :: nat)" by linarith
  then show ?thesis
  proof cases
    case 1
    with assms show ?thesis
      by (intro exI [of _ "of_char c"] exI [of _ cs])
        (simp add: is_valid_utf8_ascii scalar_value_def utf8_encode_def)
  next
    case 3
    with assms is_valid_utf8_short [of c cs] obtain d rest where cs: "cs = d # rest"
      by (cases cs) (auto simp: read_lead_cases)
    with 3 assms have v: "continuation d" "is_valid_utf8 rest"
      and a: "code_allowed 2 ((of_char c - 192) * 64 + (of_char d - 128))"
      by (simp_all add: is_valid_utf8_2)
    with utf8_encode_2 [OF 3 v(1) a] cs show ?thesis
      by (metis append_Cons append_Nil code_allowed_def)
  next
    case 4
    with assms is_valid_utf8_short [of c cs] obtain d e rest where cs: "cs = d # e # rest"
      by (cases cs; cases "tl cs") (auto simp: read_lead_cases)
    with 4 assms have v: "continuation d" "continuation e" "is_valid_utf8 rest"
      and a: "code_allowed 3 ((of_char c - 224) * 4096 + (of_char d - 128) * 64 + (of_char e - 128))"
      by (simp_all add: is_valid_utf8_3)
    with utf8_encode_3 [OF 4 v(1,2) a] cs show ?thesis
      by (metis append_Cons append_Nil code_allowed_def)
  next
    case 5
    with assms is_valid_utf8_short [of c cs] obtain d e f rest where cs: "cs = d # e # f # rest"
      by (cases cs; cases "tl cs"; cases "tl (tl cs)") (auto simp: read_lead_cases)
    with 5 assms have v: "continuation d" "continuation e" "continuation f" "is_valid_utf8 rest"
      and a: "code_allowed 4 ((of_char c - 240) * 262144 + (of_char d - 128) * 4096 +
        (of_char e - 128) * 64 + (of_char f - 128))"
      by (simp_all add: is_valid_utf8_4)
    with utf8_encode_4 [OF 5 v(1-3) a] cs show ?thesis
      by (metis append_Cons append_Nil code_allowed_def)
  qed (use assms is_valid_utf8_bad_lead in auto)
qed

lemma is_valid_utf8_encodings:
  "is_valid_utf8 s \<longleftrightarrow>
     (\<exists>cps. (\<forall>cp \<in> set cps. scalar_value cp) \<and> s = concat (map utf8_encode cps))"
proof
  assume "is_valid_utf8 s"
  then show "\<exists>cps. (\<forall>cp \<in> set cps. scalar_value cp) \<and> s = concat (map utf8_encode cps)"
  proof (induction "length s" arbitrary: s rule: less_induct)
    case less
    show ?case
    proof (cases s)
      case Nil
      then show ?thesis by (intro exI [of _ "[]"]) simp
    next
      case (Cons c cs)
      with is_valid_utf8_first less.prems obtain cp rest where
        *: "scalar_value cp" "s = utf8_encode cp @ rest" "is_valid_utf8 rest" by blast
      have "utf8_encode cp \<noteq> []" by (simp add: utf8_encode_def)
      with * less.hyps [of rest] obtain cps where
        "\<forall>cp \<in> set cps. scalar_value cp" "rest = concat (map utf8_encode cps)" by auto
      with * show ?thesis by (intro exI [of _ "cp # cps"]) simp
    qed
  qed
next
  assume "\<exists>cps. (\<forall>cp \<in> set cps. scalar_value cp) \<and> s = concat (map utf8_encode cps)"
  then obtain cps where "\<forall>cp \<in> set cps. scalar_value cp" "s = concat (map utf8_encode cps)" by blast
  then show "is_valid_utf8 s" by (induction cps arbitrary: s) auto
qed

lemma is_valid_utf8_append:
  assumes "is_valid_utf8 a"
  shows "is_valid_utf8 (a @ b) \<longleftrightarrow> is_valid_utf8 b"
proof -
  from assms obtain cps where "\<forall>cp \<in> set cps. scalar_value cp" "a = concat (map utf8_encode cps)"
    unfolding is_valid_utf8_encodings by blast
  then show ?thesis by (induction cps arbitrary: a) auto
qed

lemma is_valid_utf8_ascii_text: "\<forall>c \<in> set s. (of_char c :: nat) < 128 \<Longrightarrow> is_valid_utf8 s"
  by (induction s) (simp_all add: is_valid_utf8_ascii)

lemma is_valid_utf8_ascii_list: "list_all (\<lambda>c. (of_char c :: nat) < 128) s \<Longrightarrow> is_valid_utf8 s"
  by (rule is_valid_utf8_ascii_text) (simp add: list_all_iff)

text \<open>
  C34: \<open>is_valid_utf8\<close> accepts exactly the texts that are a sequence of RFC 3629 encodings of
  Unicode scalar values: no overlong form, no surrogate, nothing beyond U+10FFFF, no truncation.
\<close>

theorem is_valid_utf8_iff_encoding:
  "is_valid_utf8 s \<longleftrightarrow>
     (\<exists>cps. (\<forall>cp \<in> set cps. scalar_value cp) \<and> s = concat (map utf8_encode cps))"
  by (rule is_valid_utf8_encodings)

theorem is_valid_utf8_iff_encoding_witness: "is_valid_utf8 (utf8_encode 0x20AC)"
  using is_valid_utf8_iff_encoding [of "utf8_encode 0x20AC"]
  by (auto simp: scalar_value_def intro!: exI [of _ "[0x20AC]"])

end
