(* ===== verification/Percent.thy ===== *)
theory Percent
  imports Errors Utf8
begin

unbundle bit_operations_syntax

text \<open>
  \<open>include/cloudevents/binding/detail/percent.hpp\<close>: the percent-encoding of attribute values
  in header values.
\<close>

section \<open>The codec\<close>

definition needs_escape :: "byte \<Rightarrow> bool" where
  "needs_escape b \<longleftrightarrow> b < 0x21 \<or> b > 0x7E \<or> b = uchar (CHR 0x22) \<or> b = uchar (CHR ''%'')"

definition hex_digit :: "nat \<Rightarrow> char" where
  "hex_digit v = char_of (if v < 10 then 48 + v else 65 + (v - 10))"

definition not_a_hex_digit :: int where "not_a_hex_digit = -1"

definition hex_value :: "char \<Rightarrow> int" where
  "hex_value c =
     (let n = int (of_char c)
      in if CHR ''0'' \<le> c \<and> c \<le> CHR ''9'' then n - 48
         else if CHR ''a'' \<le> c \<and> c \<le> CHR ''f'' then n - 97 + 10
         else if CHR ''A'' \<le> c \<and> c \<le> CHR ''F'' then n - 65 + 10
         else not_a_hex_digit)"

fun percent_encode :: "string \<Rightarrow> string" where
  "percent_encode [] = []"
| "percent_encode (c # rest) =
     (let b = uchar c
      in (if needs_escape b
          then [CHR ''%'', hex_digit (unat (drop_bit 4 b)), hex_digit (unat (b AND 0x0F))]
          else [c]) @ percent_encode rest)"

text \<open>The loop; \<open>whole\<close> is the text that an error names.\<close>

fun percent_decode_loop :: "string \<Rightarrow> string \<Rightarrow> string \<Rightarrow> string result" where
  "percent_decode_loop whole [] out = Inr out"
| "percent_decode_loop whole (c # rest) out =
     (if c \<noteq> CHR ''%'' then percent_decode_loop whole rest (out @ [c])
      else (case rest of
          h # l # rest' \<Rightarrow>
            (let high = hex_value h; low = hex_value l
             in if high < 0 \<or> low < 0
                then fail parse_error ''percent escape is not hexadecimal'' whole
                else percent_decode_loop whole rest'
                  (out @ [char_of_byte (push_bit 4 (word_of_int high) OR word_of_int low)]))
        | _ \<Rightarrow> fail parse_error ''truncated percent escape'' whole))"

definition percent_decode :: "string \<Rightarrow> string result" where
  "percent_decode txt =
     and_then (percent_decode_loop txt txt []) (\<lambda>out.
       if \<not> is_valid_utf8 out
       then fail invalid_utf8 ''the decoded header value is not well-formed UTF-8'' txt
       else Inr out)"


section \<open>The codec laws\<close>

lemma hex_value_digit:
  assumes "v < 16"
  shows "hex_value (hex_digit v) = int v" "uchar (hex_digit v) \<ge> 0x21" "uchar (hex_digit v) \<le> 0x7E"
    "hex_digit v \<noteq> CHR 0x22"
proof -
  have all: "list_all (\<lambda>v. hex_value (hex_digit v) = int v \<and> uchar (hex_digit v) \<ge> 0x21 \<and>
      uchar (hex_digit v) \<le> 0x7E \<and> hex_digit v \<noteq> CHR 0x22) [0..<16]"
    by code_simp
  from assms have "v \<in> set [0..<16]" by simp
  with all show "hex_value (hex_digit v) = int v" "uchar (hex_digit v) \<ge> 0x21" "uchar (hex_digit v) \<le> 0x7E"
    "hex_digit v \<noteq> CHR 0x22"
    unfolding list_all_iff by blast+
qed

lemma nibbles:
  fixes b :: byte
  shows "unat (drop_bit 4 b) < 16" "unat (b AND 0x0F) < 16" "push_bit 4 (drop_bit 4 b) OR (b AND 0x0F) = b"
proof -
  have m: "b AND 0x0F = take_bit 4 b" by (simp add: take_bit_eq_mask mask_eq_exp_minus_1)
  show "unat (drop_bit 4 b) < 16"
    using unat_byte_less [of b] by (simp add: drop_bit_eq_div unat_div less_mult_imp_div_less)
  show "unat (b AND 0x0F) < 16"
    unfolding m using take_bit_nat_less_exp [of 4 "unat b"] by (simp add: unsigned_take_bit_eq)
  show "push_bit 4 (drop_bit 4 b) OR (b AND 0x0F) = b"
    unfolding m by (auto simp: bit_eq_iff bit_simps)
qed

lemma percent_not_plain: "needs_escape (uchar (CHR ''%''))"
  by (simp add: needs_escape_def)

lemma percent_loop_encode: "percent_decode_loop w (percent_encode s) out = Inr (out @ s)"
proof (induction s arbitrary: out)
  case Nil
  then show ?case by simp
next
  case (Cons c s)
  have "percent_decode_loop w (percent_encode (c # s)) out = percent_decode_loop w (percent_encode s) (out @ [c])"
    using percent_not_plain nibbles(1,2) [of "uchar c"] by (auto simp: Let_def hex_value_digit nibbles(3))
  with Cons show ?case by simp
qed

text \<open>A well-formed UTF-8 text survives the header.\<close>

lemma percent_decode_encode:
  "is_valid_utf8 s \<Longrightarrow> percent_decode (percent_encode s) = Inr s"
  by (simp add: percent_decode_def percent_loop_encode)

lemma percent_printable: "0x21 \<le> uchar (CHR ''%'')" "uchar (CHR ''%'') \<le> 0x7E"
  by (simp_all add: word_le_nat_alt)

lemma percent_encode_range:
  "c \<in> set (percent_encode s) \<Longrightarrow> 0x21 \<le> uchar c \<and> uchar c \<le> 0x7E \<and> c \<noteq> CHR 0x22"
proof (induction s)
  case (Cons a s)
  show ?case
  proof (cases "needs_escape (uchar a)")
    case True
    with Cons hex_value_digit(2-4) [OF nibbles(1)] hex_value_digit(2-4) [OF nibbles(2)] show ?thesis
      using percent_printable by (auto simp: Let_def)
  next
    case False
    then have "0x21 \<le> uchar a" "uchar a \<le> 0x7E" "a \<noteq> CHR 0x22"
      by (auto simp: needs_escape_def not_less)
    with Cons False show ?thesis by (auto simp: Let_def)
  qed
qed simp

text \<open>Nothing but printable ASCII without the double quote leaves the encoder.\<close>

theorem percent_encode_printable:
  "c \<in> set (percent_encode s) \<Longrightarrow> 0x21 \<le> uchar c \<and> uchar c \<le> 0x7E \<and> c \<noteq> CHR 0x22"
  by (rule percent_encode_range)

lemma percent_decode_utf8: "percent_decode s = Inr v \<Longrightarrow> is_valid_utf8 v"
  by (auto simp: percent_decode_def and_then_eq_Inr split: if_splits)

theorem percent_encode_printable_witness:
  "0x21 \<le> uchar (CHR ''%'') \<and> uchar (CHR ''%'') \<le> 0x7E"
proof -
  have "CHR ''%'' \<in> set (percent_encode '' '')" by code_simp
  from percent_encode_printable [OF this] show ?thesis by simp
qed

end
