(* ===== verification/Attributes.thy ===== *)
theory Attributes
  imports Timestamp_Laws Percent
begin

text \<open>
  \<open>include/cloudevents/attributes.hpp\<close> and the checks of
  \<open>include/cloudevents/detail/validated_string.hpp\<close>: attribute values, attribute names, media
  types, the policies that guard the context attributes, and the conversions between an
  extension field and its attribute text. A validated string is the text it views; that its
  \<open>make\<close> is the only way to one is the hypothesis \<open>check text = None\<close> of the lemmas here.
\<close>

datatype attribute_value =
    Bool bool
  | Int32 int
  | Str string
  | Bin binary
  | Uri string
  | Uri_ref string
  | Time timestamp

record json_text =
  raw :: string

record lint_warning =
  w_attribute :: string
  w_message :: string


section \<open>ASCII case\<close>

definition ascii_lower :: "char \<Rightarrow> char" where
  "ascii_lower c = (if CHR ''A'' \<le> c \<and> c \<le> CHR ''Z'' then char_of (of_char c - 65 + 97 :: nat) else c)"

definition iequals :: "string \<Rightarrow> string \<Rightarrow> bool" where
  "iequals left right \<longleftrightarrow> map ascii_lower left = map ascii_lower right"

definition iends_with :: "string \<Rightarrow> string \<Rightarrow> bool" where
  "iends_with txt suffix \<longleftrightarrow> length txt \<ge> length suffix \<and>
     map ascii_lower (drop (length txt - length suffix) txt) = map ascii_lower suffix"

definition starts_with_ignoring_case :: "string \<Rightarrow> string \<Rightarrow> bool" where
  "starts_with_ignoring_case txt prefix \<longleftrightarrow> length txt \<ge> length prefix \<and>
     map ascii_lower (take (length prefix) txt) = map ascii_lower prefix"


section \<open>Names and media types\<close>

definition name_char :: "char \<Rightarrow> bool" where
  "name_char c \<longleftrightarrow> is_lower c \<or> is_digit c"

definition attribute_name_pattern :: rx where
  "attribute_name_pattern = plus1 name_char"

definition token_char :: "char \<Rightarrow> bool" where
  "token_char c \<longleftrightarrow> is_upper c \<or> is_lower c \<or> is_digit c \<or>
     c \<in> set (CHR 0x27 # CHR 0x60 # ''!#$%&*+.^_|~-'')"

definition content_type_pattern :: rx where
  "content_type_pattern = rx_seq
     [star is_space, Group 1 (plus1 token_char), lit CHR ''/'', Group 2 (plus1 token_char),
      star is_space, Maybe (Group 3 (rx_seq [lit CHR '';'', star any_char]))]"

definition reserved_names :: "string list" where
  "reserved_names =
     [''id'', ''source'', ''specversion'', ''type'', ''datacontenttype'',
      ''dataschema'', ''subject'', ''time'', ''data'', ''data_base64'']"

definition valid_attribute_name :: "string \<Rightarrow> bool" where
  "valid_attribute_name name \<longleftrightarrow> rx_match attribute_name_pattern name \<noteq> None"

definition reserved_name :: "string \<Rightarrow> bool" where
  "reserved_name name \<longleftrightarrow> name \<in> set reserved_names"

definition is_json_content_type :: "string \<Rightarrow> bool" where
  "is_json_content_type content_type =
     (case rx_match content_type_pattern content_type of
        None \<Rightarrow> False
      | Some caps \<Rightarrow>
          let subtype = capture caps 2
          in iequals subtype ''json'' \<or> iends_with subtype ''+json'')"


section \<open>The policies\<close>

record policy =
  p_attribute :: string
  p_check :: "string \<Rightarrow> static_error option"
  p_names_offending_text :: bool

definition check_text :: "errc \<Rightarrow> string \<Rightarrow> string \<Rightarrow> string \<Rightarrow> static_error option" where
  "check_text empty_code txt attribute empty_detail =
     (if txt = [] then Some \<lparr>s_code = empty_code, s_detail = empty_detail, s_where = attribute\<rparr>
      else if \<not> is_valid_utf8 txt
      then Some \<lparr>s_code = invalid_utf8, s_detail = ''an attribute value must be well-formed UTF-8'',
                 s_where = attribute\<rparr>
      else None)"

definition id_policy :: policy where
  "id_policy = \<lparr>p_attribute = ''id'',
     p_check = (\<lambda>txt. check_text missing_required_attribute txt ''id'' ''id must be non-empty''),
     p_names_offending_text = False\<rparr>"

definition source_policy :: policy where
  "source_policy = \<lparr>p_attribute = ''source'',
     p_check = (\<lambda>txt. check_text missing_required_attribute txt ''source'' ''source must be non-empty''),
     p_names_offending_text = False\<rparr>"

definition type_policy :: policy where
  "type_policy = \<lparr>p_attribute = ''type'',
     p_check = (\<lambda>txt. check_text missing_required_attribute txt ''type'' ''type must be non-empty''),
     p_names_offending_text = False\<rparr>"

definition subject_policy :: policy where
  "subject_policy = \<lparr>p_attribute = ''subject'',
     p_check = (\<lambda>txt. check_text invalid_attribute_value txt ''subject'' ''subject is present but empty''),
     p_names_offending_text = False\<rparr>"

definition dataschema_policy :: policy where
  "dataschema_policy = \<lparr>p_attribute = ''dataschema'',
     p_check = (\<lambda>txt. check_text invalid_attribute_value txt ''dataschema'' ''dataschema is present but empty''),
     p_names_offending_text = False\<rparr>"

definition check_content_type :: "string \<Rightarrow> static_error option" where
  "check_content_type txt =
     (case check_text invalid_attribute_value txt ''datacontenttype'' ''datacontenttype is present but empty'' of
        Some refused \<Rightarrow> Some refused
      | None \<Rightarrow>
          if rx_match content_type_pattern txt = None
          then Some \<lparr>s_code = invalid_content_type, s_detail = ''not a valid media type'',
                     s_where = ''datacontenttype''\<rparr>
          else None)"

definition datacontenttype_policy :: policy where
  "datacontenttype_policy = \<lparr>p_attribute = ''datacontenttype'', p_check = check_content_type,
     p_names_offending_text = False\<rparr>"

definition check_extension_name :: "string \<Rightarrow> static_error option" where
  "check_extension_name txt =
     (if \<not> valid_attribute_name txt
      then Some \<lparr>s_code = invalid_attribute_name, s_detail = ''extension names must match [a-z0-9]+'',
                 s_where = ''extension''\<rparr>
      else if reserved_name txt
      then Some \<lparr>s_code = reserved_attribute_name,
                 s_detail = ''an extension may not redefine a context attribute'', s_where = ''extension''\<rparr>
      else None)"

definition extension_name_policy :: policy where
  "extension_name_policy = \<lparr>p_attribute = ''extension'', p_check = check_extension_name,
     p_names_offending_text = True\<rparr>"

text \<open>\<open>validated_string<Policy>::make\<close>.\<close>

definition make_validated :: "policy \<Rightarrow> string \<Rightarrow> string result" where
  "make_validated p txt =
     (case p_check p txt of
        Some refused \<Rightarrow> if p_names_offending_text p then fail_static_at refused txt else fail_static refused
      | None \<Rightarrow> Inr txt)"

definition spec_version_view :: string where "spec_version_view = ''1.0''"

definition spec_version_make :: "string \<Rightarrow> unit result" where
  "spec_version_make txt =
     (if txt \<noteq> ''1.0''
      then fail unsupported_spec_version ''this SDK implements CloudEvents 1.0 only'' ''specversion''
      else Inr ())"

text \<open>\<open>detail::store_attribute\<close>: the slot's new value.\<close>

definition store_attribute :: "policy \<Rightarrow> string \<Rightarrow> (string option) result" where
  "store_attribute p txt =
     (case make_validated p txt of
        Inl e \<Rightarrow> fail (err_code e) (err_detail e) (err_where e)
      | Inr made \<Rightarrow> Inr (Some made))"


section \<open>Extension fields\<close>

datatype field_kind = F_bool | F_int32 | F_string | F_uri | F_uri_ref | F_time

definition from_attribute_text :: "field_kind \<Rightarrow> string \<Rightarrow> string \<Rightarrow> attribute_value result" where
  "from_attribute_text F txt loc =
     (case F of
        F_string \<Rightarrow> Inr (Str txt)
      | F_uri \<Rightarrow> Inr (Uri txt)
      | F_uri_ref \<Rightarrow> Inr (Uri_ref txt)
      | F_bool \<Rightarrow>
          if txt = ''true'' then Inr (Bool True)
          else if txt = ''false'' then Inr (Bool False)
          else fail type_mismatch (''expected '' @ [CHR 0x22] @ ''true'' @ [CHR 0x22] @ '' or '' @
            [CHR 0x22] @ ''false'' @ [CHR 0x22]) loc
      | F_int32 \<Rightarrow>
          (case from_chars_int32 txt of
             Some (parsed, []) \<Rightarrow> Inr (Int32 parsed)
           | _ \<Rightarrow> fail type_mismatch ''expected an integer'' loc)
      | F_time \<Rightarrow>
          (case parse_timestamp txt of
             Inl e \<Rightarrow> fail type_mismatch (err_detail e) loc
           | Inr parsed \<Rightarrow> Inr (Time parsed)))"

definition has_kind :: "field_kind \<Rightarrow> attribute_value \<Rightarrow> bool" where
  "has_kind F v \<longleftrightarrow>
     (case v of Bool _ \<Rightarrow> F = F_bool | Int32 _ \<Rightarrow> F = F_int32 | Str _ \<Rightarrow> F = F_string | Bin _ \<Rightarrow> False
      | Uri _ \<Rightarrow> F = F_uri | Uri_ref _ \<Rightarrow> F = F_uri_ref | Time _ \<Rightarrow> F = F_time)"

definition read_attribute :: "field_kind \<Rightarrow> attribute_value \<Rightarrow> string \<Rightarrow> attribute_value result" where
  "read_attribute F stored loc =
     (if has_kind F stored then Inr stored
      else (case stored of
          Str txt \<Rightarrow> from_attribute_text F txt loc
        | _ \<Rightarrow> fail type_mismatch ''the stored attribute has an unrelated type'' loc))"

definition to_bytes :: "string \<Rightarrow> binary" where
  "to_bytes txt = map uchar txt"

definition to_text :: "binary \<Rightarrow> string" where
  "to_text bs = map char_of_byte bs"

lemma to_text_to_bytes [simp, ce_codec]: "to_text (to_bytes s) = s"
  by (simp add: to_text_def to_bytes_def comp_def)

lemma to_bytes_to_text [simp, ce_codec]: "to_bytes (to_text b) = b"
  by (simp add: to_text_def to_bytes_def comp_def)


section \<open>Case-insensitive comparison\<close>

lemma ascii_lower_idem [simp]: "ascii_lower (ascii_lower c) = ascii_lower c"
  by (auto simp: ascii_lower_def less_eq_char_def)

lemma iequals_refl [simp]: "iequals s s"
  by (simp add: iequals_def)

lemma iequals_lower [simp]: "iequals (map ascii_lower s) t \<longleftrightarrow> iequals s t"
  by (simp add: iequals_def comp_def)

lemma starts_with_append:
  "starts_with_ignoring_case txt prefix \<longleftrightarrow>
     (\<exists>p rest. txt = p @ rest \<and> map ascii_lower p = map ascii_lower prefix)"
proof
  assume *: "starts_with_ignoring_case txt prefix"
  then show "\<exists>p rest. txt = p @ rest \<and> map ascii_lower p = map ascii_lower prefix"
    unfolding starts_with_ignoring_case_def
    by (intro exI [of _ "take (length prefix) txt"] exI [of _ "drop (length prefix) txt"]) simp
next
  assume "\<exists>p rest. txt = p @ rest \<and> map ascii_lower p = map ascii_lower prefix"
  then obtain p rest where *: "txt = p @ rest" "map ascii_lower p = map ascii_lower prefix" by blast
  from *(2) have "length p = length prefix" by (metis length_map)
  with * show "starts_with_ignoring_case txt prefix" by (simp add: starts_with_ignoring_case_def)
qed


section \<open>What the policies accept\<close>

lemma valid_attribute_name_iff:
  "valid_attribute_name s \<longleftrightarrow> s \<noteq> [] \<and> (\<forall>c \<in> set s. name_char c)"
  unfolding valid_attribute_name_def attribute_name_pattern_def rx_match_iff rx_parse_plus1 by simp

lemma name_char_ascii: "name_char c \<Longrightarrow> (of_char c :: nat) < 128"
  by (auto simp: name_char_def is_lower_def is_digit_def less_eq_char_def)

lemma check_text_None: "check_text e t a d = None \<longleftrightarrow> t \<noteq> [] \<and> is_valid_utf8 t"
  by (simp add: check_text_def)

lemma check_text_Some: "check_text e t a d = Some r \<Longrightarrow> s_where r = a"
  by (auto simp: check_text_def split: if_splits)

lemma check_extension_name_None:
  "check_extension_name t = None \<longleftrightarrow> valid_attribute_name t \<and> \<not> reserved_name t"
  by (simp add: check_extension_name_def)

lemma check_content_type_None:
  "check_content_type t = None \<longleftrightarrow> t \<noteq> [] \<and> is_valid_utf8 t \<and> rx_match content_type_pattern t \<noteq> None"
  by (auto simp: check_content_type_def check_text_def)

text \<open>
  The contract every policy gives to the code that stores attributes: a refusal names the
  attribute, and what is accepted is non-empty well-formed UTF-8.
\<close>

locale attribute_policy =
  fixes p :: policy
  assumes refused_where: "p_check p t = Some r \<Longrightarrow> s_where r = p_attribute p"
    and accepted: "p_check p t = None \<Longrightarrow> t \<noteq> [] \<and> is_valid_utf8 t"
begin

lemma make_Inr: "make_validated p t = Inr v \<longleftrightarrow> v = t \<and> p_check p t = None"
  by (auto simp: make_validated_def fail_static_def fail_static_at_def split: option.splits)

lemma make_accepted: "make_validated p t = Inr v \<Longrightarrow> v = t \<and> v \<noteq> [] \<and> is_valid_utf8 v"
  using accepted by (auto simp: make_Inr)

lemma make_Inl_where:
  "make_validated p t = Inl e \<Longrightarrow> err_where e = (if p_names_offending_text p then t else p_attribute p)"
  using refused_where
  by (auto simp: make_validated_def fail_static_def fail_static_at_def widen_def split: option.splits if_splits)

lemma store_Inr: "store_attribute p t = Inr slot \<longleftrightarrow> slot = Some t \<and> p_check p t = None"
  by (auto simp: store_attribute_def make_validated_def fail_static_def fail_static_at_def split: option.splits)

end

interpretation id_rules: attribute_policy id_policy
  by unfold_locales (auto simp: id_policy_def check_text_None dest: check_text_Some)

interpretation source_rules: attribute_policy source_policy
  by unfold_locales (auto simp: source_policy_def check_text_None dest: check_text_Some)

interpretation type_rules: attribute_policy type_policy
  by unfold_locales (auto simp: type_policy_def check_text_None dest: check_text_Some)

interpretation subject_rules: attribute_policy subject_policy
  by unfold_locales (auto simp: subject_policy_def check_text_None dest: check_text_Some)

interpretation dataschema_rules: attribute_policy dataschema_policy
  by unfold_locales (auto simp: dataschema_policy_def check_text_None dest: check_text_Some)

interpretation datacontenttype_rules: attribute_policy datacontenttype_policy
  by unfold_locales (auto simp: datacontenttype_policy_def check_content_type_def check_text_None
      dest: check_text_Some split: option.splits if_splits)

interpretation extension_name_rules: attribute_policy extension_name_policy
  by unfold_locales (auto simp: extension_name_policy_def check_extension_name_def
      valid_attribute_name_iff intro!: is_valid_utf8_ascii_text name_char_ascii split: if_splits)

definition context_policies :: "policy list" where
  "context_policies =
     [id_policy, source_policy, type_policy, subject_policy, dataschema_policy,
      datacontenttype_policy, extension_name_policy]"

text \<open>
  Whatever text a policy's \<open>make\<close> lets through, unchanged, is non-empty well-formed UTF-8,
  and a refusal says which attribute, or which extension name, it refused.
\<close>

theorem make_validates:
  assumes "p \<in> set context_policies"
  shows "(\<forall>v. make_validated p t = Inr v \<longrightarrow> v = t \<and> v \<noteq> [] \<and> is_valid_utf8 v) \<and>
    (\<forall>e. make_validated p t = Inl e \<longrightarrow> err_where e = (if p_names_offending_text p then t else p_attribute p))"
  using assms unfolding context_policies_def list.set insert_iff empty_iff
  by (elim disjE FalseE; hypsubst)
    (blast dest: id_rules.make_accepted id_rules.make_Inl_where,
     blast dest: source_rules.make_accepted source_rules.make_Inl_where,
     blast dest: type_rules.make_accepted type_rules.make_Inl_where,
     blast dest: subject_rules.make_accepted subject_rules.make_Inl_where,
     blast dest: dataschema_rules.make_accepted dataschema_rules.make_Inl_where,
     blast dest: datacontenttype_rules.make_accepted datacontenttype_rules.make_Inl_where,
     blast dest: extension_name_rules.make_accepted extension_name_rules.make_Inl_where)

theorem make_validates_witness:
  "make_validated id_policy ''a-1'' = Inr ''a-1'' \<and> is_valid_utf8 ''a-1'' \<and>
     (case make_validated id_policy [] of Inl e \<Rightarrow> err_where e = ''id'' | Inr _ \<Rightarrow> False)"
proof -
  have "id_policy \<in> set context_policies" by (simp add: context_policies_def)
  note m = make_validates [OF this, of "''a-1''"] make_validates [OF this, of "[]"]
  have "make_validated id_policy ''a-1'' = Inr ''a-1''"
    by (simp add: make_validated_def id_policy_def check_text_def is_valid_utf8_ascii_list)
  moreover have "is_valid_utf8 ''a-1''" by (simp add: is_valid_utf8_ascii_list)
  moreover have "\<exists>e. make_validated id_policy [] = Inl e"
    by (simp add: make_validated_def id_policy_def check_text_def fail_static_def)
  ultimately show ?thesis using m by (auto simp: id_policy_def)
qed


section \<open>Media types\<close>

definition media_type :: "string \<Rightarrow> string \<Rightarrow> string \<Rightarrow> bool" where
  "media_type s main sub \<longleftrightarrow> main \<noteq> [] \<and> sub \<noteq> [] \<and>
     (\<forall>c \<in> set main. token_char c) \<and> (\<forall>c \<in> set sub. token_char c) \<and>
     (\<exists>a b tail. (\<forall>c \<in> set a. is_space c) \<and> (\<forall>c \<in> set b. is_space c) \<and>
        (tail = [] \<or> hd tail = CHR '';'') \<and> s = a @ main @ ''/'' @ sub @ b @ tail)"

lemma token_not_space: "token_char c \<Longrightarrow> \<not> is_space c \<and> c \<noteq> CHR ''/'' \<and> c \<noteq> CHR '';''"
  by (auto simp: token_char_def is_space_def is_upper_def is_lower_def is_digit_def less_eq_char_def)

lemma takeWhile_stop:
  "\<forall>c \<in> set u. P c \<Longrightarrow> v = [] \<or> \<not> P (hd v) \<Longrightarrow> takeWhile P (u @ v) = u \<and> dropWhile P (u @ v) = v"
  by (cases v) auto

lemma media_type_parts:
  assumes "media_type s m sub"
  shows "m = takeWhile token_char (dropWhile is_space s)"
    "sub = takeWhile token_char (drop (Suc (length m)) (dropWhile is_space s))"
proof -
  from assms obtain a b tail where ab: "\<forall>c \<in> set a. is_space c" "\<forall>c \<in> set b. is_space c"
    "tail = [] \<or> hd tail = CHR '';''" "s = a @ m @ ''/'' @ sub @ b @ tail"
    and tok: "m \<noteq> []" "sub \<noteq> []" "\<forall>c \<in> set m. token_char c" "\<forall>c \<in> set sub. token_char c"
    unfolding media_type_def by blast
  let ?r = "b @ tail"
  have "\<not> is_space (hd (m @ ''/'' @ sub @ ?r))" using tok token_not_space by (cases m) auto
  then have 1: "dropWhile is_space s = m @ ''/'' @ sub @ ?r"
    using takeWhile_stop [of a is_space "m @ ''/'' @ sub @ ?r"] ab by simp
  have "\<not> token_char (hd (''/'' @ sub @ ?r))" using token_not_space [of "CHR ''/''"] by auto
  then show "m = takeWhile token_char (dropWhile is_space s)"
    using takeWhile_stop [of m token_char "''/'' @ sub @ ?r"] tok 1 by simp
  have "?r = [] \<or> \<not> token_char (hd ?r)"
  proof (cases b)
    case Nil
    with ab(3) token_not_space [of "CHR '';''"] show ?thesis by auto
  next
    case (Cons c cs)
    with ab(2) token_not_space [of c] show ?thesis by auto
  qed
  then show "sub = takeWhile token_char (drop (Suc (length m)) (dropWhile is_space s))"
    using takeWhile_stop [of sub token_char ?r] tok 1 by simp
qed

lemma parse_then_star:
  "rx_parse (Then (star P) b) w c c' \<longleftrightarrow> (\<exists>u v. w = u @ v \<and> (\<forall>x \<in> set u. P x) \<and> rx_parse b v c c')"
  unfolding rx_parse_Then rx_parse_star by blast

lemma parse_then_plus:
  "rx_parse (Then (Group i (plus1 P)) b) w c c' \<longleftrightarrow>
     (\<exists>u v. w = u @ v \<and> u \<noteq> [] \<and> (\<forall>x \<in> set u. P x) \<and> rx_parse b v ((i, u) # c) c')"
  unfolding rx_parse_Then rx_parse_Group rx_parse_plus1 by blast

lemma parse_parameters:
  "rx_parse (Maybe (Group 3 (Then (lit CHR '';'') (star any_char)))) u c c' \<longleftrightarrow>
     u = [] \<and> c' = c \<or> (\<exists>v. u = CHR '';'' # v) \<and> c' = (3, u) # c"
  unfolding rx_parse_Maybe rx_parse_Group parse_then_once rx_parse_star by (auto simp: any_char_def)

lemma content_type_parse:
  "rx_parse content_type_pattern s [] caps \<longleftrightarrow>
     (\<exists>a main sub b tail. s = a @ main @ ''/'' @ sub @ b @ tail \<and> (\<forall>c \<in> set a. is_space c) \<and>
        main \<noteq> [] \<and> (\<forall>c \<in> set main. token_char c) \<and> sub \<noteq> [] \<and> (\<forall>c \<in> set sub. token_char c) \<and>
        (\<forall>c \<in> set b. is_space c) \<and>
        (tail = [] \<and> caps = [(2, sub), (1, main)] \<or>
         (\<exists>v. tail = CHR '';'' # v) \<and> caps = [(3, tail), (2, sub), (1, main)]))"
  (is "?l \<longleftrightarrow> ?r")
proof
  assume ?l
  then show ?r
    unfolding content_type_pattern_def rx_seq.simps parse_then_star parse_then_plus parse_then_once
      parse_parameters
    by (elim exE conjE) (intro exI conjI, assumption?, simp, assumption+)
next
  assume ?r
  then obtain a main sub b tail where p: "s = a @ main @ ''/'' @ sub @ b @ tail" "\<forall>c \<in> set a. is_space c"
    "main \<noteq> []" "\<forall>c \<in> set main. token_char c" "sub \<noteq> []" "\<forall>c \<in> set sub. token_char c"
    "\<forall>c \<in> set b. is_space c"
    "tail = [] \<and> caps = [(2, sub), (1, main)] \<or>
       (\<exists>v. tail = CHR '';'' # v) \<and> caps = [(3, tail), (2, sub), (1, main)]" by blast
  show ?l
    unfolding content_type_pattern_def rx_seq.simps parse_then_star parse_then_plus parse_then_once
      parse_parameters p(1)
    by (rule exI [of _ a], rule exI [of _ "main @ ''/'' @ sub @ b @ tail"], intro conjI refl p(2),
        rule exI [of _ main], rule exI [of _ "''/'' @ sub @ b @ tail"], intro conjI refl p(3,4),
        rule exI [of _ "CHR ''/''"], rule exI [of _ "sub @ b @ tail"], intro conjI refl,
        rule exI [of _ sub], rule exI [of _ "b @ tail"], intro conjI refl p(5,6),
        rule exI [of _ b], rule exI [of _ tail], intro conjI refl p(7,8))
qed

lemma media_type_parse:
  "rx_parse content_type_pattern s [] caps \<Longrightarrow> \<exists>main sub. media_type s main sub \<and> capture caps 2 = sub"
  unfolding content_type_parse media_type_def
proof (elim exE conjE)
  fix a main sub b tail
  assume p: "s = a @ main @ ''/'' @ sub @ b @ tail" "\<forall>c \<in> set a. is_space c"
    "main \<noteq> []" "\<forall>c \<in> set main. token_char c" "sub \<noteq> []" "\<forall>c \<in> set sub. token_char c"
    "\<forall>c \<in> set b. is_space c"
    "tail = [] \<and> caps = [(2, sub), (1, main)] \<or>
       (\<exists>v. tail = CHR '';'' # v) \<and> caps = [(3, tail), (2, sub), (1, main)]"
  from p(8) have t: "tail = [] \<or> hd tail = CHR '';''" and c: "capture caps 2 = sub"
    by (auto simp: capture_def)
  show "\<exists>main sub. (main \<noteq> [] \<and> sub \<noteq> [] \<and>
     (\<forall>c \<in> set main. token_char c) \<and> (\<forall>c \<in> set sub. token_char c) \<and>
     (\<exists>a b tail. (\<forall>c \<in> set a. is_space c) \<and> (\<forall>c \<in> set b. is_space c) \<and>
        (tail = [] \<or> hd tail = CHR '';'') \<and> s = a @ main @ ''/'' @ sub @ b @ tail)) \<and> capture caps 2 = sub"
    by (rule exI [of _ main], rule exI [of _ sub], intro conjI p(3-6) c,
        rule exI [of _ a], rule exI [of _ b], rule exI [of _ tail], intro conjI p t)
qed

lemma media_type_parses:
  assumes "media_type s main sub"
  shows "\<exists>caps. rx_parse content_type_pattern s [] caps"
proof -
  from assms obtain a b tail where p: "\<forall>c \<in> set a. is_space c" "\<forall>c \<in> set b. is_space c"
    "tail = [] \<or> hd tail = CHR '';''" "s = a @ main @ ''/'' @ sub @ b @ tail"
    "main \<noteq> []" "sub \<noteq> []" "\<forall>c \<in> set main. token_char c" "\<forall>c \<in> set sub. token_char c"
    unfolding media_type_def by blast
  let ?caps = "(if tail = [] then [] else [(3, tail)]) @ [(2, sub), (1, main)]"
  have t: "tail = [] \<and> ?caps = [(2, sub), (1, main)] \<or>
       (\<exists>v. tail = CHR '';'' # v) \<and> ?caps = [(3, tail), (2, sub), (1, main)]"
    using p(3) by (cases tail) auto
  show ?thesis
    by (rule exI [of _ ?caps], unfold content_type_parse,
        rule exI [of _ a], rule exI [of _ main], rule exI [of _ sub], rule exI [of _ b], rule exI [of _ tail],
        intro conjI p t)
qed

lemma media_type_match:
  "(\<exists>caps. rx_match content_type_pattern s = Some caps) \<longleftrightarrow> (\<exists>main sub. media_type s main sub)"
  using media_type_parse [of s] media_type_parses [of s] rx_match_iff [of content_type_pattern s] by blast

lemma media_type_captures:
  assumes "rx_match content_type_pattern s = Some caps" "media_type s main sub"
  shows "capture caps 2 = sub"
proof -
  from media_type_parse [OF rx_match_sound [OF assms(1)]] obtain m' sub' where
    "media_type s m' sub'" "capture caps 2 = sub'" by blast
  with media_type_parts [OF this(1)] media_type_parts [OF assms(2)] show ?thesis by simp
qed

text \<open>
  A media type is accepted exactly when it is two tokens around a slash, with optional white
  space and an optional parameter tail.
\<close>

theorem content_type_accepted:
  "check_content_type s = None \<longleftrightarrow> is_valid_utf8 s \<and> (\<exists>main sub. media_type s main sub)"
proof -
  have "\<exists>main sub. media_type s main sub \<Longrightarrow> s \<noteq> []" by (auto simp: media_type_def)
  then show ?thesis using media_type_match [of s] by (auto simp: check_content_type_None)
qed

lemma is_json_content_type_iff:
  "is_json_content_type s \<longleftrightarrow>
     (\<exists>main sub. media_type s main sub \<and> (iequals sub ''json'' \<or> iends_with sub ''+json''))"
proof (cases "rx_match content_type_pattern s")
  case None
  then show ?thesis using media_type_match [of s] by (auto simp: is_json_content_type_def)
next
  case (Some caps)
  with media_type_match [of s] obtain main sub where m: "media_type s main sub" by blast
  have "capture caps 2 = sub'" if "media_type s m' sub'" for m' sub'
    using media_type_captures [OF Some that] .
  with m Some show ?thesis by (auto simp: is_json_content_type_def Let_def)
qed

end
