(* ===== verification/Validated_String.thy ===== *)
theory Validated_String
  imports Attributes
begin

text \<open>
  \<open>include/cloudevents/detail/validated_string.hpp\<close>: the class \<open>validated_string<Policy>\<close>, whose
  objects hold an owned string and a view that points either into static storage (a literal) or
  into the owned string of an object. The special member functions are modelled on a store of
  objects, with the view as the reference it is; a view into another object's buffer, or into a
  buffer that no longer exists, is representable, and the invariant says that none arises.

  The contents of a string that has been moved from are unspecified in C++: \<open>residue\<close> is what
  the move leaves behind, and nothing is assumed of it.
\<close>

section \<open>Objects\<close>

type_synonym addr = nat

datatype view = Static string | Buffer addr

record vstring =
  owned :: string
  borrowed :: view

type_synonym store = "addr \<rightharpoonup> vstring"

text \<open>The text a view shows; \<open>None\<close> is a dangling view.\<close>

definition view_text :: "store \<Rightarrow> view \<Rightarrow> string option" where
  "view_text st v =
     (case v of Static txt \<Rightarrow> Some txt
      | Buffer a \<Rightarrow> (case st a of Some obj \<Rightarrow> Some (owned obj) | None \<Rightarrow> None))"

definition object_view :: "store \<Rightarrow> addr \<Rightarrow> string option" where
  "object_view st a = (case st a of Some obj \<Rightarrow> view_text st (borrowed obj) | None \<Rightarrow> None)"


section \<open>The member functions\<close>

text \<open>The converting constructor from a literal, whose check ran at compile time.\<close>

definition from_literal :: "addr \<Rightarrow> string \<Rightarrow> store \<Rightarrow> store" where
  "from_literal this proof_text st = st(this \<mapsto> \<lparr>owned = [], borrowed = Static proof_text\<rparr>)"

definition make_object :: "policy \<Rightarrow> addr \<Rightarrow> string \<Rightarrow> store \<Rightarrow> store result" where
  "make_object p this txt st =
     (case p_check p txt of
        Some refused \<Rightarrow> if p_names_offending_text p then fail_static_at refused txt else fail_static refused
      | None \<Rightarrow> Inr (st(this \<mapsto> \<lparr>owned = txt, borrowed = Buffer this\<rparr>)))"

definition copy_construct :: "addr \<Rightarrow> addr \<Rightarrow> store \<Rightarrow> store" where
  "copy_construct this other st =
     (case st other of
        None \<Rightarrow> st
      | Some obj \<Rightarrow>
          st(this \<mapsto> \<lparr>owned = owned obj,
                     borrowed = (if owned obj = [] then borrowed obj else Buffer this)\<rparr>))"

definition move_construct :: "string \<Rightarrow> addr \<Rightarrow> addr \<Rightarrow> store \<Rightarrow> store" where
  "move_construct residue this other st =
     (case st other of
        None \<Rightarrow> st
      | Some obj \<Rightarrow>
          let taken = \<lparr>owned = owned obj, borrowed = borrowed obj\<rparr>;
              taken = (if owned taken \<noteq> [] then taken\<lparr>borrowed := Buffer this\<rparr> else taken)
          in st(this \<mapsto> taken, other \<mapsto> \<lparr>owned = residue, borrowed = Static []\<rparr>))"

definition copy_assign :: "addr \<Rightarrow> addr \<Rightarrow> store \<Rightarrow> store" where
  "copy_assign this other st =
     (if this \<noteq> other
      then (case (st this, st other) of
          (Some _, Some obj) \<Rightarrow>
            st(this \<mapsto> \<lparr>owned = owned obj,
                       borrowed = (if owned obj = [] then borrowed obj else Buffer this)\<rparr>)
        | _ \<Rightarrow> st)
      else st)"

definition move_assign :: "string \<Rightarrow> addr \<Rightarrow> addr \<Rightarrow> store \<Rightarrow> store" where
  "move_assign residue this other st =
     (if this \<noteq> other
      then (case (st this, st other) of
          (Some _, Some obj) \<Rightarrow>
            st(this \<mapsto> \<lparr>owned = owned obj,
                       borrowed = (if owned obj = [] then borrowed obj else Buffer this)\<rparr>,
               other \<mapsto> \<lparr>owned = residue, borrowed = Static []\<rparr>)
        | _ \<Rightarrow> st)
      else st)"

definition destroy :: "addr \<Rightarrow> store \<Rightarrow> store" where
  "destroy this st = st(this := None)"

definition equal_views :: "store \<Rightarrow> addr \<Rightarrow> addr \<Rightarrow> bool" where
  "equal_views st left right \<longleftrightarrow> object_view st left = object_view st right"


section \<open>Programs over validated strings\<close>

text \<open>
  One step of a program that only uses the class: objects are constructed at fresh addresses,
  assigned, and destroyed in any order. \<open>R\<close> holds what moves may leave behind.
\<close>

inductive step :: "policy \<Rightarrow> string set \<Rightarrow> store \<Rightarrow> store \<Rightarrow> bool"
  for p :: policy and R :: "string set" where
  literal: "st a = None \<Longrightarrow> p_check p txt = None \<Longrightarrow> step p R st (from_literal a txt st)"
| made: "st a = None \<Longrightarrow> make_object p a txt st = Inr st' \<Longrightarrow> step p R st st'"
| copied: "st a = None \<Longrightarrow> st b \<noteq> None \<Longrightarrow> step p R st (copy_construct a b st)"
| moved: "st a = None \<Longrightarrow> st b \<noteq> None \<Longrightarrow> residue \<in> R \<Longrightarrow>
    step p R st (move_construct residue a b st)"
| copy_assigned: "st a \<noteq> None \<Longrightarrow> st b \<noteq> None \<Longrightarrow> step p R st (copy_assign a b st)"
| move_assigned: "st a \<noteq> None \<Longrightarrow> st b \<noteq> None \<Longrightarrow> residue \<in> R \<Longrightarrow>
    step p R st (move_assign residue a b st)"
| destroyed: "st a \<noteq> None \<Longrightarrow> step p R st (destroy a st)"

inductive reachable :: "policy \<Rightarrow> string set \<Rightarrow> store \<Rightarrow> bool" for p :: policy and R :: "string set" where
  start: "reachable p R Map.empty"
| next_step: "reachable p R st \<Longrightarrow> step p R st st' \<Longrightarrow> reachable p R st'"


section \<open>No view dangles\<close>

text \<open>
  An object views static text, or its own buffer, which is then not empty. A static text is
  accepted by the policy or is the empty text of an object that has been moved from.
\<close>

definition sound_object :: "policy \<Rightarrow> string set \<Rightarrow> addr \<Rightarrow> vstring \<Rightarrow> bool" where
  "sound_object p R a obj \<longleftrightarrow>
     (case borrowed obj of
        Static txt \<Rightarrow> (p_check p txt = None \<and> owned obj = []) \<or> (txt = [] \<and> owned obj \<in> insert [] R)
      | Buffer b \<Rightarrow> b = a \<and> owned obj \<noteq> [] \<and> (p_check p (owned obj) = None \<or> owned obj \<in> R))"

definition sound :: "policy \<Rightarrow> string set \<Rightarrow> store \<Rightarrow> bool" where
  "sound p R st \<longleftrightarrow> (\<forall>a obj. st a = Some obj \<longrightarrow> sound_object p R a obj)"

lemma sound_update:
  "sound p R st \<Longrightarrow> sound_object p R a obj \<Longrightarrow> sound p R (st(a \<mapsto> obj))"
  by (simp add: sound_def)

lemma sound_moved_from: "residue \<in> R \<Longrightarrow> sound_object p R b \<lparr>owned = residue, borrowed = Static []\<rparr>"
  by (simp add: sound_object_def)

text \<open>The object a copy or a move makes of a sound one.\<close>

lemma sound_taken:
  "sound_object p R b obj \<Longrightarrow>
   sound_object p R a \<lparr>owned = owned obj, borrowed = (if owned obj = [] then borrowed obj else Buffer a)\<rparr>"
  by (auto simp: sound_object_def split: view.splits)

lemma sound_at: "sound p R st \<Longrightarrow> st b = Some obj \<Longrightarrow> sound_object p R b obj"
  by (simp add: sound_def)

lemma move_construct_eq:
  "st b = Some obj \<Longrightarrow> move_construct residue a b st =
     st(a \<mapsto> \<lparr>owned = owned obj, borrowed = (if owned obj = [] then borrowed obj else Buffer a)\<rparr>,
        b \<mapsto> \<lparr>owned = residue, borrowed = Static []\<rparr>)"
  by (simp add: move_construct_def Let_def)

context attribute_policy
begin

lemma step_sound:
  assumes "step p R st st'" "sound p R st"
  shows "sound p R st'"
  using assms
proof (induction rule: step.induct)
  case (literal st a t)
  then show ?case
    by (auto simp: from_literal_def sound_object_def simp del: fun_upd_apply intro!: sound_update)
next
  case (made st a t st')
  then have "p_check p t = None" "st' = st(a \<mapsto> \<lparr>owned = t, borrowed = Buffer a\<rparr>)"
    by (auto simp: make_object_def fail_static_def fail_static_at_def split: option.splits if_splits)
  with made accepted [of t] show ?case by (auto simp: sound_object_def simp del: fun_upd_apply intro!: sound_update)
next
  case (copied st a b)
  then obtain obj where o: "st b = Some obj" and s: "sound p R st" by blast
  from s sound_taken [OF sound_at [OF s o]]
  have "sound p R (st(a \<mapsto> \<lparr>owned = owned obj, borrowed = (if owned obj = [] then borrowed obj else Buffer a)\<rparr>))"
    by (rule sound_update)
  with copied o s show ?case by (auto simp: copy_construct_def simp del: fun_upd_apply)
next
  case (moved st a b residue)
  then obtain obj where o: "st b = Some obj" and s: "sound p R st" by blast
  from s sound_taken [OF sound_at [OF s o]]
  have "sound p R (st(a \<mapsto> \<lparr>owned = owned obj, borrowed = (if owned obj = [] then borrowed obj else Buffer a)\<rparr>))"
    by (rule sound_update)
  with sound_update [OF this sound_moved_from] moved o s show ?case by (auto simp: move_construct_eq simp del: fun_upd_apply)
next
  case (copy_assigned st a b)
  then obtain obj where o: "st b = Some obj" and s: "sound p R st" by blast
  from s sound_taken [OF sound_at [OF s o]]
  have "sound p R (st(a \<mapsto> \<lparr>owned = owned obj, borrowed = (if owned obj = [] then borrowed obj else Buffer a)\<rparr>))"
    by (rule sound_update)
  with copy_assigned o s show ?case by (auto simp: copy_assign_def simp del: fun_upd_apply)
next
  case (move_assigned st a b residue)
  then obtain obj where o: "st b = Some obj" and s: "sound p R st" by blast
  from s sound_taken [OF sound_at [OF s o]]
  have "sound p R (st(a \<mapsto> \<lparr>owned = owned obj, borrowed = (if owned obj = [] then borrowed obj else Buffer a)\<rparr>))"
    by (rule sound_update)
  with sound_update [OF this sound_moved_from] move_assigned o s show ?case by (auto simp: move_assign_def simp del: fun_upd_apply)
next
  case (destroyed st a)
  then show ?case by (simp add: sound_def destroy_def)
qed

lemma reachable_sound: "reachable p R st \<Longrightarrow> sound p R st"
proof (induction rule: reachable.induct)
  case start
  then show ?case by (simp add: sound_def)
next
  case (next_step st st')
  then show ?case using step_sound by blast
qed

lemma reachable_view:
  assumes "reachable p R st" "st a = Some obj"
  shows "\<exists>txt. object_view st a = Some txt \<and> (p_check p txt = None \<or> txt = [] \<or> txt \<in> R)"
  using reachable_sound [OF assms(1), THEN sound_at, OF assms(2)] assms(2)
  by (auto simp: object_view_def view_text_def sound_object_def split: view.splits)

end

lemma context_policy: "p \<in> set context_policies \<Longrightarrow> attribute_policy p"
  using id_rules.attribute_policy_axioms source_rules.attribute_policy_axioms
    type_rules.attribute_policy_axioms subject_rules.attribute_policy_axioms
    dataschema_rules.attribute_policy_axioms datacontenttype_rules.attribute_policy_axioms
    extension_name_rules.attribute_policy_axioms
  by (auto simp: context_policies_def)

text \<open>
  C36: however a program constructs, copies, moves, assigns and destroys validated strings, no
  view dangles, and every object shows text its policy accepted, or, once moved from, the empty
  text or what a move left behind.
\<close>

theorem validated_views_never_dangle:
  assumes "p \<in> set context_policies" "reachable p R st" "st a = Some obj"
  shows "\<exists>txt. object_view st a = Some txt \<and> (p_check p txt = None \<or> txt = [] \<or> txt \<in> R)"
  using attribute_policy.reachable_view [OF context_policy [OF assms(1)] assms(2,3)] .

text \<open>The store after a copy or move: the target as taken, and the source as left.\<close>

lemma taken_view:
  assumes "sound_object p {[]} b obj"
    and "st' a = Some \<lparr>owned = owned obj, borrowed = (if owned obj = [] then borrowed obj else Buffer a)\<rparr>"
    and "st b = Some obj"
  shows "object_view st' a = object_view st b"
  using assms by (auto simp: object_view_def view_text_def sound_object_def split: view.splits)

lemma untouched_view:
  assumes "sound p R st" "st' c = st c"
  shows "object_view st' c = object_view st c"
proof (cases "st c")
  case None
  with assms show ?thesis by (simp add: object_view_def)
next
  case (Some obj)
  with assms sound_at [OF assms(1) Some] show ?thesis
    by (auto simp: object_view_def view_text_def sound_object_def split: view.splits)
qed

text \<open>
  The class has value semantics: in a reachable store a copy or a move shows in the target
  the text the source showed, and no other object's text changes.
\<close>

theorem validated_value_semantics:
  assumes "p \<in> set context_policies" "reachable p {[]} st" "st b \<noteq> None" "a \<noteq> b"
    and "op \<in> {copy_construct a b, move_construct [] a b} \<and> st a = None \<or>
      op \<in> {copy_assign a b, move_assign [] a b} \<and> st a \<noteq> None"
  shows "object_view (op st) a = object_view st b \<and>
    (\<forall>c. c \<noteq> a \<longrightarrow> c \<noteq> b \<longrightarrow> object_view (op st) c = object_view st c)"
proof -
  from assms(1,2) have s: "sound p {[]} st"
    using attribute_policy.reachable_sound [OF context_policy] by blast
  obtain obj where obj: "st b = Some obj" using assms(3) by blast
  let ?new = "\<lparr>owned = owned obj, borrowed = (if owned obj = [] then borrowed obj else Buffer a)\<rparr>"
  have "op st a = Some ?new \<and> (\<forall>c. c \<noteq> a \<longrightarrow> c \<noteq> b \<longrightarrow> op st c = st c)"
    using assms(4,5) obj
    by (auto simp: copy_construct_def move_construct_eq copy_assign_def move_assign_def)
  with taken_view [OF sound_at [OF s obj], of "op st" a st] untouched_view [OF s] obj
  show ?thesis by blast
qed

theorem validated_views_witness:
  "\<exists>txt. object_view (from_literal 3 ''1'' Map.empty) 3 = Some txt"
proof -
  have "reachable id_policy {} (from_literal 3 ''1'' Map.empty)"
    by (rule reachable.next_step [OF reachable.start], rule step.literal)
      (simp_all add: id_policy_def check_text_None is_valid_utf8_ascii_list)
  moreover have "id_policy \<in> set context_policies" by (simp add: context_policies_def)
  moreover have "from_literal 3 ''1'' Map.empty 3 = Some \<lparr>owned = [], borrowed = Static ''1''\<rparr>"
    by (simp add: from_literal_def)
  ultimately show ?thesis using validated_views_never_dangle by blast
qed

theorem validated_value_semantics_witness:
  "object_view (copy_construct 4 3 (from_literal 3 ''1'' Map.empty)) 4 = object_view (from_literal 3 ''1'' Map.empty) 3"
proof -
  have r: "reachable id_policy {[]} (from_literal 3 ''1'' Map.empty)"
    by (rule reachable.next_step [OF reachable.start], rule step.literal)
      (simp_all add: id_policy_def check_text_None is_valid_utf8_ascii_list)
  have p: "id_policy \<in> set context_policies" by (simp add: context_policies_def)
  have "copy_construct 4 3 \<in> {copy_construct 4 3, move_construct [] 4 3} \<and> from_literal 3 ''1'' Map.empty 4 = None \<or>
      copy_construct 4 3 \<in> {copy_assign 4 3, move_assign [] 4 3} \<and> from_literal 3 ''1'' Map.empty 4 \<noteq> None"
    by (simp add: from_literal_def)
  moreover have "from_literal 3 ''1'' Map.empty 3 \<noteq> None" "(4 :: addr) \<noteq> 3" by (simp_all add: from_literal_def)
  ultimately show ?thesis using validated_value_semantics [OF p r] by blast
qed

end
