(* ===== verification/Json_Slice.thy ===== *)
theory Json_Slice
  imports Attributes
begin

unbundle bit_operations_syntax

text \<open>
  \<open>include/cloudevents/format/detail/json_slice.hpp\<close>: the scanner that finds the text of the
  \<open>data\<close> member of an event inside the text of the event, without building a value. The string
  scanner reads eight octets at a time as one 64-bit word.
\<close>

section \<open>Character classes\<close>

datatype char_class =
  C_other | C_whitespace | C_open | C_close | C_comma | C_colon | C_quote | C_scalar_start

definition json_whitespace :: string where
  "json_whitespace = [CHR '' '', CHR 0x09, CHR 0x0A, CHR 0x0D]"

definition scalar_first_characters :: string where
  "scalar_first_characters = ''-0123456789tfn''"

definition single_character_escapes :: string where
  "single_character_escapes = CHR 0x22 # CHR 0x5C # ''/bfnrt''"

definition hex_digits :: string where
  "hex_digits = ''0123456789abcdefABCDEF''"

definition class_of :: "char \<Rightarrow> char_class" where
  "class_of c =
     (if c \<in> set scalar_first_characters then C_scalar_start
      else if c = CHR 0x22 then C_quote
      else if c = CHR '':'' then C_colon
      else if c = CHR '','' then C_comma
      else if c \<in> set ''}]'' then C_close
      else if c \<in> set ''{['' then C_open
      else if c \<in> set json_whitespace then C_whitespace
      else C_other)"

definition ends_scalar :: "char \<Rightarrow> bool" where
  "ends_scalar c \<longleftrightarrow> class_of c = C_whitespace \<or> class_of c = C_close \<or> class_of c = C_comma"

definition ends_string_run :: "char \<Rightarrow> bool" where
  "ends_string_run c \<longleftrightarrow> c = CHR 0x22 \<or> c = CHR 0x5C \<or> uchar c < 0x20"

definition json_number_pattern :: rx where
  "json_number_pattern = rx_seq
     [Maybe (lit CHR ''-''),
      Or (lit CHR ''0'') (rx_seq [once (\<lambda>c. CHR ''1'' \<le> c \<and> c \<le> CHR ''9''), star is_digit]),
      Maybe (rx_seq [lit CHR ''.'', plus1 is_digit]),
      Maybe (rx_seq [once (\<lambda>c. c = CHR ''e'' \<or> c = CHR ''E''),
        Maybe (once (\<lambda>c. c = CHR ''+'' \<or> c = CHR ''-'')), plus1 is_digit])]"


section \<open>Eight octets at a time\<close>

definition every_byte_one :: u64 where "every_byte_one = 0x0101010101010101"
definition every_byte_high_bit :: u64 where "every_byte_high_bit = push_bit 7 every_byte_one"

definition bytes_below :: "u64 \<Rightarrow> byte \<Rightarrow> u64" where
  "bytes_below bytes limit = (bytes - every_byte_one * ucast limit) AND NOT bytes AND every_byte_high_bit"

definition bytes_equal :: "u64 \<Rightarrow> char \<Rightarrow> u64" where
  "bytes_equal bytes wanted = bytes_below (bytes XOR (every_byte_one * ucast (uchar wanted))) 1"

definition string_run_ends :: "u64 \<Rightarrow> u64" where
  "string_run_ends bytes =
     bytes_equal bytes (CHR 0x22) OR bytes_equal bytes (CHR 0x5C) OR bytes_below bytes 0x20"

text \<open>\<open>std::memcpy\<close> of eight octets into a word on a little-endian machine.\<close>

definition load_word :: "string \<Rightarrow> u64" where
  "load_word cs = foldr (\<lambda>c w. push_bit 8 w OR ucast (uchar c)) cs 0"

text \<open>\<open>std::countr_zero\<close>.\<close>

fun count_zeros :: "nat \<Rightarrow> nat \<Rightarrow> u64 \<Rightarrow> nat" where
  "count_zeros 0 i w = i"
| "count_zeros (Suc n) i w = (if bit w i then i else count_zeros n (Suc i) w)"

definition countr_zero :: "u64 \<Rightarrow> nat" where
  "countr_zero w = count_zeros 64 0 w"


section \<open>The slicer\<close>

record slicer =
  sl_text :: string
  sl_pos :: nat
  sl_lost :: bool

definition new_slicer :: "string \<Rightarrow> slicer" where
  "new_slicer txt = \<lparr>sl_text = txt, sl_pos = 0, sl_lost = False\<rparr>"

definition sl_at :: "slicer \<Rightarrow> nat \<Rightarrow> char" where
  "sl_at s index = (if index < length (sl_text s) then sl_text s ! index else CHR 0x00)"

definition peek :: "slicer \<Rightarrow> nat \<Rightarrow> char" where
  "peek s ahead = sl_at s (sl_pos s + ahead)"

definition one_of :: "string \<Rightarrow> char \<Rightarrow> bool" where
  "one_of members character \<longleftrightarrow> character \<noteq> CHR 0x00 \<and> character \<in> set members"

definition span :: "slicer \<Rightarrow> nat \<Rightarrow> nat \<Rightarrow> string" where
  "span s first final = take (final - first) (drop first (sl_text s))"

function skip_space_from :: "string \<Rightarrow> nat \<Rightarrow> nat" where
  "skip_space_from txt pos =
     (if pos < length txt \<and> class_of (txt ! pos) = C_whitespace then skip_space_from txt (Suc pos) else pos)"
  by pat_completeness auto
termination by (relation "measure (\<lambda>(txt, pos). length txt - pos)") auto

declare skip_space_from.simps [simp del]

definition skip_space :: "slicer \<Rightarrow> slicer" where
  "skip_space s = s\<lparr>sl_pos := skip_space_from (sl_text s) (sl_pos s)\<rparr>"

definition at_end :: "slicer \<Rightarrow> bool \<times> slicer" where
  "at_end s = (let s = skip_space s in (sl_pos s = length (sl_text s), s))"

definition take_char :: "char \<Rightarrow> slicer \<Rightarrow> bool \<times> slicer" where
  "take_char expected s =
     (let s = skip_space s
      in if sl_lost s \<or> peek s 0 \<noteq> expected then (False, s) else (True, s\<lparr>sl_pos := Suc (sl_pos s)\<rparr>))"

definition next_is :: "char \<Rightarrow> slicer \<Rightarrow> bool \<times> slicer" where
  "next_is expected s = (let s = skip_space s in (\<not> sl_lost s \<and> peek s 0 = expected, s))"

definition lose :: "slicer \<Rightarrow> slicer" where
  "lose s = s\<lparr>sl_lost := True\<rparr>"

text \<open>The octet loop of \<open>string_run_end\<close>, and the word loop before it.\<close>

function run_end_bytes :: "string \<Rightarrow> nat \<Rightarrow> nat" where
  "run_end_bytes txt pos =
     (if pos < length txt \<and> \<not> ends_string_run (txt ! pos) then run_end_bytes txt (Suc pos) else pos)"
  by pat_completeness auto
termination by (relation "measure (\<lambda>(txt, pos). length txt - pos)") auto

declare run_end_bytes.simps [simp del]

function run_end_words :: "string \<Rightarrow> nat \<Rightarrow> nat" where
  "run_end_words txt pos =
     (if pos + 8 \<le> length txt
      then let ends = string_run_ends (load_word (take 8 (drop pos txt)))
        in if ends \<noteq> 0 then pos + countr_zero ends div 8 else run_end_words txt (pos + 8)
      else run_end_bytes txt pos)"
  by pat_completeness auto
termination by (relation "measure (\<lambda>(txt, pos). length txt - pos)") auto

declare run_end_words.simps [simp del]

definition string_run_end :: "slicer \<Rightarrow> nat \<Rightarrow> nat" where
  "string_run_end s pos = run_end_words (sl_text s) pos"

text \<open>\<open>escape\<close>: the digits after \<open>\u\<close> are read one by one.\<close>

definition escape :: "slicer \<Rightarrow> bool \<times> slicer" where
  "escape s =
     (if one_of single_character_escapes (peek s 1) then (True, s\<lparr>sl_pos := sl_pos s + 2\<rparr>)
      else if peek s 1 \<noteq> CHR ''u'' then (False, s)
      else if list_all (\<lambda>digit. one_of hex_digits (peek s (2 + digit))) [0..<4]
      then (True, s\<lparr>sl_pos := sl_pos s + 6\<rparr>)
      else (False, s))"

lemma run_end_bytes_ge: "pos \<le> run_end_bytes t pos"
  by (induction t pos rule: run_end_bytes.induct) (subst run_end_bytes.simps, auto)

lemma run_end_words_ge: "pos \<le> run_end_words t pos"
proof (induction t pos rule: run_end_words.induct)
  case (1 t pos)
  then show ?case
    using run_end_bytes_ge [of pos t]
    by (subst run_end_words.simps) (auto simp: Let_def intro: le_trans [OF le_add1])
qed

lemma escape_advances: "escape s = (True, s') \<Longrightarrow> sl_pos s < sl_pos s' \<and> sl_text s' = sl_text s \<and> sl_lost s' = sl_lost s"
  by (auto simp: escape_def split: if_splits)

lemma peek_inside: "peek s 0 \<noteq> CHR 0x00 \<Longrightarrow> sl_pos s < length (sl_text s)"
  by (auto simp: peek_def sl_at_def split: if_splits)

text \<open>The loop of \<open>string\<close>; \<open>Some escaped\<close> is the result of a closed string.\<close>

function string_loop :: "bool \<Rightarrow> slicer \<Rightarrow> bool option \<times> slicer" where
  "string_loop escaped s =
     (let s' = s\<lparr>sl_pos := string_run_end s (sl_pos s)\<rparr>; stop = peek s' 0
      in if stop = CHR 0x22 then (Some escaped, s'\<lparr>sl_pos := Suc (sl_pos s')\<rparr>)
         else if stop \<noteq> CHR 0x5C \<or> sl_pos s' = length (sl_text s') then (None, s')
         else (case escape s' of
             (False, s'') \<Rightarrow> (None, s'')
           | (True, s'') \<Rightarrow> string_loop True s''))"
  by pat_completeness auto
termination
proof (relation "measure (\<lambda>(escaped, s). length (sl_text s) - sl_pos s)")
  fix escaped b :: bool and s s' s'' :: slicer and stop
  assume s': "s' = s\<lparr>sl_pos := string_run_end s (sl_pos s)\<rparr>" and stop: "stop = peek s' 0"
    and n: "stop \<noteq> CHR 0x22" and cont: "\<not> (stop \<noteq> CHR 0x5C \<or> sl_pos s' = length (sl_text s'))"
    and e: "(b, s'') = escape s'" "b = True"
  have "sl_pos s \<le> sl_pos s'" using run_end_words_ge by (simp add: s' string_run_end_def)
  moreover have "sl_pos s' < length (sl_text s')" using stop cont by (intro peek_inside) auto
  ultimately show "((True, s''), escaped, s) \<in> measure (\<lambda>(escaped, s). length (sl_text s) - sl_pos s)"
    using e(1) [symmetric] e(2) escape_advances [of s' s''] by (simp add: s') linarith
qed simp

declare string_loop.simps [simp del]

definition string_token :: "slicer \<Rightarrow> bool option \<times> slicer" where
  "string_token s =
     (if peek s 0 \<noteq> CHR 0x22 then (None, s)
      else string_loop False (s\<lparr>sl_pos := Suc (sl_pos s)\<rparr>))"

text \<open>The loop of \<open>scalar\<close> over the characters of the token.\<close>

function scalar_end :: "string \<Rightarrow> nat \<Rightarrow> nat" where
  "scalar_end txt pos =
     (if pos < length txt \<and> \<not> ends_scalar (txt ! pos) then scalar_end txt (Suc pos) else pos)"
  by pat_completeness auto
termination by (relation "measure (\<lambda>(txt, pos). length txt - pos)") auto

declare scalar_end.simps [simp del]

definition scalar :: "slicer \<Rightarrow> bool \<times> slicer" where
  "scalar s =
     (let start = sl_pos s
      in if class_of (peek s 0) \<noteq> C_scalar_start then (False, s)
         else let end_pos = scalar_end (sl_text s) (Suc start); token = span s start end_pos
           in (if hd token = CHR ''t'' then token = ''true''
               else if hd token = CHR ''f'' then token = ''false''
               else if hd token = CHR ''n'' then token = ''null''
               else rx_match json_number_pattern token \<noteq> None,
               s\<lparr>sl_pos := end_pos\<rparr>))"

lemma scalar_end_ge: "pos \<le> scalar_end t pos"
  by (induction t pos rule: scalar_end.induct) (subst scalar_end.simps, auto)

lemma string_loop_advances:
  "string_loop escaped s = (r, s') \<Longrightarrow> sl_pos s \<le> sl_pos s' \<and> sl_text s' = sl_text s \<and> sl_lost s' = sl_lost s"
proof (induction escaped s arbitrary: r s' rule: string_loop.induct)
  case (1 escaped s)
  let ?s = "s\<lparr>sl_pos := string_run_end s (sl_pos s)\<rparr>"
  have ge: "sl_pos s \<le> sl_pos ?s" using run_end_words_ge by (simp add: string_run_end_def)
  show ?case
  proof (cases "peek ?s 0 = CHR 0x22 \<or> peek ?s 0 \<noteq> CHR 0x5C \<or> sl_pos ?s = length (sl_text ?s)")
    case True
    then show ?thesis using 1(2) ge by (auto simp: string_loop.simps [of escaped s] Let_def split: if_splits)
  next
    case False
    obtain b s'' where e: "escape ?s = (b, s'')" by fastforce
    show ?thesis
    proof (cases b)
      case True
      with 1(2) False e have "string_loop True s'' = (r, s')" by (simp add: string_loop.simps [of escaped s] Let_def)
      with 1(1) [OF refl refl _ _ e [symmetric]] False True escape_advances e ge show ?thesis by fastforce
    next
      case b: False
      have "s'' = ?s" using e b by (auto simp: escape_def split: if_splits)
      with 1(2) False e b ge show ?thesis by (auto simp: string_loop.simps [of escaped s] Let_def)
    qed
  qed
qed

lemma string_token_advances:
  "string_token s = (Some e, s') \<Longrightarrow> sl_pos s < sl_pos s' \<and> sl_text s' = sl_text s \<and> sl_lost s' = sl_lost s"
  using string_loop_advances by (fastforce simp: string_token_def split: if_splits)

lemma scalar_advances:
  "scalar s = (True, s') \<Longrightarrow> sl_pos s < sl_pos s' \<and> sl_text s' = sl_text s \<and> sl_lost s' = sl_lost s"
  using scalar_end_ge [of "Suc (sl_pos s)" "sl_text s"] by (auto simp: scalar_def Let_def split: if_splits)


text \<open>
  The loop of \<open>value\<close> over the characters of an object or an array: the depth of the open
  brackets and the class of the token before.
\<close>

function value_loop :: "nat \<Rightarrow> char_class \<Rightarrow> slicer \<Rightarrow> bool \<times> slicer" where
  "value_loop depth previous s =
     (if sl_pos s < length (sl_text s)
      then let kind = class_of (sl_at s (sl_pos s)); next = s\<lparr>sl_pos := Suc (sl_pos s)\<rparr>
        in (case kind of
            C_whitespace \<Rightarrow> value_loop depth previous next
          | C_open \<Rightarrow> value_loop (Suc depth) kind next
          | C_close \<Rightarrow>
              if previous = C_comma then (False, s)
              else if depth = 1 then (True, next)
              else value_loop (depth - 1) kind next
          | C_comma \<Rightarrow> value_loop depth kind next
          | C_colon \<Rightarrow> value_loop depth kind next
          | C_quote \<Rightarrow>
              (case string_token s of
                 (None, s') \<Rightarrow> (False, s')
               | (Some _, s') \<Rightarrow> value_loop depth kind s')
          | C_scalar_start \<Rightarrow>
              (case scalar s of
                 (False, s') \<Rightarrow> (False, s')
               | (True, s') \<Rightarrow> value_loop depth kind s')
          | C_other \<Rightarrow> (False, s))
      else (False, s))"
  by pat_completeness auto
termination
  by (relation "measure (\<lambda>(depth, previous, s). length (sl_text s) - sl_pos s)")
    (simp_all add: diff_less_mono2,
     metis string_token_advances diff_less_mono2, metis scalar_advances diff_less_mono2)

declare value_loop.simps [simp del]

definition slice_value :: "slicer \<Rightarrow> bool \<times> slicer" where
  "slice_value s =
     (let first = peek s 0
      in if first = CHR 0x22 then (case string_token s of (r, s') \<Rightarrow> (r \<noteq> None, s'))
         else if first \<noteq> CHR ''{'' \<and> first \<noteq> CHR ''['' then scalar s
         else value_loop 0 C_open s)"

record object_member =
  m_name :: string
  m_value :: string
  m_escaped_name :: bool

definition next_member :: "slicer \<Rightarrow> object_member option \<times> slicer" where
  "next_member s =
     (let s = skip_space s; name_start = sl_pos s
      in case string_token s of
          (None, s) \<Rightarrow> (None, s)
        | (Some escaped, s) \<Rightarrow>
            let name_end = sl_pos s - 1; name = span s (name_start + 1) name_end
            in (case take_char CHR '':'' s of
                (False, s) \<Rightarrow> (None, s)
              | (True, s) \<Rightarrow>
                  let s = skip_space s; value_start = sl_pos s
                  in (case slice_value s of
                      (False, s) \<Rightarrow> (None, s)
                    | (True, s) \<Rightarrow>
                        (Some \<lparr>m_name = name, m_value = span s value_start (sl_pos s),
                               m_escaped_name = escaped\<rparr>, s))))"

lemma value_loop_advances:
  "value_loop depth previous s = (True, s') \<Longrightarrow> sl_pos s < sl_pos s' \<and> sl_text s' = sl_text s \<and> sl_lost s' = sl_lost s"
proof (induction depth previous s arbitrary: s' rule: value_loop.induct)
  case (1 depth previous s)
  let ?n = "s\<lparr>sl_pos := Suc (sl_pos s)\<rparr>"
  note e = 1(8) [unfolded value_loop.simps [of depth previous s] Let_def]
  then have i: "sl_pos s < length (sl_text s)" by (simp split: if_splits)
  note IH = 1(1-7) [OF i refl refl]
  show ?case
  proof (cases "class_of (sl_at s (sl_pos s))")
    case C_quote
    with e i obtain b t where t: "string_token s = (Some b, t)" "value_loop depth C_quote t = (True, s')"
      by (auto split: prod.splits option.splits)
    with IH(6) [OF C_quote] string_token_advances [OF t(1)] C_quote show ?thesis by fastforce
  next
    case C_scalar_start
    with e i obtain t where t: "scalar s = (True, t)" "value_loop depth C_scalar_start t = (True, s')"
      by (auto split: prod.splits bool.splits)
    with IH(7) [OF C_scalar_start] scalar_advances [OF t(1)] C_scalar_start show ?thesis by fastforce
  next
    case C_close
    with e i have p: "previous \<noteq> C_comma" "depth = 1 \<and> s' = ?n \<or>
        depth \<noteq> 1 \<and> value_loop (depth - 1) C_close ?n = (True, s')"
      by (simp_all split: if_splits)
    from p(2) show ?thesis
    proof (elim disjE conjE)
      assume "depth \<noteq> 1" "value_loop (depth - 1) C_close ?n = (True, s')"
      with IH(3) [OF C_close p(1)] C_close show ?thesis by simp
    qed simp
  next
    case C_whitespace
    with e i have "value_loop depth previous ?n = (True, s')" by simp
    from IH(1) [OF C_whitespace this] show ?thesis by simp
  next
    case C_open
    with e i have "value_loop (Suc depth) C_open ?n = (True, s')" by simp
    with IH(2) [OF C_open] C_open show ?thesis by simp
  next
    case C_comma
    with e i have "value_loop depth C_comma ?n = (True, s')" by simp
    with IH(4) [OF C_comma] C_comma show ?thesis by simp
  next
    case C_colon
    with e i have "value_loop depth C_colon ?n = (True, s')" by simp
    with IH(5) [OF C_colon] C_colon show ?thesis by simp
  next
    case C_other
    with e i show ?thesis by simp
  qed
qed

lemma slice_value_advances:
  "slice_value s = (True, s') \<Longrightarrow> sl_pos s < sl_pos s' \<and> sl_text s' = sl_text s \<and> sl_lost s' = sl_lost s"
  using scalar_advances [of s s'] value_loop_advances [of 0 C_open s s'] string_token_advances [of s _ s']
  by (auto simp: slice_value_def Let_def split: if_splits prod.splits)

lemma skip_space_from_ge: "pos \<le> skip_space_from t pos"
  by (induction t pos rule: skip_space_from.induct) (subst skip_space_from.simps, auto)

lemma skip_space_same [simp]: "sl_text (skip_space s) = sl_text s" "sl_lost (skip_space s) = sl_lost s"
  by (simp_all add: skip_space_def)

lemma skip_space_ge: "sl_pos s \<le> sl_pos (skip_space s)"
  by (simp add: skip_space_def skip_space_from_ge)

lemma take_char_advances:
  "take_char c s = (r, s') \<Longrightarrow> sl_pos s \<le> sl_pos s' \<and> sl_text s' = sl_text s \<and> sl_lost s' = sl_lost s"
  using skip_space_ge [of s] by (auto simp: take_char_def Let_def le_Suc_eq split: if_splits)

lemma next_is_advances:
  "next_is c s = (r, s') \<Longrightarrow> sl_pos s \<le> sl_pos s' \<and> sl_text s' = sl_text s \<and> sl_lost s' = sl_lost s"
  using skip_space_ge [of s] by (auto simp: next_is_def Let_def)

lemma string_token_inside: "string_token s = (Some e, s') \<Longrightarrow> sl_pos s < length (sl_text s)"
  by (rule peek_inside) (auto simp: string_token_def split: if_splits)

lemma next_member_advances:
  assumes "next_member s = (Some m, s')"
  shows "sl_pos s < sl_pos s' \<and> sl_text s' = sl_text s \<and> sl_lost s' = sl_lost s \<and> sl_pos s < length (sl_text s)"
proof -
  from assms obtain e t u v where t: "string_token (skip_space s) = (Some e, t)"
    and u: "take_char CHR '':'' t = (True, u)" and v: "slice_value (skip_space u) = (True, s')"
    by (auto simp: next_member_def Let_def split: prod.splits option.splits bool.splits)
  from string_token_advances [OF t] string_token_inside [OF t] take_char_advances [OF u]
    slice_value_advances [OF v] skip_space_ge [of s] skip_space_ge [of u]
  show ?thesis by simp
qed

text \<open>The loop of \<open>event_data\<close> over the members; every round takes a member.\<close>

function members_loop :: "string option \<Rightarrow> bool \<Rightarrow> slicer \<Rightarrow> string option \<times> slicer" where
  "members_loop data certain s =
     (case next_member s of
        (None, s1) \<Rightarrow> (None, lose s1)
      | (Some member, s1) \<Rightarrow>
          let certain' = (if m_escaped_name member then False
                else if m_name member = ''data'' then certain \<and> data = None else certain);
              data' = (if \<not> m_escaped_name member \<and> m_name member = ''data'' then Some (m_value member) else data)
          in (case take_char CHR ''}'' s1 of
              (True, s2) \<Rightarrow> (if certain' then data' else None, s2)
            | (False, s2) \<Rightarrow>
                (case take_char CHR '','' s2 of
                   (False, s3) \<Rightarrow> (None, lose s3)
                 | (True, s3) \<Rightarrow>
                     (case next_is CHR ''}'' s3 of
                        (True, s4) \<Rightarrow> (None, lose s4)
                      | (False, s4) \<Rightarrow> members_loop data' certain' s4))))"
  by pat_completeness auto
termination
proof (relation "measure (\<lambda>(data, certain, s). length (sl_text s) - sl_pos s)")
  fix data :: "string option" and certain s r s1 member certain' data' b s2 b' s3 b'' s4
  assume "(r, s1) = next_member s" "r = Some member"
    and "certain' = (if m_escaped_name member then False
                else if m_name member = ''data'' then certain \<and> data = None else certain)"
    and "data' = (if \<not> m_escaped_name member \<and> m_name member = ''data'' then Some (m_value member) else data)"
    and "(b, s2) = take_char CHR ''}'' s1" "b = False" "(b', s3) = take_char CHR '','' s2" "b' = True"
    and "(b'', s4) = next_is CHR ''}'' s3" "b'' = False"
  then have "next_member s = (Some member, s1)" "take_char CHR ''}'' s1 = (b, s2)" "take_char CHR '','' s2 = (b', s3)"
    "next_is CHR ''}'' s3 = (b'', s4)" by simp_all
  from next_member_advances [OF this(1)] take_char_advances [OF this(2)] take_char_advances [OF this(3)]
    next_is_advances [OF this(4)]
  show "((data', certain', s4), data, certain, s) \<in> measure (\<lambda>(data, certain, s). length (sl_text s) - sl_pos s)"
    by simp linarith
qed simp

declare members_loop.simps [simp del]

definition event_data :: "slicer \<Rightarrow> string option \<times> slicer" where
  "event_data s =
     (let s = skip_space s
      in if sl_lost s then (None, s)
         else if peek s 0 \<noteq> CHR ''{''
         then (case slice_value s of (True, s) \<Rightarrow> (None, s) | (False, s) \<Rightarrow> (None, lose s))
         else (case take_char CHR ''}'' (s\<lparr>sl_pos := Suc (sl_pos s)\<rparr>) of
             (True, s) \<Rightarrow> (None, s)
           | (False, s) \<Rightarrow> members_loop None True s))"

definition data_member_text :: "string \<Rightarrow> string option" where
  "data_member_text event_text =
     (case event_data (new_slicer event_text) of
        (data, s) \<Rightarrow>
          if sl_lost s then None
          else (case at_end s of (False, _) \<Rightarrow> None | (True, _) \<Rightarrow> data))"

record batch_slices =
  bs_slicer :: slicer
  bs_first :: bool

definition batch_data_slices :: "string \<Rightarrow> batch_slices" where
  "batch_data_slices batch_text =
     (case take_char CHR ''['' (new_slicer batch_text) of
        (True, s) \<Rightarrow> \<lparr>bs_slicer = s, bs_first = True\<rparr>
      | (False, s) \<Rightarrow> \<lparr>bs_slicer = lose s, bs_first = True\<rparr>)"

definition next_slice :: "batch_slices \<Rightarrow> string option \<times> batch_slices" where
  "next_slice b =
     (if sl_lost (bs_slicer b) then (None, b)
      else if bs_first b
      then (case event_data (bs_slicer b) of (d, s) \<Rightarrow> (d, \<lparr>bs_slicer = s, bs_first = False\<rparr>))
      else (case take_char CHR '','' (bs_slicer b) of
          (False, s) \<Rightarrow> (None, b\<lparr>bs_slicer := lose s\<rparr>)
        | (True, s) \<Rightarrow>
            (case next_is CHR '']'' s of
               (True, s) \<Rightarrow> (None, b\<lparr>bs_slicer := lose s\<rparr>)
             | (False, s) \<Rightarrow>
                 (case event_data s of (d, s) \<Rightarrow> (d, \<lparr>bs_slicer = s, bs_first = False\<rparr>)))))"

end
