(* ===== verification/Swar.thy ===== *)
theory Swar
  imports Json_Slice
begin

text \<open>
  The eight-octets-at-a-time loop of the slicer's string scanner against the octet loop: the
  word tests find the first octet that ends a run, whatever the octets after it are.
\<close>

section \<open>Octets of a word\<close>

definition byte_at :: "u64 \<Rightarrow> nat \<Rightarrow> byte" where
  "byte_at w j = ucast (drop_bit (8 * j) w)"

lemma bit_byte_at: "bit (byte_at w j) n \<longleftrightarrow> n < 8 \<and> bit w (8 * j + n)"
  by (auto simp: byte_at_def bit_simps)

lemma uint_byte_at: "uint (byte_at w j) = uint w div 256 ^ j mod 256"
proof -
  have "(2 :: int) ^ (8 * j) = 256 ^ j" by (simp add: power_mult)
  moreover have "take_bit 64 (uint w) = uint w" using unsigned_less [of w, where ?'a = int] by (intro take_bit_int_eq_self) simp_all
  ultimately show ?thesis
    by (simp only: byte_at_def unsigned_ucast_eq unsigned_drop_bit_eq) (simp add: take_bit_eq_mod drop_bit_eq_div)
qed

lemma byte_bit_high: "8 \<le> n \<Longrightarrow> \<not> bit (b :: byte) n"
  by (auto dest: bit_imp_le_length)

lemma byte_at_load:
  "j < length cs \<Longrightarrow> length cs \<le> 8 \<Longrightarrow> byte_at (load_word cs) j = uchar (cs ! j)"
proof (induction cs arbitrary: j)
  case (Cons c cs)
  have l: "load_word (c # cs) = push_bit 8 (load_word cs) OR ucast (uchar c)" by (simp add: load_word_def)
  show ?case
  proof (cases j)
    case 0
    show ?thesis
      by (rule bit_word_eqI) (simp add: 0 bit_byte_at l bit_simps)
  next
    case (Suc k)
    have "byte_at (load_word (c # cs)) (Suc k) = byte_at (load_word cs) k"
      by (rule bit_word_eqI) (use Cons.prems Suc in \<open>auto simp: bit_byte_at l bit_simps byte_bit_high\<close>)
    with Cons Suc show ?thesis by simp
  qed
qed simp

lemma bit_high: "bit every_byte_high_bit m \<longleftrightarrow> m < 64 \<and> m mod 8 = 7"
proof -
  have e: "every_byte_high_bit = 0x8080808080808080" by (simp add: every_byte_high_bit_def every_byte_one_def)
  have "list_all (\<lambda>m. bit (0x8080808080808080 :: u64) m = (m mod 8 = 7)) [0..<64]" by code_simp
  then have "m < 64 \<Longrightarrow> bit every_byte_high_bit m = (m mod 8 = 7)" by (simp add: list_all_iff e)
  moreover have "bit every_byte_high_bit m \<Longrightarrow> m < 64" using bit_imp_le_length by fastforce
  ultimately show ?thesis by blast
qed

text \<open>Every octet of \<open>every_byte_one * limit\<close> is \<open>limit\<close>.\<close>

lemma byte_at_repeat:
  assumes "j < 8"
  shows "byte_at (every_byte_one * ucast (b :: byte)) j = b"
proof -
  define L where "L = uint b"
  have L: "0 \<le> L" "L < 256" using unsigned_less [of b, where ?'a = int] by (simp_all add: L_def)
  have "uint (ucast b :: u64) = L"
    using L by (simp add: unsigned_ucast_eq take_bit_int_eq_self flip: L_def)
  then have u: "uint (every_byte_one * ucast b) = L * 72340172838076673"
    using L by (simp add: uint_word_ariths(3) every_byte_one_def mult.commute)
  have "L * 72340172838076673 div 256 ^ j mod 256 = L"
  proof -
    have *: "x div 256 ^ j mod 256 = L" if "x = (q * 256 + L) * 256 ^ j + r" "0 \<le> r" "r < 256 ^ j" for x q r :: int
      using that L by (simp add: int_div_pos_eq [of x "256 ^ j" "q * 256 + L" r])
    consider "j = 0" | "j = 1" | "j = 2" | "j = 3" | "j = 4" | "j = 5" | "j = 6" | "j = 7" using assms by linarith
    then show ?thesis
    proof cases
      case 1
      then show ?thesis by (intro * [of _ "L * 282578800148737" 0]) (use L in auto)
    next
      case 2
      then show ?thesis by (intro * [of _ "L * 1103823438081" "L"]) (use L in auto)
    next
      case 3
      then show ?thesis by (intro * [of _ "L * 4311810305" "L * 257"]) (use L in auto)
    next
      case 4
      then show ?thesis by (intro * [of _ "L * 16843009" "L * 65793"]) (use L in auto)
    next
      case 5
      then show ?thesis by (intro * [of _ "L * 65793" "L * 16843009"]) (use L in auto)
    next
      case 6
      then show ?thesis by (intro * [of _ "L * 257" "L * 4311810305"]) (use L in auto)
    next
      case 7
      then show ?thesis by (intro * [of _ "L" "L * 1103823438081"]) (use L in auto)
    next
      case 8
      then show ?thesis by (intro * [of _ 0 "L * 282578800148737"]) (use L in auto)
    qed
  qed
  then have "uint (byte_at (every_byte_one * ucast b) j) = uint b" by (simp add: uint_byte_at u L_def)
  then show ?thesis by (simp add: word_uint_eq_iff)
qed

lemma byte_at_minus:
  assumes "i < 8" "uint v mod 256 ^ i \<le> uint w mod 256 ^ i"
  shows "byte_at (w - v) i = byte_at w i - byte_at v i"
proof -
  let ?B = "256 ^ i :: int"
  define D where "D = uint w div ?B - uint v div ?B"
  define r where "r = uint w mod ?B - uint v mod ?B"
  have B: "0 < ?B" by simp
  have r: "0 \<le> r" "r < ?B" using assms(2) pos_mod_sign [OF B, of "uint v"] pos_mod_bound [OF B, of "uint w"]
    unfolding r_def by linarith+
  have wv: "uint w - uint v = ?B * D + r"
    using mult_div_mod_eq [of ?B "uint w"] mult_div_mod_eq [of ?B "uint v"]
    unfolding D_def r_def right_diff_distrib by linarith
  have "uint (w - v) = (uint w - uint v) mod 2 ^ 64" by (simp add: uint_word_ariths(2))
  also have "\<dots> = (?B * D + r) mod 2 ^ 64" by (simp only: wv)
  also have "(2 :: int) ^ 64 = ?B * 256 ^ (8 - i)" using assms(1) by (simp flip: power_add)
  also have "(?B * D + r) mod (?B * 256 ^ (8 - i)) = ?B * ((?B * D + r) div ?B mod 256 ^ (8 - i)) + (?B * D + r) mod ?B"
    by (rule zmod_zmult2_eq) simp
  also have "(?B * D + r) div ?B = D" using r by (simp add: div_pos_pos_trivial)
  also have "(?B * D + r) mod ?B = r" using r by simp
  finally have "uint (w - v) div ?B = D mod 256 ^ (8 - i)"
    using r by (simp add: div_pos_pos_trivial)
  moreover have "(256 :: int) dvd 256 ^ (8 - i)" using assms(1) by (intro dvd_power) simp
  ultimately have "uint (byte_at (w - v) i) = D mod 256" by (simp add: uint_byte_at mod_mod_cancel)
  also have "\<dots> = uint (byte_at w i - byte_at v i)"
    by (simp add: uint_word_ariths(2) uint_byte_at D_def mod_diff_eq)
  finally show ?thesis by (simp add: word_uint_eq_iff)
qed


lemma low_bytes_le:
  assumes "\<forall>j < i. byte_at v j \<le> byte_at w j"
  shows "uint v mod 256 ^ i \<le> uint w mod 256 ^ i"
  using assms
proof (induction i)
  case (Suc i)
  have e: "x mod 256 ^ Suc i = 256 ^ i * (x div 256 ^ i mod 256) + x mod 256 ^ i" for x :: int
    using zmod_zmult2_eq [of 256 x "256 ^ i"] by (simp add: mult.commute)
  have "uint v div 256 ^ i mod 256 \<le> uint w div 256 ^ i mod 256"
    using Suc.prems by (simp add: word_le_def uint_byte_at flip: uint_byte_at)
  then have "256 ^ i * (uint v div 256 ^ i mod 256) \<le> 256 ^ i * (uint w div 256 ^ i mod 256)"
    by (rule mult_left_mono) simp
  moreover have "uint v mod 256 ^ i \<le> uint w mod 256 ^ i" using Suc.prems by (intro Suc.IH) simp
  ultimately show ?case unfolding e by linarith
qed simp

lemma bit_7: "bit (x :: byte) 7 \<longleftrightarrow> 128 \<le> unat x"
proof -
  have "bit x 7 \<longleftrightarrow> bit (unat x) 7" by (simp add: bit_unsigned_iff)
  then have "bit x 7 \<longleftrightarrow> odd (unat x div 128)" by (simp only: bit_iff_odd [of "unat x"]) simp
  have "unat x < 256" using unsigned_less [of x, where ?'a = nat] by simp
  then have "unat x div 128 < 2" by linarith
  then have "unat x div 128 = 0 \<or> unat x div 128 = 1" by linarith
  with \<open>bit x 7 \<longleftrightarrow> odd (unat x div 128)\<close> show ?thesis by auto
qed

lemma below_test:
  fixes b :: byte
  assumes "limit \<le> 0x80"
  shows "bit (b - limit) 7 \<and> \<not> bit b 7 \<longleftrightarrow> b < limit"
proof (cases "b < limit")
  case True
  have "unat (b - limit) = 256 + unat b - unat limit"
    using True by (simp add: unat_sub_if_size word_less_nat_alt not_le word_size)
  with True assms show ?thesis by (simp add: bit_7 word_less_nat_alt word_le_nat_alt)
next
  case False
  then have "unat (b - limit) = unat b - unat limit" by (simp add: unat_sub word_le_nat_alt not_less)
  moreover have "unat b - unat limit \<le> unat b" by simp
  ultimately show ?thesis using False unfolding bit_7 by linarith
qed

lemma bytes_below_first:
  assumes "i < 8" "limit \<le> 0x80" "\<forall>j < i. limit \<le> byte_at w j"
  shows "bit (bytes_below w limit) (8 * i + 7) \<longleftrightarrow> byte_at w i < limit"
proof -
  let ?v = "every_byte_one * ucast limit"
  have "\<forall>j < i. byte_at ?v j \<le> byte_at w j" using assms byte_at_repeat [of _ limit] by simp
  then have m: "byte_at (w - ?v) i = byte_at w i - limit"
    using byte_at_minus [OF assms(1) low_bytes_le] byte_at_repeat [OF assms(1)] by simp
  have "bit (bytes_below w limit) (8 * i + 7) \<longleftrightarrow> bit (w - ?v) (8 * i + 7) \<and> \<not> bit w (8 * i + 7)"
    using assms(1) by (simp add: bytes_below_def bit_and_iff bit_not_iff bit_high) presburger?
  also have "\<dots> \<longleftrightarrow> bit (byte_at (w - ?v) i) 7 \<and> \<not> bit (byte_at w i) 7" by (simp add: bit_byte_at)
  also have "\<dots> \<longleftrightarrow> byte_at w i < limit" unfolding m using below_test [OF assms(2)] .
  finally show ?thesis .
qed

lemma bytes_equal_first:
  assumes "i < 8" "\<forall>j < i. byte_at w j \<noteq> uchar c"
  shows "bit (bytes_equal w c) (8 * i + 7) \<longleftrightarrow> byte_at w i = uchar c"
proof -
  let ?x = "w XOR (every_byte_one * ucast (uchar c))"
  have x: "byte_at ?x j = byte_at w j XOR uchar c" if "j < 8" for j
  proof -
    have "byte_at ?x j = byte_at w j XOR byte_at (every_byte_one * ucast (uchar c)) j"
      by (rule bit_word_eqI) (simp add: bit_byte_at bit_xor_iff)
    then show ?thesis using byte_at_repeat [OF that] by simp
  qed
  have nz: "a XOR b = 0 \<longleftrightarrow> a = b" for a b :: byte
    by (auto simp: bit_eq_iff bit_simps)
  have "\<forall>j < i. 1 \<le> byte_at ?x j"
    using assms x nz by (simp add: word_le_nat_alt Suc_le_eq unat_gt_0)
  from bytes_below_first [OF assms(1) _ this] show ?thesis
    using x [OF assms(1)] nz by (simp add: bytes_equal_def word_less_1)
qed

lemma string_run_ends_first:
  assumes "i < 8" "length cs = 8" "\<forall>j < i. \<not> ends_string_run (cs ! j)"
  shows "bit (string_run_ends (load_word cs)) (8 * i + 7) \<longleftrightarrow> ends_string_run (cs ! i)"
proof -
  let ?w = "load_word cs"
  have b: "byte_at ?w j = uchar (cs ! j)" if "j \<le> i" for j
    using byte_at_load [of j cs] that assms by simp
  have n: "\<forall>j < i. byte_at ?w j \<noteq> uchar (CHR 0x22)" "\<forall>j < i. byte_at ?w j \<noteq> uchar (CHR 0x5C)"
    "\<forall>j < i. 0x20 \<le> byte_at ?w j"
    using assms(3) b by (auto simp: ends_string_run_def not_less simp del: uchar_eq_iff dest: arg_cong [where f = char_of_byte])
  show ?thesis
    using bytes_equal_first [OF assms(1) n(1)] bytes_equal_first [OF assms(1) n(2)]
      bytes_below_first [OF assms(1) _ n(3)] b [of i]
    by (simp add: string_run_ends_def bit_or_iff ends_string_run_def)
qed

lemma bytes_below_high: "bit (bytes_below w l) m \<Longrightarrow> m < 64 \<and> m mod 8 = 7"
  by (simp add: bytes_below_def bit_and_iff bit_high)

lemma string_run_ends_high: "bit (string_run_ends w) m \<Longrightarrow> m < 64 \<and> m mod 8 = 7"
  by (auto simp: string_run_ends_def bytes_equal_def bit_or_iff dest: bytes_below_high)

lemma count_zeros_first:
  "bit w (i + k) \<Longrightarrow> \<forall>m < k. \<not> bit w (i + m) \<Longrightarrow> k < n \<Longrightarrow> count_zeros n i w = i + k"
proof (induction n arbitrary: i k)
  case (Suc n)
  show ?case
  proof (cases k)
    case 0
    with Suc show ?thesis by simp
  next
    case (Suc k')
    have "\<not> bit w i" using Suc Suc.prems(2) by auto
    moreover have "count_zeros n (Suc i) w = Suc i + k'"
      using Suc.prems Suc by (intro Suc.IH) (auto dest: spec [of _ "Suc _"])
    ultimately show ?thesis using Suc by simp
  qed
qed simp

lemma countr_zero_first:
  assumes "\<exists>i < 8. P i" "\<And>m. bit w m \<Longrightarrow> m < 64 \<and> m mod 8 = 7"
    and "\<And>i. i < 8 \<Longrightarrow> \<forall>j < i. \<not> P j \<Longrightarrow> bit w (8 * i + 7) \<longleftrightarrow> P i"
  shows "w \<noteq> 0 \<and> countr_zero w div 8 = (LEAST i. P i)"
proof -
  define i where "i = (LEAST i. P i)"
  obtain i0 where i0: "i0 < 8" "P i0" using assms(1) by blast
  have P: "P i" unfolding i_def using i0(2) by (rule LeastI)
  have n: "\<not> P j" if "j < i" for j using not_less_Least that unfolding i_def .
  have "i \<le> i0" unfolding i_def using i0(2) by (rule Least_le)
  then have i: "i < 8" using i0 by simp
  have b: "bit w (8 * i + 7)" using assms(3) [OF i] P n by blast
  have "\<not> bit w m" if m: "m < 8 * i + 7" for m
  proof
    assume "bit w m"
    then have "m mod 8 = 7" using assms(2) by blast
    then have e: "m = 8 * (m div 8) + 7" by presburger
    then have "m div 8 < i" using m by linarith
    then show False using assms(3) [of "m div 8"] n \<open>bit w m\<close> e i by auto
  qed
  then have "countr_zero w = 8 * i + 7"
    using count_zeros_first [of w 0 "8 * i + 7" 64] b i by (simp add: countr_zero_def)
  moreover have "w \<noteq> 0" using b by auto
  ultimately show ?thesis unfolding i_def by simp
qed

lemma run_end_bytes_skip:
  "(\<And>j. j < k \<Longrightarrow> pos + j < length t \<and> \<not> ends_string_run (t ! (pos + j))) \<Longrightarrow>
    run_end_bytes t pos = run_end_bytes t (pos + k)"
proof (induction k arbitrary: pos)
  case (Suc k)
  have "run_end_bytes t pos = run_end_bytes t (Suc pos)"
    using Suc.prems [of 0] by (subst run_end_bytes.simps) simp
  also have "\<dots> = run_end_bytes t (Suc pos + k)" using Suc.prems [of "Suc _"] by (intro Suc.IH) simp
  finally show ?case by simp
qed simp

text \<open>The word of eight octets points to the first of them that ends the run, and is zero when none does.\<close>

lemma window_hit:
  assumes "length cs = 8" "\<exists>i < 8. ends_string_run (cs ! i)"
  obtains i where "i < 8" "string_run_ends (load_word cs) \<noteq> 0" "countr_zero (string_run_ends (load_word cs)) div 8 = i"
    "ends_string_run (cs ! i)" "\<forall>j < i. \<not> ends_string_run (cs ! j)"
proof -
  define i where "i = (LEAST i. ends_string_run (cs ! i))"
  have w: "string_run_ends (load_word cs) \<noteq> 0 \<and> countr_zero (string_run_ends (load_word cs)) div 8 = i"
    unfolding i_def by (rule countr_zero_first [OF assms(2) string_run_ends_high string_run_ends_first [OF _ assms(1)]])
  obtain i0 where i0: "i0 < 8" "ends_string_run (cs ! i0)" using assms(2) by blast
  have "ends_string_run (cs ! i)" unfolding i_def using i0(2) by (rule LeastI)
  moreover have "\<forall>j < i. \<not> ends_string_run (cs ! j)" using not_less_Least unfolding i_def by blast
  moreover have "i \<le> i0" unfolding i_def using i0(2) by (rule Least_le)
  ultimately show thesis using that [of i] w i0(1) by simp
qed

lemma window_quiet:
  assumes "length cs = 8" "\<not> (\<exists>i < 8. ends_string_run (cs ! i))"
  shows "string_run_ends (load_word cs) = 0"
proof (rule bit_word_eqI)
  fix m assume m: "m < LENGTH(64)"
  show "bit (string_run_ends (load_word cs)) m \<longleftrightarrow> bit (0 :: u64) m"
  proof (cases "m mod 8 = 7")
    case False
    then show ?thesis using string_run_ends_high [of "load_word cs" m] by auto
  next
    case True
    then have "m = 8 * (m div 8) + 7" "m div 8 < 8" using m by (presburger, simp)
    then show ?thesis using string_run_ends_first [OF _ assms(1), of "m div 8"] assms(2) by auto
  qed
qed

lemma run_end_words_bytes: "run_end_words t pos = run_end_bytes t pos"
proof (induction t pos rule: run_end_words.induct)
  case (1 t pos)
  show ?case
  proof (cases "pos + 8 \<le> length t")
    case True
    define cs where "cs = take 8 (drop pos t)"
    have cs: "length cs = 8" "\<And>j. j < 8 \<Longrightarrow> cs ! j = t ! (pos + j)" using True by (simp_all add: cs_def)
    show ?thesis
    proof (cases "\<exists>i < 8. ends_string_run (cs ! i)")
      case hit: True
      from window_hit [OF cs(1) hit] obtain i where i: "i < 8" "string_run_ends (load_word cs) \<noteq> 0"
        "countr_zero (string_run_ends (load_word cs)) div 8 = i" "ends_string_run (cs ! i)"
        "\<forall>j < i. \<not> ends_string_run (cs ! j)" .
      have "run_end_words t pos = pos + i"
        using True i by (subst run_end_words.simps) (simp add: cs_def Let_def)
      moreover have "run_end_bytes t pos = run_end_bytes t (pos + i)"
        using i(1,5) cs(2) True by (intro run_end_bytes_skip) (metis less_trans nat_add_left_cancel_less order_less_le_trans)
      moreover have "run_end_bytes t (pos + i) = pos + i"
        using i(4) cs(2) [OF i(1)] by (subst run_end_bytes.simps) simp
      ultimately show ?thesis by simp
    next
      case none: False
      note quiet = window_quiet [OF cs(1) none]
      have "run_end_words t pos = run_end_bytes t (pos + 8)"
        using True quiet 1 [OF True refl] by (subst run_end_words.simps) (simp add: cs_def Let_def)
      also have "\<dots> = run_end_bytes t pos"
        using none cs(2) True by (intro run_end_bytes_skip [symmetric]) (metis nat_add_left_cancel_less order_less_le_trans)
      finally show ?thesis .
    qed
  qed (subst run_end_words.simps, simp)
qed

text \<open>
  C12: The slicer's string scanner reads eight octets as one 64-bit word and finds the first
  quotation mark, backslash or control character by carry arithmetic (borrows of one octet's
  test spill into the next, and the count of trailing zero bits picks the lowest octet). It ends
  at exactly the position at which the loop over single octets ends, at every text and start.
\<close>

theorem run_end_words_eq_run_end_bytes: "run_end_words t pos = run_end_bytes t pos"
  by (rule run_end_words_bytes)

end
