(* ===== verification/Json_Codec.thy ===== *)
theory Json_Codec
  imports Errors Decimal "HOL-Library.Multiset"
begin

text \<open>
  \<open>include/cloudevents/format/json_codec.hpp\<close>, \<open>format/decode_options.hpp\<close> and
  \<open>detail/json_document_model.hpp\<close>, with the class \<open>json_document\<close> of
  \<open>include/cloudevents/core.hpp\<close>.

  A codec wraps a JSON library that is not part of this repository: it is a record of the
  operations that the concept \<open>json_codec\<close> requires, a parameter of everything that uses it.
  \<open>'j\<close> is the library's value type; an operation that changes a value in place returns the
  changed value. A pointer to a member of an object is the position at which \<open>for_each_member\<close>
  visits the member: \<open>find\<close> returns such a pointer. A \<open>double\<close> is its 64-bit representation; \<open>adopt_string\<close> is there for a
  \<open>string_adopting_codec\<close> only. \<open>c_dump\<close> is the text that \<open>dump\<close> returns; where \<open>dump\<close> leaves by an
  exception of the library, which nothing in the SDK catches, \<open>c_dump_throws\<close> holds.
\<close>

section \<open>The codec concept\<close>

datatype kind = K_null | K_boolean | K_integer | K_floating | K_string | K_array | K_object

record 'j codec =
  c_identity :: string
  c_parse :: "string \<Rightarrow> 'j result"
  c_dump :: "'j \<Rightarrow> string"
  c_dump_throws :: "'j \<Rightarrow> bool"
  c_make_null :: 'j
  c_make_bool :: "bool \<Rightarrow> 'j"
  c_make_int :: "int \<Rightarrow> 'j"
  c_make_double :: "u64 \<Rightarrow> 'j"
  c_make_string :: "string \<Rightarrow> 'j"
  c_make_array :: 'j
  c_make_object :: 'j
  c_set :: "'j \<Rightarrow> string \<Rightarrow> 'j \<Rightarrow> 'j"
  c_push :: "'j \<Rightarrow> 'j \<Rightarrow> 'j"
  c_find :: "'j \<Rightarrow> string \<Rightarrow> nat option"
  c_size_of :: "'j \<Rightarrow> nat"
  c_kind_of :: "'j \<Rightarrow> kind"
  c_as_bool :: "'j \<Rightarrow> bool result"
  c_as_int :: "'j \<Rightarrow> int result"
  c_as_double :: "'j \<Rightarrow> u64 result"
  c_as_string :: "'j \<Rightarrow> string result"
  c_members :: "'j \<Rightarrow> (string \<times> 'j) list"
  c_elements :: "'j \<Rightarrow> 'j list"
  c_equal :: "'j \<Rightarrow> 'j \<Rightarrow> bool"
  c_copy :: "'j \<Rightarrow> 'j"
  c_extract :: "'j \<Rightarrow> string \<Rightarrow> 'j"
  c_adopt_string :: "(string \<Rightarrow> 'j) option"

definition json_content_type :: string where
  "json_content_type = ''application/cloudevents+json''"

definition json_batch_content_type :: string where
  "json_batch_content_type = ''application/cloudevents-batch+json''"

record decode_options =
  retain_document_up_to :: nat
  parse_binary_body :: bool

definition default_decode_options :: decode_options where
  "default_decode_options = \<lparr>retain_document_up_to = 16 * 1024, parse_binary_body = True\<rparr>"

definition retains_text_of :: "nat \<Rightarrow> decode_options \<Rightarrow> bool" where
  "retains_text_of len options \<longleftrightarrow>
     retain_document_up_to options \<noteq> 0 \<and> len \<le> retain_document_up_to options"


section \<open>Documents\<close>

text \<open>
  A \<open>json_document_model\<close> is a holder of some codec's value, called through its virtual
  functions, or the one null model that a moved-from document points to. The codec in \<open>Holder\<close>
  is the holder's virtual table.
\<close>

datatype 'j json_document_model = Holder "'j codec" 'j | Null_model

definition model_identity :: "'j json_document_model \<Rightarrow> string" where
  "model_identity m = (case m of Holder codec _ \<Rightarrow> c_identity codec | Null_model \<Rightarrow> [])"

definition model_dump :: "'j json_document_model \<Rightarrow> string" where
  "model_dump m = (case m of Holder codec v \<Rightarrow> c_dump codec v | Null_model \<Rightarrow> ''null'')"

text \<open>The caller has checked that both models have one identity.\<close>

definition model_equal_value :: "'j json_document_model \<Rightarrow> 'j json_document_model \<Rightarrow> bool" where
  "model_equal_value m other =
     (case (m, other) of
        (Holder codec v, Holder _ w) \<Rightarrow> c_equal codec v w
      | (Null_model, Null_model) \<Rightarrow> True
      | _ \<Rightarrow> False)"

definition model_equal_text :: "'j json_document_model \<Rightarrow> string \<Rightarrow> bool" where
  "model_equal_text m txt =
     (case m of
        Holder codec v \<Rightarrow> (case c_parse codec txt of Inr parsed \<Rightarrow> c_equal codec v parsed | Inl _ \<Rightarrow> False)
      | Null_model \<Rightarrow> False)"

text \<open>
  A document is a shared pointer to an immutable model: the address, and the model there. Every
  moved-from document points to the one null model, at address 0.
\<close>

record 'j json_document =
  doc_address :: nat
  doc_model :: "'j json_document_model"

definition document_make :: "'j codec \<Rightarrow> nat \<Rightarrow> 'j \<Rightarrow> 'j json_document" where
  "document_make codec fresh v = \<lparr>doc_address = Suc fresh, doc_model = Holder codec v\<rparr>"

definition moved_from :: "'j json_document" where
  "moved_from = \<lparr>doc_address = 0, doc_model = Null_model\<rparr>"

text \<open>The move constructor and the move assignment: the new document, and what is left.\<close>

definition document_move :: "'j json_document \<Rightarrow> 'j json_document \<times> 'j json_document" where
  "document_move other = (other, moved_from)"

definition built_by :: "'j codec \<Rightarrow> 'j json_document \<Rightarrow> bool" where
  "built_by codec d \<longleftrightarrow> model_identity (doc_model d) = c_identity codec"

definition document_get :: "'j codec \<Rightarrow> 'j json_document \<Rightarrow> 'j option" where
  "document_get codec d =
     (if \<not> built_by codec d then None
      else (case doc_model d of Holder _ v \<Rightarrow> Some v | Null_model \<Rightarrow> None))"

definition document_dump :: "'j json_document \<Rightarrow> string" where
  "document_dump d = model_dump (doc_model d)"

definition document_equal :: "'j json_document \<Rightarrow> 'j json_document \<Rightarrow> bool" where
  "document_equal left right =
     (if doc_address left = doc_address right then True
      else if model_identity (doc_model left) = [] \<or> model_identity (doc_model right) = [] then False
      else if model_identity (doc_model left) = model_identity (doc_model right)
      then model_equal_value (doc_model left) (doc_model right)
      else model_equal_text (doc_model left) (model_dump (doc_model right)))"


section \<open>What the SDK relies on in a codec\<close>

text \<open>
  The documented behaviour of a codec's operations on scalars and objects. An object keeps its
  members under their names; setting a name twice does not happen in the code that encodes.
\<close>

definition codec_scalars :: "'j codec \<Rightarrow> bool" where
  "codec_scalars C \<longleftrightarrow>
     (\<forall>b. c_kind_of C (c_make_bool C b) = K_boolean \<and> c_as_bool C (c_make_bool C b) = Inr b) \<and>
     (\<forall>i. int64_min \<le> i \<and> i \<le> int64_max \<longrightarrow>
        c_kind_of C (c_make_int C i) = K_integer \<and> c_as_int C (c_make_int C i) = Inr i) \<and>
     (\<forall>s. c_kind_of C (c_make_string C s) = K_string \<and> c_as_string C (c_make_string C s) = Inr s) \<and>
     (\<forall>v. c_kind_of C v = K_string \<longrightarrow> is_ok (c_as_string C v)) \<and>
     (case c_adopt_string C of None \<Rightarrow> True
      | Some adopting \<Rightarrow> \<forall>s. c_kind_of C (adopting s) = K_string \<and> c_as_string C (adopting s) = Inr s)"

text \<open>An object may keep its members in any order.\<close>

definition codec_objects :: "'j codec \<Rightarrow> bool" where
  "codec_objects C \<longleftrightarrow>
     c_kind_of C (c_make_object C) = K_object \<and> c_members C (c_make_object C) = [] \<and>
     (\<forall>obj name v. c_kind_of C obj = K_object \<longrightarrow>
        c_kind_of C (c_set C obj name v) = K_object \<and>
        (name \<notin> fst ` set (c_members C obj) \<longrightarrow>
           mset (c_members C (c_set C obj name v)) = add_mset (name, v) (mset (c_members C obj))))"

text \<open>
  \<open>find\<close> points to the first member with the name, \<open>extract\<close> returns a found member's value, a
  copy is the value, and what was dumped is parsed back.
\<close>

definition codec_lookup :: "'j codec \<Rightarrow> bool" where
  "codec_lookup C \<longleftrightarrow>
     (\<forall>obj name i. c_find C obj name = Some i \<longrightarrow>
        i < length (c_members C obj) \<and> fst (c_members C obj ! i) = name \<and>
        c_extract C obj name = snd (c_members C obj ! i)) \<and>
     (\<forall>v. c_copy C v = v)"

definition codec_text :: "'j codec \<Rightarrow> bool" where
  "codec_text C \<longleftrightarrow> (\<forall>v. c_parse C (c_dump C v) = Inr v)"

text \<open>For an object, \<open>find\<close> points to the first member with the name, when there is one.\<close>

definition codec_finds :: "'j codec \<Rightarrow> bool" where
  "codec_finds C \<longleftrightarrow>
     (\<forall>obj name. c_kind_of C obj = K_object \<longrightarrow>
        map_option (\<lambda>i. snd (c_members C obj ! i)) (c_find C obj name) = map_of (c_members C obj) name)"

text \<open>A string-adopting codec builds the string that \<open>make_string\<close> builds.\<close>

definition codec_adopts :: "'j codec \<Rightarrow> bool" where
  "codec_adopts C \<longleftrightarrow> (case c_adopt_string C of None \<Rightarrow> True | Some adopting \<Rightarrow> \<forall>s. adopting s = c_make_string C s)"

definition codec_values :: "'j codec \<Rightarrow> bool" where
  "codec_values C \<longleftrightarrow> c_identity C \<noteq> [] \<and> (\<forall>v. c_equal C v v) \<and> (\<forall>v w. c_equal C v w \<longleftrightarrow> c_equal C w v)"


section \<open>Equality of documents\<close>

text \<open>A document that some calls of \<open>make\<close> and moves produced, with values shared by address.\<close>

definition doc_ok :: "'j json_document \<Rightarrow> bool" where
  "doc_ok d \<longleftrightarrow>
     (doc_address d = 0 \<longleftrightarrow> doc_model d = Null_model) \<and>
     (case doc_model d of Holder codec _ \<Rightarrow> codec_values codec | Null_model \<Rightarrow> True)"

lemma doc_ok_make: "codec_values C \<Longrightarrow> doc_ok (document_make C a v)"
  by (simp add: doc_ok_def document_make_def)

lemma doc_ok_moved: "doc_ok moved_from"
  by (simp add: doc_ok_def moved_from_def)

lemma document_equal_refl: "document_equal d d"
  by (simp add: document_equal_def)

text \<open>A moved-from document equals nothing but a moved-from document.\<close>

lemma document_equal_moved:
  "doc_ok d \<Longrightarrow> document_equal d moved_from \<longleftrightarrow> doc_model d = Null_model"
  by (auto simp: document_equal_def doc_ok_def moved_from_def model_identity_def)

lemma document_get_make:
  "document_get C (document_make C a v) = Some v"
  by (simp add: document_get_def document_make_def built_by_def model_identity_def)

lemma document_get_moved: "c_identity C \<noteq> [] \<Longrightarrow> document_get C moved_from = None"
  by (simp add: document_get_def moved_from_def built_by_def model_identity_def)

lemma document_equal_same_codec:
  "doc_address d \<noteq> doc_address d' \<Longrightarrow> doc_model d = Holder C v \<Longrightarrow> doc_model d' = Holder C w \<Longrightarrow>
     c_identity C \<noteq> [] \<Longrightarrow> document_equal d d' \<longleftrightarrow> c_equal C v w"
  by (simp add: document_equal_def model_identity_def model_equal_value_def)

end
