(* ===== verification/Messages.thy ===== *)
theory Messages
  imports Attributes
begin

text \<open>
  \<open>include/cloudevents/message.hpp\<close>: the header fields as a transport delivers them
  (\<open>raw_headers\<close>, an ordered list that may repeat a name), the checked \<open>headers\<close>, and the
  message.
\<close>

type_synonym entry = "string \<times> string"
type_synonym raw_headers = "entry list"

definition add :: "string \<Rightarrow> string \<Rightarrow> raw_headers \<Rightarrow> raw_headers" where
  "add name value entries = entries @ [(name, value)]"

definition set_field :: "string \<Rightarrow> string \<Rightarrow> raw_headers \<Rightarrow> raw_headers" where
  "set_field name value entries =
     filter (\<lambda>candidate. \<not> iequals (fst candidate) name) entries @ [(name, value)]"

definition set_exact :: "string \<Rightarrow> string \<Rightarrow> raw_headers \<Rightarrow> raw_headers" where
  "set_exact name value entries = filter (\<lambda>candidate. fst candidate \<noteq> name) entries @ [(name, value)]"

fun find_field :: "string \<Rightarrow> raw_headers \<Rightarrow> string option" where
  "find_field name [] = None"
| "find_field name ((candidate, value) # entries) =
     (if iequals candidate name then Some value else find_field name entries)"

fun find_exact :: "string \<Rightarrow> raw_headers \<Rightarrow> string option" where
  "find_exact name [] = None"
| "find_exact name ((candidate, value) # entries) =
     (if candidate = name then Some value else find_exact name entries)"

definition contains :: "string \<Rightarrow> raw_headers \<Rightarrow> bool" where
  "contains name entries \<longleftrightarrow> find_field name entries \<noteq> None"

definition contains_exact :: "string \<Rightarrow> raw_headers \<Rightarrow> bool" where
  "contains_exact name entries \<longleftrightarrow> find_exact name entries \<noteq> None"

datatype name_matching = case_sensitive | case_insensitive

record headers =
  delivered_fields :: raw_headers

text \<open>\<open>headers::adopt\<close>: the loop over the delivered fields.\<close>

fun adopt_loop :: "name_matching \<Rightarrow> raw_headers \<Rightarrow> raw_headers \<Rightarrow> headers result" where
  "adopt_loop matching [] adopted = Inr \<lparr>delivered_fields = adopted\<rparr>"
| "adopt_loop matching ((name, value) # delivered) adopted =
     (let already = (if matching = case_sensitive then contains_exact name adopted
                     else contains name adopted)
      in if already
         then fail invalid_argument
           ''two fields carry the same attribute, so which one is meant is undecidable'' name
         else adopt_loop matching delivered (add name value adopted))"

definition adopt :: "raw_headers \<Rightarrow> name_matching \<Rightarrow> headers result" where
  "adopt delivered matching = adopt_loop matching delivered []"

definition headers_set :: "string \<Rightarrow> string \<Rightarrow> headers \<Rightarrow> headers" where
  "headers_set name value hs = hs\<lparr>delivered_fields := set_exact name value (delivered_fields hs)\<rparr>"

record message =
  header_fields :: raw_headers
  body :: binary

datatype content_mode = binary_mode | structured | batched


section \<open>Finding what was set\<close>

lemma iequals_sym: "iequals a b \<longleftrightarrow> iequals b a"
  by (auto simp: iequals_def)

lemma iequals_trans: "iequals a b \<Longrightarrow> iequals b c \<Longrightarrow> iequals a c"
  by (simp add: iequals_def)

lemma find_field_append:
  "find_field name (xs @ ys) = (case find_field name xs of Some v \<Rightarrow> Some v | None \<Rightarrow> find_field name ys)"
  by (induction name xs rule: find_field.induct) auto

lemma find_exact_append:
  "find_exact name (xs @ ys) = (case find_exact name xs of Some v \<Rightarrow> Some v | None \<Rightarrow> find_exact name ys)"
  by (induction name xs rule: find_exact.induct) auto

lemma find_exact_map_of: "find_exact name m = map_of m name"
  by (induction name m rule: find_exact.induct) auto

lemma find_field_None: "find_field name m = None \<longleftrightarrow> (\<forall>entry \<in> set m. \<not> iequals (fst entry) name)"
  by (induction name m rule: find_field.induct) auto

lemma find_field_removed:
  "find_field name (filter (\<lambda>entry. \<not> iequals (fst entry) other) m) =
     (if iequals other name then None else find_field name m)"
proof (induction m)
  case (Cons entry m)
  then show ?case by (cases entry) (auto simp: iequals_def)
qed simp

lemma find_field_set:
  "find_field name (set_field other value m) = (if iequals other name then Some value else find_field name m)"
  by (auto simp: set_field_def find_field_append find_field_removed split: option.splits)

lemma find_exact_set:
  "find_exact name (set_exact other value m) = (if other = name then Some value else find_exact name m)"
proof -
  have "find_exact name (filter (\<lambda>entry. fst entry \<noteq> other) m) =
      (if other = name then None else find_exact name m)"
    by (induction m) (auto split: prod.splits)
  then show ?thesis by (auto simp: set_exact_def find_exact_append split: option.splits)
qed


section \<open>Adopted headers\<close>

definition same_name :: "name_matching \<Rightarrow> string \<Rightarrow> string \<Rightarrow> bool" where
  "same_name matching a b \<longleftrightarrow> (if matching = case_sensitive then a = b else iequals a b)"

definition unambiguous :: "name_matching \<Rightarrow> raw_headers \<Rightarrow> bool" where
  "unambiguous matching m \<longleftrightarrow> sorted_wrt (\<lambda>a b. \<not> same_name matching (fst a) (fst b)) m"

lemma adopt_loop_step:
  "adopt_loop matching ((name, value) # delivered) adopted =
     (if \<exists>entry \<in> set adopted. same_name matching (fst entry) name
      then fail invalid_argument
        ''two fields carry the same attribute, so which one is meant is undecidable'' name
      else adopt_loop matching delivered (adopted @ [(name, value)]))"
proof -
  have "find_exact name adopted \<noteq> None \<longleftrightarrow> (\<exists>entry \<in> set adopted. fst entry = name)"
    by (force simp: find_exact_map_of map_of_eq_None_iff)
  then show ?thesis
    using find_field_None [of name adopted]
    by (auto simp: same_name_def contains_def contains_exact_def add_def Let_def)
qed

lemma adopt_loop_ok:
  "unambiguous matching adopted \<Longrightarrow>
     adopt_loop matching delivered adopted = Inr hs \<longleftrightarrow>
       unambiguous matching (adopted @ delivered) \<and> hs = \<lparr>delivered_fields = adopted @ delivered\<rparr>"
proof (induction delivered arbitrary: adopted)
  case Nil
  then show ?case by auto
next
  case (Cons entry delivered)
  obtain n v where e: "entry = (n, v)" by fastforce
  show ?case
  proof (cases "\<exists>entry \<in> set adopted. same_name matching (fst entry) n")
    case True
    then have "\<not> unambiguous matching (adopted @ entry # delivered)"
      by (auto simp: unambiguous_def sorted_wrt_append e)
    with True show ?thesis by (simp add: e adopt_loop_step del: adopt_loop.simps)
  next
    case False
    then have "unambiguous matching (adopted @ [(n, v)])"
      using Cons.prems by (auto simp: unambiguous_def sorted_wrt_append)
    from Cons.IH [OF this] False show ?thesis by (simp add: e adopt_loop_step del: adopt_loop.simps)
  qed
qed

text \<open>
  \<open>headers::adopt\<close> accepts exactly the deliveries in which no two fields carry the same
  name under the matching, keeps every field in its place, and refuses with
  \<open>invalid_argument\<close> otherwise.
\<close>

theorem adopt_iff:
  "(adopt delivered matching = Inr hs \<longleftrightarrow> unambiguous matching delivered \<and> hs = \<lparr>delivered_fields = delivered\<rparr>) \<and>
   (\<not> unambiguous matching delivered \<longrightarrow> fails_with invalid_argument (adopt delivered matching))"
proof -
  have *: "adopt delivered matching = Inr hs \<longleftrightarrow> unambiguous matching delivered \<and> hs = \<lparr>delivered_fields = delivered\<rparr>" for hs
    using adopt_loop_ok [of matching "[]" delivered hs] by (simp add: adopt_def unambiguous_def)
  have inl: "adopt_loop matching delivered adopted = Inl e \<Longrightarrow> err_code e = invalid_argument" for adopted e
    by (induction matching delivered adopted rule: adopt_loop.induct) (auto simp: Let_def fail_def split: if_splits)
  show ?thesis
  proof (intro conjI impI)
    show "adopt delivered matching = Inr hs \<longleftrightarrow> unambiguous matching delivered \<and> hs = \<lparr>delivered_fields = delivered\<rparr>"
      by (rule *)
    assume "\<not> unambiguous matching delivered"
    with * obtain e where "adopt delivered matching = Inl e" by (cases "adopt delivered matching") auto
    with inl show "fails_with invalid_argument (adopt delivered matching)" by (simp add: adopt_def)
  qed
qed

theorem adopt_iff_witness:
  "fails_with invalid_argument (adopt [(''ce-id'', ''1''), (''CE-ID'', ''2'')] case_insensitive)"
proof -
  have "\<not> unambiguous case_insensitive [(''ce-id'', ''1''), (''CE-ID'', ''2'')]"
    by code_simp
  then show ?thesis using adopt_iff by blast
qed

end
