(* ===== verification/Ordered_Map.thy ===== *)
theory Ordered_Map
  imports Prelude "HOL-Library.List_Lexorder" "HOL-Library.Multiset"
begin

text \<open>
  \<open>std::map\<close> with its default ordering, as the SDK uses it for the extension attributes
  (\<open>std::map<extension_name, attribute_value, std::less<>>\<close>): the entries in ascending key
  order, each key once. A key is a text; texts compare octet by octet, as
  \<open>std::char_traits<char>\<close> compares them.
\<close>

type_synonym ('k, 'v) omap = "('k \<times> 'v) list"

definition om_find :: "'k \<Rightarrow> ('k, 'v) omap \<Rightarrow> 'v option" where
  "om_find k m = map_of m k"

fun om_insert_or_assign :: "'k::linorder \<Rightarrow> 'v \<Rightarrow> ('k, 'v) omap \<Rightarrow> ('k, 'v) omap" where
  "om_insert_or_assign k v [] = [(k, v)]"
| "om_insert_or_assign k v ((k', v') # m) =
     (if k < k' then (k, v) # (k', v') # m
      else if k = k' then (k, v) # m
      else (k', v') # om_insert_or_assign k v m)"

definition om_erase :: "'k \<Rightarrow> ('k, 'v) omap \<Rightarrow> ('k, 'v) omap" where
  "om_erase k m = filter (\<lambda>entry. fst entry \<noteq> k) m"

text \<open>\<open>emplace\<close> keeps an entry that is there.\<close>

definition om_emplace :: "'k::linorder \<Rightarrow> 'v \<Rightarrow> ('k, 'v) omap \<Rightarrow> ('k, 'v) omap" where
  "om_emplace k v m = (case om_find k m of Some _ \<Rightarrow> m | None \<Rightarrow> om_insert_or_assign k v m)"

definition om_ok :: "('k::linorder, 'v) omap \<Rightarrow> bool" where
  "om_ok m \<longleftrightarrow> sorted_wrt (<) (map fst m)"


section \<open>The contract of a map\<close>

locale map_contract =
  fixes ok :: "'m \<Rightarrow> bool" and find :: "'k \<Rightarrow> 'm \<Rightarrow> 'v option" and insert :: "'k \<Rightarrow> 'v \<Rightarrow> 'm \<Rightarrow> 'm"
    and erase :: "'k \<Rightarrow> 'm \<Rightarrow> 'm" and none :: 'm and entries :: "'m \<Rightarrow> ('k \<times> 'v) list"
  assumes ok_none: "ok none"
    and ok_insert: "ok m \<Longrightarrow> ok (insert k v m)"
    and ok_erase: "ok m \<Longrightarrow> ok (erase k m)"
    and find_none: "find k none = None"
    and find_insert: "ok m \<Longrightarrow> find k' (insert k v m) = (if k' = k then Some v else find k' m)"
    and find_erase: "ok m \<Longrightarrow> find k' (erase k m) = (if k' = k then None else find k' m)"
    and same_entries: "ok m \<Longrightarrow> ok m' \<Longrightarrow> (\<And>k. find k m = find k m') \<Longrightarrow> m = m'"
    and distinct_entries: "ok m \<Longrightarrow> distinct (map fst (entries m))"
    and entries_find: "ok m \<Longrightarrow> map_of (entries m) k = find k m"
begin

lemma insert_insert: "ok m \<Longrightarrow> insert k v (insert k w m) = insert k v m"
  by (rule same_entries) (simp_all add: ok_insert find_insert)

lemma insert_commute: "ok m \<Longrightarrow> k \<noteq> k' \<Longrightarrow> insert k v (insert k' v' m) = insert k' v' (insert k v m)"
  by (rule same_entries) (simp_all add: ok_insert find_insert)

lemma erase_insert: "ok m \<Longrightarrow> find k m = None \<Longrightarrow> erase k (insert k v m) = m"
  by (rule same_entries) (simp_all add: ok_insert ok_erase find_insert find_erase)

lemma insert_found: "ok m \<Longrightarrow> find k m = Some v \<Longrightarrow> insert k v m = m"
  by (rule same_entries) (simp_all add: ok_insert find_insert)

text \<open>Inserting a list of entries one by one.\<close>

definition insert_all :: "('k \<times> 'v) list \<Rightarrow> 'm \<Rightarrow> 'm" where
  "insert_all xs m = fold (\<lambda>(k, v). insert k v) xs m"

lemma insert_all_simps [simp]:
  "insert_all [] m = m" "insert_all ((k, v) # xs) m = insert_all xs (insert k v m)"
  by (simp_all add: insert_all_def)

lemma ok_insert_all: "ok m \<Longrightarrow> ok (insert_all xs m)"
  by (induction xs arbitrary: m) (auto simp: ok_insert)

lemma find_insert_all:
  "ok m \<Longrightarrow> distinct (map fst xs) \<Longrightarrow>
     find k (insert_all xs m) = (case map_of xs k of Some v \<Rightarrow> Some v | None \<Rightarrow> find k m)"
proof (induction xs arbitrary: m)
  case (Cons x xs)
  obtain a b where x: "x = (a, b)" by fastforce
  have n: "map_of xs a = None" using Cons.prems(2) x by (simp add: map_of_eq_None_iff)
  have "find k (insert_all xs (insert a b m)) =
      (case map_of xs k of Some v \<Rightarrow> Some v | None \<Rightarrow> find k (insert a b m))"
    using Cons.prems x by (intro Cons.IH) (simp_all add: ok_insert)
  then show ?case using n by (simp add: x find_insert [OF Cons.prems(1)] split: option.splits)
qed simp

text \<open>Inserting the entries of a map, in any order, into the empty map gives the map back.\<close>

lemma insert_all_entries:
  assumes "ok m" "mset xs = mset (entries m)"
  shows "insert_all xs none = m"
proof (rule same_entries)
  show "ok (insert_all xs none)" by (rule ok_insert_all [OF ok_none])
  show "ok m" by fact
  fix k
  have "mset (map fst xs) = mset (map fst (entries m))" using assms(2) by (metis mset_map)
  then have d: "distinct (map fst xs)" using distinct_entries [OF assms(1)] by (metis mset_eq_imp_distinct_iff)
  then have "map_of xs = map_of (entries m)"
    using assms(2) distinct_entries [OF assms(1)] by (metis map_of_inject_set mset_eq_setD)
  then show "find k (insert_all xs none) = find k m"
    using find_insert_all [OF ok_none d] entries_find [OF assms(1)]
    by (auto simp: find_none split: option.splits)
qed

end


section \<open>The ordered map keeps the contract\<close>

lemma om_insert_subset: "set (om_insert_or_assign k v m) \<subseteq> insert (k, v) (set m)"
  by (induction k v m rule: om_insert_or_assign.induct) auto

lemma om_ok_Nil [simp]: "om_ok []"
  by (simp add: om_ok_def)

lemma om_ok_Cons: "om_ok ((k, v) # m) \<longleftrightarrow> (\<forall>k' \<in> fst ` set m. k < k') \<and> om_ok m"
  by (simp add: om_ok_def)

lemma om_insert_keys: "fst ` set (om_insert_or_assign k v m) = insert k (fst ` set m)"
  by (induction k v m rule: om_insert_or_assign.induct) auto

lemma om_ok_insert: "om_ok m \<Longrightarrow> om_ok (om_insert_or_assign k v m)"
  by (induction k v m rule: om_insert_or_assign.induct)
    (auto simp: om_ok_Cons om_insert_keys not_less_iff_gr_or_eq)

lemma om_find_insert:
  "om_find k' (om_insert_or_assign k v m) = (if k' = k then Some v else om_find k' m)"
  by (induction k v m rule: om_insert_or_assign.induct) (auto simp: om_find_def)

lemma om_ok_distinct: "om_ok m \<Longrightarrow> distinct (map fst m)"
  unfolding om_ok_def using strict_sorted_iff by blast

lemma om_find_erase: "om_find k' (om_erase k m) = (if k' = k then None else om_find k' m)"
  by (induction m) (auto simp: om_find_def om_erase_def)

lemma om_ok_erase: "om_ok m \<Longrightarrow> om_ok (om_erase k m)"
  by (induction m) (auto simp: om_erase_def om_ok_Cons)

lemma om_ext:
  assumes "om_ok m" "om_ok m'" "\<And>k. om_find k m = om_find k m'"
  shows "m = m'"
proof -
  have "map_of m = map_of m'" using assms(3) by (auto simp: om_find_def)
  then have s: "set m = set m'"
    using om_ok_distinct assms(1,2) by (metis map_of_inject_set)
  have "sorted (map fst m)" "sorted (map fst m')"
    using assms(1,2) by (auto simp: om_ok_def strict_sorted_iff)
  moreover have "inj_on fst (set m \<union> set m')"
    using om_ok_distinct [OF assms(1)] s by (simp add: distinct_map)
  ultimately show ?thesis
    using s om_ok_distinct [OF assms(1)] om_ok_distinct [OF assms(2)]
    by (intro map_sorted_distinct_set_unique [of fst m m'])
qed


interpretation om: map_contract om_ok om_find om_insert_or_assign om_erase "[]" "\<lambda>m. m"
proof unfold_locales
  show "om_find k [] = None" for k by (simp add: om_find_def)
qed (simp_all add: om_ok_insert om_ok_erase om_find_insert om_find_erase om_ok_distinct om_ext,
    simp add: om_find_def)

lemma om_find_emplace:
  "om_find k' (om_emplace k v m) =
     (if k' = k \<and> om_find k m = None then Some v else om_find k' m)"
  by (auto simp: om_emplace_def om_find_insert split: option.splits)

lemma om_ok_emplace: "om_ok m \<Longrightarrow> om_ok (om_emplace k v m)"
  by (auto simp: om_emplace_def om_ok_insert split: option.splits)

end
