(* ===== verification/Events.thy ===== *)
theory Events
  imports Json_Codec Messages Ordered_Map
begin

text \<open>
  \<open>include/cloudevents/core.hpp\<close>: the event, its builder and its operations, and the extension
  structs of \<open>include/cloudevents/extensions.hpp\<close>. A field of a validated type holds the text
  that the type views.
\<close>

section \<open>The event\<close>

datatype 'j data_t =
    No_data
  | Text_data string
  | Binary_data binary
  | Json_text string
  | Json_document "'j json_document"

type_synonym extension_map = "(string, attribute_value) omap"

record 'j options =
  o_datacontenttype :: "string option"
  o_dataschema :: "string option"
  o_subject :: "string option"
  o_time :: "timestamp option"
  o_extensions :: extension_map
  o_data :: "'j data_t"

definition no_options :: "'j options" where
  "no_options = \<lparr>o_datacontenttype = None, o_dataschema = None, o_subject = None, o_time = None,
     o_extensions = [], o_data = No_data\<rparr>"

record 'j event =
  e_id :: string
  e_source :: string
  e_type :: string
  e_rest :: "'j options"

record 'j builder =
  b_id :: "string option"
  b_source :: "string option"
  b_type :: "string option"
  b_rest :: "'j options"

definition new_builder :: "'j builder" where
  "new_builder = \<lparr>b_id = None, b_source = None, b_type = None, b_rest = no_options\<rparr>"

definition build :: "'j builder \<Rightarrow> 'j event result" where
  "build b =
     (case b_id b of
        None \<Rightarrow> fail missing_required_attribute ''id must be present'' ''id''
      | Some i \<Rightarrow>
          (case b_source b of
             None \<Rightarrow> fail missing_required_attribute ''source must be present'' ''source''
           | Some origin \<Rightarrow>
               (case b_type b of
                  None \<Rightarrow> fail missing_required_attribute ''type must be present'' ''type''
                | Some k \<Rightarrow> Inr \<lparr>e_id = i, e_source = origin, e_type = k, e_rest = b_rest b\<rparr>)))"

definition specversion :: "'j event \<Rightarrow> string" where
  "specversion ev = spec_version_view"

definition set_data :: "'j data_t \<Rightarrow> string option \<Rightarrow> 'j event \<Rightarrow> 'j event" where
  "set_data payload media ev =
     ev\<lparr>e_rest := e_rest ev\<lparr>o_data := payload, o_datacontenttype := media\<rparr>\<rparr>"

definition set_extension :: "string \<Rightarrow> attribute_value \<Rightarrow> 'j event \<Rightarrow> 'j event" where
  "set_extension name v ev =
     ev\<lparr>e_rest := e_rest ev\<lparr>o_extensions := om_insert_or_assign name v (o_extensions (e_rest ev))\<rparr>\<rparr>"

definition remove_extension :: "string \<Rightarrow> 'j event \<Rightarrow> bool \<times> 'j event" where
  "remove_extension name ev =
     (case om_find name (o_extensions (e_rest ev)) of
        None \<Rightarrow> (False, ev)
      | Some _ \<Rightarrow> (True, ev\<lparr>e_rest := e_rest ev\<lparr>o_extensions := om_erase name (o_extensions (e_rest ev))\<rparr>\<rparr>))"

definition extension :: "string \<Rightarrow> 'j event \<Rightarrow> attribute_value option" where
  "extension name ev = om_find name (o_extensions (e_rest ev))"

definition recommended_name_length :: nat where "recommended_name_length = 20"

definition lint :: "'j event \<Rightarrow> lint_warning list" where
  "lint ev = fold (\<lambda>(name, v) warnings.
       if length name > recommended_name_length
       then warnings @ [\<lparr>w_attribute = name, w_message = ''extension names should be 20 characters or fewer''\<rparr>]
       else warnings)
     (o_extensions (e_rest ev)) []"


section \<open>Equality\<close>

definition data_equal :: "'j data_t \<Rightarrow> 'j data_t \<Rightarrow> bool" where
  "data_equal a b =
     (case (a, b) of
        (No_data, No_data) \<Rightarrow> True
      | (Text_data s, Text_data t) \<Rightarrow> s = t
      | (Binary_data s, Binary_data t) \<Rightarrow> s = t
      | (Json_text s, Json_text t) \<Rightarrow> s = t
      | (Json_document d, Json_document d') \<Rightarrow> document_equal d d'
      | _ \<Rightarrow> False)"

definition options_equal :: "'j options \<Rightarrow> 'j options \<Rightarrow> bool" where
  "options_equal a b \<longleftrightarrow>
     o_datacontenttype a = o_datacontenttype b \<and> o_dataschema a = o_dataschema b \<and>
     o_subject a = o_subject b \<and> o_time a = o_time b \<and> o_extensions a = o_extensions b \<and>
     data_equal (o_data a) (o_data b)"

definition event_equal :: "'j event \<Rightarrow> 'j event \<Rightarrow> bool" where
  "event_equal a b \<longleftrightarrow> e_id a = e_id b \<and> e_source a = e_source b \<and> e_type a = e_type b \<and>
     options_equal (e_rest a) (e_rest b)"

lemma data_equal_refl: "data_equal d d"
  by (simp add: data_equal_def document_equal_refl split: data_t.split)

lemma event_equal_refl: "event_equal ev ev"
  by (simp add: event_equal_def options_equal_def data_equal_refl)


section \<open>Extension structs\<close>

text \<open>
  A described struct is the list of its fields. A value of it holds one attribute value per
  field; \<open>None\<close> is an empty \<open>std::optional\<close>.
\<close>

record ext_field =
  f_name :: string
  f_kind :: field_kind
  f_optional :: bool

type_synonym ext_value = "attribute_value option list"

definition tracing :: "ext_field list" where
  "tracing = [\<lparr>f_name = ''traceparent'', f_kind = F_string, f_optional = False\<rparr>,
              \<lparr>f_name = ''tracestate'', f_kind = F_string, f_optional = True\<rparr>]"

definition partitioning :: "ext_field list" where
  "partitioning = [\<lparr>f_name = ''partitionkey'', f_kind = F_string, f_optional = False\<rparr>]"

definition sampled_rate :: "ext_field list" where
  "sampled_rate = [\<lparr>f_name = ''sampledrate'', f_kind = F_int32, f_optional = False\<rparr>]"

definition sampled_rate_validate :: "int \<Rightarrow> unit result" where
  "sampled_rate_validate sampledrate =
     (if sampledrate \<le> 0
      then fail invalid_attribute_value ''sampledrate must be greater than zero'' ''sampledrate''
      else Inr ())"

definition sequence :: "ext_field list" where
  "sequence = [\<lparr>f_name = ''sequence'', f_kind = F_string, f_optional = False\<rparr>]"

definition dataref :: "ext_field list" where
  "dataref = [\<lparr>f_name = ''dataref'', f_kind = F_uri_ref, f_optional = False\<rparr>]"

text \<open>\<open>event::get<Ext>\<close>: the first field that cannot be read ends the reading.\<close>

fun get_ext :: "ext_field list \<Rightarrow> 'j event \<Rightarrow> ext_value result" where
  "get_ext [] ev = Inr []"
| "get_ext (f # fs) ev =
     (case extension (f_name f) ev of
        None \<Rightarrow>
          if f_optional f then and_then (get_ext fs ev) (\<lambda>vs. Inr (None # vs))
          else fail missing_required_attribute ''the extension requires this attribute'' (f_name f)
      | Some stored \<Rightarrow>
          and_then (read_attribute (f_kind f) stored (f_name f)) (\<lambda>v.
            and_then (get_ext fs ev) (\<lambda>vs. Inr (Some v # vs))))"

text \<open>
  \<open>event::set<Ext>\<close> changes the event field by field; after an error the rest of the fields are
  skipped and what was written stays.
\<close>

fun set_ext :: "ext_field list \<Rightarrow> ext_value \<Rightarrow> 'j event \<Rightarrow> unit result \<times> 'j event" where
  "set_ext (f # fs) (v # vs) ev =
     (case v of
        None \<Rightarrow> set_ext fs vs (snd (remove_extension (f_name f) ev))
      | Some held \<Rightarrow>
          (case make_validated extension_name_policy (f_name f) of
             Inl e \<Rightarrow> (Inl e, ev)
           | Inr attribute \<Rightarrow> set_ext fs vs (set_extension attribute held ev)))"
| "set_ext fs vs ev = (Inr (), ev)"


section \<open>Well-formed events\<close>

definition value_ok :: "attribute_value \<Rightarrow> bool" where
  "value_ok v \<longleftrightarrow>
     (case v of Int32 i \<Rightarrow> int32_min \<le> i \<and> i \<le> int32_max | Time t \<Rightarrow> ts_ok t | _ \<Rightarrow> True)"

definition accepted_by :: "policy \<Rightarrow> string option \<Rightarrow> bool" where
  "accepted_by p slot \<longleftrightarrow> (case slot of Some s \<Rightarrow> p_check p s = None | None \<Rightarrow> True)"

definition options_ok :: "'j options \<Rightarrow> bool" where
  "options_ok rest \<longleftrightarrow>
     accepted_by datacontenttype_policy (o_datacontenttype rest) \<and>
     accepted_by dataschema_policy (o_dataschema rest) \<and> accepted_by subject_policy (o_subject rest) \<and>
     (case o_time rest of Some t \<Rightarrow> ts_ok t | None \<Rightarrow> True) \<and>
     om_ok (o_extensions rest) \<and>
     (\<forall>(name, v) \<in> set (o_extensions rest). p_check extension_name_policy name = None \<and> value_ok v)"

definition event_ok :: "'j event \<Rightarrow> bool" where
  "event_ok ev \<longleftrightarrow> p_check id_policy (e_id ev) = None \<and> p_check source_policy (e_source ev) = None \<and>
     p_check type_policy (e_type ev) = None \<and> options_ok (e_rest ev)"

definition builder_ok :: "'j builder \<Rightarrow> bool" where
  "builder_ok b \<longleftrightarrow> accepted_by id_policy (b_id b) \<and> accepted_by source_policy (b_source b) \<and>
     accepted_by type_policy (b_type b) \<and> options_ok (b_rest b)"


section \<open>Every operation keeps an event well-formed\<close>

definition extensions_ok :: "extension_map \<Rightarrow> bool" where
  "extensions_ok m \<longleftrightarrow> om_ok m \<and>
     (\<forall>name v. om_find name m = Some v \<longrightarrow> p_check extension_name_policy name = None \<and> value_ok v)"

lemma om_entries_all:
  "om_ok m \<Longrightarrow> (\<forall>(k, v) \<in> set m. P k v) \<longleftrightarrow> (\<forall>k v. om_find k m = Some v \<longrightarrow> P k v)"
  using om_ok_distinct [of m] by (auto simp: om_find_def)

lemma options_ok_extensions:
  "options_ok rest \<longleftrightarrow>
     accepted_by datacontenttype_policy (o_datacontenttype rest) \<and>
     accepted_by dataschema_policy (o_dataschema rest) \<and> accepted_by subject_policy (o_subject rest) \<and>
     (case o_time rest of Some t \<Rightarrow> ts_ok t | None \<Rightarrow> True) \<and> extensions_ok (o_extensions rest)"
  unfolding options_ok_def extensions_ok_def
  using om_entries_all [of "o_extensions rest" "\<lambda>k v. p_check extension_name_policy k = None \<and> value_ok v"]
  by blast

lemma extensions_ok_Nil [ce_inv]: "extensions_ok []"
  by (simp add: extensions_ok_def om_find_def)

lemma extensions_ok_insert [ce_inv]:
  "extensions_ok m \<Longrightarrow> p_check extension_name_policy name = None \<Longrightarrow> value_ok v \<Longrightarrow>
     extensions_ok (om_insert_or_assign name v m)"
  by (simp add: extensions_ok_def om.ok_insert om.find_insert)

lemma extensions_ok_erase [ce_inv]: "extensions_ok m \<Longrightarrow> extensions_ok (om_erase name m)"
  by (simp add: extensions_ok_def om.ok_erase om.find_erase)

lemma no_options_ok [ce_inv]: "options_ok no_options"
  by (simp add: options_ok_extensions no_options_def accepted_by_def extensions_ok_Nil)

lemma new_builder_ok [ce_inv]: "builder_ok new_builder"
  by (simp add: builder_ok_def new_builder_def accepted_by_def no_options_ok)

lemma build_Inr:
  "build b = Inr ev \<longleftrightarrow> b_id b = Some (e_id ev) \<and> b_source b = Some (e_source ev) \<and>
     b_type b = Some (e_type ev) \<and> b_rest b = e_rest ev"
  by (cases ev) (auto simp: build_def split: option.splits)

lemma build_ok [ce_inv]: "builder_ok b \<Longrightarrow> build b = Inr ev \<Longrightarrow> event_ok ev"
  by (auto simp: build_Inr builder_ok_def event_ok_def accepted_by_def)

lemma set_data_ok [ce_inv]:
  "event_ok ev \<Longrightarrow> accepted_by datacontenttype_policy m \<Longrightarrow> event_ok (set_data payload m ev)"
  by (simp add: event_ok_def set_data_def options_ok_extensions)

lemma set_extension_ok [ce_inv]:
  "event_ok ev \<Longrightarrow> p_check extension_name_policy name = None \<Longrightarrow> value_ok v \<Longrightarrow>
     event_ok (set_extension name v ev)"
  by (simp add: event_ok_def set_extension_def options_ok_extensions extensions_ok_insert)

lemma remove_extension_ok [ce_inv]: "event_ok ev \<Longrightarrow> event_ok (snd (remove_extension name ev))"
  by (simp add: event_ok_def remove_extension_def options_ok_extensions extensions_ok_erase split: option.splits)

lemma event_ok_om: "event_ok ev \<Longrightarrow> om_ok (o_extensions (e_rest ev))"
  by (simp add: event_ok_def options_ok_def)

lemma extension_set:
  "event_ok ev \<Longrightarrow> extension name' (set_extension name v ev) = (if name' = name then Some v else extension name' ev)"
  by (simp add: extension_def set_extension_def om.find_insert event_ok_om)

lemma extension_remove:
  "event_ok ev \<Longrightarrow> extension name' (snd (remove_extension name ev)) =
     (if name' = name then None else extension name' ev)"
  by (auto simp: extension_def remove_extension_def om.find_erase event_ok_om split: option.splits)

text \<open>
  C31: building, setting the data and setting or removing an extension keep an event well-formed
  (every attribute text accepted by its policy, every extension name valid and not reserved,
  every value in range, the extensions in order), and each extension operation changes the one
  name it is about.
\<close>

theorem event_operations:
  assumes "event_ok ev" "p_check extension_name_policy name = None" "value_ok v"
    and "accepted_by datacontenttype_policy m"
  shows "event_ok (set_extension name v ev) \<and> event_ok (snd (remove_extension name ev)) \<and>
    event_ok (set_data payload m ev) \<and>
    (\<forall>other. extension other (set_extension name v ev) = (if other = name then Some v else extension other ev)) \<and>
    (\<forall>other. extension other (snd (remove_extension name ev)) = (if other = name then None else extension other ev)) \<and>
    (fst (remove_extension name ev) \<longleftrightarrow> extension name ev \<noteq> None)"
  using assms
  by (simp add: ce_inv extension_set extension_remove)
    (simp add: remove_extension_def extension_def split: option.splits)


section \<open>Extension structs survive the event\<close>

definition ext_value_ok :: "ext_field list \<Rightarrow> ext_value \<Rightarrow> bool" where
  "ext_value_ok fs vs \<longleftrightarrow> list_all2 (\<lambda>f v. case v of None \<Rightarrow> f_optional f
     | Some held \<Rightarrow> has_kind (f_kind f) held \<and> value_ok held) fs vs"

lemma set_ext_extension:
  "event_ok ev \<Longrightarrow> ext_value_ok fs vs \<Longrightarrow> set_ext fs vs ev = (Inr (), ev') \<Longrightarrow>
     event_ok ev' \<and> (\<forall>name. name \<notin> f_name ` set fs \<longrightarrow> extension name ev' = extension name ev)"
proof (induction fs vs ev rule: set_ext.induct)
  case (1 f fs v vs ev)
  show ?case
  proof (cases v)
    case None
    with 1 have ok: "event_ok (snd (remove_extension (f_name f) ev))" "ext_value_ok fs vs"
      by (auto simp: ce_inv ext_value_ok_def)
    from "1.IH"(1) [OF None this] 1(5) None show ?thesis
      using extension_remove [OF "1.prems"(1)] by simp
  next
    case (Some held)
    with 1(5) have n: "p_check extension_name_policy (f_name f) = None"
      and s: "set_ext fs vs (set_extension (f_name f) held ev) = (Inr (), ev')"
      by (auto simp: extension_name_rules.make_Inr split: sum.splits)
    with 1 Some have ok: "event_ok (set_extension (f_name f) held ev)" "ext_value_ok fs vs"
      by (auto simp: ce_inv ext_value_ok_def)
    have "make_validated extension_name_policy (f_name f) = Inr (f_name f)"
      using n by (simp add: extension_name_rules.make_Inr)
    from "1.IH"(2) [OF Some this ok s] show ?thesis
      using extension_set [OF "1.prems"(1)] by simp
  qed
qed (auto simp: ext_value_ok_def)

lemma set_get_ext:
  "event_ok ev \<Longrightarrow> ext_value_ok fs vs \<Longrightarrow> distinct (map f_name fs) \<Longrightarrow> set_ext fs vs ev = (Inr (), ev') \<Longrightarrow>
     get_ext fs ev' = Inr vs"
proof (induction fs vs ev rule: set_ext.induct)
  case (1 f fs v vs ev)
  from "1.prems"(2) have tl: "ext_value_ok fs vs" by (simp add: ext_value_ok_def)
  from "1.prems"(3) have d: "distinct (map f_name fs)" "f_name f \<notin> f_name ` set fs" by simp_all
  show ?case
  proof (cases v)
    case None
    let ?ev = "snd (remove_extension (f_name f) ev)"
    have ok: "event_ok ?ev" using "1.prems"(1) by (simp add: ce_inv)
    have s: "set_ext fs vs ?ev = (Inr (), ev')" using "1.prems"(4) None by simp
    have "extension (f_name f) ev' = None"
      using set_ext_extension [OF ok tl s] d(2) extension_remove [OF "1.prems"(1)] by auto
    moreover have "f_optional f" using "1.prems"(2) None by (simp add: ext_value_ok_def)
    ultimately show ?thesis using "1.IH"(1) [OF None ok tl d(1) s] None by simp
  next
    case (Some held)
    let ?ev = "set_extension (f_name f) held ev"
    from "1.prems"(4) Some have n: "p_check extension_name_policy (f_name f) = None"
      and s: "set_ext fs vs ?ev = (Inr (), ev')"
      by (auto simp: extension_name_rules.make_Inr split: sum.splits)
    have m: "make_validated extension_name_policy (f_name f) = Inr (f_name f)"
      using n by (simp add: extension_name_rules.make_Inr)
    have h: "has_kind (f_kind f) held" "value_ok held"
      using "1.prems"(2) Some by (simp_all add: ext_value_ok_def)
    have ok: "event_ok ?ev" using "1.prems"(1) n h by (simp add: ce_inv)
    have "extension (f_name f) ev' = Some held"
      using set_ext_extension [OF ok tl s] d(2) extension_set [OF "1.prems"(1)] by auto
    then show ?thesis using "1.IH"(2) [OF Some m ok tl d(1) s] h Some by (simp add: read_attribute_def)
  qed
qed (auto simp: ext_value_ok_def)

text \<open>
  C1: a value that \<open>event::set\<close> stores without error is what \<open>event::get\<close> reads back, for every
  struct whose field names differ; an empty optional field is read as empty even when the event
  had the attribute before.
\<close>

theorem get_ext_set_ext:
  assumes "event_ok ev" "ext_value_ok fs vs" "distinct (map f_name fs)" "set_ext fs vs ev = (Inr (), ev')"
  shows "get_ext fs ev' = Inr vs \<and> event_ok ev' \<and>
    (\<forall>name. name \<notin> f_name ` set fs \<longrightarrow> extension name ev' = extension name ev)"
  using set_get_ext [OF assms] set_ext_extension [OF assms(1,2,4)] by blast

lemma lint_names:
  "map w_attribute (lint ev) = filter (\<lambda>name. 20 < length name) (map fst (o_extensions (e_rest ev)))"
proof -
  have "map w_attribute (fold (\<lambda>(name, v) warnings.
       if length name > recommended_name_length
       then warnings @ [\<lparr>w_attribute = name, w_message = ''extension names should be 20 characters or fewer''\<rparr>]
       else warnings) m ws) = map w_attribute ws @ filter (\<lambda>name. 20 < length name) (map fst m)"
    for m :: extension_map and ws
    by (induction m arbitrary: ws) (auto simp: recommended_name_length_def)
  then show ?thesis by (simp add: lint_def)
qed

definition sample_event :: "unit event" where
  "sample_event = \<lparr>e_id = ''1'', e_source = ''/s'', e_type = ''t'', e_rest = no_options\<rparr>"

lemma sample_event_ok: "event_ok sample_event"
  by (simp add: event_ok_def sample_event_def no_options_ok id_policy_def source_policy_def type_policy_def
      check_text_None is_valid_utf8_ascii_list)

lemma tracing_names:
  "make_validated extension_name_policy ''traceparent'' = Inr ''traceparent''"
  "make_validated extension_name_policy ''tracestate'' = Inr ''tracestate''"
  unfolding extension_name_rules.make_Inr
  by (simp_all add: extension_name_policy_def check_extension_name_None
      valid_attribute_name_iff name_char_def is_lower_def reserved_name_def reserved_names_def)

theorem get_ext_set_ext_witness:
  "get_ext tracing (snd (set_ext tracing [Some (Str ''00-1''), None] sample_event)) = Inr [Some (Str ''00-1''), None]"
proof -
  have ok: "ext_value_ok tracing [Some (Str ''00-1''), None]"
    by (simp add: ext_value_ok_def tracing_def has_kind_def value_ok_def)
  have d: "distinct (map f_name tracing)" by (simp add: tracing_def)
  obtain ev' where s: "set_ext tracing [Some (Str ''00-1''), None] sample_event = (Inr (), ev')"
    by (simp add: tracing_def tracing_names)
  from get_ext_set_ext [OF sample_event_ok ok d s] s show ?thesis by simp
qed

theorem event_operations_witness:
  "event_ok (set_extension ''traceparent'' (Int32 7) sample_event) \<and>
   extension ''traceparent'' (set_extension ''traceparent'' (Int32 7) sample_event) = Some (Int32 7)"
proof -
  have n: "p_check extension_name_policy ''traceparent'' = None"
    using tracing_names(1) by (simp add: extension_name_rules.make_Inr)
  have v: "value_ok (Int32 7)" by (simp add: value_ok_def int32_min_def int32_max_def)
  have m: "accepted_by datacontenttype_policy None" by (simp add: accepted_by_def)
  from event_operations [OF sample_event_ok n v m, of No_data] show ?thesis by simp
qed

end
