(* ===== verification/Base64.thy ===== *)
theory Base64
  imports Errors Utf8
begin

unbundle bit_operations_syntax

text \<open>
  \<open>include/cloudevents/format/base64.hpp\<close>: the base64 codec of the JSON format's
  \<open>data_base64\<close> member. The group and the accumulator are 32-bit words, as in the code, so a
  left shift drops the bits above the word.
\<close>

section \<open>The alphabet\<close>

definition base64_alphabet :: string where
  "base64_alphabet = ''ABCDEFGHIJKLMNOPQRSTUVWXYZabcdefghijklmnopqrstuvwxyz0123456789+/''"

definition not_in_alphabet :: byte where "not_in_alphabet = 0xFF"

definition base64_value :: "char \<Rightarrow> byte" where
  "base64_value c =
     (if CHR ''A'' \<le> c \<and> c \<le> CHR ''Z'' then uchar c - uchar (CHR ''A'')
      else if CHR ''a'' \<le> c \<and> c \<le> CHR ''z'' then uchar c - uchar (CHR ''a'') + 26
      else if CHR ''0'' \<le> c \<and> c \<le> CHR ''9'' then uchar c - uchar (CHR ''0'') + 52
      else if c = CHR ''+'' then 62
      else if c = CHR ''/'' then 63
      else not_in_alphabet)"

definition base64_character :: "u32 \<Rightarrow> char" where
  "base64_character v = base64_alphabet ! unat (v AND 0x3F)"


section \<open>Encoding\<close>

definition pack :: "byte list \<Rightarrow> u32" where
  "pack octets = fold (\<lambda>octet group. push_bit 8 group OR (ucast octet :: u32)) octets 0"

definition emit :: "u32 \<Rightarrow> nat \<Rightarrow> char" where
  "emit packed offset = base64_character (drop_bit offset packed)"

fun base64_encode :: "binary \<Rightarrow> string" where
  "base64_encode (a # b # c # rest) =
     (let group = pack [a, b, c]
      in emit group 18 # emit group 12 # emit group 6 # emit group 0 # base64_encode rest)"
| "base64_encode [a, b] =
     (let group = push_bit 2 (pack [a, b]) in [emit group 12, emit group 6, emit group 0] @ ''='')"
| "base64_encode [a] = (let group = push_bit 4 (pack [a]) in [emit group 6, emit group 0] @ ''=='')"
| "base64_encode [] = []"


section \<open>Decoding\<close>

function strip_padding :: "string \<Rightarrow> nat \<Rightarrow> string \<times> nat" where
  "strip_padding body padding =
     (if body \<noteq> [] \<and> last body = CHR ''='' then strip_padding (butlast body) (Suc padding)
      else (body, padding))"
  by pat_completeness auto
termination by (relation "measure (length \<circ> fst)") auto

declare strip_padding.simps [simp del]

text \<open>The loop over the body: the accumulator, the number of its unread bits, the octets so far.\<close>

fun decode_sextets :: "string \<Rightarrow> string \<Rightarrow> u32 \<Rightarrow> nat \<Rightarrow> binary \<Rightarrow> (u32 \<times> nat \<times> binary) result" where
  "decode_sextets txt [] accumulator bits out = Inr (accumulator, bits, out)"
| "decode_sextets txt (character # body) accumulator bits out =
     (let sextet = base64_value character
      in if sextet = not_in_alphabet
         then fail invalid_base64 ''character is not in the base64 alphabet'' txt
         else
           let accumulator = push_bit 6 accumulator OR (ucast sextet :: u32);
               bits = bits + 6
           in if bits \<ge> 8
              then decode_sextets txt body accumulator (bits - 8)
                (out @ [ucast (drop_bit (bits - 8) accumulator AND 0xFF) :: byte])
              else decode_sextets txt body accumulator bits out)"

definition base64_decode :: "string \<Rightarrow> binary result" where
  "base64_decode txt =
     (let (body, padding) = strip_padding txt 0
      in if padding > 2 then fail invalid_base64 ''more than two padding characters'' txt
         else if padding > 0 \<and> length txt mod 4 \<noteq> 0
         then fail invalid_base64 ''padding does not complete the final quantum'' txt
         else if length body mod 4 = 1
         then fail invalid_base64 ''encoded length leaves a stray sextet'' txt
         else and_then (decode_sextets txt body 0 0 []) (\<lambda>(accumulator, bits, out).
           if bits > 0 \<and> accumulator AND (push_bit bits 1 - 1) \<noteq> 0
           then fail invalid_base64 ''unused trailing bits are not zero'' txt
           else Inr out))"


section \<open>Sextets\<close>

lemma base64_alphabet_upt:
  "base64_alphabet = map char_of ([65..<91] @ [97..<123] @ [48..<58] @ [43, 47 :: nat])"
  by (simp add: base64_alphabet_def upt_rec char_of_def bit_0)

lemma alphabet_at:
  "j < 26 \<Longrightarrow> base64_alphabet ! j = char_of (65 + j)"
  "j < 26 \<Longrightarrow> base64_alphabet ! (26 + j) = char_of (97 + j)"
  "j < 10 \<Longrightarrow> base64_alphabet ! (52 + j) = char_of (48 + j)"
  by (simp_all add: base64_alphabet_upt nth_append del: upt_rec_numeral)

lemma base64_value_cases:
  assumes "base64_value c \<noteq> not_in_alphabet"
  shows "unat (base64_value c) < 64" "base64_alphabet ! unat (base64_value c) = c"
proof -
  let ?n = "of_char c :: nat"
  have le: "CHR ''A'' \<le> c \<longleftrightarrow> 65 \<le> ?n" "c \<le> CHR ''Z'' \<longleftrightarrow> ?n \<le> 90" "CHR ''a'' \<le> c \<longleftrightarrow> 97 \<le> ?n"
    "c \<le> CHR ''z'' \<longleftrightarrow> ?n \<le> 122" "CHR ''0'' \<le> c \<longleftrightarrow> 48 \<le> ?n" "c \<le> CHR ''9'' \<longleftrightarrow> ?n \<le> 57"
    by (simp_all add: less_eq_char_def)
  have sub: "unat (uchar c - k + j) = ?n - unat k + unat j"
    if "unat k \<le> ?n" "?n - unat k + unat j < 256" for k j
    using that by (simp add: unat_sub unat_add_lem [THEN iffD1] word_le_nat_alt)
  have sub0: "unat (uchar c - k) = ?n - unat k" if "unat k \<le> ?n" for k
    using that by (simp add: unat_sub word_le_nat_alt)
  have char_of_is: "char_of k = c" if "?n = k" for k using that by auto
  consider (upper) "65 \<le> ?n" "?n \<le> 90" | (lower) "97 \<le> ?n" "?n \<le> 122" | (digit) "48 \<le> ?n" "?n \<le> 57"
    | (plus) "c = CHR ''+''" | (slash) "c = CHR ''/''"
    using assms by (auto simp: base64_value_def le split: if_splits)
  then have "unat (base64_value c) < 64 \<and> base64_alphabet ! unat (base64_value c) = c"
  proof cases
    case upper
    then obtain j where "?n = 65 + j" "j < 26" by (intro that [of "?n - 65"]) simp_all
    moreover from this have "unat (base64_value c) = j" using upper by (simp add: base64_value_def le sub0)
    ultimately show ?thesis by (simp add: alphabet_at(1) char_of_is)
  next
    case lower
    then obtain j where "?n = 97 + j" "j < 26" by (intro that [of "?n - 97"]) simp_all
    moreover from this have "unat (base64_value c) = 26 + j" using lower by (simp add: base64_value_def le sub)
    ultimately show ?thesis by (simp add: alphabet_at char_of_is)
  next
    case digit
    then obtain j where "?n = 48 + j" "j < 10" by (intro that [of "?n - 48"]) simp_all
    moreover from this have "unat (base64_value c) = 52 + j" using digit by (simp add: base64_value_def le sub)
    ultimately show ?thesis by (simp add: alphabet_at char_of_is)
  next
    case plus
    then show ?thesis by (simp add: base64_value_def base64_alphabet_def)
  next
    case slash
    then show ?thesis by (simp add: base64_value_def base64_alphabet_def)
  qed
  then show "unat (base64_value c) < 64" "base64_alphabet ! unat (base64_value c) = c" by simp_all
qed

lemma base64_character_value_all:
  "list_all (\<lambda>i. base64_value (base64_alphabet ! i) = word_of_nat i \<and> base64_alphabet ! i \<noteq> CHR ''='') [0..<64]"
  by code_simp


lemma uchar_ge_64: "unat v < 64 \<Longrightarrow> v \<noteq> not_in_alphabet"
  by (auto simp: not_in_alphabet_def)

lemma base64_value_character [simp]:
  "base64_value (base64_character v) = ucast (v AND 0x3F)" "base64_character v \<noteq> CHR ''=''"
proof -
  have "unat (v AND 0x3F) < 64"
    using unat_and_mask [of v 6] by (simp add: mask_eq_exp_minus_1)
  with base64_character_value_all have
    "base64_value (base64_character v) = word_of_nat (unat (v AND 0x3F))" "base64_character v \<noteq> CHR ''=''"
    by (auto simp: list_all_iff base64_character_def)
  then show "base64_value (base64_character v) = ucast (v AND 0x3F)" "base64_character v \<noteq> CHR ''=''"
    by (simp_all add: unsigned_of_nat)
qed

section \<open>Quanta\<close>

lemma and_masks: "(w :: u32) AND 0x3F = take_bit 6 w" "(w :: u32) AND 0xFF = take_bit 8 w"
  by (simp_all add: take_bit_eq_mask mask_eq_exp_minus_1)

lemma pack_simps:
  "pack [a, b, c] = push_bit 16 (ucast a) OR push_bit 8 (ucast b) OR ucast c"
  "pack [a, b] = push_bit 8 (ucast a) OR ucast b" "pack [a] = ucast a"
  by (simp_all add: pack_def push_bit_or or.assoc)

lemma below: "(n :: nat) < 8 \<Longrightarrow> n = 0 \<or> n = 1 \<or> n = 2 \<or> n = 3 \<or> n = 4 \<or> n = 5 \<or> n = 6 \<or> n = 7"
  by linarith

text \<open>Packing three octets and reading them out of the sextets.\<close>

definition sextet :: "u32 \<Rightarrow> nat \<Rightarrow> u32" where
  "sextet w offset = ucast (ucast (take_bit 6 (drop_bit offset w)) :: byte)"

lemma bit_sextet: "bit (sextet w k) n \<longleftrightarrow> n < 6 \<and> bit w (k + n)"
  by (auto simp: sextet_def bit_simps)

lemma bit_byte_high: "8 \<le> n \<Longrightarrow> \<not> bit (b :: byte) n"
  by (auto dest: bit_imp_le_length)

lemma octets_of_sextets:
  fixes acc :: u32 and a b c :: byte
  defines "g \<equiv> pack [a, b, c]"
  shows "ucast (take_bit 8 (drop_bit 4 (push_bit 6 (push_bit 6 acc OR sextet g 18) OR sextet g 12))) = a"
    "ucast (take_bit 8 (drop_bit 2 (push_bit 6 (push_bit 6 acc OR sextet g 12) OR sextet g 6))) = b"
    "ucast (take_bit 8 (push_bit 6 (push_bit 6 acc OR sextet g 6) OR sextet g 0)) = c"
  unfolding g_def pack_simps
  by (rule bit_word_eqI, simp, drule below, elim disjE; simp add: bit_simps bit_sextet bit_byte_high flip: numeral_2_eq_2)+

lemma octets_of_two:
  fixes acc :: u32 and a b :: byte
  defines "g \<equiv> push_bit 2 (pack [a, b])"
  shows "ucast (take_bit 8 (drop_bit 4 (push_bit 6 (push_bit 6 acc OR sextet g 12) OR sextet g 6))) = a"
    "ucast (take_bit 8 (drop_bit 2 (push_bit 6 (push_bit 6 acc OR sextet g 6) OR sextet g 0))) = b"
    "take_bit 2 (push_bit 6 acc OR sextet g 0) = 0"
  unfolding g_def pack_simps
  by (rule bit_word_eqI, simp, drule below, elim disjE; simp add: bit_simps bit_sextet bit_byte_high flip: numeral_2_eq_2)+
    (auto simp: bit_eq_iff bit_simps bit_sextet)

lemma octets_of_one:
  fixes acc :: u32 and a :: byte
  defines "g \<equiv> push_bit 4 (pack [a])"
  shows "ucast (take_bit 8 (drop_bit 4 (push_bit 6 (push_bit 6 acc OR sextet g 6) OR sextet g 0))) = a"
    "take_bit 4 (push_bit 6 acc OR sextet g 0) = 0"
  unfolding g_def pack_simps
  by (rule bit_word_eqI, simp, drule below, elim disjE; simp add: bit_simps bit_sextet bit_byte_high flip: numeral_2_eq_2)+
    (auto simp: bit_eq_iff bit_simps bit_sextet)

lemma value_of_emit:
  "base64_value (emit g k) \<noteq> not_in_alphabet" "ucast (base64_value (emit g k)) = sextet g k"
  "emit g k \<noteq> CHR ''=''"
proof -
  have "unat (ucast (take_bit 6 x) :: byte) < 64" for x :: u32
  proof -
    have "ucast (take_bit 6 x) = take_bit 6 (ucast x :: byte)" by (auto simp: bit_eq_iff bit_simps)
    then show ?thesis
      using take_bit_nat_less_exp [of 6 "unat (ucast x :: byte)"] by (simp add: unsigned_take_bit_eq)
  qed
  then show "base64_value (emit g k) \<noteq> not_in_alphabet"
    by (simp add: emit_def and_masks uchar_ge_64)
qed (simp_all add: emit_def sextet_def and_masks)

text \<open>The way back: the sextets of the octets that a run of characters decodes to.\<close>

definition six :: "u32 \<Rightarrow> bool" where
  "six v \<longleftrightarrow> take_bit 6 v = v"

lemma six_bit: "six v \<Longrightarrow> 6 \<le> n \<Longrightarrow> \<not> bit v n"
  unfolding six_def by (metis bit_take_bit_iff not_less)

lemma below_6: "(n :: nat) < 6 \<Longrightarrow> n = 0 \<or> n = 1 \<or> n = 2 \<or> n = 3 \<or> n = 4 \<or> n = 5"
  by linarith

lemma sextet_eqI:
  assumes "six v" "\<And>n. n < 6 \<Longrightarrow> bit w (k + n) = bit v n"
  shows "sextet w k = v"
proof (rule bit_word_eqI)
  fix n
  show "bit (sextet w k) n = bit v n"
    using assms(2) [of n] six_bit [OF assms(1), of n] by (cases "n < 6") (auto simp: bit_sextet)
qed

lemma sextets_of_octets:
  fixes acc acc' acc'' v1 v2 v3 v4 :: u32
  assumes "six v1" "six v2" "six v3" "six v4"
  defines "a \<equiv> ucast (take_bit 8 (drop_bit 4 (push_bit 6 (push_bit 6 acc OR v1) OR v2))) :: byte"
    and "b \<equiv> ucast (take_bit 8 (drop_bit 2 (push_bit 6 (push_bit 6 acc' OR v2) OR v3))) :: byte"
    and "c \<equiv> ucast (take_bit 8 (push_bit 6 (push_bit 6 acc'' OR v3) OR v4)) :: byte"
  shows "sextet (pack [a, b, c]) 18 = v1" "sextet (pack [a, b, c]) 12 = v2"
    "sextet (pack [a, b, c]) 6 = v3" "sextet (pack [a, b, c]) 0 = v4"
  unfolding a_def b_def c_def pack_simps
  by (rule sextet_eqI, fact, drule below_6, elim disjE; simp add: bit_simps six_bit [OF assms(1)]
      six_bit [OF assms(2)] six_bit [OF assms(3)] six_bit [OF assms(4)] flip: numeral_2_eq_2)+

lemma sextets_of_two:
  fixes acc acc' v1 v2 v3 :: u32
  assumes "six v1" "six v2" "six v3" and tail: "take_bit 2 v3 = 0"
  defines "a \<equiv> ucast (take_bit 8 (drop_bit 4 (push_bit 6 (push_bit 6 acc OR v1) OR v2))) :: byte"
    and "b \<equiv> ucast (take_bit 8 (drop_bit 2 (push_bit 6 (push_bit 6 acc' OR v2) OR v3))) :: byte"
  shows "sextet (push_bit 2 (pack [a, b])) 12 = v1" "sextet (push_bit 2 (pack [a, b])) 6 = v2"
    "sextet (push_bit 2 (pack [a, b])) 0 = v3"
proof -
  have z: "\<not> bit v3 0" "\<not> bit v3 (Suc 0)"
    using tail by (auto simp: bit_eq_iff bit_simps)
  show "sextet (push_bit 2 (pack [a, b])) 12 = v1" "sextet (push_bit 2 (pack [a, b])) 6 = v2"
    "sextet (push_bit 2 (pack [a, b])) 0 = v3"
    unfolding a_def b_def pack_simps
    by (rule sextet_eqI, fact, drule below_6, elim disjE; simp add: bit_simps six_bit [OF assms(1)]
        six_bit [OF assms(2)] six_bit [OF assms(3)] z flip: numeral_2_eq_2)+
qed

lemma sextets_of_one:
  fixes acc v1 v2 :: u32
  assumes "six v1" "six v2" and tail: "take_bit 4 v2 = 0"
  defines "a \<equiv> ucast (take_bit 8 (drop_bit 4 (push_bit 6 (push_bit 6 acc OR v1) OR v2))) :: byte"
  shows "sextet (push_bit 4 (pack [a])) 6 = v1" "sextet (push_bit 4 (pack [a])) 0 = v2"
proof -
  have z: "\<not> bit v2 0" "\<not> bit v2 (Suc 0)" "\<not> bit v2 2" "\<not> bit v2 3"
    using tail by (auto simp: bit_eq_iff bit_simps)
  show "sextet (push_bit 4 (pack [a])) 6 = v1" "sextet (push_bit 4 (pack [a])) 0 = v2"
    unfolding a_def pack_simps
    by (rule sextet_eqI, fact, drule below_6, elim disjE; simp add: bit_simps six_bit [OF assms(1)]
        six_bit [OF assms(2)] z flip: numeral_2_eq_2)+
qed


section \<open>The codec laws\<close>

lemma strip_padding_replicate:
  "s = [] \<or> last s \<noteq> CHR ''='' \<Longrightarrow> strip_padding (s @ replicate k (CHR ''='')) p = (s, p + k)"
proof (induction k arbitrary: p)
  case 0
  then show ?case by (subst strip_padding.simps) auto
next
  case (Suc k)
  then show ?case
    by (subst strip_padding.simps) (simp add: butlast_append flip: replicate_append_same)
qed

lemma strip_padding_inverse:
  "strip_padding s p = (b, q) \<Longrightarrow> p \<le> q \<and> s = b @ replicate (q - p) (CHR ''='')"
proof (induction s p rule: strip_padding.induct)
  case (1 s p)
  show ?case
  proof (cases "s \<noteq> [] \<and> last s = CHR ''=''")
    case True
    with 1 have "Suc p \<le> q" "butlast s = b @ replicate (q - Suc p) (CHR ''='')"
      by (auto simp: strip_padding.simps [of s p])
    moreover have "s = butlast s @ ''=''" using True by (metis append_butlast_last_id)
    ultimately show ?thesis
      by (metis append.assoc Suc_diff_le Suc_leD diff_Suc_Suc replicate_Suc replicate_append_same)
  next
    case False
    with 1 show ?thesis by (simp add: strip_padding.simps [of s p])
  qed
qed

lemma low_bits: "(x :: u32) AND (2 ^ n - 1) = take_bit n x"
  by (simp add: take_bit_eq_mask mask_eq_exp_minus_1)

text \<open>One pass of the loop, and a full quantum.\<close>

definition acc_step :: "u32 \<Rightarrow> char \<Rightarrow> u32" where
  "acc_step acc c = push_bit 6 acc OR ucast (base64_value c)"

definition octet_at :: "nat \<Rightarrow> u32 \<Rightarrow> byte" where
  "octet_at bits acc = ucast (take_bit 8 (drop_bit bits acc))"

lemma decode_step:
  assumes "base64_value c \<noteq> not_in_alphabet"
  shows "decode_sextets s (c # cs) acc 0 out = decode_sextets s cs (acc_step acc c) 6 out"
    "decode_sextets s (c # cs) acc 6 out =
       decode_sextets s cs (acc_step acc c) 4 (out @ [octet_at 4 (acc_step acc c)])"
    "decode_sextets s (c # cs) acc 4 out =
       decode_sextets s cs (acc_step acc c) 2 (out @ [octet_at 2 (acc_step acc c)])"
    "decode_sextets s (c # cs) acc 2 out =
       decode_sextets s cs (acc_step acc c) 0 (out @ [octet_at 0 (acc_step acc c)])"
  using assms by (simp_all only: decode_sextets.simps Let_def acc_step_def octet_at_def and_masks) simp_all

declare decode_sextets.simps(2) [simp del]

lemma octets_of_emits:
  fixes a b c :: byte
  defines "g \<equiv> pack [a, b, c]" and "g2 \<equiv> push_bit 2 (pack [a, b])" and "g1 \<equiv> push_bit 4 (pack [a])"
  shows "octet_at 4 (acc_step (acc_step acc (emit g 18)) (emit g 12)) = a"
    "octet_at 2 (acc_step (acc_step acc (emit g 12)) (emit g 6)) = b"
    "octet_at 0 (acc_step (acc_step acc (emit g 6)) (emit g 0)) = c"
    "octet_at 4 (acc_step (acc_step acc (emit g2 12)) (emit g2 6)) = a"
    "octet_at 2 (acc_step (acc_step acc (emit g2 6)) (emit g2 0)) = b"
    "take_bit 2 (acc_step acc (emit g2 0)) = 0"
    "octet_at 4 (acc_step (acc_step acc (emit g1 6)) (emit g1 0)) = a"
    "take_bit 4 (acc_step acc (emit g1 0)) = 0"
  unfolding acc_step_def octet_at_def value_of_emit(2) drop_bit_0 id_apply g_def g1_def g2_def
  by (rule octets_of_sextets octets_of_two octets_of_one)+

lemma quantum_lengths:
  fixes l p q :: nat
  assumes "l + p = 4 * q \<and> p = 0 \<or> l = 4 * q + 2 \<and> p = 2 \<or> l = 4 * q + 3 \<and> p = 1"
  shows "p \<le> 2 \<and> (l + p) mod 4 = 0 \<and> l mod 4 \<noteq> 1"
proof -
  have "(2 + 4 * q) mod 4 = 2 mod 4" "(3 + 4 * q) mod 4 = 3 mod 4" by (rule mod_mult_self2)+
  with assms show ?thesis by (elim disjE conjE) (simp_all add: add.commute)
qed

text \<open>What the loop makes of the characters of an encoding.\<close>

definition padding_of :: "nat \<Rightarrow> nat" where
  "padding_of n = (if n mod 3 = 1 then 2 else if n mod 3 = 2 then 1 else 0)"

lemma encode_body:
  "\<exists>body. base64_encode bs = body @ replicate (padding_of (length bs)) (CHR ''='') \<and>
     (body = [] \<or> last body \<noteq> CHR ''='') \<and>
     length body = 4 * (length bs div 3) + (if length bs mod 3 = 0 then 0 else length bs mod 3 + 1) \<and>
     (\<forall>txt acc out. \<exists>acc' bits. decode_sextets txt body acc 0 out = Inr (acc', bits, out @ bs) \<and>
       take_bit bits acc' = 0)"
proof (induction bs rule: base64_encode.induct)
  case (1 a b c rest)
  let ?g = "pack [a, b, c]"
  let ?q = "[emit ?g 18, emit ?g 12, emit ?g 6, emit ?g 0]"
  from 1 [OF refl] obtain body where IH: "base64_encode rest = body @ replicate (padding_of (length rest)) (CHR ''='')"
    "body = [] \<or> last body \<noteq> CHR ''=''"
    "length body = 4 * (length rest div 3) + (if length rest mod 3 = 0 then 0 else length rest mod 3 + 1)"
    "\<And>txt acc out. \<exists>acc' bits. decode_sextets txt body acc 0 out = Inr (acc', bits, out @ rest) \<and>
       take_bit bits acc' = 0" by blast
  have "\<exists>acc4. decode_sextets s (?q @ body) acc 0 out = decode_sextets s body acc4 0 (out @ [a, b, c])"
    for s acc out
    by (simp add: decode_step value_of_emit(1) octets_of_emits) blast
  with IH(4) have "\<exists>acc' bits. decode_sextets s (?q @ body) acc 0 out = Inr (acc', bits, out @ a # b # c # rest) \<and>
       take_bit bits acc' = 0" for s acc out
    by (metis append.assoc append_Cons append_Nil)
  moreover have "length (a # b # c # rest) div 3 = Suc (length rest div 3)"
    "length (a # b # c # rest) mod 3 = length rest mod 3"
  proof -
    have n: "length (a # b # c # rest) = 3 + length rest" by simp
    show "length (a # b # c # rest) div 3 = Suc (length rest div 3)"
      "length (a # b # c # rest) mod 3 = length rest mod 3"
      unfolding n by simp_all
  qed
  ultimately show ?case
    using IH(1-3) value_of_emit(3) by (intro exI [of _ "?q @ body"]) (auto simp: Let_def padding_of_def)
next
  case (2 a b)
  then show ?case
    by (intro exI [of _ "[emit (push_bit 2 (pack [a, b])) 12, emit (push_bit 2 (pack [a, b])) 6, emit (push_bit 2 (pack [a, b])) 0]"])
      (simp add: Let_def decode_step value_of_emit(1,3) octets_of_emits padding_of_def)
next
  case (3 a)
  then show ?case
    by (intro exI [of _ "[emit (push_bit 4 (pack [a])) 6, emit (push_bit 4 (pack [a])) 0]"])
      (simp add: Let_def decode_step value_of_emit(1,3) octets_of_emits padding_of_def numeral_2_eq_2)
next
  case 4
  then show ?case by (simp add: padding_of_def)
qed

lemma body_lengths:
  assumes "l = 4 * (n div 3) + (if n mod 3 = 0 then 0 else n mod 3 + 1)"
  shows "padding_of n \<le> 2 \<and> (l + padding_of n) mod 4 = 0 \<and> l mod 4 \<noteq> 1"
proof (rule quantum_lengths)
  show "l + padding_of n = 4 * (n div 3) \<and> padding_of n = 0 \<or>
      l = 4 * (n div 3) + 2 \<and> padding_of n = 2 \<or> l = 4 * (n div 3) + 3 \<and> padding_of n = 1"
    using assms by (auto simp: padding_of_def)
qed

lemma base64_decode_encode: "base64_decode (base64_encode bs) = Inr bs"
proof -
  let ?p = "padding_of (length bs)"
  obtain body where b: "base64_encode bs = body @ replicate ?p (CHR ''='')"
    "body = [] \<or> last body \<noteq> CHR ''=''"
    "length body = 4 * (length bs div 3) + (if length bs mod 3 = 0 then 0 else length bs mod 3 + 1)"
    "\<exists>acc' bits. decode_sextets (base64_encode bs) body 0 0 [] = Inr (acc', bits, bs) \<and> take_bit bits acc' = 0"
    using encode_body [of bs] by (metis append_Nil)
  have s: "strip_padding (base64_encode bs) 0 = (body, ?p)"
    using strip_padding_replicate [OF b(2), of ?p 0] b(1) by simp
  have "?p \<le> 2" "(length body + ?p) mod 4 = 0" "length body mod 4 \<noteq> 1"
    using body_lengths [OF b(3)] by simp_all
  moreover from this(2) have "length (base64_encode bs) mod 4 = 0" by (simp add: b(1))
  moreover obtain acc' bits where
    "decode_sextets (base64_encode bs) body 0 0 [] = Inr (acc', bits, bs)" "take_bit bits acc' = 0"
    using b(4) by blast
  ultimately show ?thesis by (simp add: base64_decode_def s low_bits)
qed

lemma length_base64_encode: "length (base64_encode bs) = 4 * ((length bs + 2) div 3)"
proof (induction bs rule: base64_encode.induct)
  case (1 a b c rest)
  have "(length rest + 5) div 3 = Suc ((length rest + 2) div 3)" by linarith
  with 1 show ?case by (simp add: Let_def add.commute)
qed (simp_all add: Let_def)


text \<open>What the loop accepts is an encoding, less its padding.\<close>

lemma unat_ucast_byte: "unat (ucast (b :: byte) :: u32) = unat b"
proof -
  have "unat b < 2 ^ 32" by (rule less_trans [OF unat_byte_less]) simp
  then show ?thesis by (simp add: unsigned_ucast_eq take_bit_nat_eq_self)
qed

lemma six_value: "base64_value c \<noteq> not_in_alphabet \<Longrightarrow> six (ucast (base64_value c))"
proof -
  assume "base64_value c \<noteq> not_in_alphabet"
  from base64_value_cases(1) [OF this] have "unat (ucast (base64_value c) :: u32) < 2 ^ 6"
    by (simp add: unat_ucast_byte)
  then have "take_bit 6 (unat (ucast (base64_value c) :: u32)) = unat (ucast (base64_value c) :: u32)"
    by (rule take_bit_nat_eq_self)
  then show ?thesis unfolding six_def by (metis unsigned_take_bit_eq word_unat_eq_iff)
qed

lemma emit_value:
  assumes "sextet g k = ucast (base64_value c)" "base64_value c \<noteq> not_in_alphabet"
  shows "emit g k = c"
proof -
  have "sextet g k = take_bit 6 (drop_bit k g)"
    by (auto simp: bit_eq_iff bit_sextet bit_simps)
  with assms(1) have "unat (take_bit 6 (drop_bit k g)) = unat (base64_value c)"
    using unat_ucast_byte by metis
  with base64_value_cases(2) [OF assms(2)] show ?thesis
    by (simp add: emit_def base64_character_def and_masks)
qed

lemma low_acc: "n \<le> 6 \<Longrightarrow> take_bit n (acc_step acc c) = take_bit n (ucast (base64_value c))"
  by (auto simp: acc_step_def bit_eq_iff bit_simps)

lemma decode_step_Inr:
  "decode_sextets s (c # cs) acc bits out = Inr r \<Longrightarrow> base64_value c \<noteq> not_in_alphabet"
  by (auto simp: decode_sextets.simps(2) split: if_splits)

fun quanta :: "string \<Rightarrow> nat" where
  "quanta (a # b # c # d # rest) = Suc (quanta rest)"
| "quanta [] = 0"
| "quanta [a] = 0"
| "quanta [a, b] = 0"
| "quanta [a, b, c] = 0"

lemma decode_sextets_encodes:
  assumes "decode_sextets s body acc 0 out = Inr (acc', bits, res)" "take_bit bits acc' = 0"
    "length body mod 4 \<noteq> 1"
  shows "\<exists>bs. res = out @ bs \<and> base64_encode bs = body @ replicate (padding_of (length bs)) (CHR ''='')"
  using assms
proof (induction body arbitrary: acc out rule: quanta.induct)
  case (1 c1 c2 c3 c4 rest)
  let ?a1 = "acc_step acc c1" let ?a2 = "acc_step ?a1 c2" let ?a3 = "acc_step ?a2 c3" let ?a4 = "acc_step ?a3 c4"
  let ?a = "octet_at 4 ?a2" and ?b = "octet_at 2 ?a3" and ?c = "octet_at 0 ?a4"
  have v1: "base64_value c1 \<noteq> not_in_alphabet" using "1.prems"(1) by (rule decode_step_Inr)
  note d1 = "1.prems"(1) [unfolded decode_step(1) [OF v1]]
  have v2: "base64_value c2 \<noteq> not_in_alphabet" using d1 by (rule decode_step_Inr)
  note d2 = d1 [unfolded decode_step(2) [OF v2]]
  have v3: "base64_value c3 \<noteq> not_in_alphabet" using d2 by (rule decode_step_Inr)
  note d3 = d2 [unfolded decode_step(3) [OF v3]]
  have v4: "base64_value c4 \<noteq> not_in_alphabet" using d3 by (rule decode_step_Inr)
  note d4 = d3 [unfolded decode_step(4) [OF v4]]
  from "1.IH" [OF d4] "1.prems"(2,3) obtain bs where
    bs: "res = out @ ?a # ?b # ?c # bs" "base64_encode bs = rest @ replicate (padding_of (length bs)) (CHR ''='')"
    by auto
  note six = six_value [OF v1] six_value [OF v2] six_value [OF v3] six_value [OF v4]
  have "emit (pack [?a, ?b, ?c]) 18 = c1" "emit (pack [?a, ?b, ?c]) 12 = c2"
    "emit (pack [?a, ?b, ?c]) 6 = c3" "emit (pack [?a, ?b, ?c]) 0 = c4"
    unfolding octet_at_def acc_step_def drop_bit_0 id_apply
    by (rule emit_value [OF _ v1] emit_value [OF _ v2] emit_value [OF _ v3] emit_value [OF _ v4],
        rule sextets_of_octets [OF six])+
  with bs show ?case by (intro exI [of _ "?a # ?b # ?c # bs"]) (simp add: Let_def padding_of_def)
next
  case 2
  then show ?case by (intro exI [of _ "[]"]) (simp add: padding_of_def)
next
  case (3 c)
  then show ?case by simp
next
  case (4 c1 c2)
  have v1: "base64_value c1 \<noteq> not_in_alphabet" using "4"(1) by (rule decode_step_Inr)
  note d1 = "4"(1) [unfolded decode_step(1) [OF v1]]
  have v2: "base64_value c2 \<noteq> not_in_alphabet" using d1 by (rule decode_step_Inr)
  note d2 = d1 [unfolded decode_step(2) [OF v2] decode_sextets.simps(1)]
  let ?acc = "acc_step (acc_step acc c1) c2"
  from d2 have r: "res = out @ [octet_at 4 ?acc]" "acc' = ?acc" "bits = 4" by auto
  then have t: "take_bit 4 (ucast (base64_value c2) :: u32) = 0"
    using "4"(2) by (simp add: low_acc)
  have "emit (push_bit 4 (pack [octet_at 4 ?acc])) 6 = c1" "emit (push_bit 4 (pack [octet_at 4 ?acc])) 0 = c2"
    unfolding octet_at_def acc_step_def
    by (rule emit_value [OF _ v1] emit_value [OF _ v2],
        rule sextets_of_one [OF six_value [OF v1] six_value [OF v2] t])+
  with r(1) show ?case
    by (intro exI [of _ "[octet_at 4 ?acc]"]) (simp add: Let_def padding_of_def numeral_2_eq_2)
next
  case (5 c1 c2 c3)
  have v1: "base64_value c1 \<noteq> not_in_alphabet" using "5"(1) by (rule decode_step_Inr)
  note d1 = "5"(1) [unfolded decode_step(1) [OF v1]]
  have v2: "base64_value c2 \<noteq> not_in_alphabet" using d1 by (rule decode_step_Inr)
  note d2 = d1 [unfolded decode_step(2) [OF v2]]
  have v3: "base64_value c3 \<noteq> not_in_alphabet" using d2 by (rule decode_step_Inr)
  note d3 = d2 [unfolded decode_step(3) [OF v3] decode_sextets.simps(1)]
  let ?acc = "acc_step (acc_step acc c1) c2" let ?acc3 = "acc_step ?acc c3"
  let ?a = "octet_at 4 ?acc" and ?b = "octet_at 2 ?acc3"
  from d3 have r: "res = out @ [?a, ?b]" "acc' = ?acc3" "bits = 2" by auto
  then have t: "take_bit 2 (ucast (base64_value c3) :: u32) = 0"
    using "5"(2) by (simp add: low_acc)
  have "emit (push_bit 2 (pack [?a, ?b])) 12 = c1" "emit (push_bit 2 (pack [?a, ?b])) 6 = c2"
    "emit (push_bit 2 (pack [?a, ?b])) 0 = c3"
    unfolding octet_at_def acc_step_def
    by (rule emit_value [OF _ v1] emit_value [OF _ v2] emit_value [OF _ v3],
        rule sextets_of_two [OF six_value [OF v1] six_value [OF v2] six_value [OF v3] t])+
  with r(1) show ?case by (intro exI [of _ "[?a, ?b]"]) (simp add: Let_def padding_of_def)
qed

text \<open>
  C33: the decoder accepts exactly the encodings, with all of their padding or with none of it: no two
  texts that differ otherwise decode to the same octets.
\<close>

theorem base64_decode_canonical:
  "base64_decode s = Inr bs \<longleftrightarrow>
     base64_encode bs = s \<or> base64_encode bs = s @ replicate (padding_of (length bs)) (CHR ''='')"
proof
  assume ok: "base64_decode s = Inr bs"
  obtain body padding where st: "strip_padding s 0 = (body, padding)" by fastforce
  from strip_padding_inverse [OF st] have s: "s = body @ replicate padding (CHR ''='')" by simp
  from ok st obtain acc bits where d: "decode_sextets s body 0 0 [] = Inr (acc, bits, bs)"
    and c: "take_bit bits acc = 0" "length body mod 4 \<noteq> 1" "padding \<le> 2" "padding > 0 \<longrightarrow> length s mod 4 = 0"
    by (auto simp: base64_decode_def and_then_eq_Inr low_bits split: if_splits)
  let ?p = "padding_of (length bs)"
  from decode_sextets_encodes [OF d c(1,2)] have e: "base64_encode bs = body @ replicate ?p (CHR ''='')" by auto
  then have "length body + ?p = 4 * ((length bs + 2) div 3)" using length_base64_encode [of bs] by simp
  then have "(length body + ?p) mod 4 = 0" by (simp only: mod_mult_self1_is_0)
  moreover have "?p \<le> 2" by (simp add: padding_of_def)
  moreover have "padding > 0 \<longrightarrow> (length body + padding) mod 4 = 0" using c(4) by (simp add: s)
  ultimately have "padding = 0 \<or> padding = ?p" using c(3) by presburger
  with e s show "base64_encode bs = s \<or> base64_encode bs = s @ replicate ?p (CHR ''='')" by auto
next
  let ?p = "padding_of (length bs)"
  assume *: "base64_encode bs = s \<or> base64_encode bs = s @ replicate ?p (CHR ''='')"
  obtain body where b: "base64_encode bs = body @ replicate ?p (CHR ''='')"
    "body = [] \<or> last body \<noteq> CHR ''=''"
    "length body = 4 * (length bs div 3) + (if length bs mod 3 = 0 then 0 else length bs mod 3 + 1)"
    "\<And>txt. \<exists>acc' bits. decode_sextets txt body 0 0 [] = Inr (acc', bits, bs) \<and> take_bit bits acc' = 0"
    using encode_body [of bs] by (metis append_Nil)
  have len: "length body mod 4 \<noteq> 1" using body_lengths [OF b(3)] by simp
  from * show "base64_decode s = Inr bs"
  proof
    assume "base64_encode bs = s"
    then show ?thesis using base64_decode_encode by metis
  next
    assume "base64_encode bs = s @ replicate ?p (CHR ''='')"
    with b(1) have s: "s = body" by simp
    obtain acc' bits where d: "decode_sextets s s 0 0 [] = Inr (acc', bits, bs)" "take_bit bits acc' = 0"
      using b(4) s by metis
    have "strip_padding s 0 = (s, 0)" using strip_padding_replicate [OF b(2), of 0 0] by (simp add: s)
    with d len show ?thesis by (simp add: base64_decode_def low_bits s)
  qed
qed

end
