(* ===== verification/Json_Format.thy ===== *)
theory Json_Format
  imports Events Json_Slice Base64
begin

text \<open>
  \<open>include/cloudevents/format/json_format.hpp\<close>: events to and from the values and the texts of a
  JSON codec, one by one and in batches. The codec is a parameter. A document that the reader
  makes gets the address \<open>Suc fresh\<close>; a batch gives the next address to the next event.
\<close>

section \<open>Writing\<close>

definition built_string :: "'j codec \<Rightarrow> string \<Rightarrow> 'j" where
  "built_string C txt = (case c_adopt_string C of Some adopting \<Rightarrow> adopting txt | None \<Rightarrow> c_make_string C txt)"

definition encode_attribute :: "'j codec \<Rightarrow> attribute_value \<Rightarrow> 'j result" where
  "encode_attribute C attribute =
     (case attribute of
        Bool held \<Rightarrow> Inr (c_make_bool C held)
      | Int32 held \<Rightarrow> Inr (c_make_int C held)
      | Str held \<Rightarrow> Inr (c_make_string C held)
      | Bin held \<Rightarrow> Inr (built_string C (base64_encode held))
      | Time held \<Rightarrow> Inr (built_string C (to_string held))
      | Uri held \<Rightarrow> Inr (c_make_string C held)
      | Uri_ref held \<Rightarrow> Inr (c_make_string C held))"

definition encode_data :: "'j codec \<Rightarrow> 'j data_t \<Rightarrow> 'j \<Rightarrow> 'j result" where
  "encode_data C data root =
     (case data of
        No_data \<Rightarrow> Inr root
      | Binary_data held \<Rightarrow> Inr (c_set C root ''data_base64'' (built_string C (base64_encode held)))
      | Text_data held \<Rightarrow> Inr (c_set C root ''data'' (c_make_string C held))
      | Json_document held \<Rightarrow>
          (case document_get C held of
             Some own \<Rightarrow> Inr (c_set C root ''data'' (c_copy C own))
           | None \<Rightarrow>
               (case c_parse C (document_dump held) of
                  Inl _ \<Rightarrow> fail parse_error ''data is not well-formed JSON'' ''/data''
                | Inr converted \<Rightarrow> Inr (c_set C root ''data'' converted)))
      | Json_text held \<Rightarrow>
          (case c_parse C held of
             Inl _ \<Rightarrow> fail parse_error ''data is not well-formed JSON'' ''/data''
           | Inr parsed \<Rightarrow> Inr (c_set C root ''data'' parsed)))"

fun set_extensions :: "'j codec \<Rightarrow> extension_map \<Rightarrow> 'j \<Rightarrow> 'j result" where
  "set_extensions C [] root = Inr root"
| "set_extensions C ((name, attribute) # rest) root =
     and_then_at (encode_attribute C attribute) name
       (\<lambda>encoded. set_extensions C rest (c_set C root name encoded))"

definition set_optional :: "'j codec \<Rightarrow> string \<Rightarrow> 'j option \<Rightarrow> 'j \<Rightarrow> 'j" where
  "set_optional C name present root = (case present of Some v \<Rightarrow> c_set C root name v | None \<Rightarrow> root)"

definition to_value_writing :: "'j codec \<Rightarrow> 'j event \<Rightarrow> string option \<Rightarrow> ('j \<Rightarrow> 'j result) \<Rightarrow> 'j result" where
  "to_value_writing C ev media write_data =
     (let root = c_make_object C;
          root = c_set C root ''specversion'' (c_make_string C spec_version_view);
          root = c_set C root ''id'' (c_make_string C (e_id ev));
          root = c_set C root ''source'' (c_make_string C (e_source ev));
          root = c_set C root ''type'' (c_make_string C (e_type ev));
          root = set_optional C ''datacontenttype'' (map_option (c_make_string C) media) root;
          root = set_optional C ''dataschema'' (map_option (c_make_string C) (o_dataschema (e_rest ev))) root;
          root = set_optional C ''subject'' (map_option (c_make_string C) (o_subject (e_rest ev))) root;
          root = set_optional C ''time'' (map_option (\<lambda>t. built_string C (to_string t)) (o_time (e_rest ev))) root
      in and_then (set_extensions C (o_extensions (e_rest ev)) root) write_data)"

definition to_value :: "'j codec \<Rightarrow> 'j event \<Rightarrow> 'j result" where
  "to_value C ev =
     to_value_writing C ev (o_datacontenttype (e_rest ev)) (encode_data C (o_data (e_rest ev)))"

definition json_encode :: "'j codec \<Rightarrow> 'j event \<Rightarrow> string result" where
  "json_encode C ev = and_then (to_value C ev) (\<lambda>document. Inr (c_dump C document))"

fun push_events :: "'j codec \<Rightarrow> 'j event list \<Rightarrow> 'j \<Rightarrow> 'j result" where
  "push_events C [] arr = Inr arr"
| "push_events C (ev # events) arr =
     and_then (to_value C ev) (\<lambda>document. push_events C events (c_push C arr document))"

definition json_encode_batch :: "'j codec \<Rightarrow> 'j event list \<Rightarrow> string result" where
  "json_encode_batch C events =
     and_then (push_events C events (c_make_array C)) (\<lambda>arr. Inr (c_dump C arr))"


section \<open>The members of an event\<close>

text \<open>A pointer to a member of the document: its position, and the value there.\<close>

type_synonym 'j member_ref = "nat \<times> 'j"

record 'j members =
  mm_specversion :: "'j member_ref option"
  mm_id :: "'j member_ref option"
  mm_source :: "'j member_ref option"
  mm_type :: "'j member_ref option"
  mm_datacontenttype :: "'j member_ref option"
  mm_dataschema :: "'j member_ref option"
  mm_subject :: "'j member_ref option"
  mm_time :: "'j member_ref option"
  mm_data :: "'j member_ref option"
  mm_data_base64 :: "'j member_ref option"

definition no_members :: "'j members" where
  "no_members = \<lparr>mm_specversion = None, mm_id = None, mm_source = None, mm_type = None,
     mm_datacontenttype = None, mm_dataschema = None, mm_subject = None, mm_time = None,
     mm_data = None, mm_data_base64 = None\<rparr>"

type_synonym 'j member_slot =
  "string \<times> ('j members \<Rightarrow> 'j member_ref option) \<times>
   (('j member_ref option \<Rightarrow> 'j member_ref option) \<Rightarrow> 'j members \<Rightarrow> 'j members)"

definition member_slots :: "'j member_slot list" where
  "member_slots =
     [(''specversion'', mm_specversion, mm_specversion_update),
      (''id'', mm_id, mm_id_update),
      (''source'', mm_source, mm_source_update),
      (''type'', mm_type, mm_type_update),
      (''datacontenttype'', mm_datacontenttype, mm_datacontenttype_update),
      (''dataschema'', mm_dataschema, mm_dataschema_update),
      (''subject'', mm_subject, mm_subject_update),
      (''time'', mm_time, mm_time_update),
      (''data'', mm_data, mm_data_update),
      (''data_base64'', mm_data_base64, mm_data_base64_update)]"

fun claim_slot :: "'j member_slot list \<Rightarrow> 'j members \<Rightarrow> string \<Rightarrow> 'j member_ref \<Rightarrow> bool \<times> 'j members" where
  "claim_slot [] found name member = (False, found)"
| "claim_slot ((slot_name, slot, update) # slots) found name member =
     (if name = slot_name
      then (True, if slot found = None then update (\<lambda>_. Some member) found else found)
      else claim_slot slots found name member)"

definition claim :: "'j members \<Rightarrow> string \<Rightarrow> 'j member_ref \<Rightarrow> bool \<times> 'j members" where
  "claim found name member = claim_slot member_slots found name member"


section \<open>Reading the context attributes\<close>

definition required_text_of :: "'j codec \<Rightarrow> 'j member_ref option \<Rightarrow> string \<Rightarrow> string result" where
  "required_text_of C member name =
     (case member of
        None \<Rightarrow> fail missing_required_attribute ''required attribute is absent'' name
      | Some (_, v) \<Rightarrow>
          (case c_as_string C v of
             Inl _ \<Rightarrow> fail invalid_attribute_value ''must be a JSON string'' name
           | Inr txt \<Rightarrow> Inr txt))"

definition optional_text_of :: "'j codec \<Rightarrow> 'j member_ref option \<Rightarrow> string \<Rightarrow> (string option) result" where
  "optional_text_of C member name =
     (case member of
        None \<Rightarrow> Inr None
      | Some (_, v) \<Rightarrow>
          if c_kind_of C v = K_null then Inr None
          else (case c_as_string C v of
              Inl _ \<Rightarrow> fail invalid_attribute_value ''must be a JSON string'' name
            | Inr txt \<Rightarrow> Inr (Some txt)))"

text \<open>The slot's new value.\<close>

definition store_required :: "'j codec \<Rightarrow> policy \<Rightarrow> 'j member_ref option \<Rightarrow> string \<Rightarrow> (string option) result" where
  "store_required C p member name =
     and_then (required_text_of C member name) (\<lambda>txt. store_attribute p txt)"

definition store_optional ::
  "'j codec \<Rightarrow> policy \<Rightarrow> 'j member_ref option \<Rightarrow> string \<Rightarrow> string option \<Rightarrow> (string option) result" where
  "store_optional C p member name slot =
     and_then (optional_text_of C member name) (\<lambda>txt.
       case txt of Some present \<Rightarrow> store_attribute p present | None \<Rightarrow> Inr slot)"

definition store_time :: "'j codec \<Rightarrow> 'j member_ref option \<Rightarrow> 'j options \<Rightarrow> 'j options result" where
  "store_time C member into =
     and_then (optional_text_of C member ''time'') (\<lambda>txt.
       case txt of
         Some present \<Rightarrow> and_then_at (parse_timestamp present) ''time'' (\<lambda>parsed. Inr (into\<lparr>o_time := Some parsed\<rparr>))
       | None \<Rightarrow> Inr into)"

definition read_context :: "'j codec \<Rightarrow> 'j members \<Rightarrow> 'j builder \<Rightarrow> 'j builder result" where
  "read_context C found into =
     and_then (required_text_of C (mm_specversion found) ''specversion'') (\<lambda>version.
     and_then (spec_version_make version) (\<lambda>_.
     and_then (store_required C id_policy (mm_id found) ''id'') (\<lambda>slot. let into = into\<lparr>b_id := slot\<rparr> in
     and_then (store_required C source_policy (mm_source found) ''source'') (\<lambda>slot. let into = into\<lparr>b_source := slot\<rparr> in
     and_then (store_required C type_policy (mm_type found) ''type'') (\<lambda>slot. let into = into\<lparr>b_type := slot\<rparr> in
     and_then (store_optional C datacontenttype_policy (mm_datacontenttype found) ''datacontenttype''
       (o_datacontenttype (b_rest into))) (\<lambda>slot. let into = into\<lparr>b_rest := b_rest into\<lparr>o_datacontenttype := slot\<rparr>\<rparr> in
     and_then (store_optional C dataschema_policy (mm_dataschema found) ''dataschema''
       (o_dataschema (b_rest into))) (\<lambda>slot. let into = into\<lparr>b_rest := b_rest into\<lparr>o_dataschema := slot\<rparr>\<rparr> in
     and_then (store_optional C subject_policy (mm_subject found) ''subject''
       (o_subject (b_rest into))) (\<lambda>slot. let into = into\<lparr>b_rest := b_rest into\<lparr>o_subject := slot\<rparr>\<rparr> in
     and_then (store_time C (mm_time found) (b_rest into)) (\<lambda>rest.
     Inr (into\<lparr>b_rest := rest\<rparr>))))))))))"


section \<open>Reading the extensions\<close>

definition decode_attribute :: "'j codec \<Rightarrow> 'j \<Rightarrow> attribute_value result" where
  "decode_attribute C member =
     (case c_kind_of C member of
        K_boolean \<Rightarrow> and_then_at (c_as_bool C member) '''' (\<lambda>held. Inr (Bool held))
      | K_integer \<Rightarrow> and_then_at (c_as_int C member) '''' (\<lambda>held.
          if held < int32_min \<or> held > int32_max
          then fail out_of_range ''the CloudEvents Integer type is 32-bit signed'' ''''
          else Inr (Int32 held))
      | K_string \<Rightarrow> and_then_at (c_as_string C member) '''' (\<lambda>held. Inr (Str held))
      | K_floating \<Rightarrow> fail type_mismatch ''the CloudEvents type system has no floating-point type'' ''''
      | _ \<Rightarrow> fail type_mismatch ''an extension attribute must be a boolean, integer or string'' '''')"

text \<open>The result, and the options after it.\<close>

definition read_extension :: "'j codec \<Rightarrow> string \<Rightarrow> 'j \<Rightarrow> 'j options \<Rightarrow> unit result \<times> 'j options" where
  "read_extension C name member into =
     (if c_kind_of C member = K_null then (Inr (), into)
      else (case make_validated extension_name_policy name of
          Inl e \<Rightarrow> (forward_failure_at e name, into)
        | Inr attribute \<Rightarrow>
            (case decode_attribute C member of
               Inl e \<Rightarrow> (forward_failure_at e name, into)
             | Inr decoded \<Rightarrow>
                 (Inr (), into\<lparr>o_extensions := om_insert_or_assign attribute decoded (o_extensions into)\<rparr>))))"

text \<open>The visitor of \<open>read_event\<close>: the members from position \<open>i\<close> on.\<close>

fun visit_members ::
  "'j codec \<Rightarrow> (string \<times> 'j) list \<Rightarrow> nat \<Rightarrow> 'j members \<Rightarrow> unit result \<Rightarrow> 'j options \<Rightarrow>
   'j members \<times> unit result \<times> 'j options"
where
  "visit_members C [] i found extensions_read rest = (found, extensions_read, rest)"
| "visit_members C ((name, member) # ms) i found extensions_read rest =
     (case claim found name (i, member) of (claimed, found) \<Rightarrow>
        if claimed \<or> \<not> is_ok extensions_read
        then visit_members C ms (Suc i) found extensions_read rest
        else (case read_extension C name member rest of (extensions_read, rest) \<Rightarrow>
            visit_members C ms (Suc i) found extensions_read rest))"


section \<open>Reading the data\<close>

datatype payload_mode = P_text | P_copy | P_move

text \<open>
  \<open>owned\<close> is the document that the data member may be moved out of; whether \<open>find\<close> returns the
  pointer to the member is a comparison of positions.
\<close>

definition json_payload ::
  "'j codec \<Rightarrow> nat \<Rightarrow> 'j member_ref \<Rightarrow> 'j option \<Rightarrow> payload_mode \<Rightarrow> string option \<Rightarrow> 'j data_t" where
  "json_payload C fresh data owned mode own_text =
     (case mode of
        P_text \<Rightarrow> Json_text (case own_text of Some txt \<Rightarrow> txt | None \<Rightarrow> c_dump C (snd data))
      | P_copy \<Rightarrow> Json_document (document_make C fresh (c_copy C (snd data)))
      | P_move \<Rightarrow>
          (case owned of
             None \<Rightarrow> Json_document (document_make C fresh (c_copy C (snd data)))
           | Some document \<Rightarrow>
               if c_find C document ''data'' \<noteq> Some (fst data)
               then Json_document (document_make C fresh (c_copy C (snd data)))
               else Json_document (document_make C fresh (c_extract C document ''data''))))"

text \<open>The options, and the member that \<open>json_member\<close> points to when the caller asked for it.\<close>

definition decode_data ::
  "'j codec \<Rightarrow> nat \<Rightarrow> 'j members \<Rightarrow> 'j option \<Rightarrow> payload_mode \<Rightarrow> string option \<Rightarrow> bool \<Rightarrow> 'j options \<Rightarrow>
   ('j options \<times> 'j option) result" where
  "decode_data C fresh found owned mode own_text wants_member into =
     (if mm_data found \<noteq> None \<and> mm_data_base64 found \<noteq> None
      then fail data_conflict ''data and data_base64 are mutually exclusive'' ''data''
      else (case mm_data_base64 found of
          Some (_, member) \<Rightarrow>
            (case c_as_string C member of
               Inl _ \<Rightarrow> fail invalid_attribute_value ''data_base64 must be a JSON string'' ''data_base64''
             | Inr txt \<Rightarrow> and_then_at (base64_decode txt) ''data_base64''
                 (\<lambda>decoded. Inr (into\<lparr>o_data := Binary_data decoded\<rparr>, None)))
        | None \<Rightarrow>
            (case mm_data found of
               None \<Rightarrow> Inr (into, None)
             | Some data \<Rightarrow>
                 let declared_non_json = (case o_datacontenttype into of
                       Some media \<Rightarrow> \<not> is_json_content_type media | None \<Rightarrow> False)
                 in if declared_non_json \<and> c_kind_of C (snd data) = K_string
                    then (case c_as_string C (snd data) of
                        Inl _ \<Rightarrow> fail invalid_attribute_value ''data must be a JSON string'' ''data''
                      | Inr txt \<Rightarrow> Inr (into\<lparr>o_data := Text_data txt\<rparr>, None))
                    else Inr (into\<lparr>o_data := json_payload C fresh data owned mode own_text\<rparr>,
                           if wants_member \<and> mode \<noteq> P_move then Some (snd data) else None))))"


section \<open>Reading an event\<close>

definition read_event ::
  "'j codec \<Rightarrow> nat \<Rightarrow> 'j \<Rightarrow> 'j option \<Rightarrow> payload_mode \<Rightarrow> string option \<Rightarrow> bool \<Rightarrow> ('j event \<times> 'j option) result" where
  "read_event C fresh document owned mode own_text wants_member =
     (if c_kind_of C document \<noteq> K_object
      then fail parse_error ''a CloudEvent must be a JSON object'' ''''
      else (case visit_members C (c_members C document) 0 no_members (Inr ()) (b_rest new_builder) of
          (found, extensions_read, rest) \<Rightarrow>
            and_then (read_context C found (new_builder\<lparr>b_rest := rest\<rparr>)) (\<lambda>under_construction.
            and_then (decode_data C fresh found owned mode own_text wants_member (b_rest under_construction)) (\<lambda>(rest, json_member).
            and_then extensions_read (\<lambda>_.
            and_then (build (under_construction\<lparr>b_rest := rest\<rparr>)) (\<lambda>ev. Inr (ev, json_member)))))))"

text \<open>
  What a caller does with the event and the data member: \<open>keep_event\<close>, which asks for no member
  pointer, or the callback of a typed reader.
\<close>

record ('j, 'a) reader =
  keeps_event :: bool
  reads :: "'j event \<Rightarrow> 'j option \<Rightarrow> 'a result"

definition keep_event :: "('j, 'j event) reader" where
  "keep_event = \<lparr>keeps_event = True, reads = (\<lambda>ev _. Inr ev)\<rparr>"

definition typed_reader :: "('j event \<Rightarrow> 'j option \<Rightarrow> 'a result) \<Rightarrow> ('j, 'a) reader" where
  "typed_reader read = \<lparr>keeps_event = False, reads = read\<rparr>"

definition from_value_reading :: "'j codec \<Rightarrow> nat \<Rightarrow> ('j, 'a) reader \<Rightarrow> 'j \<Rightarrow> 'a result" where
  "from_value_reading C fresh R document =
     and_then (read_event C fresh document None P_copy None (\<not> keeps_event R)) (\<lambda>(ev, json_member). reads R ev json_member)"

definition from_value :: "'j codec \<Rightarrow> nat \<Rightarrow> 'j \<Rightarrow> 'j event result" where
  "from_value C fresh document = from_value_reading C fresh keep_event document"

definition retains :: "string \<Rightarrow> decode_options \<Rightarrow> bool" where
  "retains txt options = retains_text_of (length txt) options"

definition decode_reading :: "'j codec \<Rightarrow> nat \<Rightarrow> ('j, 'a) reader \<Rightarrow> string \<Rightarrow> decode_options \<Rightarrow> 'a result" where
  "decode_reading C fresh R txt options =
     and_then_at (c_parse C txt) '''' (\<lambda>document.
       and_then (if retains txt options
           then read_event C fresh document (Some document) P_move None (\<not> keeps_event R)
           else read_event C fresh document (Some document) P_text (data_member_text txt) (\<not> keeps_event R))
         (\<lambda>(ev, json_member). reads R ev json_member))"

definition json_decode :: "'j codec \<Rightarrow> nat \<Rightarrow> string \<Rightarrow> decode_options \<Rightarrow> 'j event result" where
  "json_decode C fresh txt options = decode_reading C fresh keep_event txt options"


section \<open>Reading a batch\<close>

definition size_max :: nat where "size_max = 2 ^ 64 - 1"

text \<open>The product is a \<open>std::size_t\<close>: it wraps.\<close>

definition retains_batch :: "nat \<Rightarrow> nat \<Rightarrow> decode_options \<Rightarrow> bool" where
  "retains_batch text_size event_count options =
     (let limit = retain_document_up_to options
      in if limit = 0 then False
         else event_count > size_max div limit \<or> text_size \<le> limit * event_count mod (size_max + 1))"

text \<open>
  The visitor over the elements: after an error the rest of the elements are skipped. The slices
  are asked for the next text in text mode only.
\<close>

fun visit_elements ::
  "'j codec \<Rightarrow> nat \<Rightarrow> ('j, 'a) reader \<Rightarrow> payload_mode \<Rightarrow> batch_slices \<Rightarrow> 'j list \<Rightarrow> 'a list result"
where
  "visit_elements C fresh R mode own_texts [] = Inr []"
| "visit_elements C fresh R mode own_texts (element # elements) =
     (case (if mode = P_text then next_slice own_texts else (None, own_texts)) of (own_text, own_texts) \<Rightarrow>
        and_then (read_event C fresh element (Some element) mode own_text (\<not> keeps_event R)) (\<lambda>(ev, json_member).
        and_then (reads R ev json_member) (\<lambda>out.
        and_then (visit_elements C (Suc fresh) R mode own_texts elements) (\<lambda>events. Inr (out # events)))))"

definition decode_batch_reading ::
  "'j codec \<Rightarrow> nat \<Rightarrow> ('j, 'a) reader \<Rightarrow> string \<Rightarrow> decode_options \<Rightarrow> 'a list result" where
  "decode_batch_reading C fresh R txt options =
     and_then_at (c_parse C txt) '''' (\<lambda>document.
       if c_kind_of C document \<noteq> K_array then fail parse_error ''a batch must be a JSON array'' ''''
       else
         let event_count = c_size_of C document;
             mode = (if retains_batch (length txt) event_count options then P_move else P_text)
         in visit_elements C fresh R mode (batch_data_slices txt) (c_elements C document))"

definition json_decode_batch :: "'j codec \<Rightarrow> nat \<Rightarrow> string \<Rightarrow> decode_options \<Rightarrow> 'j event list result" where
  "json_decode_batch C fresh txt options = decode_batch_reading C fresh keep_event txt options"


section \<open>The entry points of a typed reader\<close>

definition typed_decode ::
  "'j codec \<Rightarrow> nat \<Rightarrow> ('j event \<Rightarrow> 'j option \<Rightarrow> 'a result) \<Rightarrow> string \<Rightarrow> decode_options \<Rightarrow> 'a result" where
  "typed_decode C fresh read txt options = decode_reading C fresh (typed_reader read) txt options"

definition typed_decode_batch ::
  "'j codec \<Rightarrow> nat \<Rightarrow> ('j event \<Rightarrow> 'j option \<Rightarrow> 'a result) \<Rightarrow> string \<Rightarrow> decode_options \<Rightarrow> 'a list result" where
  "typed_decode_batch C fresh read txt options = decode_batch_reading C fresh (typed_reader read) txt options"

definition typed_from_value :: "'j codec \<Rightarrow> nat \<Rightarrow> ('j event \<Rightarrow> 'j option \<Rightarrow> 'a result) \<Rightarrow> 'j \<Rightarrow> 'a result" where
  "typed_from_value C fresh read document = from_value_reading C fresh (typed_reader read) document"

definition typed_to_value :: "'j codec \<Rightarrow> 'j event \<Rightarrow> string \<Rightarrow> 'j \<Rightarrow> 'j result" where
  "typed_to_value C ev media payload =
     to_value_writing C ev (Some media) (\<lambda>root. Inr (c_set C root ''data'' payload))"

end
