(* ===== verification/Binding_Common.thy ===== *)
theory Binding_Common
  imports Json_Format
begin

text \<open>
  \<open>include/cloudevents/binding/common.hpp\<close>: what the protocol bindings share. A binding is given
  by its traits: how it names and encodes attributes in the header fields. The functions that may
  take the body out of a message also return what they leave of it.
\<close>

section \<open>Traits\<close>

record traits =
  t_attribute_prefix :: string
  t_content_type_header :: string
  t_case_sensitive_names :: bool
  t_encode_value :: "string \<Rightarrow> string result"
  t_decode_value :: "string \<Rightarrow> string result"
  t_content_type_as_attribute :: bool

definition text_of :: "binary \<Rightarrow> string" where
  "text_of b = map char_of_byte b"

definition put :: "traits \<Rightarrow> string \<Rightarrow> string \<Rightarrow> raw_headers \<Rightarrow> raw_headers" where
  "put T name v into = (if t_case_sensitive_names T then set_exact name v into else set_field name v into)"

definition starts_with :: "string \<Rightarrow> string \<Rightarrow> bool" where
  "starts_with txt prefix \<longleftrightarrow> take (length prefix) txt = prefix"

definition carries_prefix :: "traits \<Rightarrow> string \<Rightarrow> bool" where
  "carries_prefix T name =
     (if t_case_sensitive_names T then starts_with name (t_attribute_prefix T)
      else starts_with_ignoring_case name (t_attribute_prefix T))"

definition same_field_name :: "traits \<Rightarrow> string \<Rightarrow> string \<Rightarrow> bool" where
  "same_field_name T left right = (if t_case_sensitive_names T then left = right else iequals left right)"

fun repeated_in :: "traits \<Rightarrow> raw_headers \<Rightarrow> string \<Rightarrow> bool" where
  "repeated_in T [] name = False"
| "repeated_in T (field # earlier) name = (if same_field_name T (fst field) name then True else repeated_in T earlier name)"

fun first_repeated_loop :: "traits \<Rightarrow> raw_headers \<Rightarrow> raw_headers \<Rightarrow> string option" where
  "first_repeated_loop T earlier [] = None"
| "first_repeated_loop T earlier (field # later) =
     (if repeated_in T earlier (fst field) then Some (fst field)
      else first_repeated_loop T (earlier @ [field]) later)"

definition first_repeated_name :: "traits \<Rightarrow> raw_headers \<Rightarrow> string option" where
  "first_repeated_name T delivered = first_repeated_loop T [] delivered"

definition attribute_name_of :: "traits \<Rightarrow> string \<Rightarrow> string" where
  "attribute_name_of T field =
     (let name = drop (length (t_attribute_prefix T)) field
      in if t_case_sensitive_names T then name else map ascii_lower name)"


section \<open>Attributes\<close>

definition text_attribute :: "attribute_value \<Rightarrow> string option" where
  "text_attribute v = (case v of Str s \<Rightarrow> Some s | Uri s \<Rightarrow> Some s | Uri_ref s \<Rightarrow> Some s | _ \<Rightarrow> None)"

definition apply_attribute :: "traits \<Rightarrow> 'j builder \<Rightarrow> string \<Rightarrow> string \<Rightarrow> 'j builder result" where
  "apply_attribute T into attribute v =
     (if attribute = ''datacontenttype''
      then if t_content_type_as_attribute T
           then and_then (store_attribute datacontenttype_policy v)
             (\<lambda>slot. Inr (into\<lparr>b_rest := b_rest into\<lparr>o_datacontenttype := slot\<rparr>\<rparr>))
           else fail invalid_argument
             ''this binding carries datacontenttype in its content-type field, not as a prefixed attribute'' attribute
      else if attribute = ''specversion'' then and_then (spec_version_make v) (\<lambda>_. Inr into)
      else if attribute = ''id'' then and_then (store_attribute id_policy v) (\<lambda>slot. Inr (into\<lparr>b_id := slot\<rparr>))
      else if attribute = ''source'' then and_then (store_attribute source_policy v) (\<lambda>slot. Inr (into\<lparr>b_source := slot\<rparr>))
      else if attribute = ''type'' then and_then (store_attribute type_policy v) (\<lambda>slot. Inr (into\<lparr>b_type := slot\<rparr>))
      else if attribute = ''dataschema''
      then and_then (store_attribute dataschema_policy v) (\<lambda>slot. Inr (into\<lparr>b_rest := b_rest into\<lparr>o_dataschema := slot\<rparr>\<rparr>))
      else if attribute = ''subject''
      then and_then (store_attribute subject_policy v) (\<lambda>slot. Inr (into\<lparr>b_rest := b_rest into\<lparr>o_subject := slot\<rparr>\<rparr>))
      else if attribute = ''time''
      then and_then_at (parse_timestamp v) ''time'' (\<lambda>parsed. Inr (into\<lparr>b_rest := b_rest into\<lparr>o_time := Some parsed\<rparr>\<rparr>))
      else and_then (make_validated extension_name_policy attribute) (\<lambda>extension.
        Inr (into\<lparr>b_rest := b_rest into\<lparr>o_extensions :=
          om_insert_or_assign extension (Str v) (o_extensions (b_rest into))\<rparr>\<rparr>)))"

definition render_attribute :: "attribute_value \<Rightarrow> string" where
  "render_attribute v =
     (case v of Bool held \<Rightarrow> (if held then ''true'' else ''false'') | Int32 held \<Rightarrow> dec_int held | Str held \<Rightarrow> held
      | Bin held \<Rightarrow> base64_encode held | Time held \<Rightarrow> to_string held | Uri held \<Rightarrow> held | Uri_ref held \<Rightarrow> held)"

text \<open>The lambda of \<open>write_attributes\<close>, over the failure so far and the headers.\<close>

type_synonym writing = "unit result \<times> raw_headers"

definition put_attribute :: "traits \<Rightarrow> string \<Rightarrow> string \<Rightarrow> writing \<Rightarrow> writing" where
  "put_attribute T name v = (\<lambda>(failure, into).
     if \<not> is_ok failure then (failure, into)
     else (case t_encode_value T v of
         Inl e \<Rightarrow> (forward_failure_at e name, into)
       | Inr encoded \<Rightarrow> (failure, put T (t_attribute_prefix T @ name) encoded into)))"

definition put_present :: "traits \<Rightarrow> string \<Rightarrow> string option \<Rightarrow> writing \<Rightarrow> writing" where
  "put_present T name present w = (case present of Some v \<Rightarrow> put_attribute T name v w | None \<Rightarrow> w)"

fun put_extensions :: "traits \<Rightarrow> extension_map \<Rightarrow> writing \<Rightarrow> writing" where
  "put_extensions T [] w = w"
| "put_extensions T ((name, attribute) # rest) w =
     put_extensions T rest (case text_attribute attribute of
         Some txt \<Rightarrow> put_attribute T name txt w
       | None \<Rightarrow> put_attribute T name (render_attribute attribute) w)"

definition write_attributes :: "traits \<Rightarrow> 'j event \<Rightarrow> raw_headers \<Rightarrow> writing" where
  "write_attributes T ev into =
     (let w = (Inr (), into);
          w = put_attribute T ''specversion'' spec_version_view w;
          w = put_attribute T ''id'' (e_id ev) w;
          w = put_attribute T ''source'' (e_source ev) w;
          w = put_attribute T ''type'' (e_type ev) w;
          w = put_present T ''dataschema'' (o_dataschema (e_rest ev)) w;
          w = put_present T ''subject'' (o_subject (e_rest ev)) w;
          w = put_present T ''time'' (map_option to_string (o_time (e_rest ev))) w;
          (failure, into) = put_extensions T (o_extensions (e_rest ev)) w
      in if \<not> is_ok failure then (failure, into)
         else (case o_datacontenttype (e_rest ev) of
             None \<Rightarrow> (failure, into)
           | Some media \<Rightarrow>
               if t_content_type_as_attribute T then put_attribute T ''datacontenttype'' media (failure, into)
               else (failure, put T (t_content_type_header T) media into)))"

fun read_fields :: "traits \<Rightarrow> raw_headers \<Rightarrow> 'j builder \<Rightarrow> 'j builder result" where
  "read_fields T [] b = Inr b"
| "read_fields T ((name, raw_value) # rest) b =
     (if \<not> carries_prefix T name then read_fields T rest b
      else let attribute = attribute_name_of T name
        in and_then_at (t_decode_value T raw_value) attribute (\<lambda>decoded.
           and_then (apply_attribute T b attribute decoded) (\<lambda>b. read_fields T rest b)))"

definition read_attributes :: "traits \<Rightarrow> raw_headers \<Rightarrow> 'j builder result" where
  "read_attributes T delivered =
     (case first_repeated_name T delivered of
        Some repeated \<Rightarrow> fail invalid_argument
          ''two fields carry the same attribute, so which one is meant is undecidable'' repeated
      | None \<Rightarrow> read_fields T delivered new_builder)"


section \<open>The body\<close>

definition write_body :: "'j event \<Rightarrow> message \<Rightarrow> message" where
  "write_body ev into =
     (case o_data (e_rest ev) of
        No_data \<Rightarrow> into
      | Binary_data held \<Rightarrow> into\<lparr>body := held\<rparr>
      | Text_data held \<Rightarrow> into\<lparr>body := to_bytes held\<rparr>
      | Json_document held \<Rightarrow> into\<lparr>body := to_bytes (document_dump held)\<rparr>
      | Json_text held \<Rightarrow> into\<lparr>body := to_bytes held\<rparr>)"

definition read_body :: "'j codec \<Rightarrow> nat \<Rightarrow> binary \<Rightarrow> string option \<Rightarrow> decode_options \<Rightarrow> 'j data_t result" where
  "read_body C fresh b media options =
     (if b = [] then Inr No_data
      else if (case media of None \<Rightarrow> True | Some m \<Rightarrow> \<not> is_json_content_type m) then Inr (Binary_data b)
      else let txt = text_of b
        in if \<not> parse_binary_body options then Inr (Json_text txt)
           else and_then (c_parse C txt) (\<lambda>parsed.
             if \<not> retains_text_of (length txt) options then Inr (Json_text txt)
             else Inr (Json_document (document_make C fresh parsed))))"

definition moves_body :: "binary \<Rightarrow> string option \<Rightarrow> bool" where
  "moves_body b media \<longleftrightarrow> b \<noteq> [] \<and> (case media of None \<Rightarrow> True | Some m \<Rightarrow> \<not> is_json_content_type m)"

text \<open>The bytes taken, and what is left of the body.\<close>

definition release_bytes :: "binary \<Rightarrow> binary \<times> binary" where
  "release_bytes b = (b, [])"

text \<open>The media type is moved out of the builder and put back with the data.\<close>

definition build_moving_body :: "'j builder \<Rightarrow> binary \<Rightarrow> 'j event result \<times> binary" where
  "build_moving_body under_construction b =
     (let media = o_datacontenttype (b_rest under_construction);
          built = build (under_construction\<lparr>b_rest := b_rest under_construction\<lparr>o_datacontenttype := None\<rparr>\<rparr>)
      in case built of
          Inl e \<Rightarrow> (Inl e, b)
        | Inr ev \<Rightarrow> (case release_bytes b of (taken, left) \<Rightarrow> (Inr (set_data (Binary_data taken) media ev), left)))"

definition build_taking_body ::
  "'j codec \<Rightarrow> nat \<Rightarrow> 'j builder \<Rightarrow> binary \<Rightarrow> decode_options \<Rightarrow> 'j event result \<times> binary" where
  "build_taking_body C fresh under_construction b options =
     (let media = o_datacontenttype (b_rest under_construction)
      in if moves_body b media then build_moving_body under_construction b
         else (and_then (read_body C fresh b media options)
           (\<lambda>payload. build (under_construction\<lparr>b_rest := b_rest under_construction\<lparr>o_data := payload\<rparr>\<rparr>)), b))"

definition read_body_moving ::
  "'j codec \<Rightarrow> nat \<Rightarrow> binary \<Rightarrow> string option \<Rightarrow> decode_options \<Rightarrow> 'j data_t result \<times> binary" where
  "read_body_moving C fresh b media options =
     (if \<not> moves_body b media then (read_body C fresh b media options, b)
      else (case release_bytes b of (taken, left) \<Rightarrow> (Inr (Binary_data taken), left)))"


section \<open>Structured mode\<close>

definition empty_message :: message where
  "empty_message = \<lparr>header_fields = [], body = []\<rparr>"

definition encode_structured :: "traits \<Rightarrow> 'j codec \<Rightarrow> 'j event \<Rightarrow> message result" where
  "encode_structured T C ev =
     and_then (json_encode C ev) (\<lambda>txt.
       Inr (empty_message\<lparr>header_fields := put T (t_content_type_header T) json_content_type [], body := to_bytes txt\<rparr>))"

definition decode_structured :: "'j codec \<Rightarrow> nat \<Rightarrow> message \<Rightarrow> decode_options \<Rightarrow> 'j event result" where
  "decode_structured C fresh incoming options = json_decode C fresh (text_of (body incoming)) options"

end
