(* ===== verification/Json_Laws.thy ===== *)
theory Json_Laws
  imports Json_Format
begin

text \<open>
  Laws of the JSON format of \<open>Json_Format\<close>: what the visitor of the members finds, that every
  event that is read is well-formed, and what reading the value of an event gives back.
\<close>

section \<open>What the visitor finds\<close>

fun first_ref :: "string \<Rightarrow> (string \<times> 'j) list \<Rightarrow> nat \<Rightarrow> 'j member_ref option" where
  "first_ref name [] i = None"
| "first_ref name ((n, v) # ms) i = (if n = name then Some (i, v) else first_ref name ms (Suc i))"

lemma first_ref_map_of: "map_option snd (first_ref name ms i) = map_of ms name"
  by (induction name ms i rule: first_ref.induct) auto

lemma first_ref_None: "first_ref name ms i = None \<longleftrightarrow> name \<notin> fst ` set ms"
  by (induction name ms i rule: first_ref.induct) auto

lemma first_ref_Some: "first_ref name ms i = Some (k, v) \<Longrightarrow> i \<le> k \<and> k < i + length ms \<and> ms ! (k - i) = (name, v)"
  by (induction name ms i rule: first_ref.induct) (fastforce split: if_splits simp: nth_Cons')+

definition found_in :: "(string \<times> 'j) list \<Rightarrow> nat \<Rightarrow> 'j members" where
  "found_in ms i =
     \<lparr>mm_specversion = first_ref ''specversion'' ms i, mm_id = first_ref ''id'' ms i,
      mm_source = first_ref ''source'' ms i, mm_type = first_ref ''type'' ms i,
      mm_datacontenttype = first_ref ''datacontenttype'' ms i, mm_dataschema = first_ref ''dataschema'' ms i,
      mm_subject = first_ref ''subject'' ms i, mm_time = first_ref ''time'' ms i,
      mm_data = first_ref ''data'' ms i, mm_data_base64 = first_ref ''data_base64'' ms i\<rparr>"

definition opt_or :: "'a option \<Rightarrow> 'a option \<Rightarrow> 'a option" where
  "opt_or a b = (case a of None \<Rightarrow> b | Some x \<Rightarrow> Some x)"

lemma opt_or_simps [simp]: "opt_or None b = b" "opt_or (Some x) b = Some x" "opt_or a None = a"
  by (simp_all add: opt_or_def split: option.split)

lemma opt_or_found: "a \<noteq> None \<Longrightarrow> opt_or a b = a"
  by auto

definition keep_found :: "'j members \<Rightarrow> 'j members \<Rightarrow> 'j members" where
  "keep_found a b =
     \<lparr>mm_specversion = opt_or (mm_specversion a) (mm_specversion b), mm_id = opt_or (mm_id a) (mm_id b),
      mm_source = opt_or (mm_source a) (mm_source b), mm_type = opt_or (mm_type a) (mm_type b),
      mm_datacontenttype = opt_or (mm_datacontenttype a) (mm_datacontenttype b),
      mm_dataschema = opt_or (mm_dataschema a) (mm_dataschema b),
      mm_subject = opt_or (mm_subject a) (mm_subject b), mm_time = opt_or (mm_time a) (mm_time b),
      mm_data = opt_or (mm_data a) (mm_data b), mm_data_base64 = opt_or (mm_data_base64 a) (mm_data_base64 b)\<rparr>"

lemma keep_found_none: "keep_found no_members b = b"
  by (simp add: keep_found_def no_members_def)

lemma keep_found_empty: "keep_found a (found_in [] i) = a"
  by (simp add: keep_found_def found_in_def)

lemma claim_reserved: "fst (claim found name r) \<longleftrightarrow> reserved_name name"
  by (simp add: claim_def member_slots_def reserved_name_def reserved_names_def)

lemma claim_keeps: "\<not> reserved_name name \<Longrightarrow> snd (claim found name r) = found"
  by (simp add: claim_def member_slots_def reserved_name_def reserved_names_def)

lemma claim_names:
  "claim found ''specversion'' r = (True, if mm_specversion found = None then found\<lparr>mm_specversion := Some r\<rparr> else found)"
  "claim found ''id'' r = (True, if mm_id found = None then found\<lparr>mm_id := Some r\<rparr> else found)"
  "claim found ''source'' r = (True, if mm_source found = None then found\<lparr>mm_source := Some r\<rparr> else found)"
  "claim found ''type'' r = (True, if mm_type found = None then found\<lparr>mm_type := Some r\<rparr> else found)"
  "claim found ''datacontenttype'' r = (True, if mm_datacontenttype found = None then found\<lparr>mm_datacontenttype := Some r\<rparr> else found)"
  "claim found ''dataschema'' r = (True, if mm_dataschema found = None then found\<lparr>mm_dataschema := Some r\<rparr> else found)"
  "claim found ''subject'' r = (True, if mm_subject found = None then found\<lparr>mm_subject := Some r\<rparr> else found)"
  "claim found ''time'' r = (True, if mm_time found = None then found\<lparr>mm_time := Some r\<rparr> else found)"
  "claim found ''data'' r = (True, if mm_data found = None then found\<lparr>mm_data := Some r\<rparr> else found)"
  "claim found ''data_base64'' r = (True, if mm_data_base64 found = None then found\<lparr>mm_data_base64 := Some r\<rparr> else found)"
  by (simp_all add: claim_def member_slots_def)

lemma found_in_Cons:
  "found_in ((''specversion'', v) # ms) i = found_in ms (Suc i)\<lparr>mm_specversion := Some (i, v)\<rparr>"
  "found_in ((''id'', v) # ms) i = found_in ms (Suc i)\<lparr>mm_id := Some (i, v)\<rparr>"
  "found_in ((''source'', v) # ms) i = found_in ms (Suc i)\<lparr>mm_source := Some (i, v)\<rparr>"
  "found_in ((''type'', v) # ms) i = found_in ms (Suc i)\<lparr>mm_type := Some (i, v)\<rparr>"
  "found_in ((''datacontenttype'', v) # ms) i = found_in ms (Suc i)\<lparr>mm_datacontenttype := Some (i, v)\<rparr>"
  "found_in ((''dataschema'', v) # ms) i = found_in ms (Suc i)\<lparr>mm_dataschema := Some (i, v)\<rparr>"
  "found_in ((''subject'', v) # ms) i = found_in ms (Suc i)\<lparr>mm_subject := Some (i, v)\<rparr>"
  "found_in ((''time'', v) # ms) i = found_in ms (Suc i)\<lparr>mm_time := Some (i, v)\<rparr>"
  "found_in ((''data'', v) # ms) i = found_in ms (Suc i)\<lparr>mm_data := Some (i, v)\<rparr>"
  "found_in ((''data_base64'', v) # ms) i = found_in ms (Suc i)\<lparr>mm_data_base64 := Some (i, v)\<rparr>"
  by (simp_all add: found_in_def)

lemma claim_found:
  "keep_found (snd (claim found name (i, v))) (found_in ms (Suc i)) = keep_found found (found_in ((name, v) # ms) i)"
proof (cases "reserved_name name")
  case False
  then show ?thesis
    by (simp add: claim_keeps) (simp add: found_in_def reserved_name_def reserved_names_def)
next
  case True
  then have "name = ''specversion'' \<or> name = ''id'' \<or> name = ''source'' \<or> name = ''type'' \<or> name = ''datacontenttype'' \<or> name = ''dataschema'' \<or> name = ''subject'' \<or> name = ''time'' \<or> name = ''data'' \<or> name = ''data_base64''"
    by (simp add: reserved_name_def reserved_names_def disj_ac)
  then show ?thesis
  proof (elim disjE)
    assume "name = ''specversion''"
    then show ?thesis by (cases "mm_specversion found") (simp_all add: claim_names found_in_Cons keep_found_def)
  next
    assume "name = ''id''"
    then show ?thesis by (cases "mm_id found") (simp_all add: claim_names found_in_Cons keep_found_def)
  next
    assume "name = ''source''"
    then show ?thesis by (cases "mm_source found") (simp_all add: claim_names found_in_Cons keep_found_def)
  next
    assume "name = ''type''"
    then show ?thesis by (cases "mm_type found") (simp_all add: claim_names found_in_Cons keep_found_def)
  next
    assume "name = ''datacontenttype''"
    then show ?thesis by (cases "mm_datacontenttype found") (simp_all add: claim_names found_in_Cons keep_found_def)
  next
    assume "name = ''dataschema''"
    then show ?thesis by (cases "mm_dataschema found") (simp_all add: claim_names found_in_Cons keep_found_def)
  next
    assume "name = ''subject''"
    then show ?thesis by (cases "mm_subject found") (simp_all add: claim_names found_in_Cons keep_found_def)
  next
    assume "name = ''time''"
    then show ?thesis by (cases "mm_time found") (simp_all add: claim_names found_in_Cons keep_found_def)
  next
    assume "name = ''data''"
    then show ?thesis by (cases "mm_data found") (simp_all add: claim_names found_in_Cons keep_found_def)
  next
    assume "name = ''data_base64''"
    then show ?thesis by (cases "mm_data_base64 found") (simp_all add: claim_names found_in_Cons keep_found_def)
  qed
qed

text \<open>The extension members one by one, up to the first that is refused.\<close>

fun read_extensions :: "'j codec \<Rightarrow> (string \<times> 'j) list \<Rightarrow> unit result \<Rightarrow> 'j options \<Rightarrow> unit result \<times> 'j options" where
  "read_extensions C [] r into = (r, into)"
| "read_extensions C ((name, v) # ms) r into =
     (if is_ok r then case read_extension C name v into of (r, into) \<Rightarrow> read_extensions C ms r into
      else (r, into))"

definition extension_members :: "(string \<times> 'j) list \<Rightarrow> (string \<times> 'j) list" where
  "extension_members ms = filter (\<lambda>m. \<not> reserved_name (fst m)) ms"

lemma extension_members_simps [simp]:
  "extension_members [] = []"
  "extension_members ((n, v) # ms) = (if reserved_name n then extension_members ms else (n, v) # extension_members ms)"
  by (simp_all add: extension_members_def)

lemma read_extensions_failed: "\<not> is_ok r \<Longrightarrow> read_extensions C ms r into = (r, into)"
  by (cases "(C, ms, r, into)" rule: read_extensions.cases) auto

lemma visit_members_eq:
  "visit_members C ms i found r into =
     (keep_found found (found_in ms i), read_extensions C (extension_members ms) r into)"
proof (induction C ms i found r into rule: visit_members.induct)
  case (2 C name member ms i found r into)
  obtain claimed found' where c: "claim found name (i, member) = (claimed, found')" by fastforce
  have cl: "claimed \<longleftrightarrow> reserved_name name" using claim_reserved [of found name "(i, member)"] c by simp
  have k: "keep_found found' (found_in ms (Suc i)) = keep_found found (found_in ((name, member) # ms) i)"
    using claim_found [of found name i member ms] c by simp
  show ?case
  proof (cases "claimed \<or> \<not> is_ok r")
    case True
    with 2(1) [OF c [symmetric] True] k cl show ?thesis
      by (auto simp: c read_extensions_failed)
  next
    case False
    obtain r' into' where e: "read_extension C name member into = (r', into')" by fastforce
    from 2(2) [OF c [symmetric] False e [symmetric]] k cl False show ?thesis by (simp add: c e)
  qed
qed (simp add: keep_found_empty)


section \<open>Every event that is read is well-formed\<close>

lemma decode_attribute_ok: "decode_attribute C member = Inr v \<Longrightarrow> value_ok v"
  by (auto simp: decode_attribute_def value_ok_def and_then_at_eq_Inr split: kind.splits if_splits)

lemma read_extension_ok: "options_ok into \<Longrightarrow> read_extension C name member into = (r, into') \<Longrightarrow> options_ok into'"
  by (auto simp: read_extension_def options_ok_extensions extension_name_rules.make_Inr
      intro!: extensions_ok_insert decode_attribute_ok split: if_splits sum.splits)

lemma read_extensions_ok: "options_ok into \<Longrightarrow> read_extensions C ms r into = (r', into') \<Longrightarrow> options_ok into'"
  by (induction C ms r into rule: read_extensions.induct)
    (auto split: if_splits prod.splits dest: read_extension_ok)

lemma store_required_ok:
  "store_required C p member name = Inr slot \<Longrightarrow> attribute_policy p \<Longrightarrow> accepted_by p slot"
  by (auto simp: store_required_def and_then_eq_Inr accepted_by_def attribute_policy.store_Inr)

lemma store_optional_ok:
  "store_optional C p member name slot = Inr slot' \<Longrightarrow> accepted_by p slot \<Longrightarrow> attribute_policy p \<Longrightarrow> accepted_by p slot'"
  by (auto simp: store_optional_def and_then_eq_Inr accepted_by_def attribute_policy.store_Inr split: option.splits)

lemma store_time_ok: "store_time C member into = Inr into' \<Longrightarrow> options_ok into \<Longrightarrow> options_ok into'"
  by (auto simp: store_time_def and_then_eq_Inr and_then_at_eq_Inr options_ok_extensions parse_timestamp_ts_ok split: option.splits)

lemmas policies = id_rules.attribute_policy_axioms source_rules.attribute_policy_axioms
  type_rules.attribute_policy_axioms subject_rules.attribute_policy_axioms
  dataschema_rules.attribute_policy_axioms datacontenttype_rules.attribute_policy_axioms

lemma read_context_ok:
  assumes "read_context C found into = Inr into'" "builder_ok into"
  shows "builder_ok into'"
proof -
  from assms(2) have r: "options_ok (b_rest into)" by (simp add: builder_ok_def)
  from assms(1) obtain i s k dct ds su rest where
    1: "store_required C id_policy (mm_id found) ''id'' = Inr i"
      "store_required C source_policy (mm_source found) ''source'' = Inr s"
      "store_required C type_policy (mm_type found) ''type'' = Inr k"
      "store_optional C datacontenttype_policy (mm_datacontenttype found) ''datacontenttype''
         (o_datacontenttype (b_rest into)) = Inr dct"
      "store_optional C dataschema_policy (mm_dataschema found) ''dataschema'' (o_dataschema (b_rest into)) = Inr ds"
      "store_optional C subject_policy (mm_subject found) ''subject'' (o_subject (b_rest into)) = Inr su"
    and t: "store_time C (mm_time found)
        (b_rest into\<lparr>o_datacontenttype := dct, o_dataschema := ds, o_subject := su\<rparr>) = Inr rest"
    and into': "into' = into\<lparr>b_id := i, b_source := s, b_type := k, b_rest := rest\<rparr>"
    by (auto simp: read_context_def and_then_eq_Inr Let_def)
  from r have o: "accepted_by datacontenttype_policy (o_datacontenttype (b_rest into))"
    "accepted_by dataschema_policy (o_dataschema (b_rest into))" "accepted_by subject_policy (o_subject (b_rest into))"
    by (simp_all add: options_ok_def)
  have "options_ok (b_rest into\<lparr>o_datacontenttype := dct, o_dataschema := ds, o_subject := su\<rparr>)"
    using r store_optional_ok [OF 1(4) o(1)] store_optional_ok [OF 1(5) o(2)] store_optional_ok [OF 1(6) o(3)]
    by (simp add: options_ok_def policies)
  with store_time_ok [OF t] store_required_ok [OF 1(1)] store_required_ok [OF 1(2)] store_required_ok [OF 1(3)]
  show ?thesis by (simp add: into' builder_ok_def policies)
qed

lemma decode_data_ok:
  "decode_data C fresh found owned mode own_text wants into = Inr (into', m) \<Longrightarrow> options_ok into \<Longrightarrow> options_ok into'"
  by (auto simp: decode_data_def options_ok_extensions and_then_at_eq_Inr Let_def split: if_splits option.splits sum.splits)

text \<open>What a successful reading did.\<close>

lemma read_event_Inr:
  "read_event C fresh document owned mode own_text wants = Inr (ev, m) \<longleftrightarrow>
     c_kind_of C document = K_object \<and>
     (\<exists>rest b rest'. read_extensions C (extension_members (c_members C document)) (Inr ()) no_options = (Inr (), rest) \<and>
        read_context C (found_in (c_members C document) 0) (new_builder\<lparr>b_rest := rest\<rparr>) = Inr b \<and>
        decode_data C fresh (found_in (c_members C document) 0) owned mode own_text wants (b_rest b) = Inr (rest', m) \<and>
        build (b\<lparr>b_rest := rest'\<rparr>) = Inr ev)"
proof -
  obtain r rest where e: "read_extensions C (extension_members (c_members C document)) (Inr ()) no_options = (r, rest)"
    by fastforce
  have n: "b_rest new_builder = no_options" by (simp add: new_builder_def)
  show ?thesis
    unfolding read_event_def visit_members_eq keep_found_none n e
    by (auto simp: and_then_eq_Inr split: prod.splits)
qed

lemma read_event_ok:
  assumes "read_event C fresh document owned mode own_text wants = Inr (ev, m)"
  shows "event_ok ev"
proof -
  from assms obtain rest b rest' where
    e: "read_extensions C (extension_members (c_members C document)) (Inr ()) no_options = (Inr (), rest)"
    and c: "read_context C (found_in (c_members C document) 0) (new_builder\<lparr>b_rest := rest\<rparr>) = Inr b"
    and d: "decode_data C fresh (found_in (c_members C document) 0) owned mode own_text wants (b_rest b) = Inr (rest', m)"
    and b: "build (b\<lparr>b_rest := rest'\<rparr>) = Inr ev"
    unfolding read_event_Inr by blast
  have "options_ok rest" using read_extensions_ok [OF no_options_ok e] .
  then have "builder_ok (new_builder\<lparr>b_rest := rest\<rparr>)" by (simp add: builder_ok_def new_builder_def accepted_by_def)
  then have bo: "builder_ok b" using read_context_ok [OF c] by simp
  then have "options_ok rest'" using decode_data_ok [OF d] by (simp add: builder_ok_def)
  with bo have "builder_ok (b\<lparr>b_rest := rest'\<rparr>)" by (simp add: builder_ok_def)
  then show ?thesis using build_ok b by blast
qed

lemma keep_event_simps [simp]: "keeps_event keep_event" "reads keep_event ev m = Inr ev"
  by (simp_all add: keep_event_def)

lemma from_value_Inr:
  "from_value C fresh document = Inr ev \<longleftrightarrow> (\<exists>m. read_event C fresh document None P_copy None False = Inr (ev, m))"
  by (auto simp: from_value_def from_value_reading_def and_then_eq_Inr split: prod.splits)

lemma from_value_ok: "from_value C fresh document = Inr ev \<Longrightarrow> event_ok ev"
  by (auto simp: from_value_Inr dest: read_event_ok)

lemma json_decode_ok: "json_decode C fresh txt options = Inr ev \<Longrightarrow> event_ok ev"
  by (auto simp: json_decode_def decode_reading_def and_then_at_eq_Inr and_then_eq_Inr
      split: prod.splits if_splits dest: read_event_ok)

lemma visit_elements_ok:
  "visit_elements C fresh keep_event mode own_texts elements = Inr evs \<Longrightarrow>
     length evs = length elements \<and> (\<forall>ev \<in> set evs. event_ok ev)"
proof (induction elements arbitrary: fresh own_texts evs)
  case (Cons element elements)
  then obtain own own_texts' ev m evs' where
    "read_event C fresh element (Some element) mode own False = Inr (ev, m)"
    "visit_elements C (Suc fresh) keep_event mode own_texts' elements = Inr evs'" "evs = ev # evs'"
    by (auto simp: and_then_eq_Inr split: prod.splits)
  with Cons.IH [of "Suc fresh" own_texts' evs'] show ?case by (auto dest: read_event_ok)
qed simp

end
