(* ===== verification/Json_Round_Trip.thy ===== *)
theory Json_Round_Trip
  imports Json_Laws
begin

text \<open>
  Reading the JSON value that was written for an event: the round trip of the JSON format, for any
  codec that keeps what is set in it.
\<close>

section \<open>The members that are written\<close>

definition set_all :: "'j codec \<Rightarrow> (string \<times> 'j) list \<Rightarrow> 'j \<Rightarrow> 'j" where
  "set_all C entries root = fold (\<lambda>(name, v) root. c_set C root name v) entries root"

lemma set_all_simps [simp]:
  "set_all C [] root = root"
  "set_all C ((name, v) # entries) root = set_all C entries (c_set C root name v)"
  "set_all C (xs @ ys) root = set_all C ys (set_all C xs root)"
  by (simp_all add: set_all_def)

lemma set_all_members:
  assumes "codec_objects C"
  shows "c_kind_of C root = K_object \<Longrightarrow> distinct (map fst entries @ map fst (c_members C root)) \<Longrightarrow>
    c_kind_of C (set_all C entries root) = K_object \<and>
    mset (c_members C (set_all C entries root)) = mset entries + mset (c_members C root)"
proof (induction entries arbitrary: root)
  case (Cons entry entries)
  obtain n v where e: "entry = (n, v)" by fastforce
  have m: "mset (c_members C (c_set C root n v)) = add_mset (n, v) (mset (c_members C root))"
    and k: "c_kind_of C (c_set C root n v) = K_object"
    using assms Cons.prems unfolding codec_objects_def by (auto simp: e)
  have "mset (map fst (c_members C (c_set C root n v))) = add_mset n (mset (map fst (c_members C root)))"
    using m by (metis (no_types, lifting) fst_conv image_mset_add_mset mset_map)
  then have "mset (map fst entries @ map fst (c_members C (c_set C root n v))) =
      mset (map fst (entry # entries) @ map fst (c_members C root))" by (simp add: e)
  then have d: "distinct (map fst entries @ map fst (c_members C (c_set C root n v)))"
    using Cons.prems(2) mset_eq_imp_distinct_iff by blast
  from Cons.IH [OF k d] m show ?case by (simp add: e)
qed simp

definition entry_of :: "string \<Rightarrow> 'j option \<Rightarrow> (string \<times> 'j) list" where
  "entry_of name present = (case present of Some v \<Rightarrow> [(name, v)] | None \<Rightarrow> [])"

lemma set_optional_all: "set_optional C name present root = set_all C (entry_of name present) root"
  by (simp add: set_optional_def entry_of_def split: option.split)

lemma entry_of_fst: "fst ` set (entry_of name present) \<subseteq> {name}" "distinct (map fst (entry_of name present))"
  by (auto simp: entry_of_def split: option.split)

lemma map_of_entry_of [simp]: "map_of (entry_of name present) n = (if n = name then present else None)"
  by (simp add: entry_of_def split: option.split)

definition context_entries :: "'j codec \<Rightarrow> 'j event \<Rightarrow> string option \<Rightarrow> (string \<times> 'j) list" where
  "context_entries C ev media =
     [(''specversion'', c_make_string C spec_version_view), (''id'', c_make_string C (e_id ev)),
      (''source'', c_make_string C (e_source ev)), (''type'', c_make_string C (e_type ev))] @
     entry_of ''datacontenttype'' (map_option (c_make_string C) media) @
     entry_of ''dataschema'' (map_option (c_make_string C) (o_dataschema (e_rest ev))) @
     entry_of ''subject'' (map_option (c_make_string C) (o_subject (e_rest ev))) @
     entry_of ''time'' (map_option (\<lambda>t. built_string C (to_string t)) (o_time (e_rest ev)))"

definition attribute_json :: "'j codec \<Rightarrow> attribute_value \<Rightarrow> 'j" where
  "attribute_json C a = (case a of Bool b \<Rightarrow> c_make_bool C b | Int32 i \<Rightarrow> c_make_int C i | Str s \<Rightarrow> c_make_string C s
     | Bin b \<Rightarrow> built_string C (base64_encode b) | Time t \<Rightarrow> built_string C (to_string t)
     | Uri s \<Rightarrow> c_make_string C s | Uri_ref s \<Rightarrow> c_make_string C s)"

definition extension_entries :: "'j codec \<Rightarrow> 'j event \<Rightarrow> (string \<times> 'j) list" where
  "extension_entries C ev = map (\<lambda>(n, a). (n, attribute_json C a)) (o_extensions (e_rest ev))"

definition data_entries :: "'j codec \<Rightarrow> 'j data_t \<Rightarrow> (string \<times> 'j) list result" where
  "data_entries C d =
     (case d of No_data \<Rightarrow> Inr []
      | Binary_data b \<Rightarrow> Inr [(''data_base64'', built_string C (base64_encode b))]
      | Text_data s \<Rightarrow> Inr [(''data'', c_make_string C s)]
      | Json_text s \<Rightarrow>
          (case c_parse C s of Inr v \<Rightarrow> Inr [(''data'', v)] | Inl _ \<Rightarrow> fail parse_error ''data is not well-formed JSON'' ''/data'')
      | Json_document held \<Rightarrow>
          (case document_get C held of Some own \<Rightarrow> Inr [(''data'', c_copy C own)]
           | None \<Rightarrow> (case c_parse C (document_dump held) of Inr v \<Rightarrow> Inr [(''data'', v)]
               | Inl _ \<Rightarrow> fail parse_error ''data is not well-formed JSON'' ''/data'')))"

lemma encode_attribute_json: "encode_attribute C a = Inr (attribute_json C a)"
  by (simp add: encode_attribute_def attribute_json_def split: attribute_value.split)

lemma set_extensions_all:
  "set_extensions C exts root = Inr (set_all C (map (\<lambda>(n, a). (n, attribute_json C a)) exts) root)"
  by (induction C exts root rule: set_extensions.induct) (simp_all add: encode_attribute_json)

lemma to_value_writing_all:
  "to_value_writing C ev media write_data =
     write_data (set_all C (context_entries C ev media @ extension_entries C ev) (c_make_object C))"
  by (simp add: to_value_writing_def context_entries_def extension_entries_def set_extensions_all
      set_optional_all Let_def)

lemma encode_data_all: "encode_data C d root = and_then (data_entries C d) (\<lambda>D. Inr (set_all C D root))"
  by (simp add: encode_data_def data_entries_def fail_def split: data_t.split option.split sum.split)

lemma to_value_all:
  "to_value C ev = and_then (data_entries C (o_data (e_rest ev))) (\<lambda>D.
     Inr (set_all C (context_entries C ev (o_datacontenttype (e_rest ev)) @ extension_entries C ev @ D) (c_make_object C)))"
  by (simp add: to_value_def to_value_writing_all encode_data_all)

lemma data_entries_fst: "data_entries C d = Inr D \<Longrightarrow> distinct (map fst D) \<and> fst ` set D \<subseteq> {''data'', ''data_base64''}"
  by (auto simp: data_entries_def split: data_t.splits option.splits sum.splits)

definition context_names :: "string list" where
  "context_names = [''specversion'', ''id'', ''source'', ''type'', ''datacontenttype'', ''dataschema'', ''subject'', ''time'']"

lemma context_entries_names:
  "distinct (map fst (context_entries C ev media)) \<and> set (map fst (context_entries C ev media)) \<subseteq> set context_names"
  by (simp add: context_entries_def context_names_def entry_of_def split: option.split)

lemma extension_not_reserved:
  "event_ok ev \<Longrightarrow> (n, a) \<in> set (o_extensions (e_rest ev)) \<Longrightarrow>
     \<not> reserved_name n \<and> p_check extension_name_policy n = None \<and> value_ok a"
  by (auto simp: event_ok_def options_ok_def extension_name_policy_def check_extension_name_None)

lemma extension_entries_names:
  assumes "event_ok ev"
  shows "distinct (map fst (extension_entries C ev))" "\<forall>n \<in> set (map fst (extension_entries C ev)). \<not> reserved_name n"
proof -
  have "map fst (extension_entries C ev) = map fst (o_extensions (e_rest ev))"
    by (simp add: extension_entries_def comp_def case_prod_beta)
  then show "distinct (map fst (extension_entries C ev))" "\<forall>n \<in> set (map fst (extension_entries C ev)). \<not> reserved_name n"
    using om_ok_distinct [OF event_ok_om [OF assms]] extension_not_reserved [OF assms] by auto
qed

lemma reserved_split: "reserved_name n \<longleftrightarrow> n \<in> set context_names \<or> n \<in> {''data'', ''data_base64''}"
  by (simp add: reserved_name_def reserved_names_def context_names_def) argo

text \<open>All that is written, with what the two halves of the reader make of it.\<close>

lemma written_distinct:
  assumes "event_ok ev" "data_entries C d = Inr D"
  shows "distinct (map fst (context_entries C ev media @ extension_entries C ev @ D))"
proof -
  note c = context_entries_names [of C ev media] and e = extension_entries_names [OF assms(1), of C]
    and d = data_entries_fst [OF assms(2)]
  have "set (map fst (context_entries C ev media)) \<inter> set (map fst (extension_entries C ev)) = {}"
    using c e(2) reserved_split by blast
  moreover have "set (map fst (context_entries C ev media)) \<inter> set (map fst D) = {}"
  proof -
    have "set context_names \<inter> {''data'', ''data_base64''} = {}" by (simp add: context_names_def)
    then show ?thesis using c d unfolding set_map by blast
  qed
  moreover have "set (map fst (extension_entries C ev)) \<inter> set (map fst D) = {}"
    using d e(2) reserved_split by auto
  ultimately show ?thesis using c e(1) d by (simp add: inf_sup_distrib1)
qed

lemma extension_members_written:
  assumes "event_ok ev" "data_entries C d = Inr D"
  shows "extension_members (context_entries C ev media @ extension_entries C ev @ D) = extension_entries C ev"
proof -
  have "\<forall>m \<in> set (context_entries C ev media). reserved_name (fst m)"
    using context_entries_names [of C ev media] reserved_split by auto
  moreover have "\<forall>m \<in> set D. reserved_name (fst m)" using data_entries_fst [OF assms(2)] reserved_split by auto
  moreover have "\<forall>m \<in> set (extension_entries C ev). \<not> reserved_name (fst m)"
    using extension_entries_names(2) [OF assms(1), of C] by auto
  ultimately show ?thesis unfolding extension_members_def by (simp add: filter_id_conv filter_False)
qed


section \<open>What the reader makes of them\<close>

definition json_attribute :: "attribute_value \<Rightarrow> attribute_value" where
  "json_attribute a = (case a of Bool b \<Rightarrow> Bool b | Int32 i \<Rightarrow> Int32 i | Str s \<Rightarrow> Str s
     | Bin b \<Rightarrow> Str (base64_encode b) | Time t \<Rightarrow> Str (to_string t) | Uri s \<Rightarrow> Str s | Uri_ref s \<Rightarrow> Str s)"

lemma built_string_reads:
  "codec_scalars C \<Longrightarrow> c_kind_of C (built_string C s) = K_string \<and> c_as_string C (built_string C s) = Inr s"
  by (auto simp: codec_scalars_def built_string_def split: option.splits)

lemma decode_attribute_json:
  assumes "codec_scalars C" "value_ok a"
  shows "decode_attribute C (attribute_json C a) = Inr (json_attribute a) \<and> c_kind_of C (attribute_json C a) \<noteq> K_null"
proof (cases a)
  case (Bin b)
  then show ?thesis using built_string_reads [OF assms(1)]
    by (simp add: attribute_json_def decode_attribute_def json_attribute_def)
next
  case (Time t)
  then show ?thesis using built_string_reads [OF assms(1)]
    by (simp add: attribute_json_def decode_attribute_def json_attribute_def)
qed (use assms in \<open>simp_all add: codec_scalars_def attribute_json_def decode_attribute_def json_attribute_def value_ok_def
  int32_min_def int32_max_def int64_min_def int64_max_def\<close>)

lemma read_extensions_all:
  assumes "codec_scalars C"
  shows "\<forall>(n, v) \<in> set ms. p_check extension_name_policy n = None \<and> (\<exists>a. v = attribute_json C a \<and> value_ok a) \<Longrightarrow>
    read_extensions C ms (Inr ()) into =
      (Inr (), into\<lparr>o_extensions := om.insert_all (map (\<lambda>(n, v). (n, projr (decode_attribute C v))) ms) (o_extensions into)\<rparr>)"
proof (induction ms arbitrary: into)
  case (Cons m ms)
  obtain n a where m: "m = (n, attribute_json C a)" and n: "p_check extension_name_policy n = None" and a: "value_ok a"
    using Cons.prems by (cases m) auto
  have "make_validated extension_name_policy n = Inr n" using n by (simp add: extension_name_rules.make_Inr)
  then have "read_extension C n (attribute_json C a) into =
      (Inr (), into\<lparr>o_extensions := om_insert_or_assign n (json_attribute a) (o_extensions into)\<rparr>)"
    using decode_attribute_json [OF assms a] by (simp add: read_extension_def)
  with Cons decode_attribute_json [OF assms a] show ?case by (simp add: m)
qed simp

definition json_extensions :: "extension_map \<Rightarrow> extension_map" where
  "json_extensions exts = map (\<lambda>(n, a). (n, json_attribute a)) exts"

lemma om_ok_json_extensions: "om_ok (json_extensions exts) \<longleftrightarrow> om_ok exts"
  by (simp add: om_ok_def json_extensions_def comp_def case_prod_beta)

lemma read_extensions_written:
  assumes C: "codec_scalars C" and ev: "event_ok ev" and ms: "mset ms = mset (extension_entries C ev)"
  shows "read_extensions C ms (Inr ()) no_options =
    (Inr (), no_options\<lparr>o_extensions := json_extensions (o_extensions (e_rest ev))\<rparr>)"
proof -
  have s: "set ms = set (extension_entries C ev)" using ms by (metis mset_eq_setD)
  have "\<forall>(n, v) \<in> set ms. p_check extension_name_policy n = None \<and> (\<exists>a. v = attribute_json C a \<and> value_ok a)"
    unfolding s using extension_not_reserved [OF ev] by (fastforce simp: extension_entries_def)
  note r = read_extensions_all [OF C this, of no_options]
  have "mset (map (\<lambda>(n, v). (n, projr (decode_attribute C v))) ms) =
      mset (map (\<lambda>(n, v). (n, projr (decode_attribute C v))) (extension_entries C ev))"
    using ms by (metis mset_map)
  also have "map (\<lambda>(n, v). (n, projr (decode_attribute C v))) (extension_entries C ev) =
      json_extensions (o_extensions (e_rest ev))"
    using extension_not_reserved [OF ev] decode_attribute_json [OF C]
    by (auto simp: extension_entries_def json_extensions_def)
  finally have "om.insert_all (map (\<lambda>(n, v). (n, projr (decode_attribute C v))) ms) [] =
      json_extensions (o_extensions (e_rest ev))"
    by (intro om.insert_all_entries) (simp_all add: om_ok_json_extensions event_ok_om [OF ev])
  with r show ?thesis by (simp add: no_options_def)
qed


section \<open>Reading the context and the data back\<close>

lemma required_reads:
  "map_of ms n = Some v \<Longrightarrow> c_as_string C v = Inr s \<Longrightarrow> required_text_of C (first_ref n ms i) nm = Inr s"
  using first_ref_map_of [of n ms i] by (auto simp: required_text_of_def split: option.splits)

lemma optional_reads:
  assumes "map_of ms n = map_option mk t" "\<And>s. c_kind_of C (mk s) = K_string \<and> c_as_string C (mk s) = Inr (f s)"
  shows "optional_text_of C (first_ref n ms i) nm = Inr (map_option f t)"
  using first_ref_map_of [of n ms i] assms by (cases t) (auto simp: optional_text_of_def)

lemma make_string_reads:
  "codec_scalars C \<Longrightarrow> c_kind_of C (c_make_string C s) = K_string \<and> c_as_string C (c_make_string C s) = Inr s"
  by (simp add: codec_scalars_def)

lemma store_required_reads:
  assumes "codec_scalars C" "map_of ms n = Some (c_make_string C s)" "p_check p s = None" "attribute_policy p"
  shows "store_required C p (first_ref n ms i) nm = Inr (Some s)"
  using required_reads [OF assms(2), of C s] make_string_reads [OF assms(1)] assms(3,4)
  by (simp add: store_required_def attribute_policy.store_Inr)

lemma store_optional_reads:
  assumes "codec_scalars C" "map_of ms n = map_option (c_make_string C) t" "accepted_by p t" "attribute_policy p"
  shows "store_optional C p (first_ref n ms i) nm None = Inr t"
  using optional_reads [OF assms(2), of C "\<lambda>s. s"] make_string_reads [OF assms(1)] assms(3,4)
  by (cases t) (simp_all add: store_optional_def attribute_policy.store_Inr accepted_by_def)

definition time_fits :: "'j event \<Rightarrow> bool" where
  "time_fits ev \<longleftrightarrow> (case o_time (e_rest ev) of Some t \<Rightarrow> local_fits t | None \<Rightarrow> True)"

lemma store_time_reads:
  assumes "codec_scalars C" "map_of ms ''time'' = map_option (\<lambda>t. built_string C (to_string t)) tm"
    and "case tm of Some t \<Rightarrow> ts_ok t \<and> local_fits t | None \<Rightarrow> True" "o_time into = None"
  shows "store_time C (first_ref ''time'' ms i) into = Inr (into\<lparr>o_time := tm\<rparr>)"
  using optional_reads [OF assms(2), of C to_string] built_string_reads [OF assms(1)] assms(3,4)
  by (cases tm) (simp_all add: store_time_def parse_timestamp_to_string)

lemma map_of_extension_entries:
  "event_ok ev \<Longrightarrow> reserved_name n \<Longrightarrow> map_of (extension_entries C ev) n = None"
  using extension_entries_names(2) [of ev C] by (force simp: map_of_eq_None_iff)

lemma map_of_written:
  assumes "event_ok ev" "data_entries C d = Inr D"
  shows "map_of (context_entries C ev media @ extension_entries C ev @ D) ''specversion'' = Some (c_make_string C spec_version_view)"
    "map_of (context_entries C ev media @ extension_entries C ev @ D) ''id'' = Some (c_make_string C (e_id ev))"
    "map_of (context_entries C ev media @ extension_entries C ev @ D) ''source'' = Some (c_make_string C (e_source ev))"
    "map_of (context_entries C ev media @ extension_entries C ev @ D) ''type'' = Some (c_make_string C (e_type ev))"
    "map_of (context_entries C ev media @ extension_entries C ev @ D) ''datacontenttype'' = map_option (c_make_string C) media"
    "map_of (context_entries C ev media @ extension_entries C ev @ D) ''dataschema'' =
       map_option (c_make_string C) (o_dataschema (e_rest ev))"
    "map_of (context_entries C ev media @ extension_entries C ev @ D) ''subject'' =
       map_option (c_make_string C) (o_subject (e_rest ev))"
    "map_of (context_entries C ev media @ extension_entries C ev @ D) ''time'' =
       map_option (\<lambda>t. built_string C (to_string t)) (o_time (e_rest ev))"
    "map_of (context_entries C ev media @ extension_entries C ev @ D) ''data'' = map_of D ''data''"
    "map_of (context_entries C ev media @ extension_entries C ev @ D) ''data_base64'' = map_of D ''data_base64''"
proof -
  have x: "map_of (extension_entries C ev) n = None" if "n \<in> set reserved_names" for n
    using map_of_extension_entries [OF assms(1), of n C] that by (simp add: reserved_name_def)
  have d: "map_of D n = None" if "n \<notin> {''data'', ''data_base64''}" for n
    using data_entries_fst [OF assms(2)] that by (force simp: map_of_eq_None_iff)
  note s = context_entries_def map_of_append map_add_def
  show "map_of (context_entries C ev media @ extension_entries C ev @ D) ''specversion'' = Some (c_make_string C spec_version_view)"
    "map_of (context_entries C ev media @ extension_entries C ev @ D) ''id'' = Some (c_make_string C (e_id ev))"
    "map_of (context_entries C ev media @ extension_entries C ev @ D) ''source'' = Some (c_make_string C (e_source ev))"
    "map_of (context_entries C ev media @ extension_entries C ev @ D) ''type'' = Some (c_make_string C (e_type ev))"
    "map_of (context_entries C ev media @ extension_entries C ev @ D) ''datacontenttype'' = map_option (c_make_string C) media"
    "map_of (context_entries C ev media @ extension_entries C ev @ D) ''dataschema'' =
       map_option (c_make_string C) (o_dataschema (e_rest ev))"
    "map_of (context_entries C ev media @ extension_entries C ev @ D) ''subject'' =
       map_option (c_make_string C) (o_subject (e_rest ev))"
    "map_of (context_entries C ev media @ extension_entries C ev @ D) ''time'' =
       map_option (\<lambda>t. built_string C (to_string t)) (o_time (e_rest ev))"
    by (simp_all add: s x d reserved_names_def split: option.split)
  show "map_of (context_entries C ev media @ extension_entries C ev @ D) ''data'' = map_of D ''data''"
    "map_of (context_entries C ev media @ extension_entries C ev @ D) ''data_base64'' = map_of D ''data_base64''"
    by (simp_all add: s x reserved_names_def split: option.split)
qed

lemma read_context_written:
  assumes C: "codec_scalars C" and ev: "event_ok ev" "time_fits ev" and D: "data_entries C d = Inr D"
    and ms: "map_of ms = map_of (context_entries C ev (o_datacontenttype (e_rest ev)) @ extension_entries C ev @ D)"
  shows "read_context C (found_in ms 0) (new_builder\<lparr>b_rest := no_options\<lparr>o_extensions := exts\<rparr>\<rparr>) =
    Inr \<lparr>b_id = Some (e_id ev), b_source = Some (e_source ev), b_type = Some (e_type ev),
         b_rest = (e_rest ev)\<lparr>o_extensions := exts, o_data := No_data\<rparr>\<rparr>"
proof -
  let ?r = "e_rest ev"
  note m = map_of_written [OF ev(1) D, of "o_datacontenttype ?r", folded ms]
  have ok: "p_check id_policy (e_id ev) = None" "p_check source_policy (e_source ev) = None"
    "p_check type_policy (e_type ev) = None"
    "accepted_by datacontenttype_policy (o_datacontenttype ?r)" "accepted_by dataschema_policy (o_dataschema ?r)"
    "accepted_by subject_policy (o_subject ?r)" "case o_time ?r of Some t \<Rightarrow> ts_ok t \<and> local_fits t | None \<Rightarrow> True"
    using ev by (auto simp: event_ok_def options_ok_def time_fits_def split: option.splits)
  note r = store_required_reads [OF C m(2) ok(1)] store_required_reads [OF C m(3) ok(2)]
    store_required_reads [OF C m(4) ok(3)] store_optional_reads [OF C m(5) ok(4)]
    store_optional_reads [OF C m(6) ok(5)] store_optional_reads [OF C m(7) ok(6)]
    store_time_reads [OF C m(8) ok(7)]
  have v: "required_text_of C (first_ref ''specversion'' ms 0) nm = Inr spec_version_view" for nm
    using required_reads [OF m(1)] make_string_reads [OF C] by blast
  have sv: "spec_version_make spec_version_view = Inr ()" by (simp add: spec_version_make_def spec_version_view_def)
  show ?thesis
    by (simp add: read_context_def found_in_def new_builder_def no_options_def v sv r policies Let_def)
qed

definition json_value_data :: "'j codec \<Rightarrow> nat \<Rightarrow> string option \<Rightarrow> 'j \<Rightarrow> 'j data_t" where
  "json_value_data C fresh media v =
     (if (case media of Some m \<Rightarrow> \<not> is_json_content_type m | None \<Rightarrow> False) \<and> c_kind_of C v = K_string
      then Text_data (projr (c_as_string C v)) else Json_document (document_make C fresh (c_copy C v)))"

definition json_data :: "'j codec \<Rightarrow> nat \<Rightarrow> string option \<Rightarrow> 'j data_t \<Rightarrow> 'j data_t" where
  "json_data C fresh media d =
     (case d of No_data \<Rightarrow> No_data | Binary_data b \<Rightarrow> Binary_data b
      | Text_data s \<Rightarrow> json_value_data C fresh media (c_make_string C s)
      | Json_text s \<Rightarrow> json_value_data C fresh media (projr (c_parse C s))
      | Json_document held \<Rightarrow> json_value_data C fresh media
          (case document_get C held of Some own \<Rightarrow> c_copy C own | None \<Rightarrow> projr (c_parse C (document_dump held))))"

definition json_image :: "'j codec \<Rightarrow> nat \<Rightarrow> 'j event \<Rightarrow> 'j event" where
  "json_image C fresh ev = ev\<lparr>e_rest := (e_rest ev)
     \<lparr>o_extensions := json_extensions (o_extensions (e_rest ev)),
      o_data := json_data C fresh (o_datacontenttype (e_rest ev)) (o_data (e_rest ev))\<rparr>\<rparr>"

lemma decode_data_written:
  assumes C: "codec_scalars C" and D: "data_entries C d = Inr D"
    and m: "map_of ms ''data'' = map_of D ''data''" "map_of ms ''data_base64'' = map_of D ''data_base64''"
    and n: "o_data into = No_data"
  shows "decode_data C fresh (found_in ms 0) None P_copy None False into =
    Inr (into\<lparr>o_data := json_data C fresh (o_datacontenttype into) d\<rparr>, None)"
proof -
  have f: "mm_data (found_in ms 0) = first_ref ''data'' ms 0" "mm_data_base64 (found_in ms 0) = first_ref ''data_base64'' ms 0"
    by (simp_all add: found_in_def)
  have v: ?thesis if D': "D = [(''data'', v)]" and j: "json_data C fresh (o_datacontenttype into) d =
      json_value_data C fresh (o_datacontenttype into) v" for v
  proof -
    obtain k where "first_ref ''data'' ms 0 = Some (k, v)"
      using first_ref_map_of [of "''data''" ms 0] m(1) D' by auto
    moreover have "first_ref ''data_base64'' ms 0 = None"
      using first_ref_map_of [of "''data_base64''" ms 0] m(2) D' by simp
    moreover have "c_kind_of C v = K_string \<Longrightarrow> \<exists>s. c_as_string C v = Inr s"
      using C by (auto simp: codec_scalars_def is_ok_iff)
    ultimately show ?thesis unfolding j decode_data_def f
      by (auto simp: json_value_data_def json_payload_def Let_def)
  qed
  show ?thesis
  proof (cases d)
    case No_data
    with D m n have "first_ref ''data'' ms 0 = None" "first_ref ''data_base64'' ms 0 = None"
      using first_ref_map_of [of "''data''" ms 0] first_ref_map_of [of "''data_base64''" ms 0]
      by (auto simp: data_entries_def)
    with n No_data show ?thesis by (simp add: decode_data_def f json_data_def)
  next
    case (Binary_data b)
    with D have D': "D = [(''data_base64'', built_string C (base64_encode b))]" by (simp add: data_entries_def)
    obtain k where "first_ref ''data_base64'' ms 0 = Some (k, built_string C (base64_encode b))"
      using first_ref_map_of [of "''data_base64''" ms 0] m(2) D' by auto
    moreover have "first_ref ''data'' ms 0 = None" using first_ref_map_of [of "''data''" ms 0] m(1) D' by simp
    ultimately show ?thesis
      using built_string_reads [OF C] base64_decode_encode [of b]
      by (simp add: decode_data_def f json_data_def Binary_data)
  next
    case (Text_data s)
    with D show ?thesis by (intro v) (auto simp: data_entries_def json_data_def)
  next
    case (Json_text s)
    with D show ?thesis by (intro v) (auto simp: data_entries_def json_data_def split: sum.splits)
  next
    case (Json_document held)
    with D show ?thesis by (intro v) (auto simp: data_entries_def json_data_def split: sum.splits option.splits)
  qed
qed

text \<open>Reading what was written, for every way of reading the data.\<close>

lemma written_members:
  assumes C: "codec_objects C" and ev: "event_ok ev" and D: "data_entries C d = Inr D"
    and root: "root = set_all C (context_entries C ev media @ extension_entries C ev @ D) (c_make_object C)"
  shows "c_kind_of C root = K_object"
    "map_of (c_members C root) = map_of (context_entries C ev media @ extension_entries C ev @ D)"
    "mset (extension_members (c_members C root)) = mset (extension_entries C ev)"
proof -
  let ?E = "context_entries C ev media @ extension_entries C ev @ D"
  note d = written_distinct [OF ev D, of media]
  have o: "c_kind_of C (c_make_object C) = K_object" "c_members C (c_make_object C) = []"
    using C by (simp_all add: codec_objects_def)
  show "c_kind_of C root = K_object" using set_all_members [OF C o(1), of ?E] d o unfolding root by simp
  have m: "mset (c_members C root) = mset ?E"
    using set_all_members [OF C o(1), of ?E] d o unfolding root by simp
  have "distinct (map fst (c_members C root))" using m d by (metis mset_eq_imp_distinct_iff mset_map)
  then show "map_of (c_members C root) = map_of ?E"
    using d m by (metis map_of_inject_set mset_eq_setD)
  have "mset (extension_members (c_members C root)) = mset (extension_members ?E)"
    unfolding extension_members_def using m by (metis mset_filter)
  then show "mset (extension_members (c_members C root)) = mset (extension_entries C ev)"
    unfolding extension_members_written [OF ev D] .
qed

lemma read_event_written:
  assumes C: "codec_scalars C" "codec_objects C" and ev: "event_ok ev" "time_fits ev"
    and D: "data_entries C d = Inr D"
    and root: "root = set_all C (context_entries C ev (o_datacontenttype (e_rest ev)) @ extension_entries C ev @ D) (c_make_object C)"
    and read: "decode_data C fresh (found_in (c_members C root) 0) owned mode own_text wants
      ((e_rest ev)\<lparr>o_extensions := json_extensions (o_extensions (e_rest ev)), o_data := No_data\<rparr>) = Inr (rest, member)"
  shows "read_event C fresh root owned mode own_text wants = Inr (ev\<lparr>e_rest := rest\<rparr>, member)"
proof -
  note m = written_members [OF C(2) ev(1) D root]
  show ?thesis
    unfolding read_event_Inr
    by (intro conjI exI, rule m(1), rule read_extensions_written [OF C(1) ev(1) m(3)],
        rule read_context_written [OF C(1) ev D m(2)])
      (simp_all add: read build_Inr)
qed

lemma from_value_to_value:
  assumes C: "codec_scalars C" "codec_objects C" and ev: "event_ok ev" "time_fits ev"
    and w: "to_value C ev = Inr root"
  shows "from_value C fresh root = Inr (json_image C fresh ev)"
proof -
  let ?r = "e_rest ev"
  from w obtain D where D: "data_entries C (o_data ?r) = Inr D"
    and root: "root = set_all C (context_entries C ev (o_datacontenttype ?r) @ extension_entries C ev @ D) (c_make_object C)"
    by (auto simp: to_value_all and_then_eq_Inr)
  note m = written_members [OF C(2) ev(1) D root]
  note dm = map_of_written(9,10) [OF ev(1) D, of "o_datacontenttype ?r", folded m(2)]
  have "read_event C fresh root None P_copy None False = Inr (json_image C fresh ev, None)"
    using read_event_written [OF C ev D root decode_data_written [OF C(1) D dm]]
    by (simp add: json_image_def)
  then show ?thesis unfolding from_value_Inr by blast
qed

end
