(* ===== verification/Binding_Laws.thy ===== *)
theory Binding_Laws
  imports Binding_Common Json_Round_Trip
begin

text \<open>
  The contract between the binding core and the traits of a binding, and what follows from it:
  the fields that are written for an event are read back as its attributes, with every extension
  as its text.
\<close>

section \<open>Attribute texts\<close>

definition printable_char :: "char \<Rightarrow> bool" where
  "printable_char c \<longleftrightarrow> 32 \<le> (of_char c :: nat) \<and> (of_char c :: nat) < 127"

lemma printable_digit: "is_digit c \<Longrightarrow> printable_char c"
  by (simp add: is_digit_iff printable_char_def)

lemma printable_dec_nat: "\<forall>c \<in> set (dec_nat n). printable_char c"
  using dec_nat_digits printable_digit by blast

lemma printable_dec_int: "\<forall>c \<in> set (dec_int i). printable_char c"
  using printable_dec_nat by (auto simp: dec_int_def printable_char_def)

lemma printable_zero_padded: "c \<in> set (zero_padded w i) \<Longrightarrow> printable_char c"
  using printable_dec_nat by (auto simp: zero_padded_def printable_char_def split: if_splits)

lemma printable_to_string: "\<forall>c \<in> set (to_string t). printable_char c"
proof -
  have z: "list_all printable_char (zero_padded w i)" for w i
    using printable_zero_padded by (auto simp: list_all_iff)
  have f: "list_all printable_char (take k (fixed_digits w n))" for k w n
    using fixed_digits_are_digits printable_digit by (auto simp: list_all_iff dest!: in_set_takeD)
  have c: "printable_char (CHR ''-'')" "printable_char (CHR ''T'')" "printable_char (CHR '':'')" "printable_char (CHR ''.'')"
    "printable_char (CHR ''Z'')" "printable_char (CHR ''+'')"
    by (simp_all add: printable_char_def)
  have "list_all printable_char (to_string t)"
    unfolding to_string_def Let_def case_prod_beta
    by (simp only: list_all_append list.pred_inject if_distrib [of "list_all printable_char"] z f c simp_thms if_cancel list.pred_inject)
  then show ?thesis by (simp add: list_all_iff)
qed

lemma printable_base64: "\<forall>c \<in> set (base64_encode bs). printable_char c"
proof -
  have "list_all (\<lambda>n. printable_char (base64_alphabet ! n)) [0..<64]" by code_simp
  then have "printable_char (base64_alphabet ! n)" if "n < 64" for n using that by (simp add: list_all_iff)
  moreover have "unat (v AND 0x3F) < 64" for v :: u32
    using word_and_le1 [of v "0x3F"] by (simp add: word_le_nat_alt)
  ultimately have e: "printable_char (emit w k)" for w k by (simp add: emit_def base64_character_def)
  have q: "printable_char (CHR ''='')" by (simp add: printable_char_def)
  show ?thesis by (induction bs rule: base64_encode.induct) (simp_all add: e q Let_def)
qed

lemma printable_utf8: "\<forall>c \<in> set s. printable_char c \<Longrightarrow> is_valid_utf8 s"
  by (intro is_valid_utf8_ascii_text) (auto simp: printable_char_def)

lemma render_text_attribute: "text_attribute a = Some s \<Longrightarrow> render_attribute a = s"
  by (cases a) (simp_all add: text_attribute_def render_attribute_def)

lemma render_printable:
  "text_attribute a = None \<Longrightarrow> \<forall>c \<in> set (render_attribute a). printable_char c"
  using printable_dec_int printable_base64 printable_to_string
  by (cases a) (simp_all add: text_attribute_def render_attribute_def printable_char_def)

definition texts_utf8 :: "'j event \<Rightarrow> bool" where
  "texts_utf8 ev \<longleftrightarrow> (\<forall>(n, a) \<in> set (o_extensions (e_rest ev)). case text_attribute a of Some s \<Rightarrow> is_valid_utf8 s | None \<Rightarrow> True)"

lemma render_utf8: "texts_utf8 ev \<Longrightarrow> (n, a) \<in> set (o_extensions (e_rest ev)) \<Longrightarrow> is_valid_utf8 (render_attribute a)"
  using render_printable [of a] printable_utf8 render_text_attribute [of a]
  by (fastforce simp: texts_utf8_def split: option.splits)

definition text_of_present :: "string \<Rightarrow> string option \<Rightarrow> (string \<times> string) list" where
  "text_of_present name present = (case present of Some v \<Rightarrow> [(name, v)] | None \<Rightarrow> [])"

text \<open>The attributes of an event in the order in which they are written.\<close>

definition attribute_texts :: "traits \<Rightarrow> 'j event \<Rightarrow> (string \<times> string) list" where
  "attribute_texts T ev =
     [(''specversion'', spec_version_view), (''id'', e_id ev), (''source'', e_source ev), (''type'', e_type ev)] @
     text_of_present ''dataschema'' (o_dataschema (e_rest ev)) @
     text_of_present ''subject'' (o_subject (e_rest ev)) @
     text_of_present ''time'' (map_option to_string (o_time (e_rest ev))) @
     map (\<lambda>(n, a). (n, render_attribute a)) (o_extensions (e_rest ev)) @
     (if t_content_type_as_attribute T then text_of_present ''datacontenttype'' (o_datacontenttype (e_rest ev)) else [])"

definition put_all :: "traits \<Rightarrow> (string \<times> string) list \<Rightarrow> writing \<Rightarrow> writing" where
  "put_all T texts w = fold (\<lambda>(n, v). put_attribute T n v) texts w"

lemma put_all_simps [simp]:
  "put_all T [] w = w" "put_all T ((n, v) # texts) w = put_all T texts (put_attribute T n v w)"
  "put_all T (xs @ ys) w = put_all T ys (put_all T xs w)"
  by (simp_all add: put_all_def)

lemma put_present_all: "put_present T name present w = put_all T (text_of_present name present) w"
  by (simp add: put_present_def text_of_present_def split: option.split)

lemma put_extensions_all: "put_extensions T exts w = put_all T (map (\<lambda>(n, a). (n, render_attribute a)) exts) w"
  by (induction T exts w rule: put_extensions.induct) (auto simp: render_text_attribute split: option.split)

lemma put_attribute_failed: "\<not> is_ok (fst w) \<Longrightarrow> put_attribute T n v w = w"
  by (cases w) (simp add: put_attribute_def)

lemma put_all_failed: "\<not> is_ok (fst w) \<Longrightarrow> put_all T texts w = w"
  by (induction texts) (auto simp: put_attribute_failed)

definition content_type_field :: "traits \<Rightarrow> 'j event \<Rightarrow> (string \<times> string) list" where
  "content_type_field T ev = (if t_content_type_as_attribute T then []
     else text_of_present (t_content_type_header T) (o_datacontenttype (e_rest ev)))"

lemma write_attributes_all:
  "write_attributes T ev into =
     (case put_all T (attribute_texts T ev) (Inr (), into) of (failure, hs) \<Rightarrow>
        (failure, if is_ok failure then fold (\<lambda>(n, v). put T n v) (content_type_field T ev) hs else hs))"
proof -
  let ?r = "e_rest ev"
  let ?first = "[(''specversion'', spec_version_view), (''id'', e_id ev), (''source'', e_source ev), (''type'', e_type ev)] @
     text_of_present ''dataschema'' (o_dataschema ?r) @ text_of_present ''subject'' (o_subject ?r) @
     text_of_present ''time'' (map_option to_string (o_time ?r)) @
     map (\<lambda>(n, a). (n, render_attribute a)) (o_extensions ?r)"
  obtain failure hs where w: "put_all T ?first (Inr (), into) = (failure, hs)" by fastforce
  have "write_attributes T ev into =
      (if \<not> is_ok failure then (failure, hs)
       else (case o_datacontenttype ?r of None \<Rightarrow> (failure, hs)
         | Some media \<Rightarrow> if t_content_type_as_attribute T then put_attribute T ''datacontenttype'' media (failure, hs)
             else (failure, put T (t_content_type_header T) media hs)))"
    using w by (simp add: write_attributes_def put_present_all put_extensions_all Let_def)
  moreover have "put_all T (attribute_texts T ev) (Inr (), into) =
      put_all T (if t_content_type_as_attribute T then text_of_present ''datacontenttype'' (o_datacontenttype ?r) else [])
        (failure, hs)"
    using w by (simp add: attribute_texts_def)
  ultimately show ?thesis
    by (auto simp: content_type_field_def text_of_present_def put_all_failed put_attribute_failed
        split: option.split prod.split)
qed


section \<open>Names\<close>

definition lower_name :: "string \<Rightarrow> bool" where
  "lower_name n \<longleftrightarrow> map ascii_lower n = n"

lemma name_char_lower: "name_char c \<Longrightarrow> ascii_lower c = c"
  by (auto simp: name_char_def ascii_lower_def is_lower_def is_digit_def less_eq_char_def)

lemma valid_lower_name: "valid_attribute_name n \<Longrightarrow> lower_name n"
  by (simp add: lower_name_def valid_attribute_name_iff name_char_lower map_idI)

lemma attribute_texts_names:
  assumes "event_ok ev"
  shows "distinct (map fst (attribute_texts T ev))" "\<forall>n \<in> fst ` set (attribute_texts T ev). valid_attribute_name n"
proof -
  have e: "\<not> reserved_name n \<and> valid_attribute_name n" if "(n, a) \<in> set (o_extensions (e_rest ev))" for n a
    using assms that by (fastforce simp: event_ok_def options_ok_def extension_name_policy_def check_extension_name_None)
  have m: "map fst (map (\<lambda>(n, a). (n, render_attribute a)) (o_extensions (e_rest ev))) = map fst (o_extensions (e_rest ev))"
    by (simp add: comp_def case_prod_beta)
  have x: "n \<notin> set (map fst (o_extensions (e_rest ev)))" if "n \<in> set reserved_names" for n
    using e that by (auto simp: reserved_name_def)
  have d: "distinct (map fst (o_extensions (e_rest ev)))"
    using assms om_ok_distinct by (auto simp: event_ok_def options_ok_def)
  note r = x [unfolded reserved_names_def, simplified, rule_format]
  show "distinct (map fst (attribute_texts T ev))"
    unfolding attribute_texts_def map_append m using d r
    by (simp add: text_of_present_def split: option.split)
  have v: "valid_attribute_name ''specversion''" "valid_attribute_name ''id''" "valid_attribute_name ''source''"
    "valid_attribute_name ''type''" "valid_attribute_name ''dataschema''" "valid_attribute_name ''subject''"
    "valid_attribute_name ''time''" "valid_attribute_name ''datacontenttype''"
    by (simp_all add: valid_attribute_name_iff name_char_def is_lower_def)
  show "\<forall>n \<in> fst ` set (attribute_texts T ev). valid_attribute_name n"
  proof
    fix n assume "n \<in> fst ` set (attribute_texts T ev)"
    then show "valid_attribute_name n"
      using e by (auto simp: attribute_texts_def text_of_present_def v split: option.splits if_splits)
  qed
qed


lemma attribute_texts_utf8:
  assumes "event_ok ev" "texts_utf8 ev"
  shows "\<forall>p \<in> set (attribute_texts T ev). is_valid_utf8 (snd p)"
proof -
  have "is_valid_utf8 spec_version_view" by (simp add: spec_version_view_def is_valid_utf8_ascii_list)
  moreover have "is_valid_utf8 (e_id ev)" "is_valid_utf8 (e_source ev)" "is_valid_utf8 (e_type ev)"
    "\<And>s. o_dataschema (e_rest ev) = Some s \<Longrightarrow> is_valid_utf8 s" "\<And>s. o_subject (e_rest ev) = Some s \<Longrightarrow> is_valid_utf8 s"
    "\<And>s. o_datacontenttype (e_rest ev) = Some s \<Longrightarrow> is_valid_utf8 s"
    using assms(1) id_rules.accepted source_rules.accepted type_rules.accepted dataschema_rules.accepted
      subject_rules.accepted datacontenttype_rules.accepted
    by (auto simp: event_ok_def options_ok_def accepted_by_def)
  moreover have "is_valid_utf8 (to_string t)" for t using printable_utf8 [OF printable_to_string] .
  moreover have "is_valid_utf8 (render_attribute a)" if "(n, a) \<in> set (o_extensions (e_rest ev))" for n a
    using render_utf8 [OF assms(2) that] .
  ultimately show ?thesis
    by (auto simp: attribute_texts_def text_of_present_def split: option.splits if_splits)
qed


section \<open>Unambiguous fields\<close>

definition distinct_fields :: "traits \<Rightarrow> raw_headers \<Rightarrow> bool" where
  "distinct_fields T hs \<longleftrightarrow> sorted_wrt (\<lambda>a b. \<not> same_field_name T (fst a) (fst b)) hs"

lemma repeated_in_iff: "repeated_in T earlier name \<longleftrightarrow> (\<exists>f \<in> set earlier. same_field_name T (fst f) name)"
  by (induction earlier) auto

lemma first_repeated_loop_None:
  "distinct_fields T earlier \<Longrightarrow> first_repeated_loop T earlier later = None \<longleftrightarrow> distinct_fields T (earlier @ later)"
proof (induction later arbitrary: earlier)
  case (Cons f later)
  show ?case
  proof (cases "repeated_in T earlier (fst f)")
    case True
    then show ?thesis by (auto simp: repeated_in_iff distinct_fields_def sorted_wrt_append)
  next
    case False
    then have "distinct_fields T (earlier @ [f])"
      using Cons.prems by (auto simp: repeated_in_iff distinct_fields_def sorted_wrt_append)
    from Cons.IH [OF this] False show ?thesis by simp
  qed
qed simp

lemma first_repeated_None: "first_repeated_name T hs = None \<longleftrightarrow> distinct_fields T hs"
  using first_repeated_loop_None [of T "[]" hs] by (simp add: first_repeated_name_def distinct_fields_def)

lemma set_exact_new: "\<forall>f \<in> set hs. fst f \<noteq> n \<Longrightarrow> set_exact n v hs = hs @ [(n, v)]"
  by (simp add: set_exact_def filter_id_conv)

lemma set_field_new: "\<forall>f \<in> set hs. \<not> iequals (fst f) n \<Longrightarrow> set_field n v hs = hs @ [(n, v)]"
  by (simp add: set_field_def filter_id_conv)

lemma put_new: "\<forall>f \<in> set hs. \<not> same_field_name T (fst f) n \<Longrightarrow> put T n v hs = hs @ [(n, v)]"
  by (cases "t_case_sensitive_names T") (simp_all add: put_def same_field_name_def set_exact_new set_field_new)


section \<open>Applying attributes to a builder\<close>

fun apply_all :: "traits \<Rightarrow> (string \<times> string) list \<Rightarrow> 'j builder \<Rightarrow> 'j builder result" where
  "apply_all T [] b = Inr b"
| "apply_all T ((n, v) # texts) b = and_then (apply_attribute T b n v) (apply_all T texts)"

lemma apply_all_append:
  fixes b :: "'j builder"
  shows "apply_all T (xs @ ys) b = and_then (apply_all T xs b) (apply_all T ys)"
proof (induction xs arbitrary: b)
  case (Cons x xs)
  obtain n v where x: "x = (n, v)" by fastforce
  have "apply_all T (xs @ ys) = (\<lambda>b :: 'j builder. and_then (apply_all T xs b) (apply_all T ys))" by (rule ext) (rule Cons.IH)
  then show ?case by (simp add: x and_then_assoc)
qed simp

definition text_extensions :: "extension_map \<Rightarrow> extension_map" where
  "text_extensions exts = map (\<lambda>(n, a). (n, Str (render_attribute a))) exts"

lemma om_ok_text_extensions: "om_ok (text_extensions exts) \<longleftrightarrow> om_ok exts"
  by (simp add: om_ok_def text_extensions_def comp_def case_prod_beta)

lemma apply_extension:
  assumes "p_check extension_name_policy n = None"
  shows "apply_attribute T b n v = Inr (b\<lparr>b_rest := b_rest b
    \<lparr>o_extensions := om_insert_or_assign n (Str v) (o_extensions (b_rest b))\<rparr>\<rparr>)"
proof -
  have "\<not> reserved_name n" using assms by (simp add: extension_name_policy_def check_extension_name_None)
  then have "n \<notin> {''datacontenttype'', ''specversion'', ''id'', ''source'', ''type'', ''dataschema'', ''subject'', ''time''}"
    by (auto simp: reserved_name_def reserved_names_def)
  moreover have "make_validated extension_name_policy n = Inr n" using assms by (simp add: extension_name_rules.make_Inr)
  ultimately show ?thesis by (simp add: apply_attribute_def)
qed

lemma apply_all_extensions:
  "\<forall>(n, a) \<in> set exts. p_check extension_name_policy n = None \<Longrightarrow>
   apply_all T (map (\<lambda>(n, a). (n, render_attribute a)) exts) b =
     Inr (b\<lparr>b_rest := b_rest b\<lparr>o_extensions := om.insert_all (text_extensions exts) (o_extensions (b_rest b))\<rparr>\<rparr>)"
proof (induction exts arbitrary: b)
  case (Cons e exts)
  then show ?case by (cases e) (simp add: apply_extension text_extensions_def)
qed (simp add: text_extensions_def)

definition header_builder :: "traits \<Rightarrow> 'j event \<Rightarrow> 'j builder" where
  "header_builder T ev = \<lparr>b_id = Some (e_id ev), b_source = Some (e_source ev), b_type = Some (e_type ev),
     b_rest = (e_rest ev)\<lparr>o_datacontenttype := (if t_content_type_as_attribute T then o_datacontenttype (e_rest ev) else None),
       o_extensions := text_extensions (o_extensions (e_rest ev)), o_data := No_data\<rparr>\<rparr>"

lemma store_accepted: "attribute_policy p \<Longrightarrow> p_check p s = None \<Longrightarrow> store_attribute p s = Inr (Some s)"
  by (simp add: attribute_policy.store_Inr)

lemma apply_dataschema:
  "accepted_by dataschema_policy t \<Longrightarrow> o_dataschema (b_rest b) = None \<Longrightarrow> 
     apply_all T (text_of_present ''dataschema'' t) b = Inr (b\<lparr>b_rest := b_rest b\<lparr>o_dataschema := t\<rparr>\<rparr>)"
  by (cases t) (simp_all add: text_of_present_def apply_attribute_def accepted_by_def store_accepted policies)

lemma apply_subject:
  "accepted_by subject_policy t \<Longrightarrow> o_subject (b_rest b) = None \<Longrightarrow> 
     apply_all T (text_of_present ''subject'' t) b = Inr (b\<lparr>b_rest := b_rest b\<lparr>o_subject := t\<rparr>\<rparr>)"
  by (cases t) (simp_all add: text_of_present_def apply_attribute_def accepted_by_def store_accepted policies)

lemma apply_datacontenttype:
  "accepted_by datacontenttype_policy t \<Longrightarrow> o_datacontenttype (b_rest b) = None \<Longrightarrow> t_content_type_as_attribute T \<Longrightarrow>
     apply_all T (text_of_present ''datacontenttype'' t) b = Inr (b\<lparr>b_rest := b_rest b\<lparr>o_datacontenttype := t\<rparr>\<rparr>)"
  by (cases t) (simp_all add: text_of_present_def apply_attribute_def accepted_by_def store_accepted policies)

lemma apply_time:
  "case tm of Some t \<Rightarrow> ts_ok t \<and> local_fits t | None \<Rightarrow> True \<Longrightarrow> o_time (b_rest b) = None \<Longrightarrow>
     apply_all T (text_of_present ''time'' (map_option to_string tm)) b = Inr (b\<lparr>b_rest := b_rest b\<lparr>o_time := tm\<rparr>\<rparr>)"
  by (cases tm) (simp_all add: text_of_present_def apply_attribute_def parse_timestamp_to_string)

lemmas apply_present = apply_dataschema apply_subject apply_datacontenttype apply_time

lemma apply_all_texts:
  assumes ev: "event_ok ev" "time_fits ev"
  shows "apply_all T (attribute_texts T ev) new_builder = Inr (header_builder T ev)"
proof -
  let ?r = "e_rest ev"
  have ok: "p_check id_policy (e_id ev) = None" "p_check source_policy (e_source ev) = None"
    "p_check type_policy (e_type ev) = None"
    "accepted_by datacontenttype_policy (o_datacontenttype ?r)" "accepted_by dataschema_policy (o_dataschema ?r)"
    "accepted_by subject_policy (o_subject ?r)" "case o_time ?r of Some t \<Rightarrow> ts_ok t \<and> local_fits t | None \<Rightarrow> True"
    "\<forall>(n, a) \<in> set (o_extensions ?r). p_check extension_name_policy n = None"
    using ev by (auto simp: event_ok_def options_ok_def time_fits_def split: option.splits)
  have sv: "spec_version_make spec_version_view = Inr ()" by (simp add: spec_version_make_def spec_version_view_def)
  have x: "om.insert_all (text_extensions (o_extensions ?r)) [] = text_extensions (o_extensions ?r)"
    using ev(1) by (intro om.insert_all_entries) (simp_all add: om_ok_text_extensions event_ok_om)
  have f: "apply_all T [(''specversion'', spec_version_view), (''id'', e_id ev), (''source'', e_source ev), (''type'', e_type ev)]
      new_builder = Inr (new_builder\<lparr>b_id := Some (e_id ev), b_source := Some (e_source ev), b_type := Some (e_type ev)\<rparr>)"
    by (simp add: apply_attribute_def sv store_accepted policies ok)
  show ?thesis
    unfolding attribute_texts_def
    by (simp only: apply_all_append f and_then_simps)
      (simp add: apply_present ok apply_all_append apply_all_extensions x header_builder_def new_builder_def no_options_def)
qed


section \<open>The contract of the traits\<close>

locale binding_contract =
  fixes T :: traits
  assumes decode_encode: "is_valid_utf8 s \<Longrightarrow> t_encode_value T s = Inr v \<Longrightarrow> t_decode_value T v = Inr s"
    and prefix_lower: "lower_name (t_attribute_prefix T)"
begin

definition field_of :: "string \<times> string \<Rightarrow> string \<times> string" where
  "field_of p = (t_attribute_prefix T @ fst p, projr (t_encode_value T (snd p)))"

lemma same_prefixed: "lower_name n \<Longrightarrow> lower_name m \<Longrightarrow>
    same_field_name T (t_attribute_prefix T @ n) (t_attribute_prefix T @ m) \<longleftrightarrow> n = m"
  using prefix_lower by (auto simp: same_field_name_def iequals_def lower_name_def)

lemma carries_prefixed: "carries_prefix T (t_attribute_prefix T @ n)"
  by (simp add: carries_prefix_def starts_with_def starts_with_ignoring_case_def)

lemma same_as_prefixed: "same_field_name T (t_attribute_prefix T @ n) m \<Longrightarrow> carries_prefix T m"
proof (cases "t_case_sensitive_names T")
  case False
  assume "same_field_name T (t_attribute_prefix T @ n) m"
  with False have m: "map ascii_lower m = map ascii_lower (t_attribute_prefix T) @ map ascii_lower n"
    by (simp add: same_field_name_def iequals_def)
  then have "length m = length (t_attribute_prefix T) + length n" by (metis length_append length_map)
  with m False show ?thesis by (simp add: carries_prefix_def starts_with_ignoring_case_def flip: take_map)
qed (auto simp: same_field_name_def carries_prefix_def starts_with_def)

lemma name_of_prefixed: "lower_name n \<Longrightarrow> attribute_name_of T (t_attribute_prefix T @ n) = n"
  by (simp add: attribute_name_of_def lower_name_def)

lemma put_all_ok:
  assumes "put_all T texts (Inr (), hs) = (Inr (), hs')"
    and "distinct (map fst texts)" "\<forall>n \<in> fst ` set texts. lower_name n"
    and "\<forall>n \<in> fst ` set texts. \<forall>f \<in> set hs. \<not> same_field_name T (fst f) (t_attribute_prefix T @ n)"
  shows "hs' = hs @ map field_of texts \<and> (\<forall>p \<in> set texts. is_ok (t_encode_value T (snd p)))"
  using assms
proof (induction texts arbitrary: hs)
  case (Cons p texts)
  obtain n v where p: "p = (n, v)" by fastforce
  show ?case
  proof (cases "t_encode_value T v")
    case (Inl e)
    with Cons.prems(1) show ?thesis
      by (simp add: p put_attribute_def put_all_failed forward_failure_at_def)
  next
    case (Inr enc)
    let ?hs = "hs @ [(t_attribute_prefix T @ n, enc)]"
    have "put T (t_attribute_prefix T @ n) enc hs = ?hs" using Cons.prems(4) by (intro put_new) (simp add: p)
    then have "put_all T texts (Inr (), ?hs) = (Inr (), hs')"
      using Cons.prems(1) Inr by (simp add: p put_attribute_def)
    moreover have "\<forall>m \<in> fst ` set texts. \<forall>f \<in> set ?hs. \<not> same_field_name T (fst f) (t_attribute_prefix T @ m)"
    proof (intro ballI)
      fix m f assume m: "m \<in> fst ` set texts" and f: "f \<in> set ?hs"
      have "n \<noteq> m" "lower_name n" "lower_name m" using Cons.prems(2,3) m by (auto simp: p)
      then have "\<not> same_field_name T (t_attribute_prefix T @ n) (t_attribute_prefix T @ m)" by (simp add: same_prefixed)
      with f m Cons.prems(4) show "\<not> same_field_name T (fst f) (t_attribute_prefix T @ m)" by auto
    qed
    ultimately show ?thesis using Cons.IH [of ?hs] Cons.prems(2,3) Inr by (simp add: p field_of_def)
  qed
qed simp

text \<open>The fields that are written.\<close>

lemma write_attributes_fields:
  assumes ev: "event_ok ev" and w: "write_attributes T ev [] = (Inr (), hs)"
    and ct: "\<not> carries_prefix T (t_content_type_header T) \<or> t_attribute_prefix T = [] \<and>
      \<not> valid_attribute_name (t_content_type_header T) \<and> t_case_sensitive_names T"
  shows "hs = map field_of (attribute_texts T ev) @ content_type_field T ev"
    "\<forall>p \<in> set (attribute_texts T ev). is_ok (t_encode_value T (snd p))"
proof -
  note n = attribute_texts_names [OF ev, of T]
  obtain failure hs0 where p: "put_all T (attribute_texts T ev) (Inr (), []) = (failure, hs0)" by fastforce
  with w have f: "failure = Inr ()" and hs: "hs = fold (\<lambda>(n, v). put T n v) (content_type_field T ev) hs0"
    by (cases failure; simp add: write_attributes_all)+
  from put_all_ok [OF p [unfolded f] n(1)] n(2) valid_lower_name
  have hs0: "hs0 = map field_of (attribute_texts T ev)"
    and ok: "\<forall>p \<in> set (attribute_texts T ev). is_ok (t_encode_value T (snd p))" by auto
  have "\<forall>f \<in> set hs0. \<not> same_field_name T (fst f) (t_content_type_header T)"
  proof
    fix f assume "f \<in> set hs0"
    then obtain n v where nv: "(n, v) \<in> set (attribute_texts T ev)" "fst f = t_attribute_prefix T @ n"
      by (auto simp: hs0 field_of_def)
    then have "valid_attribute_name n" using n(2) by force
    then show "\<not> same_field_name T (fst f) (t_content_type_header T)"
    proof (cases "carries_prefix T (t_content_type_header T)")
      case True
      with ct have "fst f \<noteq> t_content_type_header T" "t_case_sensitive_names T"
        using \<open>valid_attribute_name n\<close> nv(2) by auto
      then show ?thesis by (simp add: same_field_name_def)
    next
      case False
      then show ?thesis using same_as_prefixed [of n "t_content_type_header T"] nv(2) by metis
    qed
  qed
  then have "put T (t_content_type_header T) v hs0 = hs0 @ [(t_content_type_header T, v)]" for v
    by (rule put_new)
  then show "hs = map field_of (attribute_texts T ev) @ content_type_field T ev"
    unfolding hs hs0 [symmetric] content_type_field_def text_of_present_def by (simp split: option.split)
  show "\<forall>p \<in> set (attribute_texts T ev). is_ok (t_encode_value T (snd p))" by (rule ok)
qed

lemma read_fields_written:
  "\<forall>p \<in> set texts. is_ok (t_encode_value T (snd p)) \<and> is_valid_utf8 (snd p) \<and> lower_name (fst p) \<Longrightarrow>
     apply_all T texts b = Inr b' \<Longrightarrow>
     read_fields T (map field_of texts @ rest) b = read_fields T rest b'"
proof (induction texts arbitrary: b)
  case (Cons p texts)
  obtain n v where p: "p = (n, v)" by fastforce
  from Cons.prems obtain enc where e: "t_encode_value T v = Inr enc" by (auto simp: p is_ok_iff)
  have d: "t_decode_value T enc = Inr v" using Cons.prems(1) e by (intro decode_encode) (simp_all add: p)
  from Cons.prems(2) obtain b1 where "apply_attribute T b n v = Inr b1" "apply_all T texts b1 = Inr b'"
    by (auto simp: p and_then_eq_Inr)
  with Cons e d show ?case
    by (simp add: p field_of_def carries_prefixed name_of_prefixed)
qed simp

lemma read_fields_other: "\<forall>f \<in> set rest. \<not> carries_prefix T (fst f) \<Longrightarrow> read_fields T rest b = Inr b"
  by (induction rest) auto

lemma read_attributes_written:
  assumes ev: "event_ok ev" "time_fits ev" "texts_utf8 ev"
    and enc: "\<forall>p \<in> set (attribute_texts T ev). is_ok (t_encode_value T (snd p))"
    and d: "distinct_fields T (map field_of (attribute_texts T ev) @ rest)"
    and rest: "\<forall>f \<in> set rest. \<not> carries_prefix T (fst f)"
  shows "read_attributes T (map field_of (attribute_texts T ev) @ rest) = Inr (header_builder T ev)"
proof -
  have "is_valid_utf8 (snd p)" if "p \<in> set (attribute_texts T ev)" for p
    using attribute_texts_utf8 [OF ev(1,3)] that by blast
  then have "\<forall>p \<in> set (attribute_texts T ev). is_ok (t_encode_value T (snd p)) \<and> is_valid_utf8 (snd p) \<and> lower_name (fst p)"
    using enc attribute_texts_names(2) [OF ev(1), of T] valid_lower_name by auto
  from read_fields_written [OF this apply_all_texts [OF ev(1,2)]] d read_fields_other [OF rest]
  show ?thesis by (simp add: read_attributes_def first_repeated_None [symmetric])
qed

lemma distinct_written:
  assumes ev: "event_ok ev" and rest: "distinct_fields T rest" "\<forall>f \<in> set rest. \<not> carries_prefix T (fst f)"
  shows "distinct_fields T (map field_of (attribute_texts T ev) @ rest)"
proof -
  note n = attribute_texts_names [OF ev, of T]
  have d: "distinct_fields T (map field_of texts)"
    if "distinct (map fst texts)" "\<forall>n \<in> fst ` set texts. lower_name n" for texts
    using that by (induction texts) (auto simp: distinct_fields_def field_of_def same_prefixed)
  have "distinct_fields T (map field_of (attribute_texts T ev))"
    using n valid_lower_name by (intro d) auto
  moreover have "\<not> same_field_name T (fst (field_of p)) (fst f)" if "f \<in> set rest" for p f
    using rest(2) that same_as_prefixed [of "fst p" "fst f"] by (auto simp: field_of_def)
  ultimately show ?thesis using rest(1) by (auto simp: distinct_fields_def sorted_wrt_append)
qed

end

end
