(* ===== verification/Binding_Http.thy ===== *)
theory Binding_Http
  imports Binding_Common Percent
begin

text \<open>
  \<open>include/cloudevents/binding/http.hpp\<close>: the HTTP binding, in binary, structured and batched
  mode, with percent-encoded or literal header values. A call that is given the message up returns
  the event and what it leaves of the message.
\<close>

section \<open>Header values\<close>

record value_policy =
  vp_encode :: "string \<Rightarrow> string result"
  vp_decode :: "string \<Rightarrow> string result"

definition percent_encoded_values :: value_policy where
  "percent_encoded_values = \<lparr>
     vp_encode = (\<lambda>txt. if \<not> is_valid_utf8 txt
       then fail invalid_utf8 ''an attribute value must be well-formed UTF-8'' ''''
       else Inr (percent_encode txt)),
     vp_decode = percent_decode\<rparr>"

fun refuse_controls :: "string \<Rightarrow> unit result" where
  "refuse_controls [] = Inr ()"
| "refuse_controls (character # txt) =
     (if uchar character < 0x20 \<or> uchar character = 0x7F
      then fail invalid_argument ''a literal header value may not contain a control character'' ''''
      else refuse_controls txt)"

definition literal_values :: value_policy where
  "literal_values = \<lparr>
     vp_encode = (\<lambda>txt. and_then (refuse_controls txt) (\<lambda>_.
       if \<not> is_valid_utf8 txt then fail invalid_utf8 ''a header value must be well-formed UTF-8'' ''''
       else Inr txt)),
     vp_decode = (\<lambda>txt.
       if \<not> is_valid_utf8 txt then fail invalid_utf8 ''a header value must be well-formed UTF-8'' ''''
       else Inr txt)\<rparr>"

definition http_content_type_header :: string where
  "http_content_type_header = ''Content-Type''"

definition http_traits :: "value_policy \<Rightarrow> traits" where
  "http_traits V = \<lparr>t_attribute_prefix = ''ce-'', t_content_type_header = http_content_type_header,
     t_case_sensitive_names = False, t_encode_value = vp_encode V, t_decode_value = vp_decode V,
     t_content_type_as_attribute = False\<rparr>"


section \<open>Messages\<close>

definition http_detect_content_mode :: "message \<Rightarrow> content_mode" where
  "http_detect_content_mode request =
     (case find_field http_content_type_header (header_fields request) of
        None \<Rightarrow> binary_mode
      | Some declared \<Rightarrow>
          if starts_with_ignoring_case declared ''application/cloudevents-batch'' then batched
          else if starts_with_ignoring_case declared ''application/cloudevents'' then structured
          else binary_mode)"

definition http_to_message :: "value_policy \<Rightarrow> 'j codec \<Rightarrow> 'j event \<Rightarrow> content_mode \<Rightarrow> message result" where
  "http_to_message V C ev mode =
     (if mode = structured then encode_structured (http_traits V) C ev
      else if mode = batched
      then fail invalid_argument ''a batch carries several events; use to_batch_message'' ''''
      else (case write_attributes (http_traits V) ev [] of (written, hs) \<Rightarrow>
        and_then written (\<lambda>_. Inr (write_body ev (empty_message\<lparr>header_fields := hs\<rparr>)))))"

definition http_to_batch_message :: "'j codec \<Rightarrow> 'j event list \<Rightarrow> message result" where
  "http_to_batch_message C events =
     and_then (json_encode_batch C events) (\<lambda>txt.
       Inr (empty_message\<lparr>header_fields := set_field http_content_type_header json_batch_content_type [],
         body := to_bytes txt\<rparr>))"

text \<open>\<open>if (declared) { make it the media type }\<close>.\<close>

definition declare_media_type :: "string option \<Rightarrow> 'j builder \<Rightarrow> 'j builder result" where
  "declare_media_type declared b =
     (case declared of
        None \<Rightarrow> Inr b
      | Some m \<Rightarrow> and_then (make_validated datacontenttype_policy m)
          (\<lambda>media. Inr (b\<lparr>b_rest := b_rest b\<lparr>o_datacontenttype := Some media\<rparr>\<rparr>)))"

definition http_from_message ::
  "value_policy \<Rightarrow> 'j codec \<Rightarrow> nat \<Rightarrow> message \<Rightarrow> decode_options \<Rightarrow> 'j event result" where
  "http_from_message V C fresh request options =
     (let mode = http_detect_content_mode request
      in if mode = structured then decode_structured C fresh request options
         else if mode = batched
         then fail invalid_argument ''this message is a batch; use from_batch_message'' ''''
         else if \<not> contains ''ce-specversion'' (header_fields request)
         then fail not_a_cloudevent ''no ce-specversion header and no CloudEvents content type'' ''''
         else and_then (read_attributes (http_traits V) (header_fields request)) (\<lambda>b.
           and_then (declare_media_type (find_field http_content_type_header (header_fields request)) b) (\<lambda>b.
           and_then (read_body C fresh (body request) (o_datacontenttype (b_rest b)) options) (\<lambda>payload.
           build (b\<lparr>b_rest := b_rest b\<lparr>o_data := payload\<rparr>\<rparr>)))))"

definition http_from_message_moving ::
  "value_policy \<Rightarrow> 'j codec \<Rightarrow> nat \<Rightarrow> message \<Rightarrow> decode_options \<Rightarrow> 'j event result \<times> message" where
  "http_from_message_moving V C fresh request options =
     (let mode = http_detect_content_mode request
      in if mode = structured then (decode_structured C fresh request options, request)
         else if mode = batched
         then (fail invalid_argument ''this message is a batch; use from_batch_message'' '''', request)
         else if \<not> contains ''ce-specversion'' (header_fields request)
         then (fail not_a_cloudevent ''no ce-specversion header and no CloudEvents content type'' '''', request)
         else (case and_then (read_attributes (http_traits V) (header_fields request))
             (declare_media_type (find_field http_content_type_header (header_fields request))) of
             Inl e \<Rightarrow> (Inl e, request)
           | Inr b \<Rightarrow> (case build_taking_body C fresh b (body request) options of
               (built, left) \<Rightarrow> (built, request\<lparr>body := left\<rparr>))))"

definition http_from_batch_message ::
  "'j codec \<Rightarrow> nat \<Rightarrow> message \<Rightarrow> decode_options \<Rightarrow> 'j event list result" where
  "http_from_batch_message C fresh request options =
     (if http_detect_content_mode request \<noteq> batched
      then fail not_a_cloudevent ''the content type is not a CloudEvents batch'' ''''
      else json_decode_batch C fresh (text_of (body request)) options)"

definition http_from_batch_message_moving ::
  "'j codec \<Rightarrow> nat \<Rightarrow> message \<Rightarrow> decode_options \<Rightarrow> 'j event list result \<times> message" where
  "http_from_batch_message_moving C fresh request options =
     (http_from_batch_message C fresh request options, request)"

end
