(* ===== verification/Binding_Kafka.thy ===== *)
theory Binding_Kafka
  imports Binding_Http
begin

text \<open>
  \<open>include/cloudevents/binding/kafka.hpp\<close> and \<open>nats.hpp\<close>: the Kafka binding (exact header
  names, records with a key) and the NATS binding (the media type is an attribute).
\<close>

section \<open>Kafka\<close>

definition kafka_content_type_header :: string where
  "kafka_content_type_header = ''content-type''"

definition kafka_encode_value :: "string \<Rightarrow> string result" where
  "kafka_encode_value txt =
     (if \<not> is_valid_utf8 txt then fail invalid_utf8 ''a Kafka header value must be a UTF-8 string'' '''' else Inr txt)"

definition kafka_traits :: traits where
  "kafka_traits = \<lparr>t_attribute_prefix = ''ce_'', t_content_type_header = kafka_content_type_header,
     t_case_sensitive_names = True, t_encode_value = kafka_encode_value,
     t_decode_value = kafka_encode_value, t_content_type_as_attribute = False\<rparr>"

definition kafka_detect_content_mode :: "message \<Rightarrow> content_mode" where
  "kafka_detect_content_mode incoming =
     (case find_exact kafka_content_type_header (header_fields incoming) of
        None \<Rightarrow> binary_mode
      | Some declared \<Rightarrow>
          if starts_with declared ''application/cloudevents-batch'' then batched
          else if starts_with declared ''application/cloudevents'' then structured
          else binary_mode)"

definition kafka_to_message :: "'j codec \<Rightarrow> 'j event \<Rightarrow> content_mode \<Rightarrow> message result" where
  "kafka_to_message C ev mode =
     (if mode = batched then fail invalid_argument ''the Kafka binding defines no batch mode'' ''''
      else if mode = structured then encode_structured kafka_traits C ev
      else (case write_attributes kafka_traits ev [] of (written, hs) \<Rightarrow>
        and_then written (\<lambda>_. Inr (write_body ev (empty_message\<lparr>header_fields := hs\<rparr>)))))"

definition kafka_from_message :: "'j codec \<Rightarrow> nat \<Rightarrow> message \<Rightarrow> decode_options \<Rightarrow> 'j event result" where
  "kafka_from_message C fresh incoming options =
     (let mode = kafka_detect_content_mode incoming
      in if mode = batched then fail invalid_argument ''the Kafka binding defines no batch mode'' ''''
         else if mode = structured then decode_structured C fresh incoming options
         else if \<not> contains_exact ''ce_specversion'' (header_fields incoming)
         then fail not_a_cloudevent ''no ce_specversion header and no CloudEvents content type'' ''''
         else and_then (read_attributes kafka_traits (header_fields incoming)) (\<lambda>b.
           and_then (declare_media_type (find_exact kafka_content_type_header (header_fields incoming)) b) (\<lambda>b.
           and_then (read_body C fresh (body incoming) (o_datacontenttype (b_rest b)) options) (\<lambda>payload.
           build (b\<lparr>b_rest := b_rest b\<lparr>o_data := payload\<rparr>\<rparr>)))))"

definition kafka_from_message_moving ::
  "'j codec \<Rightarrow> nat \<Rightarrow> message \<Rightarrow> decode_options \<Rightarrow> 'j event result \<times> message" where
  "kafka_from_message_moving C fresh incoming options =
     (let mode = kafka_detect_content_mode incoming
      in if mode = batched then (fail invalid_argument ''the Kafka binding defines no batch mode'' '''', incoming)
         else if mode = structured then (decode_structured C fresh incoming options, incoming)
         else if \<not> contains_exact ''ce_specversion'' (header_fields incoming)
         then (fail not_a_cloudevent ''no ce_specversion header and no CloudEvents content type'' '''', incoming)
         else (case and_then (read_attributes kafka_traits (header_fields incoming))
             (declare_media_type (find_exact kafka_content_type_header (header_fields incoming))) of
             Inl e \<Rightarrow> (Inl e, incoming)
           | Inr b \<Rightarrow> (case build_taking_body C fresh b (body incoming) options of
               (built, left) \<Rightarrow> (built, incoming\<lparr>body := left\<rparr>))))"

record kafka_record =
  kr_value :: message
  kr_key :: "string option"

definition no_key_of :: "'j event \<Rightarrow> string option" where
  "no_key_of ev = None"

definition partitionkey_of :: "'j event \<Rightarrow> string option" where
  "partitionkey_of ev =
     (case extension ''partitionkey'' ev of None \<Rightarrow> None | Some stored \<Rightarrow> Some (render_attribute stored))"

definition to_record :: "('j event \<Rightarrow> string option) \<Rightarrow> 'j codec \<Rightarrow> 'j event \<Rightarrow> content_mode \<Rightarrow> kafka_record result" where
  "to_record key_of C ev mode =
     and_then (kafka_to_message C ev mode) (\<lambda>laid_out. Inr \<lparr>kr_value = laid_out, kr_key = key_of ev\<rparr>)"


section \<open>NATS\<close>

definition nats_to_payload :: "'j codec \<Rightarrow> 'j event \<Rightarrow> string result" where
  "nats_to_payload C ev = json_encode C ev"

definition nats_from_payload :: "'j codec \<Rightarrow> nat \<Rightarrow> string \<Rightarrow> decode_options \<Rightarrow> 'j event result" where
  "nats_from_payload C fresh payload options = json_decode C fresh payload options"

definition nats_from_payload_moving ::
  "'j codec \<Rightarrow> nat \<Rightarrow> string \<Rightarrow> decode_options \<Rightarrow> 'j event result \<times> string" where
  "nats_from_payload_moving C fresh payload options = (nats_from_payload C fresh payload options, payload)"

definition nats_traits :: traits where
  "nats_traits = \<lparr>t_attribute_prefix = ''ce-'', t_content_type_header = ''Content-Type'',
     t_case_sensitive_names = False, t_encode_value = (\<lambda>txt. Inr (percent_encode txt)),
     t_decode_value = percent_decode, t_content_type_as_attribute = True\<rparr>"

definition nats_detect_content_mode :: "message \<Rightarrow> content_mode" where
  "nats_detect_content_mode incoming =
     (case find_field ''Content-Type'' (header_fields incoming) of
        Some declared \<Rightarrow>
          if starts_with_ignoring_case declared ''application/cloudevents'' then structured else binary_mode
      | None \<Rightarrow> binary_mode)"

definition nats_to_message :: "'j codec \<Rightarrow> 'j event \<Rightarrow> content_mode \<Rightarrow> message result" where
  "nats_to_message C ev mode =
     (if mode = batched then fail invalid_argument ''the NATS binding defines no batch mode'' ''''
      else if mode = structured then encode_structured nats_traits C ev
      else (case write_attributes nats_traits ev [] of (written, hs) \<Rightarrow>
        and_then written (\<lambda>_. Inr (write_body ev (empty_message\<lparr>header_fields := hs\<rparr>)))))"

definition nats_from_message :: "'j codec \<Rightarrow> nat \<Rightarrow> message \<Rightarrow> decode_options \<Rightarrow> 'j event result" where
  "nats_from_message C fresh incoming options =
     (if nats_detect_content_mode incoming = structured then decode_structured C fresh incoming options
      else if \<not> contains ''ce-specversion'' (header_fields incoming)
      then fail not_a_cloudevent ''no ce-specversion header and no CloudEvents content type'' ''''
      else and_then (read_attributes nats_traits (header_fields incoming)) (\<lambda>b.
        and_then (read_body C fresh (body incoming) (o_datacontenttype (b_rest b)) options) (\<lambda>payload.
        build (b\<lparr>b_rest := b_rest b\<lparr>o_data := payload\<rparr>\<rparr>))))"

definition nats_from_message_moving ::
  "'j codec \<Rightarrow> nat \<Rightarrow> message \<Rightarrow> decode_options \<Rightarrow> 'j event result \<times> message" where
  "nats_from_message_moving C fresh incoming options =
     (if nats_detect_content_mode incoming = structured then (decode_structured C fresh incoming options, incoming)
      else if \<not> contains ''ce-specversion'' (header_fields incoming)
      then (fail not_a_cloudevent ''no ce-specversion header and no CloudEvents content type'' '''', incoming)
      else (case read_attributes nats_traits (header_fields incoming) of
          Inl e \<Rightarrow> (Inl e, incoming)
        | Inr b \<Rightarrow> (case build_taking_body C fresh b (body incoming) options of
            (built, left) \<Rightarrow> (built, incoming\<lparr>body := left\<rparr>))))"

end
