(* ===== verification/Binding_Mqtt.thy ===== *)
theory Binding_Mqtt
  imports Binding_Kafka
begin

text \<open>
  \<open>include/cloudevents/binding/mqtt.hpp\<close>: the MQTT binding. The Content Type property and the
  User Properties of a PUBLISH are the header fields of a message.
\<close>

definition mqtt_content_type_header :: string where "mqtt_content_type_header = ''content-type''"

definition max_string_bytes :: nat where "max_string_bytes = 65535"

definition mqtt_encode_value :: "string \<Rightarrow> string result" where
  "mqtt_encode_value txt =
     (if \<not> is_valid_utf8 txt then fail invalid_utf8 ''an MQTT User Property value must be a UTF-8 string'' ''''
      else if CHR 0x00 \<in> set txt
      then fail invalid_argument ''an MQTT User Property value may not contain NUL'' ''''
      else if length txt > max_string_bytes
      then fail invalid_argument ''an MQTT User Property value is at most 65535 bytes'' ''''
      else Inr txt)"

text \<open>A name policy is the prefix it gives to the attribute names.\<close>

definition unprefixed_names :: string where "unprefixed_names = []"
definition prefixed_names :: string where "prefixed_names = ''ce-''"

definition mqtt_traits :: "string \<Rightarrow> traits" where
  "mqtt_traits names = \<lparr>t_attribute_prefix = names, t_content_type_header = mqtt_content_type_header,
     t_case_sensitive_names = True, t_encode_value = mqtt_encode_value,
     t_decode_value = mqtt_encode_value, t_content_type_as_attribute = False\<rparr>"

definition mqtt_detect_content_mode :: "message \<Rightarrow> content_mode" where
  "mqtt_detect_content_mode incoming =
     (case find_exact mqtt_content_type_header (header_fields incoming) of
        None \<Rightarrow> binary_mode
      | Some declared \<Rightarrow>
          if starts_with declared ''application/cloudevents-batch'' then batched
          else if starts_with declared ''application/cloudevents'' then structured
          else binary_mode)"

datatype mqtt_field_kind = MF_foreign | MF_attribute | MF_media_type_copy

definition mqtt_kind_of :: "string \<Rightarrow> string \<Rightarrow> mqtt_field_kind" where
  "mqtt_kind_of names name =
     (if \<not> starts_with name names \<or> \<not> valid_attribute_name (drop (length names) name) then MF_foreign
      else if names = [] \<and> name = ''datacontenttype'' then MF_media_type_copy
      else MF_attribute)"

text \<open>The result, and whether a copy of the media type has been seen.\<close>

definition accept_media_type_copy :: "message \<Rightarrow> string \<Rightarrow> bool \<Rightarrow> unit result \<times> bool" where
  "accept_media_type_copy incoming v already_seen =
     (let declared = find_exact mqtt_content_type_header (header_fields incoming)
      in if already_seen \<or> declared = None \<or> declared \<noteq> Some v
         then (fail invalid_argument
             ''a datacontenttype User Property must equal the Content Type property, once'' ''datacontenttype'',
           already_seen)
         else (Inr (), True))"

fun attribute_fields_loop :: "string \<Rightarrow> message \<Rightarrow> raw_headers \<Rightarrow> raw_headers \<Rightarrow> bool \<Rightarrow> raw_headers result" where
  "attribute_fields_loop names incoming [] collected media_type_seen = Inr collected"
| "attribute_fields_loop names incoming ((name, v) # rest) collected media_type_seen =
     (case mqtt_kind_of names name of
        MF_foreign \<Rightarrow> attribute_fields_loop names incoming rest collected media_type_seen
      | MF_attribute \<Rightarrow> attribute_fields_loop names incoming rest (add name v collected) media_type_seen
      | MF_media_type_copy \<Rightarrow>
          (case accept_media_type_copy incoming v media_type_seen of (accepted, media_type_seen) \<Rightarrow>
             and_then accepted (\<lambda>_. attribute_fields_loop names incoming rest collected media_type_seen)))"

definition attribute_fields :: "string \<Rightarrow> message \<Rightarrow> raw_headers result" where
  "attribute_fields names incoming = attribute_fields_loop names incoming (header_fields incoming) [] False"

definition carries_version :: "string \<Rightarrow> message \<Rightarrow> bool" where
  "carries_version names incoming = contains_exact (names @ ''specversion'') (header_fields incoming)"

definition mqtt_decode_binary :: "string \<Rightarrow> 'j codec \<Rightarrow> nat \<Rightarrow> message \<Rightarrow> decode_options \<Rightarrow> 'j event result" where
  "mqtt_decode_binary names C fresh incoming options =
     and_then (attribute_fields names incoming) (\<lambda>collected.
     and_then (read_attributes (mqtt_traits names) collected) (\<lambda>b.
     and_then (declare_media_type (find_exact mqtt_content_type_header (header_fields incoming)) b) (\<lambda>b.
     and_then (read_body C fresh (body incoming) (o_datacontenttype (b_rest b)) options) (\<lambda>payload.
     build (b\<lparr>b_rest := b_rest b\<lparr>o_data := payload\<rparr>\<rparr>)))))"

definition mqtt_encode_binary :: "string \<Rightarrow> 'j event \<Rightarrow> message result" where
  "mqtt_encode_binary names ev =
     (case write_attributes (mqtt_traits names) ev [] of (written, collected) \<Rightarrow>
        and_then written (\<lambda>_. Inr (write_body ev (empty_message\<lparr>header_fields := collected\<rparr>))))"

definition mqtt_to_message :: "string \<Rightarrow> 'j codec \<Rightarrow> 'j event \<Rightarrow> content_mode \<Rightarrow> message result" where
  "mqtt_to_message names C ev mode =
     (case mode of
        batched \<Rightarrow> fail invalid_argument ''the MQTT binding defines no batch mode'' ''''
      | structured \<Rightarrow> encode_structured (mqtt_traits names) C ev
      | binary_mode \<Rightarrow> mqtt_encode_binary names ev)"

definition mqtt_from_message :: "string \<Rightarrow> 'j codec \<Rightarrow> nat \<Rightarrow> message \<Rightarrow> decode_options \<Rightarrow> 'j event result" where
  "mqtt_from_message names C fresh incoming options =
     (if length (filter (\<lambda>field. fst field = mqtt_content_type_header) (header_fields incoming)) > 1
      then fail invalid_argument ''a User Property named content-type beside the Content Type property'' ''''
      else (case mqtt_detect_content_mode incoming of
          batched \<Rightarrow> fail invalid_argument ''the MQTT binding defines no batch mode'' ''''
        | structured \<Rightarrow> decode_structured C fresh incoming options
        | binary_mode \<Rightarrow>
            if \<not> carries_version names incoming
            then fail not_a_cloudevent ''no CloudEvents Content Type property and no specversion User Property'' ''''
            else mqtt_decode_binary names C fresh incoming options))"

definition mqtt_to_payload :: "'j codec \<Rightarrow> 'j event \<Rightarrow> string result" where
  "mqtt_to_payload C ev = json_encode C ev"

definition mqtt_from_payload :: "'j codec \<Rightarrow> nat \<Rightarrow> string \<Rightarrow> decode_options \<Rightarrow> 'j event result" where
  "mqtt_from_payload C fresh payload options = json_decode C fresh payload options"

definition mqtt_from_payload_message :: "'j codec \<Rightarrow> nat \<Rightarrow> message \<Rightarrow> decode_options \<Rightarrow> 'j event result" where
  "mqtt_from_payload_message C fresh incoming options = decode_structured C fresh incoming options"

end
