(* ===== verification/Binding_Properties.thy ===== *)
theory Binding_Properties
  imports Binding_Laws Binding_Mqtt
begin

text \<open>
  What the bindings promise: a binary-mode message is read back as the event that was written,
  a structured-mode message is the JSON format, giving a message up changes nothing but its body.
\<close>

section \<open>The traits keep the contract\<close>

interpretation http_percent: binding_contract "http_traits percent_encoded_values"
  by unfold_locales
    (auto simp: http_traits_def percent_encoded_values_def percent_decode_encode lower_name_def ascii_lower_def split: if_splits)

interpretation http_literal: binding_contract "http_traits literal_values"
  by unfold_locales
    (auto simp: http_traits_def literal_values_def and_then_eq_Inr lower_name_def ascii_lower_def split: if_splits)

interpretation kafka: binding_contract kafka_traits
  by unfold_locales
    (auto simp: kafka_traits_def kafka_encode_value_def lower_name_def ascii_lower_def split: if_splits)

interpretation nats: binding_contract nats_traits
  by unfold_locales (auto simp: nats_traits_def percent_decode_encode lower_name_def ascii_lower_def)

lemma mqtt_decode_encode: "mqtt_encode_value s = Inr v \<Longrightarrow> mqtt_encode_value v = Inr s"
  by (auto simp: mqtt_encode_value_def split: if_splits)

interpretation mqtt_unprefixed: binding_contract "mqtt_traits unprefixed_names"
  by unfold_locales (auto simp: mqtt_traits_def unprefixed_names_def lower_name_def dest: mqtt_decode_encode)

interpretation mqtt_prefixed: binding_contract "mqtt_traits prefixed_names"
  by unfold_locales (auto simp: mqtt_traits_def prefixed_names_def lower_name_def ascii_lower_def dest: mqtt_decode_encode)


section \<open>Binary mode\<close>

definition payload_bytes :: "'j data_t \<Rightarrow> binary" where
  "payload_bytes d = (case d of No_data \<Rightarrow> [] | Binary_data b \<Rightarrow> b | Text_data s \<Rightarrow> to_bytes s
     | Json_document held \<Rightarrow> to_bytes (document_dump held) | Json_text s \<Rightarrow> to_bytes s)"

lemma write_body_eq: "write_body ev \<lparr>header_fields = hs, body = []\<rparr> = \<lparr>header_fields = hs, body = payload_bytes (o_data (e_rest ev))\<rparr>"
  by (simp add: write_body_def payload_bytes_def split: data_t.split)

text \<open>An event with every extension as its text and with the data that a body reader gave.\<close>

definition header_event :: "'j event \<Rightarrow> 'j data_t \<Rightarrow> 'j event" where
  "header_event ev d = ev\<lparr>e_rest := (e_rest ev)\<lparr>o_extensions := text_extensions (o_extensions (e_rest ev)), o_data := d\<rparr>\<rparr>"

definition media_type_declares_no_mode :: "'j event \<Rightarrow> bool" where
  "media_type_declares_no_mode ev \<longleftrightarrow>
     (case o_datacontenttype (e_rest ev) of None \<Rightarrow> True
      | Some m \<Rightarrow> \<not> starts_with_ignoring_case m ''application/cloudevents'')"

lemma starts_with_longer:
  assumes "starts_with_ignoring_case m (p @ q)"
  shows "starts_with_ignoring_case m p"
proof -
  from assms have "take (length p) (map ascii_lower (take (length (p @ q)) m)) = take (length p) (map ascii_lower (p @ q))"
    "length (p @ q) \<le> length m"
    unfolding starts_with_ignoring_case_def by metis+
  then show ?thesis by (simp add: starts_with_ignoring_case_def take_map)
qed

lemma starts_with_batch:
  "starts_with_ignoring_case m ''application/cloudevents-batch'' \<Longrightarrow> starts_with_ignoring_case m ''application/cloudevents''"
  using starts_with_longer [of m "''application/cloudevents''" "''-batch''"] by simp

lemma starts_with_exact: "starts_with m p \<Longrightarrow> starts_with_ignoring_case m p"
  by (metis (no_types, lifting) append_take_drop_id length_append le_add1 starts_with_def starts_with_ignoring_case_def)

lemma build_header_event:
  "build ((header_builder T ev)\<lparr>b_rest := (b_rest (header_builder T ev))\<lparr>o_datacontenttype := o_datacontenttype (e_rest ev), o_data := d\<rparr>\<rparr>) =
     Inr (header_event ev d)"
  by (simp add: build_Inr header_builder_def header_event_def)

lemma declare_header_builder:
  "event_ok ev \<Longrightarrow> \<not> t_content_type_as_attribute T \<Longrightarrow>
     declare_media_type (o_datacontenttype (e_rest ev)) (header_builder T ev) =
     Inr ((header_builder T ev)\<lparr>b_rest := (b_rest (header_builder T ev))\<lparr>o_datacontenttype := o_datacontenttype (e_rest ev)\<rparr>\<rparr>)"
proof (cases "o_datacontenttype (e_rest ev)")
  case (Some m)
  assume "event_ok ev"
  with Some have "make_validated datacontenttype_policy m = Inr m"
    by (simp add: event_ok_def options_ok_def accepted_by_def datacontenttype_rules.make_Inr)
  with Some show ?thesis by (simp add: declare_media_type_def)
qed (simp add: declare_media_type_def header_builder_def)

context binding_contract
begin

lemma written_binary:
  assumes ev: "event_ok ev" "time_fits ev" "texts_utf8 ev" and w: "write_attributes T ev [] = (Inr (), hs)"
    and ct: "\<not> carries_prefix T (t_content_type_header T)"
  shows "hs = map field_of (attribute_texts T ev) @ content_type_field T ev"
    "read_attributes T hs = Inr (header_builder T ev)"
proof -
  note f = write_attributes_fields [OF ev(1) w disjI1 [OF ct]]
  show "hs = map field_of (attribute_texts T ev) @ content_type_field T ev" by (rule f(1))
  have c: "distinct_fields T (content_type_field T ev)" "\<forall>f \<in> set (content_type_field T ev). \<not> carries_prefix T (fst f)"
    using ct by (auto simp: content_type_field_def text_of_present_def distinct_fields_def split: option.splits)
  show "read_attributes T hs = Inr (header_builder T ev)"
    unfolding f(1) using c by (intro read_attributes_written ev f(2) distinct_written)
qed

lemma field_names_carry: "f \<in> set (map field_of texts) \<Longrightarrow> carries_prefix T (fst f)"
  by (auto simp: field_of_def carries_prefixed)

lemma find_written_field:
  assumes "\<not> t_case_sensitive_names T" "\<not> carries_prefix T n"
  shows "find_field n (map field_of texts @ rest) = find_field n rest"
proof -
  have "\<not> iequals (fst f) n" if f: "f \<in> set (map field_of texts)" for f
    using same_as_prefixed [of _ n] assms f by (auto simp: field_of_def same_field_name_def)
  then show ?thesis by (simp add: find_field_append find_field_None [THEN iffD2])
qed

lemma find_exact_written_field:
  assumes "t_case_sensitive_names T" "\<not> carries_prefix T n"
  shows "find_exact n (map field_of texts @ rest) = find_exact n rest"
proof -
  have "n \<notin> fst ` set (map field_of texts)"
    using same_as_prefixed [of _ n] assms by (auto simp: field_of_def same_field_name_def)
  then show ?thesis by (simp add: find_exact_map_of map_of_append map_add_def map_of_eq_None_iff [THEN iffD2])
qed

lemma version_field: "\<exists>v rest. map field_of (attribute_texts T ev) = (t_attribute_prefix T @ ''specversion'', v) # rest"
  by (simp add: attribute_texts_def field_of_def)

end

lemma http_round_trip_of:
  assumes contract: "binding_contract (http_traits V)"
    and ev: "event_ok ev" "time_fits ev" "texts_utf8 ev" "media_type_declares_no_mode ev"
    and m: "http_to_message V C ev binary_mode = Inr m"
  shows "http_from_message V C fresh m options =
    and_then (read_body C fresh (payload_bytes (o_data (e_rest ev))) (o_datacontenttype (e_rest ev)) options)
      (\<lambda>d. Inr (header_event ev d))"
proof -
  let ?T = "http_traits V"
  from m obtain hs where w: "write_attributes ?T ev [] = (Inr (), hs)"
    and m': "m = \<lparr>header_fields = hs, body = payload_bytes (o_data (e_rest ev))\<rparr>"
    by (auto simp: http_to_message_def and_then_eq_Inr empty_message_def write_body_eq split: prod.splits)
  have ct: "\<not> carries_prefix ?T http_content_type_header" "t_content_type_header ?T = http_content_type_header"
    "\<not> t_case_sensitive_names ?T" "\<not> t_content_type_as_attribute ?T" "t_attribute_prefix ?T = ''ce-''"
    by (simp_all add: http_traits_def carries_prefix_def starts_with_ignoring_case_def http_content_type_header_def ascii_lower_def)
  note wb = binding_contract.written_binary [OF contract ev(1-3) w, unfolded ct(2), OF ct(1)]
  have find: "find_field http_content_type_header hs = o_datacontenttype (e_rest ev)"
    unfolding wb(1) binding_contract.find_written_field [OF contract ct(3,1)]
    by (simp add: content_type_field_def ct text_of_present_def split: option.split)
  have mode: "http_detect_content_mode m = binary_mode"
    using ev(4) starts_with_batch by (auto simp: http_detect_content_mode_def m' find media_type_declares_no_mode_def split: option.splits)
  have version: "contains ''ce-specversion'' (header_fields m)"
    using binding_contract.version_field [OF contract, of ev] by (auto simp: m' wb(1) ct(5) contains_def)
  have hb: "header_fields m = hs" "body m = payload_bytes (o_data (e_rest ev))" by (simp_all add: m')
  show ?thesis
    using version
    by (simp add: http_from_message_def Let_def mode hb wb(2) find declare_header_builder [OF ev(1) ct(4)]
        build_header_event)
qed


lemma kafka_round_trip_of:
  assumes ev: "event_ok ev" "time_fits ev" "texts_utf8 ev" "media_type_declares_no_mode ev"
    and m: "kafka_to_message C ev binary_mode = Inr m"
  shows "kafka_from_message C fresh m options =
    and_then (read_body C fresh (payload_bytes (o_data (e_rest ev))) (o_datacontenttype (e_rest ev)) options)
      (\<lambda>d. Inr (header_event ev d))"
proof -
  from m obtain hs where w: "write_attributes kafka_traits ev [] = (Inr (), hs)"
    and m': "m = \<lparr>header_fields = hs, body = payload_bytes (o_data (e_rest ev))\<rparr>"
    by (auto simp: kafka_to_message_def and_then_eq_Inr empty_message_def write_body_eq split: prod.splits)
  have ct: "\<not> carries_prefix kafka_traits kafka_content_type_header" "t_content_type_header kafka_traits = kafka_content_type_header"
    "t_case_sensitive_names kafka_traits" "\<not> t_content_type_as_attribute kafka_traits" "t_attribute_prefix kafka_traits = ''ce_''"
    by (simp_all add: kafka_traits_def carries_prefix_def starts_with_def kafka_content_type_header_def)
  note wb = kafka.written_binary [OF ev(1-3) w, unfolded ct(2), OF ct(1)]
  have find: "find_exact kafka_content_type_header hs = o_datacontenttype (e_rest ev)"
    unfolding wb(1) kafka.find_exact_written_field [OF ct(3,1)]
    by (simp add: content_type_field_def ct text_of_present_def split: option.split)
  have mode: "kafka_detect_content_mode m = binary_mode"
    using ev(4) starts_with_batch starts_with_exact
    by (fastforce simp: kafka_detect_content_mode_def m' find media_type_declares_no_mode_def split: option.splits)
  have version: "contains_exact ''ce_specversion'' (header_fields m)"
    using kafka.version_field [of ev] by (auto simp: m' wb(1) ct(5) contains_exact_def)
  have hb: "header_fields m = hs" "body m = payload_bytes (o_data (e_rest ev))" by (simp_all add: m')
  show ?thesis
    using version
    by (simp add: kafka_from_message_def Let_def mode hb wb(2) find declare_header_builder [OF ev(1) ct(4)]
        build_header_event)
qed

text \<open>The NATS binding writes the media type as an attribute, so it cannot declare a mode.\<close>

lemma nats_round_trip_of:
  assumes ev: "event_ok ev" "time_fits ev" "texts_utf8 ev" and m: "nats_to_message C ev binary_mode = Inr m"
  shows "nats_from_message C fresh m options =
    and_then (read_body C fresh (payload_bytes (o_data (e_rest ev))) (o_datacontenttype (e_rest ev)) options)
      (\<lambda>d. Inr (header_event ev d))"
proof -
  from m obtain hs where w: "write_attributes nats_traits ev [] = (Inr (), hs)"
    and m': "m = \<lparr>header_fields = hs, body = payload_bytes (o_data (e_rest ev))\<rparr>"
    by (auto simp: nats_to_message_def and_then_eq_Inr empty_message_def write_body_eq split: prod.splits)
  have ct: "\<not> carries_prefix nats_traits ''Content-Type''" "t_content_type_header nats_traits = ''Content-Type''"
    "\<not> t_case_sensitive_names nats_traits" "t_content_type_as_attribute nats_traits" "t_attribute_prefix nats_traits = ''ce-''"
    by (simp_all add: nats_traits_def carries_prefix_def starts_with_ignoring_case_def ascii_lower_def)
  note wb = nats.written_binary [OF ev(1-3) w, unfolded ct(2), OF ct(1)]
  have find: "find_field ''Content-Type'' hs = None"
    unfolding wb(1) nats.find_written_field [OF ct(3,1)] by (simp add: content_type_field_def ct)
  have mode: "nats_detect_content_mode m = binary_mode"
    by (simp add: nats_detect_content_mode_def m' find)
  have version: "contains ''ce-specversion'' (header_fields m)"
    using nats.version_field [of ev] by (auto simp: m' wb(1) ct(5) contains_def)
  have hb: "header_fields m = hs" "body m = payload_bytes (o_data (e_rest ev))" by (simp_all add: m')
  have b: "build ((header_builder nats_traits ev)\<lparr>b_rest := (b_rest (header_builder nats_traits ev))\<lparr>o_data := d\<rparr>\<rparr>) =
      Inr (header_event ev d)" for d
    by (simp add: build_Inr header_builder_def header_event_def ct(4))
  have dct: "o_datacontenttype (b_rest (header_builder nats_traits ev)) = o_datacontenttype (e_rest ev)"
    by (simp add: header_builder_def ct(4))
  show ?thesis
    using version by (simp add: nats_from_message_def mode hb wb(2) b dct)
qed

lemma mqtt_kind_of_attribute:
  "valid_attribute_name n \<Longrightarrow> n \<noteq> ''datacontenttype'' \<Longrightarrow> mqtt_kind_of names (names @ n) = MF_attribute"
  by (simp add: mqtt_kind_of_def starts_with_def)

lemma attribute_fields_loop_attributes:
  "\<forall>f \<in> set hs. mqtt_kind_of names (fst f) = MF_attribute \<Longrightarrow>
     attribute_fields_loop names incoming (hs @ rest) collected seen =
     attribute_fields_loop names incoming rest (collected @ hs) seen"
  by (induction hs arbitrary: collected) (auto simp: add_def)

lemma attribute_fields_loop_foreign:
  "\<forall>f \<in> set hs. mqtt_kind_of names (fst f) = MF_foreign \<Longrightarrow>
     attribute_fields_loop names incoming hs collected seen = Inr collected"
  by (induction hs) auto

lemma attribute_texts_no_media_type:
  assumes "event_ok ev" "\<not> t_content_type_as_attribute T"
  shows "''datacontenttype'' \<notin> fst ` set (attribute_texts T ev)"
proof -
  have "(''datacontenttype'', a) \<notin> set (o_extensions (e_rest ev))" for a
    using extension_not_reserved [OF assms(1)] by (auto simp: reserved_name_def reserved_names_def)
  then show ?thesis
    using assms(2) by (auto simp: attribute_texts_def text_of_present_def split: option.splits)
qed

lemma mqtt_round_trip_of:
  assumes contract: "binding_contract (mqtt_traits names)"
    and foreign: "mqtt_kind_of names mqtt_content_type_header = MF_foreign"
    and ct: "\<not> carries_prefix (mqtt_traits names) mqtt_content_type_header \<or> names = []"
    and ev: "event_ok ev" "time_fits ev" "texts_utf8 ev" "media_type_declares_no_mode ev"
    and m: "mqtt_to_message names C ev binary_mode = Inr m"
  shows "mqtt_from_message names C fresh m options =
    and_then (read_body C fresh (payload_bytes (o_data (e_rest ev))) (o_datacontenttype (e_rest ev)) options)
      (\<lambda>d. Inr (header_event ev d))"
proof -
  let ?T = "mqtt_traits names" and ?ct = mqtt_content_type_header
  from m obtain hs where w: "write_attributes ?T ev [] = (Inr (), hs)"
    and m': "m = \<lparr>header_fields = hs, body = payload_bytes (o_data (e_rest ev))\<rparr>"
    by (auto simp: mqtt_to_message_def mqtt_encode_binary_def and_then_eq_Inr empty_message_def write_body_eq split: prod.splits)
  have t: "t_content_type_header ?T = ?ct" "t_case_sensitive_names ?T" "\<not> t_content_type_as_attribute ?T" "t_attribute_prefix ?T = names"
    by (simp_all add: mqtt_traits_def)
  have "\<not> valid_attribute_name ?ct"
    by (simp add: mqtt_content_type_header_def valid_attribute_name_iff name_char_def is_lower_def is_digit_def)
  with ct have ct': "\<not> carries_prefix ?T (t_content_type_header ?T) \<or> t_attribute_prefix ?T = [] \<and>
      \<not> valid_attribute_name (t_content_type_header ?T) \<and> t_case_sensitive_names ?T"
    unfolding t using t(2) by blast
  note f = binding_contract.write_attributes_fields [OF contract ev(1) w ct']
  let ?A = "map (binding_contract.field_of ?T) (attribute_texts ?T ev)"
  have A: "\<forall>f \<in> set ?A. mqtt_kind_of names (fst f) = MF_attribute"
  proof
    fix f assume "f \<in> set ?A"
    then obtain p where p: "p \<in> set (attribute_texts ?T ev)" "fst f = names @ fst p"
      by (auto simp: binding_contract.field_of_def [OF contract] t(4))
    then have "fst p \<in> fst ` set (attribute_texts ?T ev)" by simp
    with attribute_texts_names(2) [OF ev(1), of ?T] attribute_texts_no_media_type [OF ev(1) t(3)]
    have "valid_attribute_name (fst p)" "fst p \<noteq> ''datacontenttype''" by metis+
    then show "mqtt_kind_of names (fst f) = MF_attribute" unfolding p(2) by (rule mqtt_kind_of_attribute)
  qed
  have R: "content_type_field ?T ev = (case o_datacontenttype (e_rest ev) of Some v \<Rightarrow> [(?ct, v)] | None \<Rightarrow> [])"
    by (simp add: content_type_field_def t text_of_present_def)
  then have Rf: "\<forall>f \<in> set (content_type_field ?T ev). mqtt_kind_of names (fst f) = MF_foreign"
    using foreign by (auto split: option.splits)
  have hb: "header_fields m = hs" "body m = payload_bytes (o_data (e_rest ev))" by (simp_all add: m')
  have fields: "attribute_fields names m = Inr ?A"
    using attribute_fields_loop_attributes [OF A, of m "content_type_field ?T ev" "[]" False]
      attribute_fields_loop_foreign [OF Rf, of m ?A False]
    by (simp add: attribute_fields_def hb f(1))
  have other: "?ct \<notin> fst ` set ?A"
  proof
    assume "?ct \<in> fst ` set ?A"
    then obtain f where "f \<in> set ?A" "?ct = fst f" by blast
    with A foreign show False by (metis mqtt_field_kind.distinct(1))
  qed
  then have find: "find_exact ?ct hs = o_datacontenttype (e_rest ev)"
    unfolding f(1) find_exact_map_of R
    by (simp add: map_of_append map_add_def map_of_eq_None_iff [THEN iffD2] split: option.split)
  have "filter (\<lambda>field. fst field = ?ct) ?A = []" using other by (force simp: filter_empty_conv)
  then have one: "\<not> length (filter (\<lambda>field. fst field = ?ct) hs) > 1"
    unfolding f(1) R by (simp split: option.split)
  have mode: "mqtt_detect_content_mode m = binary_mode"
    using ev(4) starts_with_batch starts_with_exact
    by (fastforce simp: mqtt_detect_content_mode_def hb find media_type_declares_no_mode_def split: option.splits)
  have version: "carries_version names m"
    using binding_contract.version_field [OF contract, of ev]
    by (auto simp: carries_version_def hb f(1) t(4) contains_exact_def)
  have "distinct_fields ?T (?A @ [])"
    by (rule binding_contract.distinct_written [OF contract ev(1)]) (simp_all add: distinct_fields_def)
  from binding_contract.read_attributes_written [OF contract ev(1-3) f(2) this]
  have read: "read_attributes ?T ?A = Inr (header_builder ?T ev)" by simp
  show ?thesis
    using one
    by (simp add: mqtt_from_message_def mode hb version mqtt_decode_binary_def fields read find
        declare_header_builder [OF ev(1) t(3)] build_header_event)
qed

lemma mqtt_names:
  assumes "names = unprefixed_names \<or> names = prefixed_names"
  shows "binding_contract (mqtt_traits names)" "mqtt_kind_of names mqtt_content_type_header = MF_foreign"
    "\<not> carries_prefix (mqtt_traits names) mqtt_content_type_header \<or> names = []"
  using assms mqtt_unprefixed.binding_contract_axioms mqtt_prefixed.binding_contract_axioms
  by (auto simp: unprefixed_names_def prefixed_names_def mqtt_kind_of_def starts_with_def mqtt_content_type_header_def
      valid_attribute_name_iff name_char_def is_lower_def is_digit_def carries_prefix_def mqtt_traits_def)

end
