(* ===== verification/Reference_Codec.thy ===== *)
theory Reference_Codec
  imports Json_Codec Decimal
begin

text \<open>
  A small JSON library that the theorems on codecs are instantiated with: values without floating
  point, a compact printer and a recursive-descent parser, and the codec over them. It keeps every
  law that \<open>Json_Codec\<close> asks of a codec.
\<close>

section \<open>Values and their text\<close>

datatype jv =
    J_null
  | J_bool bool
  | J_int int
  | J_string string
  | J_array "jv list"
  | J_object "(string \<times> jv) list"

definition hex_char :: "nat \<Rightarrow> char" where
  "hex_char d = (if d < 10 then char_of (48 + d) else char_of (87 + d))"

definition print_char :: "char \<Rightarrow> string" where
  "print_char c =
     (if c = CHR 0x22 then [CHR 0x5C, CHR 0x22]
      else if c = CHR 0x5C then [CHR 0x5C, CHR 0x5C]
      else if (of_char c :: nat) < 32
      then CHR 0x5C # ''u00'' @ [hex_char (of_char c div 16), hex_char (of_char c mod 16)]
      else [c])"

definition print_string :: "string \<Rightarrow> string" where
  "print_string s = CHR 0x22 # concat (map print_char s) @ [CHR 0x22]"

fun separated :: "string list \<Rightarrow> string" where
  "separated [] = []"
| "separated [t] = t"
| "separated (t # u # ts) = t @ '','' @ separated (u # ts)"

fun print_json :: "jv \<Rightarrow> string" where
  "print_json J_null = ''null''"
| "print_json (J_bool b) = (if b then ''true'' else ''false'')"
| "print_json (J_int i) = dec_int i"
| "print_json (J_string s) = print_string s"
| "print_json (J_array vs) = ''['' @ separated (map print_json vs) @ '']''"
| "print_json (J_object ms) = ''{'' @ separated (map (\<lambda>(n, v). print_string n @ '':'' @ print_json v) ms) @ ''}''"

definition hex_digit_value :: "char \<Rightarrow> nat" where
  "hex_digit_value c = (if (of_char c :: nat) < 58 then of_char c - 48 else of_char c - 87)"

text \<open>The octets of a string after its opening quotation mark.\<close>

fun parse_string :: "string \<Rightarrow> (string \<times> string) option" where
  "parse_string [] = None"
| "parse_string (c # cs) =
     (if c = CHR 0x22 then Some ([], cs)
      else if c = CHR 0x5C
      then (case cs of
          d # ds \<Rightarrow>
            if d = CHR 0x22 \<or> d = CHR 0x5C then map_option (\<lambda>(s, r). (d # s, r)) (parse_string ds)
            else if d \<noteq> CHR ''u'' then None
            else (case ds of
                z # y # h # l # es \<Rightarrow>
                  if z = CHR ''0'' \<and> y = CHR ''0''
                  then map_option (\<lambda>(s, r). (char_of (16 * hex_digit_value h + hex_digit_value l :: nat) # s, r)) (parse_string es)
                  else None
              | _ \<Rightarrow> None)
        | [] \<Rightarrow> None)
      else map_option (\<lambda>(s, r). (c # s, r)) (parse_string cs))"

fun skip_prefix :: "string \<Rightarrow> string \<Rightarrow> string option" where
  "skip_prefix [] s = Some s"
| "skip_prefix (p # ps) [] = None"
| "skip_prefix (p # ps) (c # s) = (if p = c then skip_prefix ps s else None)"

definition parse_int :: "string \<Rightarrow> (jv \<times> string) option" where
  "parse_int s =
     (let neg = (s \<noteq> [] \<and> hd s = CHR ''-''); body = (if neg then tl s else s); digits = takeWhile is_digit body
      in if digits = [] then None
         else Some (J_int (if neg then - int (to_int digits) else int (to_int digits)), dropWhile is_digit body))"

text \<open>Each call uses one unit of fuel; the length of the text is enough.\<close>

fun parse_json :: "nat \<Rightarrow> string \<Rightarrow> (jv \<times> string) option"
  and parse_elements :: "nat \<Rightarrow> string \<Rightarrow> (jv list \<times> string) option"
  and parse_members :: "nat \<Rightarrow> string \<Rightarrow> ((string \<times> jv) list \<times> string) option"
where
  "parse_json 0 s = None"
| "parse_json (Suc n) s =
     (case s of
        [] \<Rightarrow> None
      | c # cs \<Rightarrow>
          if c = CHR 0x22 then map_option (\<lambda>(t, r). (J_string t, r)) (parse_string cs)
          else if c = CHR ''['' then
            (if cs \<noteq> [] \<and> hd cs = CHR '']'' then Some (J_array [], tl cs)
             else map_option (\<lambda>(vs, r). (J_array vs, r)) (parse_elements n cs))
          else if c = CHR ''{'' then
            (if cs \<noteq> [] \<and> hd cs = CHR ''}'' then Some (J_object [], tl cs)
             else map_option (\<lambda>(ms, r). (J_object ms, r)) (parse_members n cs))
          else if c = CHR ''n'' then map_option (Pair J_null) (skip_prefix ''null'' s)
          else if c = CHR ''t'' then map_option (Pair (J_bool True)) (skip_prefix ''true'' s)
          else if c = CHR ''f'' then map_option (Pair (J_bool False)) (skip_prefix ''false'' s)
          else parse_int s)"
| "parse_elements 0 s = None"
| "parse_elements (Suc n) s =
     (case parse_json n s of
        Some (v, c # cs) \<Rightarrow>
          if c = CHR '']'' then Some ([v], cs)
          else if c = CHR '','' then map_option (\<lambda>(vs, r). (v # vs, r)) (parse_elements n cs)
          else None
      | _ \<Rightarrow> None)"
| "parse_members 0 s = None"
| "parse_members (Suc n) s =
     (case skip_prefix [CHR 0x22] s of
        None \<Rightarrow> None
      | Some t \<Rightarrow>
          (case parse_string t of
             Some (name, d # ds) \<Rightarrow>
               if d \<noteq> CHR '':'' then None
               else (case parse_json n ds of
                   Some (v, c # cs) \<Rightarrow>
                     if c = CHR ''}'' then Some ([(name, v)], cs)
                     else if c = CHR '','' then map_option (\<lambda>(ms, r). ((name, v) # ms, r)) (parse_members n cs)
                     else None
                 | _ \<Rightarrow> None)
           | _ \<Rightarrow> None))"


section \<open>The codec\<close>

definition reference_codec :: "jv codec" where
  "reference_codec = \<lparr>
     c_identity = ''reference'',
     c_parse = (\<lambda>t. case parse_json (Suc (length t)) t of
         Some (v, []) \<Rightarrow> Inr v | _ \<Rightarrow> fail parse_error ''not well-formed JSON'' ''''),
     c_dump = print_json,
     c_dump_throws = (\<lambda>_. False),
     c_make_null = J_null,
     c_make_bool = J_bool,
     c_make_int = J_int,
     c_make_double = (\<lambda>_. J_null),
     c_make_string = J_string,
     c_make_array = J_array [],
     c_make_object = J_object [],
     c_set = (\<lambda>obj n v. case obj of J_object ms \<Rightarrow>
         J_object (if n \<in> fst ` set ms then map (\<lambda>(m, w). (m, if m = n then v else w)) ms else ms @ [(n, v)])
       | _ \<Rightarrow> obj),
     c_push = (\<lambda>arr v. case arr of J_array vs \<Rightarrow> J_array (vs @ [v]) | _ \<Rightarrow> arr),
     c_find = (\<lambda>obj n. case obj of
         J_object ms \<Rightarrow> let i = length (takeWhile (\<lambda>m. fst m \<noteq> n) ms) in if i < length ms then Some i else None
       | _ \<Rightarrow> None),
     c_size_of = (\<lambda>v. case v of J_array vs \<Rightarrow> length vs | J_object ms \<Rightarrow> length ms | _ \<Rightarrow> 0),
     c_kind_of = (\<lambda>v. case v of J_null \<Rightarrow> K_null | J_bool _ \<Rightarrow> K_boolean | J_int _ \<Rightarrow> K_integer | J_string _ \<Rightarrow> K_string
       | J_array _ \<Rightarrow> K_array | J_object _ \<Rightarrow> K_object),
     c_as_bool = (\<lambda>v. case v of J_bool b \<Rightarrow> Inr b | _ \<Rightarrow> fail type_mismatch ''not a boolean'' ''''),
     c_as_int = (\<lambda>v. case v of J_int i \<Rightarrow> Inr i | _ \<Rightarrow> fail type_mismatch ''not an integer'' ''''),
     c_as_double = (\<lambda>v. fail type_mismatch ''not a number'' ''''),
     c_as_string = (\<lambda>v. case v of J_string s \<Rightarrow> Inr s | _ \<Rightarrow> fail type_mismatch ''not a string'' ''''),
     c_members = (\<lambda>v. case v of J_object ms \<Rightarrow> ms | _ \<Rightarrow> []),
     c_elements = (\<lambda>v. case v of J_array vs \<Rightarrow> vs | _ \<Rightarrow> []),
     c_equal = (=),
     c_copy = (\<lambda>v. v),
     c_extract = (\<lambda>obj n. case obj of J_object ms \<Rightarrow> (case map_of ms n of Some v \<Rightarrow> v | None \<Rightarrow> J_null) | _ \<Rightarrow> J_null),
     c_adopt_string = Some J_string\<rparr>"

lemma reference_scalars: "codec_scalars reference_codec"
  by (auto simp: codec_scalars_def reference_codec_def split: jv.splits)

lemma reference_objects: "codec_objects reference_codec"
  by (auto simp: codec_objects_def reference_codec_def split: jv.splits)

lemma reference_values: "codec_values reference_codec"
  by (auto simp: codec_values_def reference_codec_def)

lemma map_of_takeWhile:
  "length (takeWhile (\<lambda>m. fst m \<noteq> n) ms) < length ms \<Longrightarrow>
     fst (ms ! length (takeWhile (\<lambda>m. fst m \<noteq> n) ms)) = n \<and>
     map_of ms n = Some (snd (ms ! length (takeWhile (\<lambda>m. fst m \<noteq> n) ms)))"
  by (induction ms) auto

lemma reference_lookup: "codec_lookup reference_codec"
  using map_of_takeWhile
  by (fastforce simp: codec_lookup_def reference_codec_def Let_def split: jv.splits if_splits)


section \<open>The parser reads what the printer writes\<close>

lemma hex_digit_value_char: "d < 16 \<Longrightarrow> hex_digit_value (hex_char d) = d"
  by (simp add: hex_digit_value_def hex_char_def)

lemma parse_print_char:
  "parse_string (print_char c @ rest) = map_option (\<lambda>(s, r). (c # s, r)) (parse_string rest)"
proof (cases "c = CHR 0x22 \<or> c = CHR 0x5C \<or> \<not> (of_char c :: nat) < 32")
  case True
  then show ?thesis by (auto simp: print_char_def)
next
  case False
  let ?n = "of_char c :: nat"
  have "16 * hex_digit_value (hex_char (?n div 16)) + hex_digit_value (hex_char (?n mod 16)) = ?n"
    
  proof -
    have "?n < 32" using False by simp
    then have "?n div 16 < 16" "?n mod 16 < 16" by linarith+
    then show ?thesis by (simp add: hex_digit_value_char)
  qed
  then show ?thesis using False by (simp add: print_char_def)
qed

lemma parse_print_chars: "parse_string (concat (map print_char s) @ [CHR 0x22] @ rest) = Some (s, rest)"
  by (induction s) (simp_all add: parse_print_char)

lemma parse_print_string: "parse_string (concat (map print_char s) @ CHR 0x22 # rest) = Some (s, rest)"
  using parse_print_chars [of s rest] by simp

lemma skip_prefix_append: "skip_prefix p (p @ rest) = Some rest"
  by (induction p) auto

lemma parse_int_dec:
  assumes "rest = [] \<or> \<not> is_digit (hd rest)"
  shows "parse_int (dec_int i @ rest) = Some (J_int i, rest)"
proof -
  have t: "takeWhile is_digit (dec_nat n @ rest) = dec_nat n" "dropWhile is_digit (dec_nat n @ rest) = rest" for n
    using dec_nat_digits [of n] assms by (auto simp: takeWhile_append dropWhile_append neq_Nil_conv takeWhile_eq_Nil_iff dropWhile_eq_self_iff)
  have h: "hd (dec_nat n) \<noteq> CHR ''-''" for n
    using dec_nat_digits [of n] minus_is_no_digit by (metis hd_in_set dec_nat_neq_Nil)
  show ?thesis by (simp add: parse_int_def dec_int_def Let_def t h)
qed

lemma dec_nat_start: "\<exists>c cs. dec_nat n = c # cs \<and> is_digit c"
  using dec_nat_digits [of n] by (cases "dec_nat n") auto

lemma dec_int_start: "\<exists>c cs. dec_int i = c # cs \<and> (c = CHR ''-'' \<or> is_digit c)"
  using dec_nat_start [of "nat i"] by (auto simp: dec_int_def)

definition ends_value :: "string \<Rightarrow> bool" where
  "ends_value rest \<longleftrightarrow> rest = [] \<or> \<not> is_digit (hd rest)"

lemma separated_Cons: "separated (t # ts) = t @ (if ts = [] then [] else '','' @ separated ts)"
  by (cases ts) simp_all

lemma parse_elements_printed:
  assumes "\<And>v rest n. v \<in> set vs \<Longrightarrow> ends_value rest \<Longrightarrow> length (print_json v) \<le> n \<Longrightarrow>
      parse_json n (print_json v @ rest) = Some (v, rest)"
    and "vs \<noteq> []" "length (separated (map print_json vs)) < n"
  shows "parse_elements n (separated (map print_json vs) @ '']'' @ rest) = Some (vs, rest)"
  using assms
proof (induction vs arbitrary: n)
  case (Cons v vs)
  then obtain k where n: "n = Suc k" by (cases n) auto
  show ?case
  proof (cases "vs = []")
    case True
    then show ?thesis using Cons.prems(1) [of v "'']'' @ rest" k] Cons.prems(3) n
      by (simp add: ends_value_def is_digit_def)
  next
    case False
    let ?t = "separated (map print_json vs) @ '']'' @ rest"
    have "parse_json k (print_json v @ '','' @ ?t) = Some (v, '','' @ ?t)"
      using Cons.prems(1) [of v "'','' @ ?t" k] Cons.prems(3) n
      by (simp add: ends_value_def is_digit_def separated_Cons)
    moreover have "parse_elements k ?t = Some (vs, rest)"
      using Cons.prems False n by (intro Cons.IH) (auto simp: separated_Cons)
    ultimately show ?thesis using False n by (simp add: separated_Cons)
  qed
qed simp

lemma parse_members_printed:
  assumes "\<And>m v rest n. (m, v) \<in> set ms \<Longrightarrow> ends_value rest \<Longrightarrow> length (print_json v) \<le> n \<Longrightarrow>
      parse_json n (print_json v @ rest) = Some (v, rest)"
    and "ms \<noteq> []" "length (separated (map (\<lambda>(n, v). print_string n @ '':'' @ print_json v) ms)) < n"
  shows "parse_members n (separated (map (\<lambda>(n, v). print_string n @ '':'' @ print_json v) ms) @ ''}'' @ rest) = Some (ms, rest)"
  using assms
proof (induction ms arbitrary: n)
  case (Cons m ms)
  obtain name v where m: "m = (name, v)" by fastforce
  from Cons.prems obtain k where n: "n = Suc k" by (cases n) auto
  let ?p = "\<lambda>(n, v). print_string n @ '':'' @ print_json v"
  show ?case
  proof (cases "ms = []")
    case True
    then show ?thesis using Cons.prems(1) [of name v "''}'' @ rest" k] Cons.prems(3) n
      by (simp add: ends_value_def is_digit_def m print_string_def parse_print_string)
  next
    case False
    let ?t = "separated (map ?p ms) @ ''}'' @ rest"
    have "parse_json k (print_json v @ '','' @ ?t) = Some (v, '','' @ ?t)"
      using Cons.prems(1) [of name v "'','' @ ?t" k] Cons.prems(3) n
      by (simp add: ends_value_def is_digit_def separated_Cons m)
    moreover have "parse_members k ?t = Some (ms, rest)"
      using Cons.prems False n by (intro Cons.IH) (auto simp: separated_Cons m)
    ultimately show ?thesis using False n
      by (simp add: separated_Cons m print_string_def parse_print_string)
  qed
qed simp

lemma print_json_neq_Nil: "print_json v \<noteq> []"
proof (cases v)
  case (J_int i)
  then show ?thesis using dec_int_start [of i] by auto
qed (auto simp: print_string_def)

lemma print_json_hd: "hd (print_json v) \<noteq> CHR '']'' \<and> hd (print_json v) \<noteq> CHR ''}''"
proof (cases v)
  case (J_int i)
  then show ?thesis using dec_int_start [of i] by (auto simp: is_digit_def)
qed (auto simp: print_string_def)

lemma parse_json_int:
  assumes "c = CHR ''-'' \<or> is_digit c"
  shows "parse_json (Suc k) (c # s) = parse_int (c # s)"
proof -
  have "c \<notin> {CHR 0x22, CHR ''['', CHR ''{'', CHR ''n'', CHR ''t'', CHR ''f''}"
    using assms by (auto simp: is_digit_def)
  then show ?thesis by simp
qed

lemma parse_json_printed:
  "ends_value rest \<Longrightarrow> length (print_json v) \<le> n \<Longrightarrow> parse_json n (print_json v @ rest) = Some (v, rest)"
proof (induction v arbitrary: rest n rule: print_json.induct)
  case (3 i)
  from 3 print_json_neq_Nil [of "J_int i"] obtain k where n: "n = Suc k" by (cases n) auto
  obtain c cs where c: "dec_int i = c # cs" "c = CHR ''-'' \<or> is_digit c" using dec_int_start by blast
  have "parse_json n (c # cs @ rest) = parse_int (c # cs @ rest)" unfolding n using parse_json_int [OF c(2)] .
  then show ?case using parse_int_dec [of rest i] 3(1) c(1) by (simp add: ends_value_def)
next
  case (5 vs)
  from 5(3) obtain k where n: "n = Suc k" by (cases n) auto
  show ?case
  proof (cases "vs = []")
    case False
    have "parse_elements k (separated (map print_json vs) @ '']'' @ rest) = Some (vs, rest)"
      using 5 n False by (intro parse_elements_printed) auto
    moreover have "hd (separated (map print_json vs) @ '']'' @ rest) \<noteq> CHR '']''"
      using print_json_hd [of "hd vs"] print_json_neq_Nil [of "hd vs"] False
      by (cases vs) (simp_all add: separated_Cons)
    ultimately show ?thesis using n by simp
  qed (simp add: n)
next
  case (6 ms)
  from 6(3) obtain k where n: "n = Suc k" by (cases n) auto
  let ?p = "\<lambda>(n, v). print_string n @ '':'' @ print_json v"
  show ?case
  proof (cases "ms = []")
    case False
    have "parse_members k (separated (map ?p ms) @ ''}'' @ rest) = Some (ms, rest)"
      using 6 n False by (intro parse_members_printed) fastforce+
    moreover have "hd (separated (map ?p ms) @ ''}'' @ rest) \<noteq> CHR ''}''"
      using False by (cases ms) (auto simp add: separated_Cons print_string_def)
    ultimately show ?thesis using n by simp
  qed (simp add: n)
next
  case (4 s)
  then obtain k where "n = Suc k" by (cases n) (auto simp: print_string_def)
  then show ?case by (simp add: print_string_def parse_print_string)
next
  case 1
  then obtain k where "n = Suc k" by (cases n) auto
  then show ?case by simp
next
  case (2 b)
  then obtain k where "n = Suc k" by (cases n) (auto split: if_splits)
  then show ?case by simp
qed

lemma reference_text: "codec_text reference_codec"
proof -
  have "parse_json (Suc (length (print_json v))) (print_json v) = Some (v, [])" for v
    using parse_json_printed [of "[]" v "Suc (length (print_json v))"] by (simp add: ends_value_def)
  then show ?thesis by (simp add: codec_text_def reference_codec_def)
qed

end
