(* ===== verification/Json_Properties.thy ===== *)
theory Json_Properties
  imports Json_Round_Trip Reference_Codec
begin

text \<open>
  What the JSON format promises, each with a witness on the reference codec.
\<close>

section \<open>Moving the data member\<close>

lemma json_payload_move:
  assumes "codec_lookup C" "first_ref ''data'' (c_members C document) 0 = Some (k, v)"
  shows "json_payload C fresh (k, v) (Some document) P_move own = json_payload C fresh (k, v) None P_copy own'"
proof (cases "c_find C document ''data'' = Some k")
  case True
  then have "c_extract C document ''data'' = snd (c_members C document ! k)"
    using assms(1) by (auto simp: codec_lookup_def)
  moreover have "c_members C document ! k = (''data'', v)" using first_ref_Some [OF assms(2)] by simp
  ultimately show ?thesis using True assms(1) by (simp add: json_payload_def codec_lookup_def)
qed (simp add: json_payload_def)

lemma decode_data_move:
  "codec_lookup C \<Longrightarrow>
     decode_data C fresh (found_in (c_members C document) 0) (Some document) P_move own False into =
     decode_data C fresh (found_in (c_members C document) 0) None P_copy own' False into"
  using json_payload_move [of C document _ _ fresh own own']
  by (auto simp: decode_data_def found_in_def Let_def split: option.split)

lemma read_event_move:
  "codec_lookup C \<Longrightarrow>
     read_event C fresh document (Some document) P_move own False = read_event C fresh document None P_copy own' False"
  unfolding read_event_def visit_members_eq keep_found_none
  by (simp add: decode_data_move [of C fresh document own _ own'])

lemma json_decode_retained:
  assumes "codec_lookup C" "c_parse C txt = Inr document" "retains txt options"
  shows "json_decode C fresh txt options = from_value C fresh document"
  using assms read_event_move [OF assms(1), of fresh document None None]
  by (simp add: json_decode_def decode_reading_def from_value_def from_value_reading_def)


section \<open>Round trip\<close>

lemma json_decode_encoded:
  assumes "codec_scalars C" "codec_objects C" "codec_lookup C" "codec_text C"
    and "event_ok ev" "time_fits ev"
    and "json_encode C ev = Inr txt" "retains txt options"
  shows "json_decode C fresh txt options = Inr (json_image C fresh ev)"
proof -
  from assms(7) obtain root where r: "to_value C ev = Inr root" "txt = c_dump C root"
    by (auto simp: json_encode_def and_then_eq_Inr)
  have "c_parse C txt = Inr root" using assms(4) r by (simp add: codec_text_def)
  from json_decode_retained [OF assms(3) this assms(8)]
    from_value_to_value [OF assms(1,2,5,6) r(1)]
  show ?thesis by simp
qed

text \<open>
  C2: the event that is read from the JSON text of an event is the event, with the values that
  JSON has no type for as their text (binary as base64, a timestamp as RFC 3339, URIs as
  strings) and the data as a document of the codec (as text where a non-JSON media type is
  declared and the value is a string). It holds for every codec that keeps what is set in it.
\<close>

theorem json_round_trip:
  assumes "codec_scalars C" "codec_objects C" "codec_lookup C" "codec_text C"
    and "event_ok ev" "time_fits ev"
    and "json_encode C ev = Inr txt" "retains txt options"
  shows "json_decode C fresh txt options = Inr (json_image C fresh ev)"
  using assms by (rule json_decode_encoded)

definition full_event :: "jv event" where
  "full_event = \<lparr>e_id = ''1'', e_source = ''/s'', e_type = ''t'', e_rest =
     \<lparr>o_datacontenttype = None, o_dataschema = None, o_subject = Some ''s'', o_time = None,
      o_extensions = [(''n'', Int32 (-7)), (''t'', Bin [1, 2])], o_data = Binary_data [7]\<rparr>\<rparr>"

lemma full_event_ok: "event_ok full_event" "time_fits full_event"
proof -
  have "p_check extension_name_policy ''n'' = None" "p_check extension_name_policy ''t'' = None"
    "p_check subject_policy ''s'' = None"
    by (simp_all add: extension_name_policy_def subject_policy_def check_extension_name_None check_text_None
        valid_attribute_name_iff name_char_def is_lower_def reserved_name_def reserved_names_def
        is_valid_utf8_ascii_list)
  then show "event_ok full_event"
    by (simp add: full_event_def event_ok_def options_ok_def accepted_by_def value_ok_def om_ok_def
        int32_min_def int32_max_def id_policy_def source_policy_def type_policy_def check_text_None is_valid_utf8_ascii_list)
  show "time_fits full_event" by (simp add: time_fits_def full_event_def)
qed

theorem json_round_trip_witness:
  "(case json_encode reference_codec full_event of
      Inr txt \<Rightarrow> json_decode reference_codec 5 txt default_decode_options =
        Inr (full_event\<lparr>e_rest := (e_rest full_event)\<lparr>o_extensions := [(''n'', Int32 (-7)), (''t'', Str ''AQI='')]\<rparr>\<rparr>)
    | Inl _ \<Rightarrow> False)"
proof -
  define t where "t = projr (json_encode reference_codec full_event)"
  have e: "json_encode reference_codec full_event = Inr t \<and> retains t default_decode_options"
    unfolding t_def by code_simp
  have "base64_encode [1, 2] = ''AQI=''" by code_simp
  then have i: "json_image reference_codec 5 full_event =
      full_event\<lparr>e_rest := (e_rest full_event)\<lparr>o_extensions := [(''n'', Int32 (-7)), (''t'', Str ''AQI='')]\<rparr>\<rparr>"
    by (simp add: json_image_def full_event_def json_extensions_def json_attribute_def json_data_def)
  from json_round_trip [OF reference_scalars reference_objects reference_lookup reference_text full_event_ok
      conjunct1 [OF e] conjunct2 [OF e], of 5] e i
  show ?thesis by simp
qed


section \<open>Every event that is read is well-formed\<close>

text \<open>
  C13: whatever the codec does, an event read from a JSON value, from a text, or from a batch is
  well-formed (every attribute accepted by its policy, names valid and not reserved, integers in
  32 bits, timestamps representable), and a batch yields an event for every element.
\<close>

theorem json_events_ok:
  assumes "from_value C fresh document = Inr ev \<or> json_decode C fresh t options = Inr ev \<or>
    json_decode_batch C fresh t options = Inr evs \<and> ev \<in> set evs"
  shows "event_ok ev"
proof -
  have "event_ok ev" if "json_decode_batch C fresh t options = Inr evs" "ev \<in> set evs"
    using that visit_elements_ok [of C fresh _ _ _ evs]
    by (fastforce simp: json_decode_batch_def decode_batch_reading_def and_then_at_eq_Inr Let_def split: if_splits)
  then show ?thesis
    using assms from_value_ok [of C fresh document ev] json_decode_ok [of C fresh t options ev] by blast
qed

definition event_text :: string where
  "event_text = print_json (J_object [(''type'', J_string ''t''), (''id'', J_string ''1''),
     (''specversion'', J_string ''1.0''), (''n'', J_int 3), (''source'', J_string ''/s''), (''data'', J_bool True)])"

theorem json_events_ok_witness:
  "case json_decode reference_codec 0 event_text default_decode_options of Inr ev \<Rightarrow> event_ok ev | Inl _ \<Rightarrow> False"
proof -
  have "is_ok (json_decode reference_codec 0 event_text default_decode_options)" by code_simp
  then show ?thesis
    using json_events_ok [OF disjI2, OF disjI1, of reference_codec 0 event_text default_decode_options]
    by (auto simp: is_ok_iff)
qed


section \<open>What is refused\<close>

definition not_json :: "'j codec \<Rightarrow> 'j data_t \<Rightarrow> bool" where
  "not_json C d \<longleftrightarrow>
     (case d of Json_text t \<Rightarrow> \<not> is_ok (c_parse C t)
      | Json_document held \<Rightarrow> document_get C held = None \<and> \<not> is_ok (c_parse C (document_dump held))
      | _ \<Rightarrow> False)"

text \<open>
  Writing an event as JSON fails in one case only, data that the codec cannot parse, and the
  error is \<open>parse_error\<close> at \<open>/data\<close>; every other event is written.
\<close>

theorem to_value_fails_iff:
  "to_value C ev = Inl e \<longleftrightarrow> not_json C (o_data (e_rest ev)) \<and>
     e = \<lparr>err_code = parse_error, err_detail = ''data is not well-formed JSON'', err_where = ''/data''\<rparr>"
  by (auto simp: to_value_all and_then_eq_Inl data_entries_def not_json_def fail_def split: data_t.splits option.splits sum.splits)

lemma read_extensions_find:
  "read_extensions C ms (Inr ()) into = (Inr (), into') \<Longrightarrow>
     (\<forall>(n, v) \<in> set ms. c_kind_of C v \<noteq> K_null \<longrightarrow> is_ok (decode_attribute C v)) \<and>
     om_find n (o_extensions into') =
       (case map_of (rev (filter (\<lambda>(n, v). c_kind_of C v \<noteq> K_null) ms)) n of
          Some v \<Rightarrow> Some (projr (decode_attribute C v)) | None \<Rightarrow> om_find n (o_extensions into))"
proof (induction ms arbitrary: into)
  case (Cons m ms)
  obtain k v where m: "m = (k, v)" by fastforce
  show ?case
  proof (cases "c_kind_of C v = K_null")
    case True
    with Cons show ?thesis by (simp add: m read_extension_def)
  next
    case False
    obtain r mid where e: "read_extension C k v into = (r, mid)" by fastforce
    with Cons.prems read_extensions_failed [of r C ms mid] have r: "r = Inr ()"
      by (cases r) (auto simp: m)
    with e False obtain a where a: "decode_attribute C v = Inr a" and
      mid: "o_extensions mid = om_insert_or_assign k a (o_extensions into)"
      by (auto simp: read_extension_def forward_failure_at_def extension_name_rules.make_Inr split: sum.splits)
    from Cons.prems have "read_extensions C ms (Inr ()) mid = (Inr (), into')" by (simp add: m e r)
    from Cons.IH [OF this] a show ?thesis
      by (simp add: m False mid om_find_insert map_add_def split: option.split)
  qed
qed simp

lemma store_required_text:
  "store_required C p (first_ref n ms i) nm = Inr slot \<Longrightarrow> attribute_policy p \<Longrightarrow>
     \<exists>v s. map_of ms n = Some v \<and> c_as_string C v = Inr s \<and> slot = Some s"
  using first_ref_map_of [of n ms i, symmetric]
  by (auto simp: store_required_def required_text_of_def and_then_eq_Inr attribute_policy.store_Inr
      split: option.splits sum.splits)

lemma read_context_reads:
  assumes "read_context C (found_in ms 0) into = Inr b"
  shows "(\<exists>v. map_of ms ''specversion'' = Some v \<and> c_as_string C v = Inr ''1.0'') \<and>
    (\<exists>v s. map_of ms ''id'' = Some v \<and> c_as_string C v = Inr s \<and> b_id b = Some s) \<and>
    (\<exists>v s. map_of ms ''source'' = Some v \<and> c_as_string C v = Inr s \<and> b_source b = Some s) \<and>
    (\<exists>v s. map_of ms ''type'' = Some v \<and> c_as_string C v = Inr s \<and> b_type b = Some s) \<and>
    o_extensions (b_rest b) = o_extensions (b_rest into)"
proof -
  from assms obtain ver i s k dct ds su rest where
    v: "required_text_of C (first_ref ''specversion'' ms 0) ''specversion'' = Inr ver" "spec_version_make ver = Inr ()"
    and 1: "store_required C id_policy (first_ref ''id'' ms 0) ''id'' = Inr i"
      "store_required C source_policy (first_ref ''source'' ms 0) ''source'' = Inr s"
      "store_required C type_policy (first_ref ''type'' ms 0) ''type'' = Inr k"
    and t: "store_time C (mm_time (found_in ms 0))
        (b_rest into\<lparr>o_datacontenttype := dct, o_dataschema := ds, o_subject := su\<rparr>) = Inr rest"
    and b: "b = into\<lparr>b_id := i, b_source := s, b_type := k, b_rest := rest\<rparr>"
    by (auto simp: read_context_def and_then_eq_Inr Let_def found_in_def)
  have "ver = ''1.0''" using v(2) by (simp add: spec_version_make_def split: if_splits)
  then have "\<exists>v. map_of ms ''specversion'' = Some v \<and> c_as_string C v = Inr ''1.0''"
    using v(1) first_ref_map_of [of "''specversion''" ms 0, symmetric]
    by (auto simp: required_text_of_def split: option.splits sum.splits)
  moreover have "o_extensions rest = o_extensions (b_rest into)"
    using t by (auto simp: store_time_def and_then_eq_Inr and_then_at_eq_Inr split: option.splits)
  ultimately show ?thesis
    using store_required_text [OF 1(1)] store_required_text [OF 1(2)] store_required_text [OF 1(3)]
    by (simp add: b policies)
qed

text \<open>
  C30: an event is read from an object whose first \<open>specversion\<close> is the string 1.0, whose first
  \<open>id\<close>, \<open>source\<close> and \<open>type\<close> are strings that become the attributes, and which does not have
  both \<open>data\<close> and \<open>data_base64\<close>; every other non-null member is decoded, and an extension of
  the event is the last such member with its name.
\<close>

theorem from_value_members:
  assumes "from_value C fresh document = Inr ev" and "ms = c_members C document"
  shows "c_kind_of C document = K_object \<and>
    (\<exists>v. map_of ms ''specversion'' = Some v \<and> c_as_string C v = Inr ''1.0'') \<and>
    (\<exists>v. map_of ms ''id'' = Some v \<and> c_as_string C v = Inr (e_id ev)) \<and>
    (\<exists>v. map_of ms ''source'' = Some v \<and> c_as_string C v = Inr (e_source ev)) \<and>
    (\<exists>v. map_of ms ''type'' = Some v \<and> c_as_string C v = Inr (e_type ev)) \<and>
    \<not> (''data'' \<in> fst ` set ms \<and> ''data_base64'' \<in> fst ` set ms) \<and>
    (\<forall>(n, v) \<in> set (extension_members ms). c_kind_of C v \<noteq> K_null \<longrightarrow> is_ok (decode_attribute C v)) \<and>
    (\<forall>n. extension n ev = map_option (\<lambda>v. projr (decode_attribute C v))
       (map_of (rev (filter (\<lambda>(n, v). c_kind_of C v \<noteq> K_null) (extension_members ms))) n))"
proof -
  from assms obtain rest b rest' m where k: "c_kind_of C document = K_object"
    and e: "read_extensions C (extension_members ms) (Inr ()) no_options = (Inr (), rest)"
    and c: "read_context C (found_in ms 0) (new_builder\<lparr>b_rest := rest\<rparr>) = Inr b"
    and d: "decode_data C fresh (found_in ms 0) None P_copy None False (b_rest b) = Inr (rest', m)"
    and b: "build (b\<lparr>b_rest := rest'\<rparr>) = Inr ev"
    unfolding from_value_Inr read_event_Inr assms(2) by blast
  have x: "o_extensions rest' = o_extensions (b_rest b)"
    using d by (auto simp: decode_data_def and_then_at_eq_Inr Let_def split: if_splits option.splits sum.splits)
  have "\<not> (mm_data (found_in ms 0) \<noteq> None \<and> mm_data_base64 (found_in ms 0) \<noteq> None)"
    using d by (auto simp: decode_data_def split: if_splits)
  then have "\<not> (''data'' \<in> fst ` set ms \<and> ''data_base64'' \<in> fst ` set ms)"
    using first_ref_None [of _ ms 0] by (auto simp: found_in_def)
  moreover have "extension n ev = map_option (\<lambda>v. projr (decode_attribute C v))
       (map_of (rev (filter (\<lambda>(n, v). c_kind_of C v \<noteq> K_null) (extension_members ms))) n)" for n
    using read_extensions_find [OF e, of n] read_context_reads [OF c] x b
    by (auto simp: extension_def build_Inr no_options_def om.find_none split: option.splits)
  ultimately show ?thesis
    using read_context_reads [OF c] read_extensions_find [OF e] k b by (auto simp: build_Inr)
qed

definition sample_document :: jv where
  "sample_document = J_object [(''n'', J_int 1), (''id'', J_string ''1''), (''specversion'', J_string ''1.0''),
     (''type'', J_string ''t''), (''n'', J_bool True), (''source'', J_string ''/s''), (''id'', J_string ''2'')]"

theorem from_value_members_witness:
  "case from_value reference_codec 0 sample_document of
     Inr ev \<Rightarrow> e_id ev = ''1'' \<and> extension ''n'' ev = Some (Bool True) | Inl _ \<Rightarrow> False"
proof -
  have "is_ok (from_value reference_codec 0 sample_document)" by code_simp
  then obtain ev where ev: "from_value reference_codec 0 sample_document = Inr ev" by (auto simp: is_ok_iff)
  from from_value_members [OF ev refl]
  have "e_id ev = ''1'' \<and> extension ''n'' ev = Some (Bool True)"
    by (auto simp: sample_document_def reference_codec_def extension_members_def decode_attribute_def
        reserved_name_def reserved_names_def)
  with ev show ?thesis by simp
qed


section \<open>The retention limit of a batch\<close>

text \<open>
  The guarded product of \<open>retains_batch\<close>, computed in 64 bits, decides exactly whether the
  text is at most the limit times the number of events, with no overflow for any sizes.
\<close>

theorem retains_batch_exact:
  assumes "text_size < 2 ^ 64"
  shows "retains_batch text_size event_count options \<longleftrightarrow>
    retain_document_up_to options \<noteq> 0 \<and> text_size \<le> retain_document_up_to options * event_count"
proof (cases "retain_document_up_to options = 0")
  case False
  let ?l = "retain_document_up_to options"
  show ?thesis
  proof (cases "event_count > size_max div ?l")
    case True
    then have "size_max < ?l * event_count"
      using False by (metis dividend_less_times_div less_or_eq_imp_le mult.commute mult_le_mono2 not_less_eq_eq
          order_less_le_trans Suc_leI mult_Suc_right add.commute gr0I)
    with True False assms show ?thesis by (simp add: retains_batch_def size_max_def)
  next
    case le: False
    then have "?l * event_count \<le> size_max"
      using False by (metis mult.commute not_less less_eq_div_iff_mult_less_eq neq0_conv)
    then have "?l * event_count mod (size_max + 1) = ?l * event_count" by simp
    with le False show ?thesis by (simp add: retains_batch_def)
  qed
qed (simp add: retains_batch_def)

theorem retains_batch_exact_witness:
  "\<not> retains_batch 2 0 \<lparr>retain_document_up_to = 2 ^ 63, parse_binary_body = True\<rparr> \<and>
   retains_batch 5 2 \<lparr>retain_document_up_to = 2 ^ 63, parse_binary_body = True\<rparr>"
  using retains_batch_exact [of 2 0 "\<lparr>retain_document_up_to = 2 ^ 63, parse_binary_body = True\<rparr>"]
    retains_batch_exact [of 5 2 "\<lparr>retain_document_up_to = 2 ^ 63, parse_binary_body = True\<rparr>"] by simp


section \<open>The retention limit and the representation of the data\<close>

definition strip_data :: "'j event \<Rightarrow> 'j event" where
  "strip_data ev = ev\<lparr>e_rest := e_rest ev\<lparr>o_data := No_data\<rparr>\<rparr>"

lemma decode_data_strip:
  "map_sum id (\<lambda>(rest, m). rest\<lparr>o_data := No_data\<rparr>) (decode_data C fresh found owned mode own w into) =
   map_sum id (\<lambda>(rest, m). rest\<lparr>o_data := No_data\<rparr>) (decode_data C fresh' found owned' mode' own' w' into)"
  by (simp add: decode_data_def and_then_at_def fail_def forward_failure_at_def Let_def split: option.split sum.split)

lemma build_strip:
  assumes "rest\<lparr>o_data := No_data\<rparr> = rest'\<lparr>o_data := No_data\<rparr>"
  shows "map_sum id strip_data (build (b\<lparr>b_rest := rest\<rparr>)) = map_sum id strip_data (build (b\<lparr>b_rest := rest'\<rparr>))"
  using assms by (simp add: build_def fail_def strip_data_def split: option.split)

lemma read_event_strip:
  "map_sum id (\<lambda>(ev, m). strip_data ev) (read_event C fresh document owned mode own w) =
   map_sum id (\<lambda>(ev, m). strip_data ev) (read_event C fresh' document owned' mode' own' w')"
proof -
  obtain found r rest where v: "visit_members C (c_members C document) 0 no_members (Inr ()) (b_rest new_builder) = (found, r, rest)"
    by (metis prod_cases3)
  show ?thesis
  proof (cases "read_context C found (new_builder\<lparr>b_rest := rest\<rparr>)")
    case (Inl e)
    then show ?thesis by (simp add: read_event_def v fail_def)
  next
    case (Inr b)
    note d = decode_data_strip [of C fresh found owned mode own w "b_rest b" fresh' owned' mode' own' w']
    show ?thesis
    proof (cases "decode_data C fresh found owned mode own w (b_rest b)")
      case e: (Inl e)
      with d have "decode_data C fresh' found owned' mode' own' w' (b_rest b) = Inl e"
        by (cases "decode_data C fresh' found owned' mode' own' w' (b_rest b)") auto
      with e Inr v show ?thesis by (simp add: read_event_def)
    next
      case x: (Inr x)
      with d obtain y where y: "decode_data C fresh' found owned' mode' own' w' (b_rest b) = Inr y"
        by (cases "decode_data C fresh' found owned' mode' own' w' (b_rest b)") auto
      obtain rest1 m1 rest2 m2 where p: "x = (rest1, m1)" "y = (rest2, m2)" by fastforce
      with d x y have "rest1\<lparr>o_data := No_data\<rparr> = rest2\<lparr>o_data := No_data\<rparr>" by simp
      from build_strip [OF this, of b] show ?thesis
        by (cases r; cases "build (b\<lparr>b_rest := rest1\<rparr>)"; cases "build (b\<lparr>b_rest := rest2\<rparr>)")
          (simp_all add: read_event_def v Inr x y p fail_def)
    qed
  qed
qed

lemma strip_and_then:
  "map_sum id strip_data (and_then m (\<lambda>(ev, j). Inr ev)) = map_sum id (\<lambda>(ev, j). strip_data ev) m"
  by (cases m) auto

text \<open>
  The retention limit decides how the data of a decoded event is represented and nothing
  else: for any two options, decoding a text fails with one and the same error, or gives events
  that agree in everything but the representation of the data.
\<close>

theorem retention_only_affects_data:
  "map_sum id strip_data (json_decode C fresh t options) = map_sum id strip_data (json_decode C fresh t options')"
proof (cases "c_parse C t")
  case (Inr document)
  have "map_sum id strip_data (json_decode C fresh t options) =
      map_sum id (\<lambda>(ev, j). strip_data ev) (read_event C fresh document None P_copy None False)" for options
    using read_event_strip [of C fresh document "Some document" P_move None False fresh None P_copy None False]
      read_event_strip [of C fresh document "Some document" P_text "data_member_text t" False fresh None P_copy None False]
    by (simp add: json_decode_def decode_reading_def Inr strip_and_then)
  then show ?thesis by simp
qed (simp add: json_decode_def decode_reading_def)

end
