(* ===== verification/Binding_Claims.thy ===== *)
theory Binding_Claims
  imports Binding_Properties Json_Properties
begin

text \<open>
  The properties of the bindings, each with a witness on the reference codec.
\<close>

section \<open>Binary mode round trips\<close>

text \<open>
  C5: a binary-mode HTTP message, with percent-encoded or literal header values, is read back as
  the event it was written for: the same attributes, every extension as its text, and the data
  that the body and the media type determine. The one condition on the message is that the media
  type does not itself begin with application/cloudevents.
\<close>

theorem http_round_trip:
  assumes "V = percent_encoded_values \<or> V = literal_values"
    and "event_ok ev" "time_fits ev" "texts_utf8 ev" "media_type_declares_no_mode ev"
    and "http_to_message V C ev binary_mode = Inr m"
  shows "http_from_message V C fresh m options =
    and_then (read_body C fresh (payload_bytes (o_data (e_rest ev))) (o_datacontenttype (e_rest ev)) options)
      (\<lambda>d. Inr (header_event ev d))"
  using assms http_round_trip_of [OF http_percent.binding_contract_axioms] http_round_trip_of [OF http_literal.binding_contract_axioms]
  by metis

lemma full_event_texts: "texts_utf8 full_event" "media_type_declares_no_mode full_event"
  by (simp_all add: full_event_def texts_utf8_def text_attribute_def media_type_declares_no_mode_def)

lemma full_event_header: "header_event full_event (Binary_data [7]) =
    full_event\<lparr>e_rest := (e_rest full_event)\<lparr>o_extensions := [(''n'', Str ''-7''), (''t'', Str ''AQI='')]\<rparr>\<rparr>"
proof -
  have "base64_encode [1, 2] = ''AQI=''" "dec_int (-7) = ''-7''" by code_simp+
  then show ?thesis by (simp add: header_event_def full_event_def text_extensions_def render_attribute_def)
qed

lemma full_event_body: "read_body C fresh (payload_bytes (o_data (e_rest full_event))) (o_datacontenttype (e_rest full_event)) options = Inr (Binary_data [7])"
  by (simp add: full_event_def payload_bytes_def read_body_def)

theorem http_round_trip_witness:
  "and_then (http_to_message literal_values reference_codec full_event binary_mode)
     (\<lambda>m. http_from_message literal_values reference_codec 0 m default_decode_options) =
   Inr (full_event\<lparr>e_rest := (e_rest full_event)\<lparr>o_extensions := [(''n'', Str ''-7''), (''t'', Str ''AQI='')]\<rparr>\<rparr>)"
proof -
  have "is_ok (http_to_message literal_values reference_codec full_event binary_mode)" by code_simp
  then obtain m where m: "http_to_message literal_values reference_codec full_event binary_mode = Inr m" by (auto simp: is_ok_iff)
  from http_round_trip [OF disjI2 [OF refl] full_event_ok full_event_texts m, of 0 default_decode_options]
  show ?thesis by (simp add: m full_event_body full_event_header)
qed

text \<open>
  C7: a binary-mode Kafka record is read back as the event it was written for, under the same
  condition on the media type.
\<close>

theorem kafka_round_trip:
  assumes "event_ok ev" "time_fits ev" "texts_utf8 ev" "media_type_declares_no_mode ev"
    and "kafka_to_message C ev binary_mode = Inr m"
  shows "kafka_from_message C fresh m options =
    and_then (read_body C fresh (payload_bytes (o_data (e_rest ev))) (o_datacontenttype (e_rest ev)) options)
      (\<lambda>d. Inr (header_event ev d))"
  by (rule kafka_round_trip_of [OF assms])

theorem kafka_round_trip_witness:
  "and_then (kafka_to_message reference_codec full_event binary_mode)
     (\<lambda>m. kafka_from_message reference_codec 0 m default_decode_options) =
   Inr (full_event\<lparr>e_rest := (e_rest full_event)\<lparr>o_extensions := [(''n'', Str ''-7''), (''t'', Str ''AQI='')]\<rparr>\<rparr>)"
proof -
  have "is_ok (kafka_to_message reference_codec full_event binary_mode)" by code_simp
  then obtain m where m: "kafka_to_message reference_codec full_event binary_mode = Inr m" by (auto simp: is_ok_iff)
  from kafka_round_trip [OF full_event_ok full_event_texts m, of 0 default_decode_options]
  show ?thesis by (simp add: m full_event_body full_event_header)
qed

text \<open>
  C8: a binary-mode NATS message is read back as the event it was written for, with no condition
  on the media type, which travels as an attribute.
\<close>

theorem nats_round_trip:
  assumes "event_ok ev" "time_fits ev" "texts_utf8 ev" and "nats_to_message C ev binary_mode = Inr m"
  shows "nats_from_message C fresh m options =
    and_then (read_body C fresh (payload_bytes (o_data (e_rest ev))) (o_datacontenttype (e_rest ev)) options)
      (\<lambda>d. Inr (header_event ev d))"
  by (rule nats_round_trip_of [OF assms])

theorem nats_round_trip_witness:
  "and_then (nats_to_message reference_codec full_event binary_mode)
     (\<lambda>m. nats_from_message reference_codec 0 m default_decode_options) =
   Inr (full_event\<lparr>e_rest := (e_rest full_event)\<lparr>o_extensions := [(''n'', Str ''-7''), (''t'', Str ''AQI='')]\<rparr>\<rparr>)"
proof -
  have "is_ok (nats_to_message reference_codec full_event binary_mode)" by code_simp
  then obtain m where m: "nats_to_message reference_codec full_event binary_mode = Inr m" by (auto simp: is_ok_iff)
  from nats_round_trip [OF full_event_ok full_event_texts(1) m, of 0 default_decode_options]
  show ?thesis by (simp add: m full_event_body full_event_header)
qed

lemma mqtt_encode_value_code [code]:
  "mqtt_encode_value txt =
     (if \<not> is_valid_utf8 txt then fail invalid_utf8 ''an MQTT User Property value must be a UTF-8 string'' ''''
      else if CHR 0x00 \<in> set txt
      then fail invalid_argument ''an MQTT User Property value may not contain NUL'' ''''
      else if int (length txt) > 65535
      then fail invalid_argument ''an MQTT User Property value is at most 65535 bytes'' ''''
      else Inr txt)"
  by (simp add: mqtt_encode_value_def max_string_bytes_def)

text \<open>
  C6: a binary-mode MQTT message is read back as the event it was written for, with unprefixed and
  with prefixed names: the Content Type property is never taken for an attribute, nor an
  attribute for it.
\<close>

theorem mqtt_round_trip:
  assumes "names = unprefixed_names \<or> names = prefixed_names"
    and "event_ok ev" "time_fits ev" "texts_utf8 ev" "media_type_declares_no_mode ev"
    and "mqtt_to_message names C ev binary_mode = Inr m"
  shows "mqtt_from_message names C fresh m options =
    and_then (read_body C fresh (payload_bytes (o_data (e_rest ev))) (o_datacontenttype (e_rest ev)) options)
      (\<lambda>d. Inr (header_event ev d))"
  by (rule mqtt_round_trip_of [OF mqtt_names [OF assms(1)] assms(2-)])

theorem mqtt_round_trip_witness:
  "and_then (mqtt_to_message unprefixed_names reference_codec full_event binary_mode)
     (\<lambda>m. mqtt_from_message unprefixed_names reference_codec 0 m default_decode_options) =
   Inr (full_event\<lparr>e_rest := (e_rest full_event)\<lparr>o_extensions := [(''n'', Str ''-7''), (''t'', Str ''AQI='')]\<rparr>\<rparr>)"
proof -
  have "is_ok (mqtt_to_message unprefixed_names reference_codec full_event binary_mode)" by code_simp
  then obtain m where m: "mqtt_to_message unprefixed_names reference_codec full_event binary_mode = Inr m" by (auto simp: is_ok_iff)
  from mqtt_round_trip [OF disjI1 [OF refl] full_event_ok full_event_texts m, of 0 default_decode_options]
  show ?thesis by (simp add: m full_event_body full_event_header)
qed


section \<open>Structured mode\<close>

lemma text_of_to_bytes [simp]: "text_of (to_bytes s) = s"
  by (simp add: text_of_def to_bytes_def comp_def)

lemma json_content_type_mode:
  "\<not> starts_with_ignoring_case json_content_type ''application/cloudevents-batch''"
  "starts_with_ignoring_case json_content_type ''application/cloudevents''"
  "\<not> starts_with json_content_type ''application/cloudevents-batch''"
  "starts_with json_content_type ''application/cloudevents''"
  by code_simp+

text \<open>
  In every binding a structured-mode message carries the JSON format and nothing else: writing
  one and reading it is encoding and decoding the JSON text, with the same errors.
\<close>

theorem structured_mode_is_json:
  "and_then (http_to_message V C ev structured) (\<lambda>m. http_from_message V' C fresh m options) =
     and_then (json_encode C ev) (\<lambda>t. json_decode C fresh t options) \<and>
   and_then (kafka_to_message C ev structured) (\<lambda>m. kafka_from_message C fresh m options) =
     and_then (json_encode C ev) (\<lambda>t. json_decode C fresh t options) \<and>
   and_then (nats_to_message C ev structured) (\<lambda>m. nats_from_message C fresh m options) =
     and_then (json_encode C ev) (\<lambda>t. json_decode C fresh t options) \<and>
   and_then (mqtt_to_message names C ev structured) (\<lambda>m. mqtt_from_message names' C fresh m options) =
     and_then (json_encode C ev) (\<lambda>t. json_decode C fresh t options)"
  by (cases "json_encode C ev")
    (simp_all add: http_to_message_def http_from_message_def http_detect_content_mode_def
      kafka_to_message_def kafka_from_message_def kafka_detect_content_mode_def
      nats_to_message_def nats_from_message_def nats_detect_content_mode_def
      mqtt_to_message_def mqtt_from_message_def mqtt_detect_content_mode_def
      encode_structured_def decode_structured_def put_def set_field_def set_exact_def empty_message_def
      http_traits_def kafka_traits_def nats_traits_def mqtt_traits_def kafka_content_type_header_def
      mqtt_content_type_header_def http_content_type_header_def json_content_type_mode)


section \<open>Giving a message up\<close>

text \<open>
  The event and what is left of the message: the body is untouched, or it is empty and its bytes
  are the data of the event.
\<close>

definition gives_up_body_only :: "'j event result \<Rightarrow> message \<Rightarrow> 'j event result \<times> message \<Rightarrow> bool" where
  "gives_up_body_only read request moving \<longleftrightarrow>
     fst moving = read \<and> header_fields (snd moving) = header_fields request \<and>
     (body (snd moving) = body request \<or>
      body (snd moving) = [] \<and> (case read of Inr ev \<Rightarrow> o_data (e_rest ev) = Binary_data (body request) | Inl _ \<Rightarrow> False))"

lemma build_taking_body_reads:
  "fst (build_taking_body C fresh b bytes options) =
     and_then (read_body C fresh bytes (o_datacontenttype (b_rest b)) options)
       (\<lambda>payload. build (b\<lparr>b_rest := b_rest b\<lparr>o_data := payload\<rparr>\<rparr>))"
proof (cases "moves_body bytes (o_datacontenttype (b_rest b))")
  case True
  then have "read_body C fresh bytes (o_datacontenttype (b_rest b)) options = Inr (Binary_data bytes)"
    by (simp add: moves_body_def read_body_def)
  with True show ?thesis
    by (simp add: build_taking_body_def build_moving_body_def release_bytes_def Let_def build_def set_data_def fail_def
        split: option.split)
qed (simp add: build_taking_body_def Let_def)

lemma build_taking_body_left:
  "snd (build_taking_body C fresh b bytes options) = bytes \<or>
   snd (build_taking_body C fresh b bytes options) = [] \<and>
     (\<exists>ev. fst (build_taking_body C fresh b bytes options) = Inr ev \<and> o_data (e_rest ev) = Binary_data bytes)"
  by (auto simp: build_taking_body_def build_moving_body_def release_bytes_def Let_def set_data_def split: sum.split)

lemma gives_up_taking:
  "gives_up_body_only (and_then (read_body C fresh (body request) (o_datacontenttype (b_rest b)) options)
       (\<lambda>payload. build (b\<lparr>b_rest := b_rest b\<lparr>o_data := payload\<rparr>\<rparr>))) request
     (case build_taking_body C fresh b (body request) options of (built, left) \<Rightarrow> (built, request\<lparr>body := left\<rparr>))"
  using build_taking_body_left [of C fresh b "body request" options]
  by (auto simp: gives_up_body_only_def build_taking_body_reads [symmetric] split: prod.split sum.split)

lemma gives_up_nothing: "gives_up_body_only r request (r, request)"
  by (simp add: gives_up_body_only_def)

text \<open>
  C10: reading a message that is given up gives the event, or the error, of reading it by
  reference, keeps its header fields, and takes its body only together with success, when the
  bytes are the data of the event: no call loses a byte.
\<close>

theorem moving_is_reading:
  fixes C :: "'j codec"
  shows "gives_up_body_only (http_from_message V C fresh request options) request
     (http_from_message_moving V C fresh request options) \<and>
   gives_up_body_only (kafka_from_message C fresh request options) request
     (kafka_from_message_moving C fresh request options) \<and>
   gives_up_body_only (nats_from_message C fresh request options) request
     (nats_from_message_moving C fresh request options)"
proof (intro conjI)
  show "gives_up_body_only (http_from_message V C fresh request options) request
     (http_from_message_moving V C fresh request options)"
    by (cases "and_then (read_attributes (http_traits V) (header_fields request))
        (declare_media_type (find_field http_content_type_header (header_fields request))) :: 'j builder result")
      (simp_all add: gives_up_taking http_from_message_def http_from_message_moving_def gives_up_nothing Let_def and_then_assoc [symmetric])
  show "gives_up_body_only (kafka_from_message C fresh request options) request
     (kafka_from_message_moving C fresh request options)"
    by (cases "and_then (read_attributes kafka_traits (header_fields request))
        (declare_media_type (find_exact kafka_content_type_header (header_fields request))) :: 'j builder result")
      (simp_all add: gives_up_taking kafka_from_message_def kafka_from_message_moving_def gives_up_nothing Let_def and_then_assoc [symmetric])
  show "gives_up_body_only (nats_from_message C fresh request options) request
     (nats_from_message_moving C fresh request options)"
    by (cases "read_attributes nats_traits (header_fields request) :: 'j builder result")
      (simp_all add: gives_up_taking nats_from_message_def nats_from_message_moving_def gives_up_nothing Let_def)
qed

end
