(* ===== verification/Binding_Safety.thy ===== *)
theory Binding_Safety
  imports Binding_Claims
begin

text \<open>
  What a binding lets in and what it lets out: every event it reads is well-formed and comes from
  unambiguous fields; what it writes into attribute fields holds no control characters and keeps
  the limits of the protocol.
\<close>

section \<open>What is read\<close>

lemma apply_attribute_ok: "apply_attribute T b attribute v = Inr b' \<Longrightarrow> builder_ok b \<Longrightarrow> builder_ok b'"
  by (auto simp: apply_attribute_def and_then_eq_Inr and_then_at_eq_Inr builder_ok_def options_ok_extensions accepted_by_def
      id_rules.store_Inr source_rules.store_Inr type_rules.store_Inr dataschema_rules.store_Inr subject_rules.store_Inr
      datacontenttype_rules.store_Inr extension_name_rules.make_Inr parse_timestamp_ts_ok extensions_ok_insert value_ok_def
      split: if_splits)

lemma read_fields_ok: "read_fields T hs b = Inr b' \<Longrightarrow> builder_ok b \<Longrightarrow> builder_ok b'"
  by (induction T hs b rule: read_fields.induct)
    (auto simp: Let_def and_then_eq_Inr and_then_at_eq_Inr dest: apply_attribute_ok split: if_splits)

lemma read_attributes_ok: "read_attributes T hs = Inr b \<Longrightarrow> builder_ok b \<and> distinct_fields T hs"
  using first_repeated_None [of T hs] new_builder_ok
  by (auto simp: read_attributes_def dest: read_fields_ok split: option.splits)

lemma declare_media_type_ok: "declare_media_type declared b = Inr b' \<Longrightarrow> builder_ok b \<Longrightarrow> builder_ok b'"
proof (cases declared)
  case (Some m)
  assume d: "declare_media_type declared b = Inr b'" and b: "builder_ok b"
  from d Some have "p_check datacontenttype_policy m = None"
    "b' = b\<lparr>b_rest := b_rest b\<lparr>o_datacontenttype := Some m\<rparr>\<rparr>"
    by (auto simp: declare_media_type_def and_then_eq_Inr datacontenttype_rules.make_Inr)
  with b show ?thesis by (simp add: builder_ok_def options_ok_extensions) (simp add: accepted_by_def)
qed (simp add: declare_media_type_def)

lemma build_data_ok: "build (b\<lparr>b_rest := b_rest b\<lparr>o_data := d\<rparr>\<rparr>) = Inr ev \<Longrightarrow> builder_ok b \<Longrightarrow> event_ok ev"
  by (rule build_ok) (simp_all add: builder_ok_def options_ok_extensions)

lemma decode_structured_ok: "decode_structured C fresh m options = Inr ev \<Longrightarrow> event_ok ev"
  by (simp add: decode_structured_def json_decode_ok)

lemma attribute_fields_sublist: "attribute_fields_loop names incoming rest collected seen = Inr hs \<Longrightarrow>
    hs = collected @ filter (\<lambda>f. mqtt_kind_of names (fst f) = MF_attribute) rest"
  by (induction names incoming rest collected seen rule: attribute_fields_loop.induct)
    (auto simp: add_def and_then_eq_Inr split: mqtt_field_kind.splits prod.splits)

lemmas reading_binary = read_attributes_ok declare_media_type_ok build_data_ok decode_structured_ok

lemma http_read_ok:
  "http_from_message V C fresh m options = Inr ev \<Longrightarrow>
     event_ok ev \<and> (http_detect_content_mode m = binary_mode \<longrightarrow> distinct_fields (http_traits V) (header_fields m))"
  by (auto simp: http_from_message_def Let_def and_then_eq_Inr split: if_splits dest: reading_binary)

lemma kafka_read_ok:
  "kafka_from_message C fresh m options = Inr ev \<Longrightarrow>
     event_ok ev \<and> (kafka_detect_content_mode m = binary_mode \<longrightarrow> distinct_fields kafka_traits (header_fields m))"
  by (auto simp: kafka_from_message_def Let_def and_then_eq_Inr split: if_splits dest: reading_binary)

lemma nats_read_ok:
  "nats_from_message C fresh m options = Inr ev \<Longrightarrow>
     event_ok ev \<and> (nats_detect_content_mode m = binary_mode \<longrightarrow> distinct_fields nats_traits (header_fields m))"
  by (auto simp: nats_from_message_def Let_def and_then_eq_Inr split: if_splits dest: reading_binary)

lemma mqtt_read_ok: "mqtt_from_message names C fresh m options = Inr ev \<Longrightarrow> event_ok ev"
  by (auto simp: mqtt_from_message_def mqtt_decode_binary_def and_then_eq_Inr split: if_splits content_mode.splits
      dest: reading_binary)

lemma attribute_fields_copies:
  "attribute_fields_loop names incoming rest collected seen = Inr hs \<Longrightarrow>
     (seen \<longrightarrow> filter (\<lambda>f. mqtt_kind_of names (fst f) = MF_media_type_copy) rest = []) \<and>
     length (filter (\<lambda>f. mqtt_kind_of names (fst f) = MF_media_type_copy) rest) \<le> 1 \<and>
     (\<forall>f \<in> set (filter (\<lambda>f. mqtt_kind_of names (fst f) = MF_media_type_copy) rest).
        find_exact mqtt_content_type_header (header_fields incoming) = Some (snd f))"
proof (induction names incoming rest collected seen rule: attribute_fields_loop.induct)
  case (2 names incoming name v rest collected seen)
  show ?case
  proof (cases "mqtt_kind_of names name")
    case MF_media_type_copy
    with 2(4) have a: "\<not> seen" "find_exact mqtt_content_type_header (header_fields incoming) = Some v"
      and l: "attribute_fields_loop names incoming rest collected True = Inr hs"
      by (auto simp: and_then_eq_Inr accept_media_type_copy_def Let_def fail_def split: if_splits)
    have "accept_media_type_copy incoming v seen = (Inr (), True)" using a by (simp add: accept_media_type_copy_def)
    from 2(3) [OF MF_media_type_copy this [symmetric] refl l] a MF_media_type_copy show ?thesis by simp
  qed (use 2 in simp_all)
qed simp

definition mqtt_fields_of :: "mqtt_field_kind \<Rightarrow> string \<Rightarrow> message \<Rightarrow> raw_headers" where
  "mqtt_fields_of kind names m = filter (\<lambda>f. mqtt_kind_of names (fst f) = kind) (header_fields m)"

definition mqtt_unambiguous :: "string \<Rightarrow> message \<Rightarrow> bool" where
  "mqtt_unambiguous names m \<longleftrightarrow>
     distinct_fields (mqtt_traits names) (mqtt_fields_of MF_attribute names m) \<and>
     length (mqtt_fields_of MF_media_type_copy names m) \<le> 1 \<and>
     (\<forall>f \<in> set (mqtt_fields_of MF_media_type_copy names m).
        find_exact mqtt_content_type_header (header_fields m) = Some (snd f))"

lemma attribute_fields_unambiguous:
  assumes "attribute_fields names m = Inr hs" "read_attributes (mqtt_traits names) hs = Inr b"
  shows "mqtt_unambiguous names m"
  using attribute_fields_sublist [OF assms(1) [unfolded attribute_fields_def]]
    attribute_fields_copies [OF assms(1) [unfolded attribute_fields_def]] read_attributes_ok [OF assms(2)]
  by (simp add: mqtt_unambiguous_def mqtt_fields_of_def)

lemma mqtt_read_unambiguous:
  "mqtt_from_message names C fresh m options = Inr ev \<Longrightarrow>
     length (filter (\<lambda>f. fst f = mqtt_content_type_header) (header_fields m)) \<le> 1 \<and>
     (mqtt_detect_content_mode m = binary_mode \<longrightarrow> mqtt_unambiguous names m)"
proof
  assume r: "mqtt_from_message names C fresh m options = Inr ev"
  show "length (filter (\<lambda>f. fst f = mqtt_content_type_header) (header_fields m)) \<le> 1"
    using r by (simp add: mqtt_from_message_def not_less split: if_splits)
  show "mqtt_detect_content_mode m = binary_mode \<longrightarrow> mqtt_unambiguous names m"
  proof
    assume "mqtt_detect_content_mode m = binary_mode"
    with r have "mqtt_decode_binary names C fresh m options = Inr ev" by (simp add: mqtt_from_message_def split: if_splits)
    then show "mqtt_unambiguous names m"
      unfolding mqtt_decode_binary_def and_then_eq_Inr by (elim exE conjE) (rule attribute_fields_unambiguous)
  qed
qed

text \<open>
  C11: whatever arrives over HTTP, Kafka, NATS or MQTT, an event that the binding reads is
  well-formed; and in binary mode no two of the fields it was read from carry one name (under the
  binding's rule for names), so the event does not depend on which of two fields is meant. Over MQTT
  these are the User Properties that the name policy takes for attributes; there is one Content Type
  at most, and a User Property with a copy of it occurs once at most and says the same.
\<close>

theorem binding_events_ok:
  "(http_from_message V C fresh m options = Inr ev \<longrightarrow>
      event_ok ev \<and> (http_detect_content_mode m = binary_mode \<longrightarrow> distinct_fields (http_traits V) (header_fields m))) \<and>
   (kafka_from_message C fresh m options = Inr ev \<longrightarrow>
      event_ok ev \<and> (kafka_detect_content_mode m = binary_mode \<longrightarrow> distinct_fields kafka_traits (header_fields m))) \<and>
   (nats_from_message C fresh m options = Inr ev \<longrightarrow>
      event_ok ev \<and> (nats_detect_content_mode m = binary_mode \<longrightarrow> distinct_fields nats_traits (header_fields m))) \<and>
   (mqtt_from_message names C fresh m options = Inr ev \<longrightarrow>
      event_ok ev \<and> length (filter (\<lambda>f. fst f = mqtt_content_type_header) (header_fields m)) \<le> 1 \<and>
      (mqtt_detect_content_mode m = binary_mode \<longrightarrow> mqtt_unambiguous names m))"
  using http_read_ok [of V C fresh m options ev] kafka_read_ok [of C fresh m options ev] nats_read_ok [of C fresh m options ev]
    mqtt_read_ok [of names C fresh m options ev] mqtt_read_unambiguous [of names C fresh m options ev]
  by blast

definition delivered_message :: message where
  "delivered_message = \<lparr>header_fields = [(''CE-SpecVersion'', ''1.0''), (''ce-id'', ''%31''), (''Ce-Source'', ''/s''),
     (''ce-type'', ''t''), (''host'', ''h''), (''ce-n'', ''1'')], body = [1]\<rparr>"

definition published_message :: message where
  "published_message = \<lparr>header_fields = [(''content-type'', ''text/plain''), (''specversion'', ''1.0''), (''id'', ''1''),
     (''source'', ''/s''), (''type'', ''t''), (''datacontenttype'', ''text/plain''), (''Trace-Id'', ''x'')], body = [1]\<rparr>"

theorem binding_events_ok_witness:
  "(case http_from_message percent_encoded_values reference_codec 0 delivered_message default_decode_options of
      Inr ev \<Rightarrow> event_ok ev | Inl _ \<Rightarrow> False) \<and>
   (case mqtt_from_message unprefixed_names reference_codec 0 published_message default_decode_options of
      Inr ev \<Rightarrow> event_ok ev \<and> mqtt_unambiguous unprefixed_names published_message | Inl _ \<Rightarrow> False)"
proof
  have "is_ok (http_from_message percent_encoded_values reference_codec 0 delivered_message default_decode_options)" by code_simp
  then obtain ev where ev: "http_from_message percent_encoded_values reference_codec 0 delivered_message default_decode_options = Inr ev"
    by (auto simp: is_ok_iff)
  with binding_events_ok [where V = percent_encoded_values and C = reference_codec and fresh = 0 and m = delivered_message
      and options = default_decode_options and ev = ev]
  show "case http_from_message percent_encoded_values reference_codec 0 delivered_message default_decode_options of
      Inr ev \<Rightarrow> event_ok ev | Inl _ \<Rightarrow> False" by simp
  have "is_ok (mqtt_from_message unprefixed_names reference_codec 0 published_message default_decode_options)" by code_simp
  then obtain ev where ev: "mqtt_from_message unprefixed_names reference_codec 0 published_message default_decode_options = Inr ev"
    by (auto simp: is_ok_iff)
  have "mqtt_detect_content_mode published_message = binary_mode" by code_simp
  with ev binding_events_ok [where names = unprefixed_names and C = reference_codec and fresh = 0 and m = published_message
      and options = default_decode_options and ev = ev]
  show "case mqtt_from_message unprefixed_names reference_codec 0 published_message default_decode_options of
      Inr ev \<Rightarrow> event_ok ev \<and> mqtt_unambiguous unprefixed_names published_message | Inl _ \<Rightarrow> False" by simp
qed


section \<open>What is written\<close>

definition clean :: "string \<Rightarrow> bool" where
  "clean s \<longleftrightarrow> (\<forall>c \<in> set s. \<not> uchar c < 0x20 \<and> uchar c \<noteq> 0x7F)"

lemma refuse_controls_clean: "refuse_controls s = Inr () \<longleftrightarrow> clean s"
  by (induction s) (auto simp: clean_def)

lemma percent_encode_clean: "clean (percent_encode s)"
proof -
  have "\<not> uchar c < 0x20 \<and> uchar c \<noteq> 0x7F" if "c \<in> set (percent_encode s)" for c
    using percent_encode_range [OF that] by (auto simp: word_le_nat_alt word_less_nat_alt word_unat_eq_iff)
  then show ?thesis by (simp add: clean_def)
qed

lemma name_char_clean: "name_char c \<Longrightarrow> \<not> uchar c < 0x20 \<and> uchar c \<noteq> 0x7F"
  by (auto simp: name_char_def is_lower_def is_digit_def less_eq_char_def word_less_nat_alt word_unat_eq_iff)

lemma valid_name_clean: "valid_attribute_name n \<Longrightarrow> clean n"
  using name_char_clean by (auto simp: valid_attribute_name_iff clean_def)

lemma vp_encode_clean:
  "V = percent_encoded_values \<or> V = literal_values \<Longrightarrow> vp_encode V s = Inr v \<Longrightarrow> clean v"
  by (auto simp: percent_encoded_values_def literal_values_def percent_encode_clean and_then_eq_Inr refuse_controls_clean
      split: if_splits)

lemma clean_append: "clean (a @ b) \<longleftrightarrow> clean a \<and> clean b"
  by (auto simp: clean_def)

text \<open>
  C9: no control character (no CR, LF or NUL, so no way to start another header) reaches an
  attribute field of a binary-mode HTTP message, in its name or in its value, whatever the
  attributes of the event hold, with either policy for the values.
\<close>

theorem http_attribute_fields_clean:
  assumes V: "V = percent_encoded_values \<or> V = literal_values" and ev: "event_ok ev"
    and m: "http_to_message V C ev binary_mode = Inr m"
    and f: "(n, v) \<in> set (header_fields m)" "n \<noteq> http_content_type_header"
  shows "clean n \<and> clean v"
proof -
  let ?T = "http_traits V"
  have contract: "binding_contract ?T"
    using V http_percent.binding_contract_axioms http_literal.binding_contract_axioms by blast
  from m obtain hs where w: "write_attributes ?T ev [] = (Inr (), hs)" and hs: "header_fields m = hs"
    by (auto simp: http_to_message_def and_then_eq_Inr empty_message_def write_body_eq split: prod.splits)
  have ct: "\<not> carries_prefix ?T (t_content_type_header ?T)"
    by (simp add: http_traits_def carries_prefix_def starts_with_ignoring_case_def http_content_type_header_def ascii_lower_def)
  note wf = binding_contract.write_attributes_fields [OF contract ev w disjI1 [OF ct]]
  have "(n, v) \<notin> set (content_type_field ?T ev)"
    using f(2) by (auto simp: content_type_field_def text_of_present_def http_traits_def split: option.splits)
  then obtain p where p1: "p \<in> set (attribute_texts ?T ev)" "(n, v) = binding_contract.field_of ?T p"
    using f(1) by (auto simp: hs wf(1))
  then have p: "p \<in> set (attribute_texts ?T ev)" "n = ''ce-'' @ fst p" "v = projr (vp_encode V (snd p))"
    unfolding binding_contract.field_of_def [OF contract] by (simp_all add: http_traits_def)
  have "fst p \<in> fst ` set (attribute_texts ?T ev)" using p(1) by simp
  then have "clean (fst p)" using attribute_texts_names(2) [OF ev, of ?T] valid_name_clean by blast
  moreover have "clean ''ce-''" by (simp add: clean_def word_less_nat_alt word_unat_eq_iff)
  moreover obtain e where "vp_encode V (snd p) = Inr e"
    using wf(2) p(1) by (auto simp: http_traits_def is_ok_iff)
  ultimately show ?thesis using vp_encode_clean [OF V] unfolding p(2,3) clean_append by simp
qed

theorem http_attribute_fields_clean_witness:
  "case http_to_message percent_encoded_values reference_codec full_event binary_mode of
     Inr m \<Rightarrow> list_all (\<lambda>(n, v). clean n \<and> clean v) (header_fields m) | Inl _ \<Rightarrow> False"
proof -
  have "is_ok (http_to_message percent_encoded_values reference_codec full_event binary_mode) \<and>
      list_all (\<lambda>f. fst f \<noteq> http_content_type_header)
        (header_fields (projr (http_to_message percent_encoded_values reference_codec full_event binary_mode)))" by code_simp
  then obtain m where m: "http_to_message percent_encoded_values reference_codec full_event binary_mode = Inr m"
    "\<forall>f \<in> set (header_fields m). fst f \<noteq> http_content_type_header" by (auto simp: is_ok_iff list_all_iff)
  from http_attribute_fields_clean [OF disjI1 [OF refl] full_event_ok(1) m(1)] m show ?thesis
    by (auto simp: list_all_iff)
qed

definition with_media :: "string \<Rightarrow> 'j event \<Rightarrow> 'j event" where
  "with_media media ev = ev\<lparr>e_rest := (e_rest ev)\<lparr>o_datacontenttype := Some media\<rparr>\<rparr>"

text \<open>A media type with any text for its parameters.\<close>

definition parametrised :: "string \<Rightarrow> string \<Rightarrow> string \<Rightarrow> string" where
  "parametrised main sub parameters = main @ ''/'' @ sub @ '';'' @ parameters"

lemma token_clean: "\<forall>c \<in> set t. token_char c \<Longrightarrow> clean t"
  by (auto simp: clean_def token_char_def is_upper_def is_lower_def is_digit_def less_eq_char_def word_less_nat_alt
      word_unat_eq_iff)

lemma parametrised_clean:
  assumes "\<forall>c \<in> set (main @ sub). token_char c"
  shows "clean (parametrised main sub parameters) \<longleftrightarrow> clean parameters"
proof -
  have "clean ''/''" "clean '';''" by (simp_all add: clean_def word_less_nat_alt word_unat_eq_iff)
  moreover have "clean main" "clean sub" using assms token_clean by auto
  ultimately show ?thesis unfolding parametrised_def clean_append by simp
qed

lemma parametrised_accepted:
  assumes "main \<noteq> []" "sub \<noteq> []" "\<forall>c \<in> set (main @ sub). token_char c" "is_valid_utf8 (parametrised main sub parameters)"
  shows "p_check datacontenttype_policy (parametrised main sub parameters) = None"
proof -
  have "media_type (parametrised main sub parameters) main sub"
    unfolding media_type_def parametrised_def using assms(1-3)
    by (intro conjI exI [of _ "[]"] exI [of _ "'';'' @ parameters"]) auto
  with assms(1,4) show ?thesis
    using media_type_match [of "parametrised main sub parameters"]
    by (auto simp: datacontenttype_policy_def check_content_type_None parametrised_def)
qed

lemma http_content_type_written:
  assumes V: "V = percent_encoded_values \<or> V = literal_values" and ev: "event_ok ev"
    and m: "http_to_message V C ev binary_mode = Inr m"
  shows "find_field http_content_type_header (header_fields m) = o_datacontenttype (e_rest ev)"
proof -
  let ?T = "http_traits V"
  have contract: "binding_contract ?T"
    using V http_percent.binding_contract_axioms http_literal.binding_contract_axioms by blast
  from m obtain hs where w: "write_attributes ?T ev [] = (Inr (), hs)" and hs: "header_fields m = hs"
    by (auto simp: http_to_message_def and_then_eq_Inr empty_message_def write_body_eq split: prod.splits)
  have ct: "\<not> carries_prefix ?T http_content_type_header" "t_content_type_header ?T = http_content_type_header"
    "\<not> t_case_sensitive_names ?T" "\<not> t_content_type_as_attribute ?T"
    by (simp_all add: http_traits_def carries_prefix_def starts_with_ignoring_case_def http_content_type_header_def ascii_lower_def)
  note wf = binding_contract.write_attributes_fields [OF contract ev w disjI1, unfolded ct(2), OF ct(1)]
  show ?thesis
    unfolding hs wf(1) binding_contract.find_written_field [OF contract ct(3,1)]
    by (simp add: content_type_field_def ct text_of_present_def split: option.split)
qed

text \<open>Whether a message is written does not depend on the media type.\<close>

lemma http_written_with_media:
  "is_ok (http_to_message V C (with_media media ev) binary_mode) \<longleftrightarrow> is_ok (http_to_message V C ev binary_mode)"
proof -
  have "attribute_texts (http_traits V) (with_media media ev) = attribute_texts (http_traits V) ev"
    by (simp add: attribute_texts_def http_traits_def with_media_def)
  then have "fst (write_attributes (http_traits V) (with_media media ev) []) = fst (write_attributes (http_traits V) ev [])"
    by (simp add: write_attributes_all split: prod.split)
  moreover have "is_ok (http_to_message V C e binary_mode) \<longleftrightarrow> is_ok (fst (write_attributes (http_traits V) e []))" for e
    by (auto simp: http_to_message_def is_ok_iff and_then_eq_Inr split: prod.split)
  ultimately show ?thesis by simp
qed

text \<open>
  C37: the Content-Type field of a binary-mode message is not encoded. A media type may have any
  UTF-8 text for its parameters, a line break too: an event stays well-formed with it, is written as
  it was with its own media type, and the Content-Type field of the message is that text, octet by
  octet, with either policy for the values, even the one that refuses control characters in literal
  values; it is free of control characters only if the parameters are.
\<close>

theorem content_type_field_not_clean:
  assumes "V = percent_encoded_values \<or> V = literal_values" "event_ok ev"
    and "main \<noteq> []" "sub \<noteq> []" "\<forall>c \<in> set (main @ sub). token_char c"
    and "is_valid_utf8 (parametrised main sub parameters)"
  shows "event_ok (with_media (parametrised main sub parameters) ev) \<and>
    (case http_to_message V C (with_media (parametrised main sub parameters) ev) binary_mode of
       Inl _ \<Rightarrow> \<not> is_ok (http_to_message V C ev binary_mode)
     | Inr m \<Rightarrow> is_ok (http_to_message V C ev binary_mode) \<and>
         (\<exists>field. find_field http_content_type_header (header_fields m) = Some field \<and>
            field = main @ ''/'' @ sub @ '';'' @ parameters \<and> (clean field \<longleftrightarrow> clean parameters)))"
proof
  let ?media = "parametrised main sub parameters"
  have ok: "event_ok (with_media ?media ev)"
    using assms(2) parametrised_accepted [OF assms(3-6)]
    by (simp add: with_media_def event_ok_def options_ok_extensions accepted_by_def)
  then show "event_ok (with_media ?media ev)" .
  show "case http_to_message V C (with_media ?media ev) binary_mode of
       Inl _ \<Rightarrow> \<not> is_ok (http_to_message V C ev binary_mode)
     | Inr m \<Rightarrow> is_ok (http_to_message V C ev binary_mode) \<and>
         (\<exists>field. find_field http_content_type_header (header_fields m) = Some field \<and>
            field = main @ ''/'' @ sub @ '';'' @ parameters \<and> (clean field \<longleftrightarrow> clean parameters))"
    using http_content_type_written [OF assms(1) ok, of C] http_written_with_media [of V C ?media ev]
      parametrised_clean [OF assms(5), of parameters]
    by (auto simp: with_media_def parametrised_def split: sum.split)
qed

text \<open>A field of one's own after a line break.\<close>

definition injected :: string where
  "injected = [CHR 0x0D, CHR 0x0A] @ ''Set-Cookie: c''"

theorem content_type_field_not_clean_witness:
  "case http_to_message literal_values reference_codec (with_media (parametrised ''a'' ''b'' injected) full_event) binary_mode of
     Inr m \<Rightarrow> find_field http_content_type_header (header_fields m) =
       Some (''a/b;'' @ [CHR 0x0D, CHR 0x0A] @ ''Set-Cookie: c'')
   | Inl _ \<Rightarrow> False"
proof -
  have "is_valid_utf8 (parametrised ''a'' ''b'' injected)" "is_ok (http_to_message literal_values reference_codec full_event binary_mode)"
    "\<forall>c \<in> set (''a'' @ ''b''). token_char c" by code_simp+
  with content_type_field_not_clean [OF disjI2 [OF refl] full_event_ok(1), where C = reference_codec and main = "''a''"
      and sub = "''b''" and parameters = injected]
  show ?thesis by (auto simp: injected_def split: sum.splits)
qed

definition cloudevents_media_event :: "jv event" where
  "cloudevents_media_event = full_event\<lparr>e_rest := (e_rest full_event)
     \<lparr>o_datacontenttype := Some ''application/cloudevents+json''\<rparr>\<rparr>"

text \<open>
  An event whose media type begins with application/cloudevents is written in binary mode
  without an error; the message is then taken for a structured one, and reading it fails.
\<close>

theorem binary_message_taken_for_structured:
  "case http_to_message percent_encoded_values reference_codec cloudevents_media_event binary_mode of
     Inr m \<Rightarrow> http_detect_content_mode m = structured \<and>
       \<not> is_ok (http_from_message percent_encoded_values reference_codec 0 m default_decode_options)
   | Inl _ \<Rightarrow> False"
  by code_simp

text \<open>
  Every User Property that the MQTT binding writes holds at most 65,535 bytes of well-formed
  UTF-8 without NUL, and its name is an attribute name under the name policy; what does not fit
  is refused, not truncated.
\<close>

theorem mqtt_user_properties_fit:
  assumes "names = unprefixed_names \<or> names = prefixed_names" "event_ok ev"
    and "mqtt_to_message names C ev binary_mode = Inr m"
    and "(n, v) \<in> set (header_fields m)" "n \<noteq> mqtt_content_type_header"
  shows "length v \<le> 65535 \<and> is_valid_utf8 v \<and> CHR 0x00 \<notin> set v \<and> mqtt_kind_of names n = MF_attribute"
proof -
  let ?T = "mqtt_traits names"
  note contract = mqtt_names(1) [OF assms(1)]
  from assms(3) obtain hs where w: "write_attributes ?T ev [] = (Inr (), hs)" and hs: "header_fields m = hs"
    by (auto simp: mqtt_to_message_def mqtt_encode_binary_def and_then_eq_Inr empty_message_def write_body_eq split: prod.splits)
  have t: "t_content_type_header ?T = mqtt_content_type_header" "t_case_sensitive_names ?T" "\<not> t_content_type_as_attribute ?T"
    "t_attribute_prefix ?T = names" "t_encode_value ?T = mqtt_encode_value"
    by (simp_all add: mqtt_traits_def)
  have "\<not> valid_attribute_name mqtt_content_type_header"
    by (simp add: mqtt_content_type_header_def valid_attribute_name_iff name_char_def is_lower_def is_digit_def)
  then have ct: "\<not> carries_prefix ?T (t_content_type_header ?T) \<or> t_attribute_prefix ?T = [] \<and>
      \<not> valid_attribute_name (t_content_type_header ?T) \<and> t_case_sensitive_names ?T"
    using mqtt_names(3) [OF assms(1)] unfolding t by (auto simp: mqtt_traits_def)
  note wf = binding_contract.write_attributes_fields [OF contract assms(2) w ct]
  have "(n, v) \<notin> set (content_type_field ?T ev)"
    using assms(5) by (auto simp: content_type_field_def text_of_present_def t split: option.splits)
  then obtain p where p1: "p \<in> set (attribute_texts ?T ev)" "(n, v) = binding_contract.field_of ?T p"
    using assms(4) by (auto simp: hs wf(1))
  then have p: "p \<in> set (attribute_texts ?T ev)" "n = names @ fst p" "v = projr (mqtt_encode_value (snd p))"
    unfolding binding_contract.field_of_def [OF contract] t by simp_all
  have "fst p \<in> fst ` set (attribute_texts ?T ev)" using p(1) by simp
  with attribute_texts_names(2) [OF assms(2), of ?T] attribute_texts_no_media_type [OF assms(2) t(3)]
  have "valid_attribute_name (fst p)" "fst p \<noteq> ''datacontenttype''" by metis+
  then have "mqtt_kind_of names n = MF_attribute" unfolding p(2) by (rule mqtt_kind_of_attribute)
  moreover obtain e where e: "mqtt_encode_value (snd p) = Inr e"
    using wf(2) p(1) by (auto simp: t is_ok_iff)
  ultimately show ?thesis
    using p(3) by (auto simp: mqtt_encode_value_def max_string_bytes_def split: if_splits)
qed

theorem mqtt_user_properties_fit_witness:
  "case mqtt_to_message prefixed_names reference_codec full_event binary_mode of
     Inr m \<Rightarrow> list_all (\<lambda>(n, v). length v \<le> 65535 \<and> mqtt_kind_of prefixed_names n = MF_attribute) (header_fields m)
   | Inl _ \<Rightarrow> False"
proof -
  have "is_ok (mqtt_to_message prefixed_names reference_codec full_event binary_mode) \<and>
      list_all (\<lambda>f. fst f \<noteq> mqtt_content_type_header)
        (header_fields (projr (mqtt_to_message prefixed_names reference_codec full_event binary_mode)))" by code_simp
  then obtain m where m: "mqtt_to_message prefixed_names reference_codec full_event binary_mode = Inr m"
    "\<forall>f \<in> set (header_fields m). fst f \<noteq> mqtt_content_type_header" by (auto simp: is_ok_iff list_all_iff)
  from mqtt_user_properties_fit [OF disjI2 [OF refl] full_event_ok(1) m(1)] m show ?thesis
    by (auto simp: list_all_iff)
qed

end
