(* ===== verification/Protobuf_Wire.thy ===== *)
theory Protobuf_Wire
  imports Attributes
begin

unbundle bit_operations_syntax

text \<open>
  \<open>include/cloudevents/format/detail/protobuf_wire.hpp\<close>: varints, tags, length-delimited fields.
  A reader is the octets it has not read; a read that fails ends the decoding, so only a read
  that succeeds returns the octets that are left.
\<close>

section \<open>Reading\<close>

datatype wire_type = W_varint | W_fixed64 | W_length_delimited | W_fixed32

definition wire_type_value :: "wire_type \<Rightarrow> u64" where
  "wire_type_value kind = (case kind of W_varint \<Rightarrow> 0 | W_fixed64 \<Rightarrow> 1 | W_length_delimited \<Rightarrow> 2 | W_fixed32 \<Rightarrow> 5)"

definition skippable :: "u64 \<Rightarrow> bool" where
  "skippable kind \<longleftrightarrow> kind = wire_type_value W_varint \<or> kind = wire_type_value W_fixed64 \<or>
     kind = wire_type_value W_length_delimited \<or> kind = wire_type_value W_fixed32"

text \<open>\<open>static_cast<wire_type>\<close> of a skippable value.\<close>

definition wire_type_of :: "u64 \<Rightarrow> wire_type" where
  "wire_type_of kind = (if kind = 0 then W_varint else if kind = 1 then W_fixed64 else if kind = 2 then W_length_delimited else W_fixed32)"

definition max_varint_bytes :: nat where "max_varint_bytes = 10"
definition max_field_number :: u64 where "max_field_number = 0x1FFFFFFF"

fun read_varint_loop :: "nat \<Rightarrow> u64 \<Rightarrow> binary \<Rightarrow> (u64 \<times> binary) result" where
  "read_varint_loop index v [] = fail parse_error ''a varint is cut short'' ''''"
| "read_varint_loop index v (b # rest) =
     (if index + 1 = max_varint_bytes \<and> b > 1
      then fail parse_error ''a varint does not fit 64 bits'' ''''
      else let v = v OR push_bit (7 * index) (ucast (b AND 0x7F))
        in if b AND 0x80 = 0 then Inr (v, rest) else read_varint_loop (Suc index) v rest)"

definition read_varint :: "binary \<Rightarrow> (u64 \<times> binary) result" where
  "read_varint rest = read_varint_loop 0 0 rest"

record field_header =
  fh_number :: u32
  fh_kind :: wire_type

definition read_header :: "binary \<Rightarrow> (field_header \<times> binary) result" where
  "read_header rest =
     and_then (read_varint rest) (\<lambda>(tag, rest).
       let number = drop_bit 3 tag; kind = tag AND 7
       in if number = 0 \<or> number > max_field_number
          then fail parse_error ''a field number is out of range'' ''''
          else if \<not> skippable kind
          then fail parse_error ''a wire type this reader cannot skip (a group)'' ''''
          else Inr (\<lparr>fh_number = ucast number, fh_kind = wire_type_of kind\<rparr>, rest))"

definition read_length_delimited :: "binary \<Rightarrow> (binary \<times> binary) result" where
  "read_length_delimited rest =
     and_then (read_varint rest) (\<lambda>(size, rest).
       if unat size > length rest then fail parse_error ''a length runs past the end of the input'' ''''
       else Inr (take (unat size) rest, drop (unat size) rest))"

definition skip_field :: "wire_type \<Rightarrow> binary \<Rightarrow> binary result" where
  "skip_field kind rest =
     (if kind = W_varint then and_then (read_varint rest) (\<lambda>(_, rest). Inr rest)
      else if kind = W_length_delimited then and_then (read_length_delimited rest) (\<lambda>(_, rest). Inr rest)
      else let size = (if kind = W_fixed64 then 8 else 4)
        in if size > length rest then fail parse_error ''a fixed-width field is cut short'' ''''
           else Inr (drop size rest))"

definition text_view :: "binary \<Rightarrow> string" where
  "text_view bs = map char_of_byte bs"

definition read_text :: "binary \<Rightarrow> string result" where
  "read_text bs =
     (let txt = text_view bs
      in if \<not> is_valid_utf8 txt then fail invalid_utf8 ''a string field is not well-formed UTF-8'' ''''
         else Inr txt)"


section \<open>Writing\<close>

text \<open>The octets that \<open>put_varint\<close> appends.\<close>

function varint_octets :: "u64 \<Rightarrow> binary" where
  "varint_octets v =
     (if v > 0x7F then ucast ((v AND 0x7F) OR 0x80) # varint_octets (drop_bit 7 v) else [ucast v])"
  by pat_completeness auto
termination
proof (relation "measure unat")
  fix v :: u64 assume v: "0x7F < v"
  have d: "unat (drop_bit 7 v) = unat v div 128" by (subst unat_drop_bit_eq) (simp add: drop_bit_eq_div)
  have "127 < unat v" using v by (simp add: word_less_nat_alt)
  then have "unat v div 128 < unat v" by simp
  then show "(drop_bit 7 v, v) \<in> measure unat" by (simp only: d [symmetric] in_measure)
qed simp

declare varint_octets.simps [simp del]

definition put_varint :: "binary \<Rightarrow> u64 \<Rightarrow> binary" where
  "put_varint out v = out @ varint_octets v"

definition put_tag :: "binary \<Rightarrow> u32 \<Rightarrow> wire_type \<Rightarrow> binary" where
  "put_tag out number kind = put_varint out (push_bit 3 (ucast number) OR wire_type_value kind)"

definition put_varint_field :: "binary \<Rightarrow> u32 \<Rightarrow> u64 \<Rightarrow> binary" where
  "put_varint_field out number v = put_varint (put_tag out number W_varint) v"

definition put_field :: "binary \<Rightarrow> u32 \<Rightarrow> binary \<Rightarrow> binary" where
  "put_field out number bs = put_varint (put_tag out number W_length_delimited) (word_of_nat (length bs)) @ bs"

definition put_text_field :: "binary \<Rightarrow> u32 \<Rightarrow> string \<Rightarrow> binary" where
  "put_text_field out number txt = put_field out number (to_bytes txt)"


section \<open>Reading consumes\<close>

lemma read_varint_loop_consumes:
  "read_varint_loop index v bs = Inr (w, rest) \<Longrightarrow> index < 10 \<Longrightarrow>
     \<exists>p. bs = p @ rest \<and> p \<noteq> [] \<and> index + length p \<le> 10"
proof (induction index v bs rule: read_varint_loop.induct)
  case (2 index v b bs)
  show ?case
  proof (cases "b AND 0x80 = 0")
    case True
    with 2 show ?thesis by (intro exI [of _ "[b]"]) (auto simp: Let_def split: if_splits)
  next
    case False
    with "2.prems"(1) have ok: "\<not> (index + 1 = max_varint_bytes \<and> b > 1)"
      and r: "read_varint_loop (Suc index) (v OR push_bit (7 * index) (ucast (b AND 0x7F))) bs = Inr (w, rest)"
      by (auto simp: Let_def split: if_splits)
    have "index \<noteq> 9"
    proof
      assume "index = 9"
      then have "unat b \<le> 1" using ok by (simp add: max_varint_bytes_def word_less_nat_alt not_less)
      then have "b = 0 \<or> b = 1" by (metis One_nat_def le_SucE le_zero_eq unat_1 unat_eq_zero word_unat_eq_iff)
      with False show False by auto
    qed
    with "2.IH" [OF ok refl False r] 2(3) obtain p where "bs = p @ rest" "Suc index + length p \<le> 10" by auto
    then show ?thesis by (intro exI [of _ "b # p"]) simp
  qed
qed simp

lemma read_varint_consumes:
  "read_varint bs = Inr (w, rest) \<Longrightarrow> \<exists>p. bs = p @ rest \<and> 1 \<le> length p \<and> length p \<le> 10"
  using read_varint_loop_consumes [of 0 0 bs w rest] by (auto simp: read_varint_def Suc_le_eq)

lemma read_varint_length: "read_varint bs = Inr (w, rest) \<Longrightarrow> length rest < length bs"
  by (auto dest!: read_varint_consumes)

lemma read_header_length: "read_header bs = Inr (h, rest) \<Longrightarrow> length rest < length bs"
  by (auto simp: read_header_def and_then_eq_Inr Let_def split: if_splits dest: read_varint_length)

lemma read_length_delimited_length:
  "read_length_delimited bs = Inr (b, rest) \<Longrightarrow> length rest + length b < length bs"
  by (auto simp: read_length_delimited_def and_then_eq_Inr split: if_splits dest: read_varint_length)

lemma skip_field_length: "skip_field kind bs = Inr rest \<Longrightarrow> length rest \<le> length bs"
  by (auto simp: skip_field_def and_then_eq_Inr Let_def split: if_splits
      dest: read_varint_length read_length_delimited_length)


section \<open>Round trips\<close>

lemma mask_7: "(0x7F :: byte) = mask 7" "(0x7F :: u64) = mask 7"
  by (simp_all add: mask_eq_exp_minus_1)

lemma bit_80: "bit (0x80 :: int) n \<longleftrightarrow> n = 7"
  using bit_exp_iff [of 7 n, where 'a = int] by simp

lemma byte_low7: "(ucast ((v AND 0x7F) OR 0x80 :: u64) :: byte) AND 0x7F = ucast (v AND 0x7F)"
  unfolding mask_7 by (rule bit_word_eqI) (auto simp: bit_simps bit_80)

lemma byte_more: "(ucast ((v AND 0x7F) OR 0x80 :: u64) :: byte) AND 0x80 \<noteq> 0"
proof -
  have "bit ((ucast ((v AND 0x7F) OR 0x80 :: u64) :: byte) AND 0x80) 7" by (simp add: bit_simps)
  then show ?thesis by auto
qed

lemma unat_drop7: "unat (drop_bit 7 (v :: u64)) = unat v div 128"
  by (subst unat_drop_bit_eq) (simp add: drop_bit_eq_div)

lemma varint_recombine:
  "push_bit (7 * index) (v AND 0x7F) OR push_bit (7 * Suc index) (drop_bit 7 v) = push_bit (7 * index) (v :: u64)"
proof -
  have "push_bit 7 (drop_bit 7 v) = v AND NOT (mask 7)"
    by (rule bit_word_eqI) (auto simp: bit_simps)
  moreover have "(0x7F :: u64) = mask 7" by (simp add: mask_eq_exp_minus_1)
  ultimately have "(v AND 0x7F) OR push_bit 7 (drop_bit 7 v) = v"
    by (metis bit.conj_disj_distrib bit.disj_cancel_right word_bw_comms(1) and.right_neutral)
  then have "push_bit (7 * index) ((v AND 0x7F) OR push_bit 7 (drop_bit 7 v)) = push_bit (7 * index) v" by simp
  then show ?thesis by (simp add: push_bit_or algebra_simps)
qed

lemma read_varint_loop_octets:
  "unat v < 2 ^ (64 - 7 * index) \<Longrightarrow> index < 10 \<Longrightarrow>
     read_varint_loop index acc (varint_octets v @ rest) = Inr (acc OR push_bit (7 * index) v, rest)"
proof (induction v arbitrary: index acc rule: varint_octets.induct)
  case (1 v)
  show ?case
  proof (cases "v > 0x7F")
    case True
    let ?b = "ucast ((v AND 0x7F) OR 0x80) :: byte"
    have "127 < unat v" using True by (simp add: word_less_nat_alt)
    have i: "index \<le> 8"
    proof (rule ccontr)
      assume "\<not> index \<le> 8"
      with "1.prems"(2) have "index = 9" by simp
      with "1.prems"(1) \<open>127 < unat v\<close> show False by simp
    qed
    have e: "64 - 7 * index = 7 + (64 - 7 * Suc index)" using i by simp
    have "unat v < 2 ^ 7 * 2 ^ (64 - 7 * Suc index)" using "1.prems"(1) unfolding e power_add .
    then have less: "unat (drop_bit 7 v) < 2 ^ (64 - 7 * Suc index)"
      by (simp only: unat_drop7) (simp add: less_mult_imp_div_less mult.commute)
    have w: "varint_octets v = ?b # varint_octets (drop_bit 7 v)" using True by (simp add: varint_octets.simps [of v])
    have low: "ucast (?b AND 0x7F) = v AND 0x7F"
      unfolding byte_low7 unfolding mask_7 by (rule bit_word_eqI) (auto simp: bit_simps)
    have "read_varint_loop index acc (varint_octets v @ rest)
        = read_varint_loop (Suc index) (acc OR push_bit (7 * index) (v AND 0x7F)) (varint_octets (drop_bit 7 v) @ rest)"
      unfolding w append_Cons read_varint_loop.simps(2) Let_def low
      using i byte_more [of v] by (simp only: max_varint_bytes_def if_False) simp
    also have "\<dots> = Inr ((acc OR push_bit (7 * index) (v AND 0x7F)) OR push_bit (7 * Suc index) (drop_bit 7 v), rest)"
      using i less by (intro "1.IH" True) auto
    finally show ?thesis by (simp only: or.assoc varint_recombine)
  next
    case False
    have small: "unat v < 128" using False by (simp add: word_less_nat_alt not_less)
    let ?b = "ucast v :: byte"
    have u: "unat ?b = unat v" using small by (simp add: unsigned_ucast_eq take_bit_eq_mod)
    have v: "v AND 0x7F = v" using small
      unfolding mask_7 word_unat_eq_iff unat_and_mask by simp
    have w: "varint_octets v = [?b]" using False by (simp add: varint_octets.simps [of v])
    have b: "?b = ucast (v AND mask 7)" using v by (simp only: mask_7)
    have more: "?b AND 0x80 = 0"
      unfolding b by (rule bit_word_eqI) (auto simp: bit_simps bit_80)
    have "ucast (?b AND 0x7F) = v AND 0x7F"
      unfolding mask_7 by (rule bit_word_eqI) (auto simp: bit_simps)
    then have low: "ucast (?b AND 0x7F) = v" by (simp only: v)
    have ok: "\<not> (index + 1 = max_varint_bytes \<and> ?b > 1)"
      using "1.prems"(1) u by (auto simp: max_varint_bytes_def word_less_nat_alt)
    show ?thesis
      unfolding w append_Cons append_Nil read_varint_loop.simps(2) Let_def low more if_not_P [OF ok] by simp
  qed
qed

lemma read_varint_octets: "read_varint (varint_octets v @ rest) = Inr (v, rest)"
  using read_varint_loop_octets [of v 0 0 rest] unsigned_less [of v, where ?'a = nat]
  by (simp add: read_varint_def)

definition field_number_ok :: "u32 \<Rightarrow> bool" where
  "field_number_ok number \<longleftrightarrow> 1 \<le> unat number \<and> unat number \<le> 0x1FFFFFFF"

lemma tag_parts:
  assumes "field_number_ok number"
  shows "drop_bit 3 (push_bit 3 (ucast number) OR wire_type_value kind) = (ucast number :: u64)"
    "(push_bit 3 (ucast number) OR wire_type_value kind) AND 7 = wire_type_value kind"
proof -
  have k: "drop_bit 3 (wire_type_value kind) = 0" "wire_type_value kind AND 7 = wire_type_value kind"
    by (cases kind; simp add: wire_type_value_def)+
  have "unat number < 2 ^ 61" using assms by (simp add: field_number_ok_def)
  have "drop_bit 3 (push_bit 3 (ucast number :: u64)) = ucast number"
    by (rule bit_word_eqI) (auto simp: bit_simps dest: bit_imp_le_length)
  then show "drop_bit 3 (push_bit 3 (ucast number) OR wire_type_value kind) = (ucast number :: u64)"
    by (simp add: drop_bit_or k)
  have m: "(7 :: u64) = mask 3" by (simp add: mask_eq_exp_minus_1)
  have "push_bit 3 (ucast number :: u64) AND 7 = 0"
    unfolding m by (rule bit_word_eqI) (auto simp: bit_simps)
  then show "(push_bit 3 (ucast number) OR wire_type_value kind) AND 7 = wire_type_value kind"
    by (simp add: bit.conj_disj_distrib2 k)
qed

lemma wire_type_of_value: "skippable (wire_type_value kind)" "wire_type_of (wire_type_value kind) = kind"
  by (cases kind; simp add: skippable_def wire_type_of_def wire_type_value_def)+

definition tag_octets :: "u32 \<Rightarrow> wire_type \<Rightarrow> binary" where
  "tag_octets number kind = varint_octets (push_bit 3 (ucast number) OR wire_type_value kind)"

lemma read_header_tag:
  assumes "field_number_ok number"
  shows "read_header (tag_octets number kind @ rest) = Inr (\<lparr>fh_number = number, fh_kind = kind\<rparr>, rest)"
proof -
  have u: "unat (ucast number :: u64) = unat number" using unsigned_less [of number, where ?'a = nat] by (simp add: unsigned_ucast_eq take_bit_nat_eq_self)
  have "ucast number \<noteq> (0 :: u64)" "\<not> ucast number > max_field_number"
    using assms u by (auto simp: field_number_ok_def max_field_number_def word_less_nat_alt simp flip: unat_eq_zero)
  moreover have "ucast (ucast number :: u64) = number" by (rule bit_word_eqI) (auto simp: bit_simps)
  ultimately show ?thesis
    by (simp only: read_header_def tag_octets_def read_varint_octets and_then_simps case_prod_conv Let_def
        tag_parts [OF assms] wire_type_of_value) simp
qed

definition field_octets :: "u32 \<Rightarrow> binary \<Rightarrow> binary" where
  "field_octets number bs = tag_octets number W_length_delimited @ varint_octets (word_of_nat (length bs)) @ bs"

definition varint_field_octets :: "u32 \<Rightarrow> u64 \<Rightarrow> binary" where
  "varint_field_octets number v = tag_octets number W_varint @ varint_octets v"

lemma put_octets:
  "put_tag out number kind = out @ tag_octets number kind"
  "put_field out number bs = out @ field_octets number bs"
  "put_text_field out number txt = out @ field_octets number (to_bytes txt)"
  "put_varint_field out number v = out @ varint_field_octets number v"
  by (simp_all add: put_tag_def put_varint_def put_field_def put_text_field_def put_varint_field_def
      tag_octets_def field_octets_def varint_field_octets_def)

lemma read_length_delimited_octets:
  "length bs < 2 ^ 64 \<Longrightarrow>
     read_length_delimited (varint_octets (word_of_nat (length bs)) @ bs @ rest) = Inr (bs, rest)"
  by (simp add: read_length_delimited_def read_varint_octets unat_of_nat)

lemma varint_octets_length: "1 \<le> length (varint_octets v) \<and> length (varint_octets v) \<le> 10"
  using read_varint_consumes [OF read_varint_octets [of v "[]", simplified]] by auto

text \<open>
  C15: every 64-bit number is read back from its varint, whatever follows it; a varint has one to
  ten octets, and no read takes more than ten octets from its input or fails to take one.
\<close>

theorem varint_round_trip:
  "read_varint (put_varint [] v @ rest) = Inr (v, rest) \<and> 1 \<le> length (put_varint [] v) \<and> length (put_varint [] v) \<le> 10 \<and>
   (case read_varint bs of
      Inr (_, left) \<Rightarrow> length left < length bs \<and> length bs \<le> length left + 10
    | Inl e \<Rightarrow> err_code e = parse_error)"
proof -
  have "err_code e = parse_error" if "read_varint_loop index v bs = Inl e" for index v e
    using that by (induction index v bs rule: read_varint_loop.induct) (auto simp: fail_def Let_def split: if_splits)
  then show ?thesis
    using varint_octets_length [of v] read_varint_consumes [of bs]
    by (fastforce simp: put_varint_def read_varint_octets read_varint_def [of bs] split: sum.split)
qed

end
