(* ===== verification/Protobuf_Format.thy ===== *)
theory Protobuf_Format
  imports Protobuf_Wire Events
begin

unbundle bit_operations_syntax

text \<open>
  \<open>include/cloudevents/format/protobuf_format.hpp\<close>: events in the Protobuf format. A message body is
  walked field by field; a visitor is a function from a field and what has been found so far to
  what has been found then. A visitor that fails ends the decode call, and what it had found is
  not seen again. Views into the input are the texts and octets they view.
\<close>

section \<open>Limits and options\<close>

definition pb_content_type :: string where
  "pb_content_type = ''application/cloudevents+protobuf''"

definition pb_batch_content_type :: string where
  "pb_batch_content_type = ''application/cloudevents-batch+protobuf''"

definition default_max_encoded_size :: nat where "default_max_encoded_size = 16 * (1024 * 1024)"
definition default_max_attribute_count :: nat where "default_max_attribute_count = 1024"
definition default_max_batch_event_count :: nat where "default_max_batch_event_count = 100000"

record pb_options =
  max_encoded_size :: nat
  max_attribute_count :: nat
  max_batch_event_count :: nat

definition default_pb_options :: pb_options where
  "default_pb_options = \<lparr>max_encoded_size = default_max_encoded_size,
     max_attribute_count = default_max_attribute_count,
     max_batch_event_count = default_max_batch_event_count\<rparr>"


section \<open>Fields\<close>

record pfield =
  pf_number :: u32
  pf_kind :: wire_type
  pf_varint :: u64
  pf_body :: binary

definition read_field :: "binary \<Rightarrow> (pfield option \<times> binary) result" where
  "read_field bs =
     and_then (read_header bs) (\<lambda>(head, rest).
       let current = \<lparr>pf_number = fh_number head, pf_kind = fh_kind head, pf_varint = 0, pf_body = []\<rparr>
       in if fh_kind head = W_varint
          then and_then (read_varint rest) (\<lambda>(v, rest). Inr (Some (current\<lparr>pf_varint := v\<rparr>), rest))
          else if fh_kind head = W_length_delimited
          then and_then (read_length_delimited rest) (\<lambda>(b, rest). Inr (Some (current\<lparr>pf_body := b\<rparr>), rest))
          else and_then (skip_field (fh_kind head) rest) (\<lambda>rest. Inr (None, rest)))"

lemma read_field_length: "read_field bs = Inr (f, rest) \<Longrightarrow> length rest < length bs"
  by (auto simp: read_field_def and_then_eq_Inr Let_def split: if_splits prod.splits
      dest!: read_header_length read_varint_length read_length_delimited_length skip_field_length)

function for_each_field :: "(pfield \<Rightarrow> 's \<Rightarrow> 's result) \<Rightarrow> binary \<Rightarrow> 's \<Rightarrow> 's result" where
  "for_each_field visit bs s =
     (if bs = [] then Inr s
      else (case read_field bs of
          Inl e \<Rightarrow> Inl e
        | Inr (None, rest) \<Rightarrow> for_each_field visit rest s
        | Inr (Some current, rest) \<Rightarrow> and_then (visit current s) (\<lambda>s. for_each_field visit rest s)))"
  by pat_completeness auto
termination by (relation "measure (\<lambda>(visit, bs, s). length bs)") (auto dest: read_field_length)

declare for_each_field.simps [simp del]


section \<open>Timestamps\<close>

definition max_timestamp_seconds :: int where "max_timestamp_seconds = 9223372035"

definition digits_holding :: "int \<Rightarrow> nat" where
  "digits_holding fraction =
     (if fraction = 0 then 0 else if fraction mod 1000000 = 0 then 3 else if fraction mod 1000 = 0 then 6 else 9)"

definition make_instant :: "int \<Rightarrow> int \<Rightarrow> timestamp result" where
  "make_instant seconds nanos =
     (if nanos < 0 \<or> nanos \<ge> 1000000000
      then fail invalid_timestamp ''Timestamp.nanos is outside 0 to 999999999'' ''''
      else if seconds > max_timestamp_seconds \<or> seconds < - max_timestamp_seconds
      then fail invalid_timestamp
        ''the instant is outside the range of the timestamp type (years 1678 to 2262)'' ''''
      else Inr \<lparr>ts_utc = seconds * 1000000000 + nanos, ts_offset = 0, ts_form = utc_designator,
                ts_digits = digits_holding nanos\<rparr>)"

definition read_timestamp :: "binary \<Rightarrow> timestamp result" where
  "read_timestamp bs =
     and_then (for_each_field (\<lambda>current (seconds, nanos).
         if pf_kind current = W_varint \<and> pf_number current = 1 then Inr (sint (pf_varint current), nanos)
         else if pf_kind current = W_varint \<and> pf_number current = 2 then Inr (seconds, sint (pf_varint current))
         else Inr (seconds, nanos)) bs (0, 0))
       (\<lambda>(seconds, nanos). make_instant seconds nanos)"


section \<open>Attribute values\<close>

definition read_integer :: "u64 \<Rightarrow> attribute_value result" where
  "read_integer wire =
     (let v = sint wire
      in if v < int32_min \<or> v > int32_max then fail out_of_range ''ce_integer is outside the range of int32'' ''''
         else Inr (Int32 v))"

definition read_varint_arm :: "pfield \<Rightarrow> attribute_value option result" where
  "read_varint_arm current =
     (if pf_number current = 1 then Inr (Some (Bool (pf_varint current \<noteq> 0)))
      else if pf_number current \<noteq> 2 then Inr None
      else and_then (read_integer (pf_varint current)) (\<lambda>v. Inr (Some v)))"

definition read_text_arm :: "pfield \<Rightarrow> attribute_value option result" where
  "read_text_arm current =
     and_then (read_text (pf_body current)) (\<lambda>s.
       if pf_number current = 5 then Inr (Some (Uri s))
       else if pf_number current = 6 then Inr (Some (Uri_ref s))
       else Inr (Some (Str s)))"

definition read_length_arm :: "pfield \<Rightarrow> attribute_value option result" where
  "read_length_arm current =
     (if pf_number current = 4 then Inr (Some (Bin (pf_body current)))
      else if pf_number current = 7 then and_then (read_timestamp (pf_body current)) (\<lambda>t. Inr (Some (Time t)))
      else if pf_number current = 3 \<or> pf_number current = 5 \<or> pf_number current = 6 then read_text_arm current
      else Inr None)"

definition read_value :: "binary \<Rightarrow> attribute_value option result" where
  "read_value bs =
     for_each_field (\<lambda>current v.
         and_then (if pf_kind current = W_varint then read_varint_arm current else read_length_arm current)
           (\<lambda>r. Inr (case r of Some _ \<Rightarrow> r | None \<Rightarrow> v))) bs None"

type_synonym attribute_map = "(string, attribute_value option) omap"

definition read_entry :: "binary \<Rightarrow> attribute_map \<Rightarrow> attribute_map result" where
  "read_entry bs attributes =
     and_then (for_each_field (\<lambda>current (key, v).
         if pf_kind current \<noteq> W_length_delimited then Inr (key, v)
         else if pf_number current = 1 then and_then (read_text (pf_body current)) (\<lambda>s. Inr (s, v))
         else if pf_number current = 2 then and_then (read_value (pf_body current)) (\<lambda>r. Inr (key, r))
         else Inr (key, v)) bs ([], None))
       (\<lambda>(key, v). Inr (om_insert_or_assign key v attributes))"


section \<open>The wire message\<close>

datatype data_field = DF_none | DF_binary_data | DF_text_data | DF_proto_data

record raw_event =
  r_id :: string
  r_source :: string
  r_version :: string
  r_type :: string
  r_attributes :: attribute_map
  r_attribute_entries :: nat
  r_data_kind :: data_field
  r_data :: binary
  r_type_url :: string

definition no_raw_event :: raw_event where
  "no_raw_event = \<lparr>r_id = [], r_source = [], r_version = [], r_type = [], r_attributes = [],
     r_attribute_entries = 0, r_data_kind = DF_none, r_data = [], r_type_url = []\<rparr>"

definition uri_punctuation :: string where
  "uri_punctuation = ''-._~:/?#[]@!$&'' @ [CHR 0x27] @ ''()*+,;=''"

definition is_ascii_alphanumeric :: "char \<Rightarrow> bool" where
  "is_ascii_alphanumeric c \<longleftrightarrow> is_lower c \<or> is_upper c \<or> is_digit c"

definition is_hex_digit :: "char \<Rightarrow> bool" where
  "is_hex_digit c \<longleftrightarrow> is_digit c \<or> CHR ''a'' \<le> c \<and> c \<le> CHR ''f'' \<or> CHR ''A'' \<le> c \<and> c \<le> CHR ''F''"

text \<open>The loop of \<open>valid_uri_reference\<close>: the escape digits that are due at the end, \<open>None\<close> when refused.\<close>

fun uri_loop :: "nat \<Rightarrow> string \<Rightarrow> nat option" where
  "uri_loop due [] = Some due"
| "uri_loop due (c # cs) =
     (if due > 0 then (if \<not> is_hex_digit c then None else uri_loop (due - 1) cs)
      else if c = CHR ''%'' then uri_loop 2 cs
      else if \<not> is_ascii_alphanumeric c \<and> c \<notin> set uri_punctuation then None
      else uri_loop due cs)"

definition valid_uri_reference :: "string \<Rightarrow> bool" where
  "valid_uri_reference txt \<longleftrightarrow> uri_loop 0 txt = Some 0 \<and> count_list txt (CHR ''#'') \<le> 1"

definition pb_store_required :: "pfield \<Rightarrow> raw_event \<Rightarrow> raw_event result" where
  "pb_store_required current into =
     and_then (read_text (pf_body current)) (\<lambda>s.
       if pf_number current = 1 then Inr (into\<lparr>r_id := s\<rparr>)
       else if pf_number current = 2 then Inr (into\<lparr>r_source := s\<rparr>)
       else if pf_number current = 3 then Inr (into\<lparr>r_version := s\<rparr>)
       else Inr (into\<lparr>r_type := s\<rparr>))"

definition store_attribute_entry :: "pfield \<Rightarrow> pb_options \<Rightarrow> raw_event \<Rightarrow> raw_event result" where
  "store_attribute_entry current options into =
     (let into = into\<lparr>r_attribute_entries := r_attribute_entries into + 1\<rparr>
      in if r_attribute_entries into > max_attribute_count options
         then fail out_of_range ''the event has more attributes than the limit allows'' ''''
         else and_then (read_entry (pf_body current) (r_attributes into)) (\<lambda>m. Inr (into\<lparr>r_attributes := m\<rparr>)))"

definition store_any :: "binary \<Rightarrow> raw_event \<Rightarrow> raw_event result" where
  "store_any bs into =
     and_then (for_each_field (\<lambda>current (type_url, v).
         if pf_kind current \<noteq> W_length_delimited then Inr (type_url, v)
         else if pf_number current = 2 then Inr (type_url, pf_body current)
         else if pf_number current = 1 then and_then (read_text (pf_body current)) (\<lambda>s. Inr (s, v))
         else Inr (type_url, v)) bs ([], []))
       (\<lambda>(type_url, v).
          if \<not> valid_uri_reference type_url
          then fail parse_error ''the Any type URL is not a URI-reference'' ''proto_data''
          else Inr (into\<lparr>r_type_url := type_url, r_data := v\<rparr>))"

definition store_data :: "pfield \<Rightarrow> raw_event \<Rightarrow> raw_event result" where
  "store_data current into =
     (let into = into\<lparr>r_type_url := [], r_data := pf_body current\<rparr>
      in if pf_number current = 6 then Inr (into\<lparr>r_data_kind := DF_binary_data\<rparr>)
         else if pf_number current = 8 then store_any (pf_body current) (into\<lparr>r_data_kind := DF_proto_data\<rparr>)
         else and_then (read_text (pf_body current)) (\<lambda>_. Inr (into\<lparr>r_data_kind := DF_text_data\<rparr>)))"

definition store_field :: "pb_options \<Rightarrow> pfield \<Rightarrow> raw_event \<Rightarrow> raw_event result" where
  "store_field options current into =
     (if pf_kind current \<noteq> W_length_delimited then Inr into
      else if pf_number current \<le> 4 then pb_store_required current into
      else if pf_number current = 5 then store_attribute_entry current options into
      else if pf_number current \<le> 8 then store_data current into
      else Inr into)"

definition scan_event :: "binary \<Rightarrow> pb_options \<Rightarrow> raw_event result" where
  "scan_event bs options = for_each_field (store_field options) bs no_raw_event"


section \<open>From the wire message to the event\<close>

definition text_of_string_arm :: "attribute_value \<Rightarrow> string option" where
  "text_of_string_arm v = (case v of Str s \<Rightarrow> Some s | _ \<Rightarrow> None)"

definition text_of_uri_arm :: "attribute_value \<Rightarrow> string option" where
  "text_of_uri_arm v = (case v of Uri s \<Rightarrow> Some s | Uri_ref s \<Rightarrow> Some s | _ \<Rightarrow> None)"

definition store_text :: "policy \<Rightarrow> string option \<Rightarrow> string \<Rightarrow> (string option) result" where
  "store_text p carried name =
     (case carried of
        None \<Rightarrow> fail type_mismatch ''the attribute is carried in the wrong arm of its value'' name
      | Some s \<Rightarrow> store_attribute p s)"

definition pb_store_time :: "attribute_value \<Rightarrow> (timestamp option) result" where
  "pb_store_time v =
     (case v of Time t \<Rightarrow> Inr (Some t)
      | _ \<Rightarrow> fail type_mismatch ''time is carried in the wrong arm of its value'' ''time'')"

definition store_extension :: "string \<Rightarrow> attribute_value \<Rightarrow> 'j options \<Rightarrow> 'j options result" where
  "store_extension name v into =
     and_then_at (make_validated extension_name_policy name) name (\<lambda>attribute.
       Inr (into\<lparr>o_extensions := om_insert_or_assign attribute v (o_extensions into)\<rparr>))"

definition pb_apply_attribute :: "string \<Rightarrow> attribute_value \<Rightarrow> 'j options \<Rightarrow> 'j options result" where
  "pb_apply_attribute name v into =
     (if name = ''datacontenttype''
      then and_then (store_text datacontenttype_policy (text_of_string_arm v) name) (\<lambda>s. Inr (into\<lparr>o_datacontenttype := s\<rparr>))
      else if name = ''dataschema''
      then and_then (store_text dataschema_policy (text_of_uri_arm v) name) (\<lambda>s. Inr (into\<lparr>o_dataschema := s\<rparr>))
      else if name = ''subject''
      then and_then (store_text subject_policy (text_of_string_arm v) name) (\<lambda>s. Inr (into\<lparr>o_subject := s\<rparr>))
      else if name = ''time''
      then and_then (pb_store_time v) (\<lambda>t. Inr (into\<lparr>o_time := t\<rparr>))
      else store_extension name v into)"

fun apply_attributes :: "attribute_map \<Rightarrow> 'j options \<Rightarrow> 'j options result" where
  "apply_attributes [] into = Inr into"
| "apply_attributes ((name, v) # attributes) into =
     (case v of
        None \<Rightarrow> fail invalid_attribute_value ''an attribute value has no arm set'' name
      | Some held \<Rightarrow> and_then (pb_apply_attribute name held into) (\<lambda>into. apply_attributes attributes into))"

definition apply_proto_data :: "raw_event \<Rightarrow> 'j options \<Rightarrow> 'j options result" where
  "apply_proto_data wire into =
     (let into = (if o_datacontenttype into = None then into\<lparr>o_datacontenttype := Some ''application/protobuf''\<rparr> else into)
      in and_then
           (if o_dataschema into = None \<and> r_type_url wire \<noteq> []
            then and_then (make_validated dataschema_policy (r_type_url wire)) (\<lambda>schema. Inr (into\<lparr>o_dataschema := Some schema\<rparr>))
            else Inr into)
           (\<lambda>into. Inr (into\<lparr>o_data := Binary_data (r_data wire)\<rparr>)))"

definition apply_data :: "raw_event \<Rightarrow> 'j options \<Rightarrow> 'j options result" where
  "apply_data wire into =
     (case r_data_kind wire of
        DF_none \<Rightarrow> Inr into
      | DF_text_data \<Rightarrow> Inr (into\<lparr>o_data := Text_data (text_view (r_data wire))\<rparr>)
      | DF_binary_data \<Rightarrow>
          Inr (if r_data wire \<noteq> [] \<or> o_datacontenttype into \<noteq> None
               then into\<lparr>o_data := Binary_data (r_data wire)\<rparr> else into)
      | DF_proto_data \<Rightarrow> apply_proto_data wire into)"

definition build_event :: "raw_event \<Rightarrow> 'j event result" where
  "build_event wire =
     and_then (spec_version_make (r_version wire)) (\<lambda>_.
     and_then (store_attribute id_policy (r_id wire)) (\<lambda>i.
     and_then (store_attribute source_policy (r_source wire)) (\<lambda>s.
     and_then (store_attribute type_policy (r_type wire)) (\<lambda>t.
     and_then (apply_attributes (r_attributes wire) no_options) (\<lambda>rest.
     and_then (apply_data wire rest) (\<lambda>rest.
       build \<lparr>b_id = i, b_source = s, b_type = t, b_rest = rest\<rparr>))))))"

definition scan_limited :: "binary \<Rightarrow> pb_options \<Rightarrow> raw_event result" where
  "scan_limited encoded options =
     (if length encoded > max_encoded_size options
      then fail out_of_range ''the encoded event is larger than the limit allows'' ''''
      else scan_event encoded options)"

definition decode_event :: "binary \<Rightarrow> pb_options \<Rightarrow> 'j event result" where
  "decode_event encoded options = and_then (scan_limited encoded options) build_event"

definition decode_detailed_event :: "binary \<Rightarrow> pb_options \<Rightarrow> ('j event \<times> string option) result" where
  "decode_detailed_event encoded options =
     and_then (scan_limited encoded options) (\<lambda>wire.
       let type_url = (if r_data_kind wire = DF_proto_data \<and> r_type_url wire \<noteq> [] then Some (r_type_url wire) else None)
       in and_then (build_event wire) (\<lambda>ev. Inr (ev, type_url)))"

definition batch_bodies :: "binary \<Rightarrow> pb_options \<Rightarrow> binary list result" where
  "batch_bodies encoded options =
     for_each_field (\<lambda>current bodies.
         if pf_kind current \<noteq> W_length_delimited \<or> pf_number current \<noteq> 1 then Inr bodies
         else if length bodies \<ge> max_batch_event_count options
         then fail out_of_range ''the batch has more events than the limit allows'' ''''
         else Inr (bodies @ [pf_body current])) encoded []"

fun decode_bodies :: "binary list \<Rightarrow> pb_options \<Rightarrow> 'j event list \<Rightarrow> 'j event list result" where
  "decode_bodies [] options events = Inr events"
| "decode_bodies (encoded # bodies) options events =
     and_then (decode_event encoded options) (\<lambda>decoded. decode_bodies bodies options (events @ [decoded]))"

definition decode_events :: "binary \<Rightarrow> pb_options \<Rightarrow> 'j event list result" where
  "decode_events encoded options = and_then (batch_bodies encoded options) (\<lambda>bodies. decode_bodies bodies options [])"

definition parse_json_payload :: "'j codec \<Rightarrow> 'j event \<Rightarrow> ('j option) result" where
  "parse_json_payload C ev =
     (if case o_datacontenttype (e_rest ev) of None \<Rightarrow> True | Some m \<Rightarrow> \<not> is_json_content_type m then Inr None
      else
        (case (case o_data (e_rest ev) of Text_data held \<Rightarrow> Some held | Binary_data octets \<Rightarrow> Some (text_view octets)
               | _ \<Rightarrow> None) of
           None \<Rightarrow> Inr None
         | Some carried \<Rightarrow> and_then_at (c_parse C carried) ''data'' (\<lambda>parsed. Inr (Some parsed))))"


section \<open>Writing\<close>

definition put_timestamp_arm :: "binary \<Rightarrow> timestamp \<Rightarrow> binary" where
  "put_timestamp_arm out v =
     (let seconds = ts_utc v div 1000000000;
          nanos = wrap64 (ts_utc v - wrap64 (seconds * 1000000000));
          bs = (if seconds \<noteq> 0 then put_varint_field [] 1 (word_of_int seconds) else []);
          bs = (if nanos \<noteq> 0 then put_varint_field bs 2 (word_of_int nanos) else bs)
      in put_field out 7 bs)"

definition put_arm :: "binary \<Rightarrow> attribute_value \<Rightarrow> binary" where
  "put_arm out v =
     (case v of
        Bool b \<Rightarrow> put_varint_field out 1 (if b then 1 else 0)
      | Int32 i \<Rightarrow> put_varint_field out 2 (word_of_int i)
      | Str s \<Rightarrow> put_text_field out 3 s
      | Bin b \<Rightarrow> put_field out 4 b
      | Uri s \<Rightarrow> put_text_field out 5 s
      | Uri_ref s \<Rightarrow> put_text_field out 6 s
      | Time t \<Rightarrow> put_timestamp_arm out t)"

definition encode_value :: "attribute_value \<Rightarrow> binary" where
  "encode_value v = put_arm [] v"

definition emplace_present :: "string \<Rightarrow> attribute_value option \<Rightarrow> (string, binary) omap \<Rightarrow> (string, binary) omap" where
  "emplace_present name present bodies =
     (case present of Some v \<Rightarrow> om_emplace name (encode_value v) bodies | None \<Rightarrow> bodies)"

definition encode_attributes :: "'j event \<Rightarrow> (string, binary) omap" where
  "encode_attributes ev =
     (let rest = e_rest ev;
          bodies = emplace_present ''datacontenttype'' (map_option Str (o_datacontenttype rest)) [];
          bodies = emplace_present ''dataschema'' (map_option Uri (o_dataschema rest)) bodies;
          bodies = emplace_present ''subject'' (map_option Str (o_subject rest)) bodies;
          bodies = emplace_present ''time'' (map_option Time (o_time rest)) bodies
      in fold (\<lambda>(name, v) bodies. om_emplace name (encode_value v) bodies) (o_extensions rest) bodies)"

definition put_entry :: "binary \<Rightarrow> string \<Rightarrow> binary \<Rightarrow> binary" where
  "put_entry out name v = put_field out 5 (put_field (put_text_field [] 1 name) 2 v)"

definition proto_type_url :: "'j event \<Rightarrow> string option" where
  "proto_type_url ev =
     (case (o_datacontenttype (e_rest ev), o_dataschema (e_rest ev)) of
        (Some m, Some schema) \<Rightarrow>
          if iequals m ''application/protobuf'' \<and> valid_uri_reference schema then Some schema else None
      | _ \<Rightarrow> None)"

definition put_any :: "binary \<Rightarrow> string \<Rightarrow> binary \<Rightarrow> binary" where
  "put_any out type_url v =
     (let any = (if type_url \<noteq> [] then put_text_field [] 1 type_url else []);
          any = put_field any 2 v
      in put_field out 8 any)"

definition put_data :: "binary \<Rightarrow> string option \<Rightarrow> 'j data_t \<Rightarrow> binary" where
  "put_data out type_url d =
     (case d of
        Binary_data v \<Rightarrow> (case type_url of Some url \<Rightarrow> put_any out url v | None \<Rightarrow> put_field out 6 v)
      | Text_data s \<Rightarrow> put_text_field out 7 s
      | Json_text s \<Rightarrow> put_text_field out 7 s
      | Json_document held \<Rightarrow> put_text_field out 7 (document_dump held)
      | No_data \<Rightarrow> out)"

definition encode_event :: "'j event \<Rightarrow> string option \<Rightarrow> binary" where
  "encode_event ev type_url =
     (let out = put_text_field [] 1 (e_id ev);
          out = put_text_field out 2 (e_source ev);
          out = put_text_field out 3 spec_version_view;
          out = put_text_field out 4 (e_type ev);
          out = fold (\<lambda>(name, bs) out. put_entry out name bs) (encode_attributes ev) out
      in put_data out type_url (o_data (e_rest ev)))"

definition encode_event_as_any :: "'j event \<Rightarrow> string \<Rightarrow> binary result" where
  "encode_event_as_any ev type_url =
     (if \<not> valid_uri_reference type_url
      then fail parse_error ''the type URL is not a URI-reference'' ''proto_data''
      else (case o_data (e_rest ev) of
          Binary_data _ \<Rightarrow> Inr (encode_event ev (Some type_url))
        | _ \<Rightarrow> fail type_mismatch ''proto_data carries a binary payload'' ''data''))"

definition encode_events :: "'j event list \<Rightarrow> binary" where
  "encode_events events = fold (\<lambda>ev out. put_field out 1 (encode_event ev (proto_type_url ev))) events []"


section \<open>The format\<close>

definition protobuf_encode :: "'j event \<Rightarrow> binary result" where
  "protobuf_encode ev = Inr (encode_event ev (proto_type_url ev))"

definition protobuf_decode :: "binary \<Rightarrow> pb_options \<Rightarrow> 'j event result" where
  "protobuf_decode encoded options = decode_event encoded options"

definition protobuf_encode_batch :: "'j event list \<Rightarrow> binary result" where
  "protobuf_encode_batch events = Inr (encode_events events)"

definition protobuf_decode_batch :: "binary \<Rightarrow> pb_options \<Rightarrow> 'j event list result" where
  "protobuf_decode_batch encoded options = decode_events encoded options"

definition protobuf_decode_as :: "'j codec \<Rightarrow> binary \<Rightarrow> pb_options \<Rightarrow> ('j event \<times> 'j option) result" where
  "protobuf_decode_as C encoded options =
     and_then (decode_event encoded options) (\<lambda>ev.
     and_then (parse_json_payload C ev) (\<lambda>payload. Inr (ev, payload)))"

definition protobuf_decode_detailed :: "binary \<Rightarrow> pb_options \<Rightarrow> ('j event \<times> string option) result" where
  "protobuf_decode_detailed encoded options = decode_detailed_event encoded options"

definition protobuf_encode_proto_data :: "'j event \<Rightarrow> string \<Rightarrow> binary result" where
  "protobuf_encode_proto_data ev type_url = encode_event_as_any ev type_url"

end
