(* ===== verification/Protobuf_Laws.thy ===== *)
theory Protobuf_Laws
  imports Protobuf_Format Binding_Properties
begin

text \<open>
  Reading the octets that the Protobuf format writes, and reading any octets: fields, values, map
  entries, whole events.
\<close>

section \<open>Reading fields that were written\<close>

definition text_field :: "u32 \<Rightarrow> binary \<Rightarrow> pfield" where
  "text_field number bs = \<lparr>pf_number = number, pf_kind = W_length_delimited, pf_varint = 0, pf_body = bs\<rparr>"

definition varint_field :: "u32 \<Rightarrow> u64 \<Rightarrow> pfield" where
  "varint_field number v = \<lparr>pf_number = number, pf_kind = W_varint, pf_varint = v, pf_body = []\<rparr>"

lemma field_simps [simp]:
  "pf_number (text_field number bs) = number" "pf_kind (text_field number bs) = W_length_delimited"
  "pf_body (text_field number bs) = bs" "pf_number (varint_field number v) = number"
  "pf_kind (varint_field number v) = W_varint" "pf_varint (varint_field number v) = v"
  by (simp_all add: text_field_def varint_field_def)

lemma octets_not_Nil: "field_octets number bs \<noteq> []" "varint_field_octets number v \<noteq> []"
  using varint_octets_length [of "push_bit 3 (ucast number) OR wire_type_value W_length_delimited"]
    varint_octets_length [of "push_bit 3 (ucast number) OR wire_type_value W_varint"]
  by (auto simp: field_octets_def varint_field_octets_def tag_octets_def)

lemma read_written_field:
  assumes "field_number_ok number"
  shows "length bs < 2 ^ 64 \<Longrightarrow> read_field (field_octets number bs @ rest) = Inr (Some (text_field number bs), rest)"
    and "read_field (varint_field_octets number v @ rest) = Inr (Some (varint_field number v), rest)"
  by (simp_all add: read_field_def field_octets_def varint_field_octets_def read_header_tag [OF assms]
      read_length_delimited_octets read_varint_octets text_field_def varint_field_def)

lemma for_each_written:
  assumes "field_number_ok number"
  shows "length bs < 2 ^ 64 \<Longrightarrow> for_each_field visit (field_octets number bs @ rest) s =
      and_then (visit (text_field number bs) s) (for_each_field visit rest)"
    and "for_each_field visit (varint_field_octets number v @ rest) s =
      and_then (visit (varint_field number v) s) (for_each_field visit rest)"
  using octets_not_Nil read_written_field [OF assms]
  by (simp_all add: for_each_field.simps [of visit "_ @ _"])

lemma for_each_Nil [simp]: "for_each_field visit [] s = Inr s"
  by (simp add: for_each_field.simps)

lemmas for_each_last = for_each_written [where rest = "[]", simplified]

lemma field_octets_length: "length bs < length (field_octets number bs)"
  using varint_octets_length [of "word_of_nat (length bs)"] by (auto simp: field_octets_def)

lemma for_each_single:
  assumes "field_number_ok number" "length (field_octets number bs) < 2 ^ 64"
  shows "for_each_field visit (field_octets number bs) s = visit (text_field number bs) s"
proof -
  have "length bs < 2 ^ 64" using assms(2) field_octets_length [of bs number] by simp
  then show ?thesis
    using for_each_last(1) [OF assms(1), of bs visit s] by (cases "visit (text_field number bs) s") simp_all
qed

text \<open>A sequence of length-delimited fields.\<close>

definition fields_octets :: "(u32 \<times> binary) list \<Rightarrow> binary" where
  "fields_octets fs = concat (map (\<lambda>(number, bs). field_octets number bs) fs)"

lemma fields_octets_simps [simp]:
  "fields_octets [] = []" "fields_octets ((number, bs) # fs) = field_octets number bs @ fields_octets fs"
  "fields_octets (fs @ gs) = fields_octets fs @ fields_octets gs"
  by (simp_all add: fields_octets_def)

fun visit_all :: "(pfield \<Rightarrow> 's \<Rightarrow> 's result) \<Rightarrow> (u32 \<times> binary) list \<Rightarrow> 's \<Rightarrow> 's result" where
  "visit_all visit [] s = Inr s"
| "visit_all visit ((number, bs) # fs) s = and_then (visit (text_field number bs) s) (visit_all visit fs)"

lemma visit_all_append: "visit_all visit (fs @ gs) s = and_then (visit_all visit fs s) (visit_all visit gs)"
  by (induction visit fs s rule: visit_all.induct) (auto simp: and_then_assoc intro!: and_then_cong)

lemma fields_octets_length: "(number, bs) \<in> set fs \<Longrightarrow> length bs < length (fields_octets fs)"
proof (induction fs)
  case (Cons f fs)
  then show ?case using field_octets_length [of bs number] by (cases f) auto
qed simp

lemma for_each_fields:
  "\<forall>f \<in> set fs. field_number_ok (fst f) \<Longrightarrow> length (fields_octets fs) < 2 ^ 64 \<Longrightarrow>
     for_each_field visit (fields_octets fs) s = visit_all visit fs s"
proof (induction visit fs s rule: visit_all.induct)
  case (2 visit number bs fs s)
  have "length bs < 2 ^ 64" using field_octets_length [of bs number] "2.prems"(2) by simp
  moreover have "length (fields_octets fs) < 2 ^ 64" using "2.prems"(2) by simp
  ultimately show ?case
    using 2 by (cases "visit (text_field number bs) s") (simp_all add: for_each_written)
qed simp


section \<open>Values\<close>

definition pb_time :: "timestamp \<Rightarrow> timestamp" where
  "pb_time t = \<lparr>ts_utc = ts_utc t, ts_offset = 0, ts_form = utc_designator,
     ts_digits = digits_holding (ts_utc t mod 1000000000)\<rparr>"

definition pb_value :: "attribute_value \<Rightarrow> attribute_value" where
  "pb_value a = (case a of Time t \<Rightarrow> Time (pb_time t) | _ \<Rightarrow> a)"

lemma numbers_ok:
  "field_number_ok 1" "field_number_ok 2" "field_number_ok 3" "field_number_ok 4" "field_number_ok 5"
  "field_number_ok 6" "field_number_ok 7" "field_number_ok 8"
  by (simp_all add: field_number_ok_def)

lemma sint_word_of_int: "- (2 ^ 63) \<le> i \<Longrightarrow> i < 2 ^ 63 \<Longrightarrow> sint (word_of_int i :: u64) = i"
  by (simp add: sint_sbintrunc' signed_take_bit_int_eq_self)

lemma read_text_bytes: "is_valid_utf8 s \<Longrightarrow> read_text (to_bytes s) = Inr s"
  by (simp add: read_text_def text_view_def to_bytes_def comp_def)

lemma seconds_nanos:
  assumes "ts_ok t"
  shows "- max_timestamp_seconds \<le> ts_utc t div 1000000000" "ts_utc t div 1000000000 \<le> max_timestamp_seconds"
    "wrap64 (ts_utc t - wrap64 (ts_utc t div 1000000000 * 1000000000)) = ts_utc t mod 1000000000"
proof -
  let ?s = "ts_utc t div 1000000000"
  have b: "- 9223372035 * 1000000000 \<le> ts_utc t" "ts_utc t < 9223372036 * 1000000000"
    using assms by (simp_all add: ts_ok_def representable_def)
  then have s: "- 9223372035 \<le> ?s" "?s \<le> 9223372035" by linarith+
  then show "- max_timestamp_seconds \<le> ?s" "?s \<le> max_timestamp_seconds" by (simp_all add: max_timestamp_seconds_def)
  have w: "wrap64 x = x" if "- (2 ^ 63) \<le> x" "x < 2 ^ 63" for x
    using that by (simp add: wrap64_def)
  have "wrap64 (?s * 1000000000) = ?s * 1000000000" using s by (intro w) simp_all
  moreover have "ts_utc t - ?s * 1000000000 = ts_utc t mod 1000000000" by (simp add: minus_div_mult_eq_mod)
  moreover have "0 \<le> ts_utc t mod 1000000000" "ts_utc t mod 1000000000 < 1000000000" by simp_all
  ultimately show "wrap64 (ts_utc t - wrap64 (?s * 1000000000)) = ts_utc t mod 1000000000"
    by (simp add: w)
qed

lemma make_instant_time:
  assumes "ts_ok t"
  shows "make_instant (ts_utc t div 1000000000) (ts_utc t mod 1000000000) = Inr (pb_time t)"
  using seconds_nanos (1,2) [OF assms]
  by (simp add: make_instant_def pb_time_def not_less)

lemma read_timestamp_written:
  assumes "ts_ok t"
  defines "s \<equiv> ts_utc t div 1000000000" and "n \<equiv> ts_utc t mod 1000000000"
  shows "read_timestamp ((if s \<noteq> 0 then varint_field_octets 1 (word_of_int s) else []) @
     (if n \<noteq> 0 then varint_field_octets 2 (word_of_int n) else [])) = Inr (pb_time t)"
proof -
  have s: "sint (word_of_int s :: u64) = s"
    using seconds_nanos (1,2) [OF assms(1)] by (intro sint_word_of_int) (simp_all add: s_def max_timestamp_seconds_def)
  have n: "sint (word_of_int n :: u64) = n" by (rule sint_word_of_int) (simp_all add: n_def less_le_trans [OF pos_mod_bound])
  have m: "make_instant s n = Inr (pb_time t)" using make_instant_time [OF assms(1)] by (simp add: s_def n_def)
  show ?thesis
    using m s n by (auto simp: read_timestamp_def for_each_written for_each_last numbers_ok)
qed

definition value_utf8 :: "attribute_value \<Rightarrow> bool" where
  "value_utf8 a \<longleftrightarrow> (case text_attribute a of Some s \<Rightarrow> is_valid_utf8 s | None \<Rightarrow> True)"

lemma read_encoded_value:
  assumes "value_ok a" "value_utf8 a" "length (encode_value a) < 2 ^ 64"
  shows "read_value (encode_value a) = Inr (Some (pb_value a))"
proof -
  show ?thesis
  proof (cases a)
    case (Bool b)
    then show ?thesis
      by (simp add: encode_value_def put_arm_def put_octets read_value_def for_each_last numbers_ok read_varint_arm_def pb_value_def)
  next
    case (Int32 i)
    then have i: "int32_min \<le> i" "i \<le> int32_max" using assms(1) by (simp_all add: value_ok_def)
    then have "sint (word_of_int i :: u64) = i" by (intro sint_word_of_int) (simp_all add: int32_min_def int32_max_def)
    with i Int32 show ?thesis
      by (simp add: encode_value_def put_arm_def put_octets read_value_def for_each_last numbers_ok
          read_varint_arm_def read_integer_def pb_value_def)
  next
    case (Time t)
    then have t: "ts_ok t" using assms(1) by (simp add: value_ok_def)
    define b where "b = (if ts_utc t div 1000000000 \<noteq> 0 then varint_field_octets 1 (word_of_int (ts_utc t div 1000000000)) else []) @
      (if ts_utc t mod 1000000000 \<noteq> 0 then varint_field_octets 2 (word_of_int (ts_utc t mod 1000000000)) else [])"
    have r: "read_timestamp b = Inr (pb_time t)" unfolding b_def by (rule read_timestamp_written [OF t])
    have e: "encode_value a = field_octets 7 b"
      by (simp only: b_def Time encode_value_def put_arm_def attribute_value.case put_timestamp_arm_def Let_def
          seconds_nanos(3) [OF t] put_octets append_Nil) simp
    show ?thesis
      using assms(3) unfolding e
      by (simp add: read_value_def for_each_single numbers_ok read_length_arm_def
          r Time pb_value_def)
  qed (use assms in \<open>simp_all add: encode_value_def put_arm_def put_octets read_value_def for_each_single numbers_ok
        read_length_arm_def read_text_arm_def read_text_bytes pb_value_def value_utf8_def text_attribute_def\<close>)
qed


section \<open>Map entries and data\<close>

definition entry_octets :: "string \<Rightarrow> binary \<Rightarrow> binary" where
  "entry_octets name bs = fields_octets [(1, to_bytes name), (2, bs)]"

lemma read_written_entry:
  assumes "is_valid_utf8 name" "value_ok a" "value_utf8 a" "length (entry_octets name (encode_value a)) < 2 ^ 64"
  shows "read_entry (entry_octets name (encode_value a)) m = Inr (om_insert_or_assign name (Some (pb_value a)) m)"
proof -
  have "length (encode_value a) < 2 ^ 64"
    using fields_octets_length [of 2 "encode_value a" "[(1, to_bytes name), (2, encode_value a)]"] assms(4)
    by (simp add: entry_octets_def)
  then show ?thesis
    using assms unfolding entry_octets_def read_entry_def
    by (subst for_each_fields) (simp_all add: numbers_ok read_text_bytes read_encoded_value)
qed

definition any_octets :: "string \<Rightarrow> binary \<Rightarrow> binary" where
  "any_octets url v = fields_octets ((if url \<noteq> [] then [(1, to_bytes url)] else []) @ [(2, v)])"

lemma store_written_any:
  assumes "valid_uri_reference url" "is_valid_utf8 url" "length (any_octets url v) < 2 ^ 64"
  shows "store_any (any_octets url v) into = Inr (into\<lparr>r_type_url := url, r_data := v\<rparr>)"
  using assms unfolding any_octets_def store_any_def
  by (subst for_each_fields) (auto simp: numbers_ok read_text_bytes)


section \<open>The fields of an event\<close>

definition emplace_value :: "string \<Rightarrow> attribute_value option \<Rightarrow> extension_map \<Rightarrow> extension_map" where
  "emplace_value name present m = (case present of Some v \<Rightarrow> om_emplace name v m | None \<Rightarrow> m)"

definition event_attributes :: "'j event \<Rightarrow> extension_map" where
  "event_attributes ev =
     (let rest = e_rest ev
      in fold (\<lambda>(name, v) m. om_emplace name v m) (o_extensions rest)
        (emplace_value ''time'' (map_option Time (o_time rest))
          (emplace_value ''subject'' (map_option Str (o_subject rest))
            (emplace_value ''dataschema'' (map_option Uri (o_dataschema rest))
              (emplace_value ''datacontenttype'' (map_option Str (o_datacontenttype rest)) [])))))"

definition on_values :: "('a \<Rightarrow> 'b) \<Rightarrow> (string, 'a) omap \<Rightarrow> (string, 'b) omap" where
  "on_values f m = map (\<lambda>(n, a). (n, f a)) m"

lemma on_values_simps [simp]:
  "on_values f [] = []" "on_values f ((n, a) # m) = (n, f a) # on_values f m"
  by (simp_all add: on_values_def)

lemma on_values_insert: "om_insert_or_assign n (f v) (on_values f m) = on_values f (om_insert_or_assign n v m)"
  by (induction n v m rule: om_insert_or_assign.induct) auto

lemma find_on_values: "om_find n (on_values f m) = map_option f (om_find n m)"
  by (induction m) (auto simp: om_find_def)

lemma on_values_emplace: "om_emplace n (f v) (on_values f m) = on_values f (om_emplace n v m)"
  by (simp add: om_emplace_def find_on_values on_values_insert split: option.split)

lemma om_ok_on_values: "om_ok (on_values f m) \<longleftrightarrow> om_ok m"
  by (simp add: om_ok_def on_values_def comp_def case_prod_beta)

lemma encode_attributes_values: "encode_attributes ev = on_values encode_value (event_attributes ev)"
proof -
  have f: "fold (\<lambda>(name, v) bodies. om_emplace name (encode_value v) bodies) xs (on_values encode_value m) =
      on_values encode_value (fold (\<lambda>(name, v) m. om_emplace name v m) xs m)" for xs m
    by (induction xs arbitrary: m) (auto simp: on_values_emplace)
  have e: "emplace_present name present (on_values encode_value m) = on_values encode_value (emplace_value name present m)"
    for name present m
    by (simp add: emplace_present_def emplace_value_def on_values_emplace split: option.split)
  show ?thesis
    using f [of "o_extensions (e_rest ev)"] e [of _ _ "[]"]
    by (simp add: encode_attributes_def event_attributes_def Let_def e)
qed

definition data_fields :: "string option \<Rightarrow> 'j data_t \<Rightarrow> (u32 \<times> binary) list" where
  "data_fields type_url d =
     (case d of
        Binary_data v \<Rightarrow> (case type_url of Some url \<Rightarrow> [(8, any_octets url v)] | None \<Rightarrow> [(6, v)])
      | Text_data s \<Rightarrow> [(7, to_bytes s)]
      | Json_text s \<Rightarrow> [(7, to_bytes s)]
      | Json_document held \<Rightarrow> [(7, to_bytes (document_dump held))]
      | No_data \<Rightarrow> [])"

definition entry_fields :: "extension_map \<Rightarrow> (u32 \<times> binary) list" where
  "entry_fields m = map (\<lambda>(n, a). (5, entry_octets n (encode_value a))) m"

definition event_fields :: "'j event \<Rightarrow> string option \<Rightarrow> (u32 \<times> binary) list" where
  "event_fields ev type_url =
     [(1, to_bytes (e_id ev)), (2, to_bytes (e_source ev)), (3, to_bytes spec_version_view), (4, to_bytes (e_type ev))] @
     entry_fields (event_attributes ev) @ data_fields type_url (o_data (e_rest ev))"

lemma encode_event_fields: "encode_event ev type_url = fields_octets (event_fields ev type_url)"
proof -
  have e: "fold (\<lambda>(name, bs) out. put_entry out name bs) (on_values encode_value m) out = out @ fields_octets (entry_fields m)"
    for m out
    by (induction m arbitrary: out) (auto simp: entry_fields_def put_entry_def put_octets entry_octets_def)
  have d: "put_data out type_url d = out @ fields_octets (data_fields type_url d)" for out and d :: "'a data_t"
    by (simp add: put_data_def data_fields_def put_any_def put_octets any_octets_def Let_def split: data_t.split option.split)
  show ?thesis
    by (simp add: encode_event_def event_fields_def encode_attributes_values e d put_octets Let_def)
qed

lemma event_fields_numbers: "\<forall>f \<in> set (event_fields ev type_url). field_number_ok (fst f)"
  by (auto simp: event_fields_def entry_fields_def data_fields_def numbers_ok split: data_t.split option.split)


section \<open>Scanning what was written\<close>

definition entry_ok :: "string \<Rightarrow> attribute_value \<Rightarrow> bool" where
  "entry_ok n a \<longleftrightarrow> is_valid_utf8 n \<and> value_ok a \<and> value_utf8 a \<and> length (entry_octets n (encode_value a)) < 2 ^ 64"

definition carried :: "attribute_value \<Rightarrow> attribute_value option" where
  "carried a = Some (pb_value a)"

lemma scan_entries:
  "\<forall>(n, a) \<in> set m. entry_ok n a \<Longrightarrow> r_attribute_entries r + length m \<le> max_attribute_count options \<Longrightarrow>
     visit_all (store_field options) (entry_fields m) r =
       Inr (r\<lparr>r_attributes := om.insert_all (on_values carried m) (r_attributes r),
              r_attribute_entries := r_attribute_entries r + length m\<rparr>)"
proof (induction m arbitrary: r)
  case (Cons entry m)
  obtain n a where e: "entry = (n, a)" by fastforce
  have "store_field options (text_field 5 (entry_octets n (encode_value a))) r =
      Inr (r\<lparr>r_attributes := om_insert_or_assign n (carried a) (r_attributes r),
             r_attribute_entries := r_attribute_entries r + 1\<rparr>)"
    using Cons.prems by (simp add: e store_field_def store_attribute_entry_def Let_def entry_ok_def read_written_entry carried_def)
  with Cons show ?case by (simp add: e entry_fields_def)
qed (simp add: entry_fields_def)

definition data_utf8 :: "'j data_t \<Rightarrow> bool" where
  "data_utf8 d \<longleftrightarrow> (case d of Text_data s \<Rightarrow> is_valid_utf8 s | Json_text s \<Rightarrow> is_valid_utf8 s
     | Json_document held \<Rightarrow> is_valid_utf8 (document_dump held) | _ \<Rightarrow> True)"

definition url_ok :: "string option \<Rightarrow> bool" where
  "url_ok type_url \<longleftrightarrow> (case type_url of Some url \<Rightarrow> valid_uri_reference url \<and> is_valid_utf8 url | None \<Rightarrow> True)"

definition written_data :: "string option \<Rightarrow> 'j data_t \<Rightarrow> raw_event \<Rightarrow> raw_event" where
  "written_data type_url d r =
     (case d of
        Binary_data v \<Rightarrow>
          (case type_url of
             Some url \<Rightarrow> r\<lparr>r_data_kind := DF_proto_data, r_data := v, r_type_url := url\<rparr>
           | None \<Rightarrow> r\<lparr>r_data_kind := DF_binary_data, r_data := v, r_type_url := []\<rparr>)
      | No_data \<Rightarrow> r
      | _ \<Rightarrow> r\<lparr>r_data_kind := DF_text_data, r_data := payload_bytes d, r_type_url := []\<rparr>)"

lemma scan_data:
  assumes "data_utf8 d" "url_ok type_url" "length (fields_octets (data_fields type_url d)) < 2 ^ 64"
  shows "visit_all (store_field options) (data_fields type_url d) r = Inr (written_data type_url d r)"
proof (cases d)
  case (Binary_data v)
  show ?thesis
  proof (cases type_url)
    case (Some url)
    have "length (any_octets url v) < 2 ^ 64"
      using assms(3) fields_octets_length [of 8 "any_octets url v" "data_fields type_url d"]
      by (simp add: Binary_data Some data_fields_def)
    then show ?thesis
      using assms(2) by (simp add: Binary_data Some data_fields_def written_data_def store_field_def store_data_def
          Let_def store_written_any url_ok_def)
  qed (simp add: Binary_data data_fields_def written_data_def store_field_def store_data_def Let_def)
qed (use assms(1) in \<open>simp_all add: data_fields_def written_data_def store_field_def store_data_def Let_def
      data_utf8_def read_text_bytes payload_bytes_def\<close>)

definition wire_event :: "'j event \<Rightarrow> string option \<Rightarrow> raw_event" where
  "wire_event ev type_url = written_data type_url (o_data (e_rest ev))
     \<lparr>r_id = e_id ev, r_source = e_source ev, r_version = spec_version_view, r_type = e_type ev,
      r_attributes = on_values carried (event_attributes ev), r_attribute_entries = length (event_attributes ev),
      r_data_kind = DF_none, r_data = [], r_type_url = []\<rparr>"

end
