(* ===== verification/Protobuf_Round_Trip.thy ===== *)
theory Protobuf_Round_Trip
  imports Protobuf_Laws
begin

text \<open>
  The round trips of the Protobuf format: one event, an event as \<open>Any\<close>, a batch.
\<close>

section \<open>The attributes of an event, in order\<close>

lemma om_ok_fold_emplace: "om_ok m \<Longrightarrow> om_ok (fold (\<lambda>(n, v) m. om_emplace n v m) xs m)"
  by (induction xs arbitrary: m) (auto simp: om_ok_emplace)

lemma find_fold_emplace:
  "om_find k (fold (\<lambda>(n, v) m. om_emplace n v m) xs m) =
     (case om_find k m of Some v \<Rightarrow> Some v | None \<Rightarrow> map_of xs k)"
  by (induction xs arbitrary: m) (auto simp: om_find_emplace split: option.splits)

lemma emplace_value_find:
  "om_find k (emplace_value n present m) =
     (case om_find k m of Some v \<Rightarrow> Some v | None \<Rightarrow> if k = n then present else None)"
  by (auto simp: emplace_value_def om_find_emplace split: option.splits)

lemma emplace_value_ok: "om_ok m \<Longrightarrow> om_ok (emplace_value n present m)"
  by (simp add: emplace_value_def om_ok_emplace split: option.split)

lemma event_attributes_om_ok: "om_ok (event_attributes ev)"
  by (simp add: event_attributes_def Let_def om_ok_fold_emplace emplace_value_ok)

definition context_attribute :: "'j event \<Rightarrow> string \<Rightarrow> attribute_value option" where
  "context_attribute ev n =
     (if n = ''datacontenttype'' then map_option Str (o_datacontenttype (e_rest ev))
      else if n = ''dataschema'' then map_option Uri (o_dataschema (e_rest ev))
      else if n = ''subject'' then map_option Str (o_subject (e_rest ev))
      else if n = ''time'' then map_option Time (o_time (e_rest ev))
      else None)"

lemma find_event_attributes:
  "om_find n (event_attributes ev) =
     (case context_attribute ev n of Some v \<Rightarrow> Some v | None \<Rightarrow> om_find n (o_extensions (e_rest ev)))"
proof -
  have e: "om_find n [] = None" by (simp add: om_find_def)
  show ?thesis
    unfolding event_attributes_def Let_def find_fold_emplace emplace_value_find e context_attribute_def
    by (simp add: om_find_def split: option.split)
qed

definition map_attribute_names :: "string list" where
  "map_attribute_names = [''datacontenttype'', ''dataschema'', ''subject'', ''time'']"

lemma extension_not_context:
  assumes "event_ok ev" "n \<in> set map_attribute_names"
  shows "om_find n (o_extensions (e_rest ev)) = None"
proof -
  have "reserved_name n" using assms(2) by (auto simp: map_attribute_names_def reserved_name_def reserved_names_def)
  then have "n \<notin> fst ` set (o_extensions (e_rest ev))" using extension_not_reserved [OF assms(1)] by fastforce
  then show ?thesis by (simp add: om_find_def map_of_eq_None_iff)
qed

lemma context_attribute_names: "context_attribute ev n \<noteq> None \<Longrightarrow> n \<in> set map_attribute_names"
  by (auto simp: context_attribute_def map_attribute_names_def split: if_splits)

lemma event_attributes_member:
  assumes "(n, a) \<in> set (event_attributes ev)"
  shows "context_attribute ev n = Some a \<or> (n, a) \<in> set (o_extensions (e_rest ev))"
proof -
  have "om_find n (event_attributes ev) = Some a"
    using assms om_ok_distinct [OF event_attributes_om_ok [of ev]] by (simp add: om_find_def)
  then show ?thesis
    unfolding find_event_attributes by (auto simp: om_find_def split: option.splits dest: map_of_SomeD)
qed


section \<open>Scanning\<close>

lemma context_attribute_fine:
  assumes "event_ok ev" "context_attribute ev n = Some a"
  shows "is_valid_utf8 n" "value_ok a" "value_utf8 a"
proof -
  have r: "options_ok (e_rest ev)" using assms(1) by (simp add: event_ok_def)
  show "is_valid_utf8 n"
    using context_attribute_names [of ev n] assms(2) by (auto simp: map_attribute_names_def is_valid_utf8_ascii_list)
  show "value_ok a" "value_utf8 a"
    using r assms(2) dataschema_rules.accepted subject_rules.accepted datacontenttype_rules.accepted
    by (auto simp: context_attribute_def options_ok_def accepted_by_def value_ok_def value_utf8_def text_attribute_def
        split: if_splits option.splits)
qed

lemma event_attributes_fine:
  assumes "event_ok ev" "texts_utf8 ev" "(n, a) \<in> set (event_attributes ev)"
  shows "is_valid_utf8 n \<and> value_ok a \<and> value_utf8 a"
  using event_attributes_member [OF assms(3)]
proof
  assume "context_attribute ev n = Some a"
  then show ?thesis using context_attribute_fine [OF assms(1)] by blast
next
  assume e: "(n, a) \<in> set (o_extensions (e_rest ev))"
  have "is_valid_utf8 n" using extension_name_rules.accepted extension_not_reserved [OF assms(1) e] by blast
  then show ?thesis
    using extension_not_reserved [OF assms(1) e] assms(2) e by (auto simp: texts_utf8_def value_utf8_def)
qed

lemma scan_written:
  assumes ev: "event_ok ev" "texts_utf8 ev" "data_utf8 (o_data (e_rest ev))" "url_ok type_url"
    and n: "length (event_attributes ev) \<le> max_attribute_count options"
    and l: "length (encode_event ev type_url) < 2 ^ 64"
  shows "scan_event (encode_event ev type_url) options = Inr (wire_event ev type_url)"
proof -
  have fs: "length (fields_octets (event_fields ev type_url)) < 2 ^ 64" using l by (simp only: encode_event_fields)
  have entries: "\<forall>(n, a) \<in> set (event_attributes ev). entry_ok n a"
  proof (clarify)
    fix n a assume m: "(n, a) \<in> set (event_attributes ev)"
    then have "(5, entry_octets n (encode_value a)) \<in> set (event_fields ev type_url)"
      by (force simp: event_fields_def entry_fields_def)
    from fields_octets_length [OF this] fs event_attributes_fine [OF ev(1,2) m] show "entry_ok n a"
      by (simp add: entry_ok_def)
  qed
  have d: "length (fields_octets (data_fields type_url (o_data (e_rest ev)))) < 2 ^ 64"
    using fs by (simp add: event_fields_def)
  have t: "is_valid_utf8 (e_id ev)" "is_valid_utf8 (e_source ev)" "is_valid_utf8 (e_type ev)" "is_valid_utf8 spec_version_view"
    using ev(1) id_rules.accepted source_rules.accepted type_rules.accepted
    by (auto simp: event_ok_def spec_version_view_def is_valid_utf8_ascii_list)
  have i: "om.insert_all (on_values carried (event_attributes ev)) [] = on_values carried (event_attributes ev)"
    by (rule om.insert_all_entries) (simp_all add: om_ok_on_values event_attributes_om_ok)
  show ?thesis
    unfolding scan_event_def encode_event_fields for_each_fields [OF event_fields_numbers fs]
    by (simp add: event_fields_def visit_all_append store_field_def pb_store_required_def read_text_bytes t no_raw_event_def
        scan_entries [OF entries] n scan_data [OF ev(3,4) d] i wire_event_def)
qed


section \<open>From the attributes to the event\<close>

definition put_attribute_value :: "string \<times> attribute_value \<Rightarrow> 'j options \<Rightarrow> 'j options" where
  "put_attribute_value entry into =
     (case entry of (n, a) \<Rightarrow>
        if n = ''datacontenttype'' then into\<lparr>o_datacontenttype := text_of_string_arm a\<rparr>
        else if n = ''dataschema'' then into\<lparr>o_dataschema := text_of_uri_arm a\<rparr>
        else if n = ''subject'' then into\<lparr>o_subject := text_of_string_arm a\<rparr>
        else if n = ''time'' then into\<lparr>o_time := (case a of Time t \<Rightarrow> Some t | _ \<Rightarrow> None)\<rparr>
        else into\<lparr>o_extensions := om_insert_or_assign n a (o_extensions into)\<rparr>)"

definition applicable :: "string \<Rightarrow> attribute_value \<Rightarrow> bool" where
  "applicable n a \<longleftrightarrow>
     (if n = ''datacontenttype'' then \<exists>s. a = Str s \<and> p_check datacontenttype_policy s = None
      else if n = ''dataschema'' then \<exists>s. a = Uri s \<and> p_check dataschema_policy s = None
      else if n = ''subject'' then \<exists>s. a = Str s \<and> p_check subject_policy s = None
      else if n = ''time'' then \<exists>t. a = Time t
      else p_check extension_name_policy n = None)"

lemma apply_applicable: "applicable n a \<Longrightarrow> pb_apply_attribute n a into = Inr (put_attribute_value (n, a) into)"
  by (auto simp: applicable_def pb_apply_attribute_def put_attribute_value_def store_text_def text_of_string_arm_def
      text_of_uri_arm_def pb_store_time_def store_extension_def datacontenttype_rules.store_Inr dataschema_rules.store_Inr
      subject_rules.store_Inr extension_name_rules.make_Inr and_then_eq_Inr and_then_at_eq_Inr split: if_splits)

lemma apply_all_applicable:
  "\<forall>(n, a) \<in> set m. applicable n (pb_value a) \<Longrightarrow>
     apply_attributes (on_values carried m) into = Inr (fold put_attribute_value (on_values pb_value m) into)"
  by (induction m arbitrary: into) (auto simp: carried_def apply_applicable)

lemma fold_put_fields:
  "distinct (map fst m) \<Longrightarrow>
     o_datacontenttype (fold put_attribute_value m into) =
       (case map_of m ''datacontenttype'' of Some a \<Rightarrow> text_of_string_arm a | None \<Rightarrow> o_datacontenttype into)"
  "distinct (map fst m) \<Longrightarrow>
     o_dataschema (fold put_attribute_value m into) =
       (case map_of m ''dataschema'' of Some a \<Rightarrow> text_of_uri_arm a | None \<Rightarrow> o_dataschema into)"
  "distinct (map fst m) \<Longrightarrow>
     o_subject (fold put_attribute_value m into) =
       (case map_of m ''subject'' of Some a \<Rightarrow> text_of_string_arm a | None \<Rightarrow> o_subject into)"
  "distinct (map fst m) \<Longrightarrow>
     o_time (fold put_attribute_value m into) =
       (case map_of m ''time'' of Some a \<Rightarrow> (case a of Time t \<Rightarrow> Some t | _ \<Rightarrow> None) | None \<Rightarrow> o_time into)"
  by (induction m arbitrary: into)
    (auto simp: put_attribute_value_def map_of_eq_None_iff [THEN iffD2] split: option.split)

lemma fold_put_extensions:
  "o_extensions (fold put_attribute_value m into) =
     om.insert_all (filter (\<lambda>entry. fst entry \<notin> set map_attribute_names) m) (o_extensions into)"
  by (induction m arbitrary: into) (auto simp: put_attribute_value_def map_attribute_names_def)

lemma fold_put_data: "o_data (fold put_attribute_value m into) = o_data into"
  by (induction m arbitrary: into) (auto simp: put_attribute_value_def)

definition pb_attributes :: "'j event \<Rightarrow> 'j options" where
  "pb_attributes ev = (e_rest ev)\<lparr>o_time := map_option pb_time (o_time (e_rest ev)),
     o_extensions := on_values pb_value (o_extensions (e_rest ev)), o_data := No_data\<rparr>"

lemma map_of_find: "map_of m n = om_find n m"
  by (simp add: om_find_def)

lemma map_of_filter_keys: "map_of (filter (\<lambda>entry. P (fst entry)) m) n = (if P n then map_of m n else None)"
  by (induction m) auto

lemma attributes_of_event:
  assumes "event_ok ev"
  shows "fold put_attribute_value (on_values pb_value (event_attributes ev)) no_options = pb_attributes ev"
proof -
  let ?m = "on_values pb_value (event_attributes ev)"
  let ?r = "fold put_attribute_value ?m no_options"
  have ok: "om_ok ?m" by (simp add: om_ok_on_values event_attributes_om_ok)
  note d = om_ok_distinct [OF ok]
  have ext: "n \<in> set map_attribute_names \<Longrightarrow> om_find n (o_extensions (e_rest ev)) = None" for n
    using extension_not_context [OF assms] .
  have find: "map_of ?m n = map_option pb_value (case context_attribute ev n of Some v \<Rightarrow> Some v
      | None \<Rightarrow> om_find n (o_extensions (e_rest ev)))" for n
    by (simp add: map_of_find find_on_values find_event_attributes)
  have "om.insert_all (filter (\<lambda>entry. fst entry \<notin> set map_attribute_names) ?m) [] =
      on_values pb_value (o_extensions (e_rest ev))"
  proof (rule om_ext)
    fix k
    have "om_find k (om.insert_all (filter (\<lambda>entry. fst entry \<notin> set map_attribute_names) ?m) []) =
        (if k \<notin> set map_attribute_names then map_of ?m k else None)"
      using om.find_insert_all [OF om_ok_Nil, of "filter (\<lambda>entry. fst entry \<notin> set map_attribute_names) ?m" k] d
      unfolding map_of_filter_keys [of "\<lambda>n. n \<notin> set map_attribute_names"] om.find_none
      by (simp add: distinct_map_filter split: option.split)
    also have "\<dots> = om_find k (on_values pb_value (o_extensions (e_rest ev)))"
      using ext [of k] context_attribute_names [of ev k] by (auto simp: find find_on_values split: option.split)
    finally show "om_find k (om.insert_all (filter (\<lambda>entry. fst entry \<notin> set map_attribute_names) ?m) []) =
        om_find k (on_values pb_value (o_extensions (e_rest ev)))" .
  qed (simp_all add: om.ok_insert_all om_ok_on_values event_ok_om [OF assms])
  then have x: "o_extensions ?r = on_values pb_value (o_extensions (e_rest ev))"
    by (simp add: fold_put_extensions no_options_def)
  have c: "om_find ''datacontenttype'' (o_extensions (e_rest ev)) = None" "om_find ''dataschema'' (o_extensions (e_rest ev)) = None"
    "om_find ''subject'' (o_extensions (e_rest ev)) = None" "om_find ''time'' (o_extensions (e_rest ev)) = None"
    by (rule ext; simp add: map_attribute_names_def)+
  have n: "o_datacontenttype no_options = None" "o_dataschema no_options = None" "o_subject no_options = None"
    "o_time no_options = None" "o_data no_options = No_data" by (simp_all add: no_options_def)
  show ?thesis
    by (rule options.equality)
      (simp_all add: x fold_put_data fold_put_fields [OF d] find c context_attribute_def pb_attributes_def n
        pb_value_def text_of_string_arm_def text_of_uri_arm_def split: option.split)
qed

lemma event_attributes_applicable:
  assumes "event_ok ev"
  shows "\<forall>(n, a) \<in> set (event_attributes ev). applicable n (pb_value a)"
proof (clarify)
  fix n a assume "(n, a) \<in> set (event_attributes ev)"
  then consider "context_attribute ev n = Some a" | "(n, a) \<in> set (o_extensions (e_rest ev))"
    using event_attributes_member by blast
  then show "applicable n (pb_value a)"
  proof cases
    case 1
    then show ?thesis
      using assms by (auto simp: context_attribute_def applicable_def pb_value_def event_ok_def options_ok_def accepted_by_def
          split: if_splits option.splits)
  next
    case 2
    note e = extension_not_reserved [OF assms 2]
    then have "n \<notin> set map_attribute_names"
      by (auto simp: map_attribute_names_def reserved_name_def reserved_names_def)
    with e show ?thesis by (auto simp: applicable_def map_attribute_names_def)
  qed
qed


section \<open>The event that is read back\<close>

text \<open>What the reader makes of the data that was written with a type URL or without one.\<close>

definition pb_payload :: "string option \<Rightarrow> 'j data_t \<Rightarrow> 'j options \<Rightarrow> 'j options" where
  "pb_payload type_url d into =
     (case d of
        No_data \<Rightarrow> into
      | Binary_data v \<Rightarrow>
          (case type_url of
             None \<Rightarrow> if v = [] \<and> o_datacontenttype into = None then into else into\<lparr>o_data := Binary_data v\<rparr>
           | Some url \<Rightarrow>
               into\<lparr>o_datacontenttype := opt_or (o_datacontenttype into) (Some ''application/protobuf''),
                    o_dataschema := opt_or (o_dataschema into) (if url = [] then None else Some url),
                    o_data := Binary_data v\<rparr>)
      | _ \<Rightarrow> into\<lparr>o_data := Text_data (to_text (payload_bytes d))\<rparr>)"

definition pb_event :: "string option \<Rightarrow> 'j event \<Rightarrow> 'j event" where
  "pb_event type_url ev = ev\<lparr>e_rest := pb_payload type_url (o_data (e_rest ev)) (pb_attributes ev)\<rparr>"

lemma hex_digit_ascii: "is_hex_digit c \<Longrightarrow> (of_char c :: nat) < 128"
  by (auto simp: is_hex_digit_def char_class_defs less_eq_char_def)

lemma uri_char_ascii: "is_ascii_alphanumeric c \<or> c \<in> set uri_punctuation \<Longrightarrow> (of_char c :: nat) < 128"
  by (auto simp: is_ascii_alphanumeric_def char_class_defs less_eq_char_def uri_punctuation_def)

lemma uri_loop_ascii: "uri_loop due cs = Some d \<Longrightarrow> \<forall>c \<in> set cs. (of_char c :: nat) < 128"
  by (induction due cs rule: uri_loop.induct)
    (auto simp: hex_digit_ascii intro: uri_char_ascii split: if_splits)

lemma valid_uri_utf8: "valid_uri_reference url \<Longrightarrow> is_valid_utf8 url"
  by (auto simp: valid_uri_reference_def intro!: is_valid_utf8_ascii_text dest: uri_loop_ascii)

lemma apply_written_data:
  assumes "data_utf8 d" "url_ok type_url" "o_data into = No_data"
  shows "apply_data (written_data type_url d (wire\<lparr>r_data_kind := DF_none\<rparr>)) into = Inr (pb_payload type_url d into)"
proof -
  have v: "text_view b = to_text b" for b by (simp add: text_view_def to_text_def)
  have m: "url \<noteq> [] \<Longrightarrow> is_valid_utf8 url \<Longrightarrow> make_validated dataschema_policy url = Inr url" for url
    unfolding dataschema_rules.make_Inr by (simp add: dataschema_policy_def check_text_None)
  show ?thesis
    using assms
    by (cases d) (auto simp: apply_data_def written_data_def pb_payload_def apply_proto_data_def Let_def v m url_ok_def opt_or_def
        split: option.splits)
qed

lemma build_wire_event:
  assumes "event_ok ev" "data_utf8 (o_data (e_rest ev))" "url_ok type_url"
  shows "build_event (wire_event ev type_url) = Inr (pb_event type_url ev)"
proof -
  let ?w = "wire_event ev type_url"
  have f: "r_id ?w = e_id ev" "r_source ?w = e_source ev" "r_version ?w = spec_version_view" "r_type ?w = e_type ev"
    "r_attributes ?w = on_values carried (event_attributes ev)"
    by (simp_all add: wire_event_def written_data_def split: data_t.split option.split)
  have s: "store_attribute id_policy (e_id ev) = Inr (Some (e_id ev))"
    "store_attribute source_policy (e_source ev) = Inr (Some (e_source ev))"
    "store_attribute type_policy (e_type ev) = Inr (Some (e_type ev))"
    using assms(1) by (simp_all add: event_ok_def id_rules.store_Inr source_rules.store_Inr type_rules.store_Inr)
  have a: "apply_attributes (r_attributes ?w) no_options = Inr (pb_attributes ev)"
    unfolding f apply_all_applicable [OF event_attributes_applicable [OF assms(1)]] attributes_of_event [OF assms(1)] ..
  have "o_data (pb_attributes ev) = No_data" by (simp add: pb_attributes_def)
  from apply_written_data [OF assms(2,3) this]
  have d: "apply_data ?w (pb_attributes ev) = Inr (pb_payload type_url (o_data (e_rest ev)) (pb_attributes ev))"
    unfolding wire_event_def by (metis (no_types, lifting) raw_event.update_convs(7))
  have v: "spec_version_make spec_version_view = Inr ()" by (simp add: spec_version_make_def spec_version_view_def)
  show ?thesis
    unfolding build_event_def f s v a [unfolded f] and_then_simps d build_Inr
    by (simp add: pb_event_def)
qed


section \<open>The round trips\<close>

lemma decode_written:
  assumes ev: "event_ok ev" "texts_utf8 ev" "data_utf8 (o_data (e_rest ev))" "url_ok type_url"
    and n: "length (encode_attributes ev) \<le> max_attribute_count options"
    and l: "length (encode_event ev type_url) \<le> max_encoded_size options" "max_encoded_size options < 2 ^ 64"
  shows "scan_limited (encode_event ev type_url) options = Inr (wire_event ev type_url) \<and>
    build_event (wire_event ev type_url) = Inr (pb_event type_url ev)"
proof -
  have "length (event_attributes ev) \<le> max_attribute_count options"
    using n by (simp add: encode_attributes_values on_values_def)
  then show ?thesis
    using scan_written [OF ev] build_wire_event [OF ev(1,3,4)] l by (simp add: scan_limited_def)
qed

lemma proto_type_url_ok: "url_ok (proto_type_url ev)"
  by (auto simp: proto_type_url_def url_ok_def valid_uri_utf8 split: option.split)

text \<open>What the format keeps of an event.\<close>

definition pb_data :: "string option \<Rightarrow> 'j data_t \<Rightarrow> 'j data_t" where
  "pb_data media d =
     (case d of
        No_data \<Rightarrow> No_data
      | Binary_data v \<Rightarrow> if v = [] \<and> media = None then No_data else Binary_data v
      | Text_data s \<Rightarrow> Text_data s
      | Json_text s \<Rightarrow> Text_data s
      | Json_document held \<Rightarrow> Text_data (document_dump held))"

definition pb_image :: "'j event \<Rightarrow> 'j event" where
  "pb_image ev = ev\<lparr>e_rest := (e_rest ev)
     \<lparr>o_time := map_option pb_time (o_time (e_rest ev)),
      o_extensions := on_values pb_value (o_extensions (e_rest ev)),
      o_data := pb_data (o_datacontenttype (e_rest ev)) (o_data (e_rest ev))\<rparr>\<rparr>"

lemma pb_event_image: "pb_event (proto_type_url ev) ev = pb_image ev"
proof (cases "proto_type_url ev")
  case None
  then show ?thesis
    by (simp add: pb_event_def pb_image_def pb_payload_def pb_attributes_def pb_data_def payload_bytes_def split: data_t.split)
next
  case (Some url)
  then have "o_datacontenttype (e_rest ev) \<noteq> None" "o_dataschema (e_rest ev) \<noteq> None"
    by (auto simp: proto_type_url_def split: option.splits)
  then show ?thesis using Some
    by (auto simp: pb_event_def pb_image_def pb_payload_def pb_attributes_def pb_data_def payload_bytes_def opt_or_found split: data_t.split)
qed

text \<open>
  C3: an event that is written in the Protobuf format is read back with every context attribute,
  every extension in its own type and the data. What the format has no room for is lost and nothing
  else: a timestamp keeps its instant but not its offset and number of digits, JSON payloads come
  back as their text, and empty binary data without a media type as no data. The limits are those
  of the decode options; a length is a 64-bit number.
\<close>

theorem protobuf_round_trip:
  assumes "event_ok ev" "texts_utf8 ev" "data_utf8 (o_data (e_rest ev))" "protobuf_encode ev = Inr encoded"
    and "length encoded \<le> max_encoded_size options" "max_encoded_size options < 2 ^ 64"
    and "length (encode_attributes ev) \<le> max_attribute_count options"
  shows "protobuf_decode encoded options = Inr (pb_image ev)"
proof -
  have e: "encoded = encode_event ev (proto_type_url ev)" using assms(4) by (simp add: protobuf_encode_def)
  show ?thesis
    using decode_written [OF assms(1-3) proto_type_url_ok assms(7,5,6) [unfolded e]]
    by (simp add: protobuf_decode_def decode_event_def e pb_event_image)
qed

text \<open>
  Data written as \<open>google.protobuf.Any\<close> under a type URL is read back with that URL apart; the
  URL stands in for a missing dataschema and \<open>application/protobuf\<close> for a missing media type.
\<close>

theorem proto_data_round_trip:
  assumes "event_ok ev" "texts_utf8 ev" "protobuf_encode_proto_data ev type_url = Inr encoded"
    and "length encoded \<le> max_encoded_size options" "max_encoded_size options < 2 ^ 64"
    and "length (encode_attributes ev) \<le> max_attribute_count options"
  shows "protobuf_decode_detailed encoded options =
    Inr (pb_event (Some type_url) ev, if type_url = [] then None else Some type_url)"
proof -
  from assms(3) obtain v where d: "o_data (e_rest ev) = Binary_data v" and u: "valid_uri_reference type_url"
    and e: "encoded = encode_event ev (Some type_url)"
    by (auto simp: protobuf_encode_proto_data_def encode_event_as_any_def split: if_splits data_t.splits)
  have ok: "data_utf8 (o_data (e_rest ev))" "url_ok (Some type_url)"
    using u valid_uri_utf8 by (simp_all add: data_utf8_def d url_ok_def)
  from decode_written [OF assms(1,2) ok assms(6,4,5) [unfolded e]] show ?thesis
    by (simp add: protobuf_decode_detailed_def decode_detailed_event_def e) (simp add: wire_event_def written_data_def d)
qed


section \<open>Batches\<close>

lemma batch_bodies_written:
  "length bodies + length fs \<le> max_batch_event_count options \<Longrightarrow>
     visit_all (\<lambda>current bodies.
         if pf_kind current \<noteq> W_length_delimited \<or> pf_number current \<noteq> 1 then Inr bodies
         else if length bodies \<ge> max_batch_event_count options
         then fail out_of_range ''the batch has more events than the limit allows'' ''''
         else Inr (bodies @ [pf_body current])) (map (Pair 1) fs) bodies = Inr (bodies @ fs)"
  by (induction fs arbitrary: bodies) auto

lemma encode_events_fields:
  "encode_events events = fields_octets (map (Pair 1) (map (\<lambda>ev. encode_event ev (proto_type_url ev)) events))"
proof -
  have "fold (\<lambda>ev out. put_field out 1 (encode_event ev (proto_type_url ev))) events out =
      out @ fields_octets (map (Pair 1) (map (\<lambda>ev. encode_event ev (proto_type_url ev)) events))" for out
    by (induction events arbitrary: out) (simp_all add: put_octets)
  then show ?thesis by (simp add: encode_events_def)
qed

lemma decode_bodies_written:
  "\<forall>ev \<in> set events. decode_event (encode_event ev (proto_type_url ev)) options = Inr (pb_image ev) \<Longrightarrow>
     decode_bodies (map (\<lambda>ev. encode_event ev (proto_type_url ev)) events) options before =
       Inr (before @ map pb_image events)"
  by (induction events arbitrary: before) simp_all

text \<open>
  A batch is read back event by event in order, when the number of events and the size of each
  are within the limits.
\<close>

theorem protobuf_batch_round_trip:
  assumes "\<forall>ev \<in> set events. event_ok ev \<and> texts_utf8 ev \<and> data_utf8 (o_data (e_rest ev)) \<and>
      length (encode_attributes ev) \<le> max_attribute_count options \<and>
      length (encode_event ev (proto_type_url ev)) \<le> max_encoded_size options"
    and "protobuf_encode_batch events = Inr encoded" "length encoded < 2 ^ 64" "max_encoded_size options < 2 ^ 64"
    and "length events \<le> max_batch_event_count options"
  shows "protobuf_decode_batch encoded options = Inr (map pb_image events)"
proof -
  let ?bodies = "map (\<lambda>ev. encode_event ev (proto_type_url ev)) events"
  have e: "encoded = fields_octets (map (Pair 1) ?bodies)"
    using assms(2) by (simp only: protobuf_encode_batch_def encode_events_fields sum.inject)
  have "\<forall>f \<in> set (map (Pair 1) ?bodies). field_number_ok (fst f)" by (simp add: numbers_ok)
  note f = for_each_fields [OF this assms(3) [unfolded e]]
  have b: "batch_bodies encoded options = Inr ?bodies"
    unfolding batch_bodies_def e f using batch_bodies_written [of "[]" ?bodies options] assms(5) by simp
  have "decode_event (encode_event ev (proto_type_url ev)) options = Inr (pb_image ev)" if "ev \<in> set events" for ev
    using decode_written [of ev "proto_type_url ev" options] assms(1,4) that proto_type_url_ok [of ev]
    by (simp add: decode_event_def pb_event_image)
  then have "decode_bodies ?bodies options [] = Inr (map pb_image events)"
    using decode_bodies_written [of events options "[]"] by simp
  with b show ?thesis by (simp add: protobuf_decode_batch_def decode_events_def)
qed

end
