(* ===== verification/Protobuf_Safety.thy ===== *)
theory Protobuf_Safety
  imports Protobuf_Round_Trip
begin

text \<open>
  What the Protobuf reader promises on any input, with the concrete events at which the round trips
  are witnessed.
\<close>

section \<open>Walking any octets\<close>

lemma for_each_invariant:
  "for_each_field visit bs s = Inr s' \<Longrightarrow> P s \<Longrightarrow>
     (\<And>current s s'. visit current s = Inr s' \<Longrightarrow> P s \<Longrightarrow> P s') \<Longrightarrow> P s'"
proof (induction visit bs s rule: for_each_field.induct)
  case (1 visit bs s)
  note step = "1.prems"(1) [unfolded for_each_field.simps [of visit bs s]]
  show ?case
  proof (cases "bs = []")
    case False
    with step obtain f rest where r: "read_field bs = Inr (f, rest)" by (auto split: sum.splits)
    show ?thesis
    proof (cases f)
      case None
      with step r False "1.IH"(1) [OF False r refl None] "1.prems"(2,3) show ?thesis by simp
    next
      case (Some current)
      with step r False obtain t where t: "visit current s = Inr t" "for_each_field visit rest t = Inr s'"
        by (auto simp: and_then_eq_Inr)
      show ?thesis
        using "1.IH"(2) [OF False r refl Some t(1) t(2)] "1.prems"(2,3) t(1) by blast
    qed
  qed (use step "1.prems" in simp)
qed

lemma read_varint_loop_append:
  "read_varint_loop index v xs = Inr (w, rest) \<Longrightarrow> read_varint_loop index v (xs @ ys) = Inr (w, rest @ ys)"
  by (induction index v xs rule: read_varint_loop.induct) (auto simp: Let_def split: if_splits)

lemma read_varint_append: "read_varint xs = Inr (w, rest) \<Longrightarrow> read_varint (xs @ ys) = Inr (w, rest @ ys)"
  by (simp add: read_varint_def read_varint_loop_append)

lemma read_varint_cases:
  assumes "and_then (read_varint xs) f = Inr result"
  obtains w rest where "read_varint xs = Inr (w, rest)" "\<And>ys. read_varint (xs @ ys) = Inr (w, rest @ ys)"
  using assms read_varint_append by (cases "read_varint xs") fastforce+

lemma read_header_append:
  assumes "read_header xs = Inr (h, rest)"
  shows "read_header (xs @ ys) = Inr (h, rest @ ys)"
proof -
  obtain w r where v: "read_varint xs = Inr (w, r)" "\<And>ys. read_varint (xs @ ys) = Inr (w, r @ ys)"
    using assms by (auto simp only: read_header_def elim!: read_varint_cases)
  from assms show ?thesis by (auto simp: read_header_def v Let_def split: if_splits)
qed

lemma read_length_delimited_append:
  assumes "read_length_delimited xs = Inr (b, rest)"
  shows "read_length_delimited (xs @ ys) = Inr (b, rest @ ys)"
proof -
  obtain w r where v: "read_varint xs = Inr (w, r)" "\<And>ys. read_varint (xs @ ys) = Inr (w, r @ ys)"
    using assms by (auto simp only: read_length_delimited_def elim!: read_varint_cases)
  from assms show ?thesis by (auto simp: read_length_delimited_def v split: if_splits)
qed

lemma skip_field_append:
  assumes "skip_field kind xs = Inr rest"
  shows "skip_field kind (xs @ ys) = Inr (rest @ ys)"
  using assms
  by (auto simp: skip_field_def and_then_eq_Inr Let_def split: if_splits)
    (use read_varint_append read_length_delimited_append in blast)+

lemma read_field_append:
  assumes "read_field xs = Inr (f, rest)"
  shows "read_field (xs @ ys) = Inr (f, rest @ ys)"
proof -
  obtain h r where h: "read_header xs = Inr (h, r)" "read_header (xs @ ys) = Inr (h, r @ ys)"
    using assms read_header_append by (fastforce simp: read_field_def and_then_eq_Inr)
  consider "fh_kind h = W_varint" | "fh_kind h = W_length_delimited" | "fh_kind h \<noteq> W_varint" "fh_kind h \<noteq> W_length_delimited"
    by blast
  then show ?thesis
  proof cases
    case 1
    with assms h(1) obtain w q where "read_varint r = Inr (w, q)" by (auto simp: read_field_def and_then_eq_Inr)
    with assms h read_varint_append [OF this, of ys] 1 show ?thesis by (simp add: read_field_def)
  next
    case 2
    with assms h(1) obtain w q where "read_length_delimited r = Inr (w, q)" by (auto simp: read_field_def and_then_eq_Inr)
    with assms h read_length_delimited_append [OF this, of ys] 2 show ?thesis by (simp add: read_field_def)
  next
    case 3
    with assms h(1) obtain q where "skip_field (fh_kind h) r = Inr q" by (auto simp: read_field_def and_then_eq_Inr)
    with assms h skip_field_append [OF this, of ys] 3 show ?thesis by (simp add: read_field_def)
  qed
qed

lemma for_each_append:
  "for_each_field visit xs s = Inr t \<Longrightarrow> for_each_field visit (xs @ ys) s = for_each_field visit ys t"
proof (induction visit xs s rule: for_each_field.induct)
  case (1 visit xs s)
  note step = "1.prems" [unfolded for_each_field.simps [of visit xs s]]
  show ?case
  proof (cases "xs = []")
    case False
    with step obtain f rest where r: "read_field xs = Inr (f, rest)" by (auto split: sum.splits)
    note r' = read_field_append [OF r, of ys]
    show ?thesis
    proof (cases f)
      case None
      with step r r' False "1.IH"(1) [OF False r refl None] show ?thesis
        by (simp add: for_each_field.simps [of visit "xs @ ys"])
    next
      case (Some current)
      with step r False obtain u where u: "visit current s = Inr u" "for_each_field visit rest u = Inr t"
        by (auto simp: and_then_eq_Inr)
      show ?thesis
        using "1.IH"(2) [OF False r refl Some u(1) u(2)] r' u False Some
        by (simp add: for_each_field.simps [of visit "xs @ ys"])
    qed
  qed (use step in simp)
qed


section \<open>Unknown fields\<close>

text \<open>
  A varint as the wire format has it, of up to ten octets and not necessarily the shortest one: every
  octet but the last has the continuation bit, and a tenth holds one bit of the number.
\<close>

definition is_varint :: "binary \<Rightarrow> bool" where
  "is_varint bs \<longleftrightarrow> bs \<noteq> [] \<and> length bs \<le> 10 \<and> (\<forall>b \<in> set (butlast bs). b AND 0x80 \<noteq> 0) \<and>
     last bs AND 0x80 = 0 \<and> (length bs = 10 \<longrightarrow> last bs \<le> 1)"

text \<open>What follows the tag of a field, by the wire type.\<close>

definition field_payload :: "wire_type \<Rightarrow> binary \<Rightarrow> bool" where
  "field_payload kind payload \<longleftrightarrow>
     (case kind of
        W_varint \<Rightarrow> is_varint payload
      | W_fixed64 \<Rightarrow> length payload = 8
      | W_fixed32 \<Rightarrow> length payload = 4
      | W_length_delimited \<Rightarrow>
          (\<exists>content. payload = varint_octets (word_of_nat (length content)) @ content \<and> length content < 2 ^ 64))"

lemma read_varint_loop_any:
  "bs \<noteq> [] \<Longrightarrow> index + length bs \<le> 10 \<Longrightarrow> \<forall>b \<in> set (butlast bs). b AND 0x80 \<noteq> 0 \<Longrightarrow> last bs AND 0x80 = 0 \<Longrightarrow>
     (index + length bs = 10 \<longrightarrow> last bs \<le> 1) \<Longrightarrow> \<exists>w. read_varint_loop index v (bs @ rest) = Inr (w, rest)"
proof (induction bs arbitrary: index v)
  case (Cons b bs)
  show ?case
  proof (cases "bs = []")
    case True
    with Cons.prems show ?thesis by (auto simp: max_varint_bytes_def Let_def)
  next
    case False
    have c: "b AND 0x80 \<noteq> 0" using Cons.prems(3) False by simp
    have i: "index + 1 \<noteq> max_varint_bytes" using Cons.prems(2) False by (cases bs) (simp_all add: max_varint_bytes_def)
    have "\<exists>w. read_varint_loop (Suc index) (v OR push_bit (7 * index) (ucast (b AND 0x7F))) (bs @ rest) = Inr (w, rest)"
      using Cons.prems False by (intro Cons.IH) simp_all
    with c i show ?thesis by (simp add: Let_def)
  qed
qed simp

lemma read_varint_any: "is_varint bs \<Longrightarrow> \<exists>w. read_varint (bs @ rest) = Inr (w, rest)"
  unfolding is_varint_def read_varint_def by (intro read_varint_loop_any) simp_all

text \<open>A field is read as one, whatever its wire type is, and a fixed-width field is not shown to the visitor.\<close>

lemma read_any_field:
  assumes "field_number_ok number" "field_payload kind payload"
  shows "\<exists>f. read_field (tag_octets number kind @ payload @ rest) = Inr (f, rest) \<and>
    (case f of None \<Rightarrow> kind = W_fixed64 \<or> kind = W_fixed32 | Some current \<Rightarrow> pf_number current = number \<and> pf_kind current = kind)"
proof (cases kind)
  case W_varint
  with assms(2) obtain w where "read_varint (payload @ rest) = Inr (w, rest)"
    using read_varint_any by (auto simp: field_payload_def)
  with W_varint show ?thesis by (simp add: read_field_def read_header_tag [OF assms(1)])
next
  case W_length_delimited
  with assms(2) obtain content where "payload = varint_octets (word_of_nat (length content)) @ content" "length content < 2 ^ 64"
    by (auto simp: field_payload_def)
  with W_length_delimited read_length_delimited_octets [of content rest] show ?thesis
    by (simp add: read_field_def read_header_tag [OF assms(1)])
qed (use assms in \<open>simp_all add: read_field_def read_header_tag skip_field_def field_payload_def\<close>)

lemma store_unknown:
  assumes "9 \<le> unat (pf_number current) \<or> pf_kind current \<noteq> W_length_delimited"
  shows "store_field options current r = Inr r"
proof -
  have "\<not> pf_number current \<le> 4 \<and> pf_number current \<noteq> 5 \<and> \<not> pf_number current \<le> 8" if "9 \<le> unat (pf_number current)"
    using that by (auto simp: word_le_nat_alt)
  with assms show ?thesis by (auto simp: store_field_def)
qed

lemma for_each_unknown:
  assumes "field_number_ok number" "field_payload kind payload" "9 \<le> unat number \<or> kind \<noteq> W_length_delimited"
  shows "for_each_field (store_field options) (tag_octets number kind @ payload) r = Inr r"
proof -
  let ?x = "tag_octets number kind @ payload"
  from read_any_field [OF assms(1,2), of "[]"] obtain f where f: "read_field ?x = Inr (f, [])"
    "case f of None \<Rightarrow> kind = W_fixed64 \<or> kind = W_fixed32 | Some current \<Rightarrow> pf_number current = number \<and> pf_kind current = kind"
    by auto
  have n: "?x \<noteq> []" using f(1) by (auto simp: read_field_def read_header_def read_varint_def fail_def)
  show ?thesis
    using f assms(3) store_unknown [of _ options r]
    by (cases f) (simp_all add: for_each_field.simps [of _ ?x] for_each_field.simps [of _ "[]"] n)
qed

text \<open>
  C14: a field that the schema does not have, appended to an encoded event by a newer writer,
  changes nothing but the size: a field of any wire type (a varint, 32 or 64 bits, a length and its
  octets) with any number from 9 on, and a field of a wire type other than the schema's with any
  number.
\<close>

theorem unknown_field_ignored:
  assumes "protobuf_decode encoded options = Inr ev"
    and "field_number_ok number" "9 \<le> unat number \<or> kind \<noteq> W_length_delimited" "field_payload kind payload"
    and "length (encoded @ tag_octets number kind @ payload) \<le> max_encoded_size options"
  shows "protobuf_decode (encoded @ tag_octets number kind @ payload) options = Inr ev"
proof -
  from assms(1) obtain r where r: "scan_event encoded options = Inr r" "build_event r = Inr ev"
    by (auto simp: protobuf_decode_def decode_event_def scan_limited_def and_then_eq_Inr split: if_splits)
  have "scan_event (encoded @ tag_octets number kind @ payload) options = Inr r"
    using for_each_append [of "store_field options" encoded no_raw_event r] r(1)
    by (simp add: scan_event_def for_each_unknown [OF assms(2,4,3)])
  with r(2) assms(5) show ?thesis by (simp add: protobuf_decode_def decode_event_def scan_limited_def)
qed


section \<open>Every event that is read is well-formed\<close>

definition arm_ok :: "attribute_value option \<Rightarrow> bool" where
  "arm_ok v \<longleftrightarrow> (case v of Some a \<Rightarrow> value_ok a | None \<Rightarrow> True)"

lemma digits_hold: "n mod 10 ^ (9 - digits_holding n) = 0"
  by (auto simp: digits_holding_def)

lemma make_instant_ok:
  assumes "make_instant seconds nanos = Inr t"
  shows "ts_ok t"
proof -
  have n: "0 \<le> nanos" "nanos < 1000000000" and s: "seconds \<le> 9223372035" "- 9223372035 \<le> seconds"
    and t: "t = \<lparr>ts_utc = seconds * 1000000000 + nanos, ts_offset = 0, ts_form = utc_designator, ts_digits = digits_holding nanos\<rparr>"
    using assms by (auto simp: make_instant_def max_timestamp_seconds_def split: if_splits)
  have d: "digits_holding nanos \<le> 9" by (simp add: digits_holding_def)
  have "(10 :: int) ^ (9 - digits_holding nanos) dvd 10 ^ 9" by (rule le_imp_power_dvd) simp
  then have "(10 :: int) ^ (9 - digits_holding nanos) dvd seconds * 1000000000" by (simp add: dvd_mult)
  moreover have "10 ^ (9 - digits_holding nanos) dvd nanos" using digits_hold [of nanos] by (simp add: dvd_eq_mod_eq_0)
  ultimately have "(seconds * 1000000000 + nanos) mod 10 ^ (9 - digits_holding nanos) = 0"
    by (simp add: dvd_add flip: dvd_eq_mod_eq_0)
  moreover have "- 9223372035 * 1000000000 \<le> seconds * 1000000000" "seconds * 1000000000 \<le> 9223372035 * 1000000000"
    using s by simp_all
  ultimately show ?thesis using n d by (simp add: t ts_ok_def representable_def)
qed

lemma read_value_ok: "read_value bs = Inr v \<Longrightarrow> arm_ok v"
  unfolding read_value_def
proof (erule for_each_invariant)
  fix current v v'
  assume "and_then (if pf_kind current = W_varint then read_varint_arm current else read_length_arm current)
    (\<lambda>r. Inr (case r of Some _ \<Rightarrow> r | None \<Rightarrow> v)) = Inr v'" and "arm_ok v"
  then show "arm_ok v'"
    by (auto simp: and_then_eq_Inr arm_ok_def read_varint_arm_def read_length_arm_def read_text_arm_def read_integer_def
        read_timestamp_def value_ok_def Let_def dest: make_instant_ok split: if_splits option.splits)
qed (simp add: arm_ok_def)

definition wire_ok :: "pb_options \<Rightarrow> raw_event \<Rightarrow> bool" where
  "wire_ok options r \<longleftrightarrow> om_ok (r_attributes r) \<and> (\<forall>n v. om_find n (r_attributes r) = Some v \<longrightarrow> arm_ok v) \<and>
     length (r_attributes r) \<le> r_attribute_entries r \<and> r_attribute_entries r \<le> max_attribute_count options \<and>
     is_valid_utf8 (r_type_url r)"

lemma om_insert_length: "length (om_insert_or_assign k v m) \<le> Suc (length m)"
  by (induction k v m rule: om_insert_or_assign.induct) auto

lemma read_entry_ok:
  assumes "read_entry bs m = Inr m'"
  shows "\<exists>n v. m' = om_insert_or_assign n v m \<and> arm_ok v"
proof -
  from assms obtain n v where w: "for_each_field (\<lambda>current (key, v).
         if pf_kind current \<noteq> W_length_delimited then Inr (key, v)
         else if pf_number current = 1 then and_then (read_text (pf_body current)) (\<lambda>s. Inr (s, v))
         else if pf_number current = 2 then and_then (read_value (pf_body current)) (\<lambda>r. Inr (key, r))
         else Inr (key, v)) bs ([], None) = Inr (n, v)" and m: "m' = om_insert_or_assign n v m"
    by (auto simp: read_entry_def and_then_eq_Inr)
  have "arm_ok (snd (n, v))"
    by (rule for_each_invariant [OF w, where P = "\<lambda>s. arm_ok (snd s)"])
      (auto simp: arm_ok_def [of None] and_then_eq_Inr split: if_splits dest: read_value_ok)
  with m show ?thesis by auto
qed

lemma store_any_ok:
  assumes "store_any bs r = Inr r'" "wire_ok options r"
  shows "wire_ok options r'"
proof -
  from assms(1) obtain url v where "r' = r\<lparr>r_type_url := url, r_data := v\<rparr>" "valid_uri_reference url"
    by (auto simp: store_any_def and_then_eq_Inr split: if_splits)
  then show ?thesis using assms(2) valid_uri_utf8 by (simp add: wire_ok_def)
qed

lemma store_attribute_entry_ok:
  assumes "store_attribute_entry current options r = Inr r'" "wire_ok options r"
  shows "wire_ok options r'"
proof -
  from assms(1) obtain m where m: "read_entry (pf_body current) (r_attributes r) = Inr m"
    and n: "r_attribute_entries r + 1 \<le> max_attribute_count options"
    and r': "r' = r\<lparr>r_attribute_entries := r_attribute_entries r + 1, r_attributes := m\<rparr>"
    by (auto simp: store_attribute_entry_def Let_def and_then_eq_Inr split: if_splits)
  obtain k v where "m = om_insert_or_assign k v (r_attributes r)" "arm_ok v" using read_entry_ok [OF m] by blast
  then show ?thesis
    using assms(2) n om_insert_length [of k v "r_attributes r"]
    by (auto simp: r' wire_ok_def om_ok_insert om_find_insert split: if_splits)
qed

lemma store_field_ok:
  assumes "store_field options current r = Inr r'" "wire_ok options r"
  shows "wire_ok options r'"
proof -
  have upd: "wire_ok options (r\<lparr>r_type_url := [], r_data := b, r_data_kind := k\<rparr>)" for b k
    using assms(2) by (simp add: wire_ok_def)
  show ?thesis
    using assms store_attribute_entry_ok [of current options r r'] upd
      store_any_ok [of "pf_body current" "r\<lparr>r_type_url := [], r_data := pf_body current, r_data_kind := DF_proto_data\<rparr>" r' options]
    by (auto simp: store_field_def pb_store_required_def store_data_def and_then_eq_Inr Let_def wire_ok_def split: if_splits)
qed

lemma scan_event_ok: "scan_event bs options = Inr r \<Longrightarrow> wire_ok options r"
  unfolding scan_event_def
  by (erule for_each_invariant) (auto simp: wire_ok_def no_raw_event_def om_find_def dest: store_field_ok [unfolded wire_ok_def])


lemma accepted_slot: "accepted_by p (Some s) \<longleftrightarrow> p_check p s = None"
  by (simp add: accepted_by_def)

lemma pb_apply_attribute_ok:
  assumes "pb_apply_attribute n a into = Inr into'" "options_ok into" "value_ok a"
  shows "options_ok into' \<and> length (o_extensions into') \<le> Suc (length (o_extensions into))"
proof -
  consider (context_text) "n \<in> {''datacontenttype'', ''dataschema'', ''subject''}" | (instant) "n = ''time''"
    | (extension) "n \<notin> set map_attribute_names"
    by (auto simp: map_attribute_names_def)
  then show ?thesis
  proof cases
    case context_text
    then show ?thesis
      using assms(1,2)
      by (auto simp: pb_apply_attribute_def store_text_def and_then_eq_Inr options_ok_extensions accepted_slot
          datacontenttype_rules.store_Inr dataschema_rules.store_Inr subject_rules.store_Inr split: option.splits)
  next
    case instant
    then have "pb_apply_attribute n a into = and_then (pb_store_time a) (\<lambda>t. Inr (into\<lparr>o_time := t\<rparr>))"
      by (simp add: pb_apply_attribute_def)
    with assms show ?thesis
      by (auto simp: pb_store_time_def and_then_eq_Inr options_ok_extensions value_ok_def split: attribute_value.splits)
  next
    case extension
    then have "pb_apply_attribute n a into = store_extension n a into"
      by (simp add: pb_apply_attribute_def map_attribute_names_def)
    with assms om_insert_length [of n a "o_extensions into"] show ?thesis
      by (auto simp: store_extension_def and_then_at_eq_Inr extension_name_rules.make_Inr options_ok_extensions
          extensions_ok_insert)
  qed
qed

lemma apply_attributes_ok:
  "apply_attributes m into = Inr into' \<Longrightarrow> options_ok into \<Longrightarrow> \<forall>(n, v) \<in> set m. arm_ok v \<Longrightarrow>
     options_ok into' \<and> length (o_extensions into') \<le> length (o_extensions into) + length m"
proof (induction m into rule: apply_attributes.induct)
  case (2 n v m into)
  then obtain a mid where v: "v = Some a" and a: "value_ok a" and mid: "pb_apply_attribute n a into = Inr mid"
    "apply_attributes m mid = Inr into'"
    by (auto simp: and_then_eq_Inr arm_ok_def split: option.splits)
  from pb_apply_attribute_ok [OF mid(1) "2.prems"(2) a]
  have ok: "options_ok mid" "length (o_extensions mid) \<le> Suc (length (o_extensions into))" by blast+
  have "\<forall>(n, v) \<in> set m. arm_ok v" using "2.prems"(3) by simp
  from "2.IH" [OF v mid(1) mid(2) ok(1) this] ok(2) show ?case by simp
qed simp

lemma media_type_protobuf: "p_check datacontenttype_policy ''application/protobuf'' = None"
  by code_simp

lemma apply_data_ok:
  assumes "apply_data r into = Inr into'" "options_ok into"
  shows "options_ok into' \<and> o_extensions into' = o_extensions into"
  using assms
  by (auto simp: apply_data_def apply_proto_data_def Let_def and_then_eq_Inr options_ok_extensions accepted_slot
      media_type_protobuf dataschema_rules.make_Inr split: data_field.splits if_splits)

lemma build_event_ok:
  assumes "build_event r = Inr ev" "wire_ok options r"
  shows "event_ok ev \<and> length (o_extensions (e_rest ev)) \<le> max_attribute_count options"
proof -
  from assms(1) obtain i s t rest rest' where
    a: "apply_attributes (r_attributes r) no_options = Inr rest" "apply_data r rest = Inr rest'"
    and st: "store_attribute id_policy (r_id r) = Inr i" "store_attribute source_policy (r_source r) = Inr s"
      "store_attribute type_policy (r_type r) = Inr t"
    and b: "build \<lparr>b_id = i, b_source = s, b_type = t, b_rest = rest'\<rparr> = Inr ev"
    by (auto simp: build_event_def and_then_eq_Inr)
  have "\<forall>(n, v) \<in> set (r_attributes r). arm_ok v"
    using assms(2) om_entries_all [of "r_attributes r" "\<lambda>n v. arm_ok v"] by (simp add: wire_ok_def)
  from apply_attributes_ok [OF a(1) no_options_ok this] assms(2)
  have r: "options_ok rest" "length (o_extensions rest) \<le> max_attribute_count options"
    by (simp_all add: no_options_def wire_ok_def)
  note d = apply_data_ok [OF a(2) r(1)]
  have "builder_ok \<lparr>b_id = i, b_source = s, b_type = t, b_rest = rest'\<rparr>"
    using d st by (auto simp: builder_ok_def accepted_slot id_rules.store_Inr source_rules.store_Inr type_rules.store_Inr)
  from build_ok [OF this b] b d r(2) show ?thesis by (auto simp: build_Inr)
qed

lemma decode_event_ok:
  assumes "decode_event encoded options = Inr ev"
  shows "length encoded \<le> max_encoded_size options \<and> event_ok ev \<and>
    length (o_extensions (e_rest ev)) \<le> max_attribute_count options"
  using assms by (auto simp: decode_event_def scan_limited_def and_then_eq_Inr split: if_splits
      dest!: scan_event_ok dest: build_event_ok)

lemma batch_bodies_bound:
  "batch_bodies encoded options = Inr bodies \<Longrightarrow> length bodies \<le> max_batch_event_count options"
  unfolding batch_bodies_def
  by (erule for_each_invariant) (auto split: if_splits)

lemma decode_bodies_ok:
  "decode_bodies bodies options before = Inr events \<Longrightarrow>
     \<exists>read. events = before @ read \<and> length read = length bodies \<and>
       (\<forall>ev \<in> set read. event_ok ev \<and> length (o_extensions (e_rest ev)) \<le> max_attribute_count options)"
proof (induction bodies options before rule: decode_bodies.induct)
  case (2 encoded bodies options before)
  then obtain ev where ev: "decode_event encoded options = Inr ev" "decode_bodies bodies options (before @ [ev]) = Inr events"
    by (auto simp: and_then_eq_Inr)
  from "2.IH" [OF ev] decode_event_ok [OF ev(1)] show ?case by fastforce
qed simp

text \<open>
  C4: whatever octets are read, an event that the Protobuf reader returns is well-formed (every
  attribute accepted by its policy, names valid and not reserved, integers in 32 bits, timestamps
  representable) and within the limits: the size of the input, the number of extensions, the
  number of events of a batch.
\<close>

theorem protobuf_events_ok:
  shows "(case protobuf_decode encoded options of
      Inr ev \<Rightarrow> length encoded \<le> max_encoded_size options \<and> event_ok ev \<and>
        length (o_extensions (e_rest ev)) \<le> max_attribute_count options
    | Inl _ \<Rightarrow> True) \<and>
    (case protobuf_decode_batch encoded options of
      Inr events \<Rightarrow> length events \<le> max_batch_event_count options \<and>
        list_all (\<lambda>ev. event_ok ev \<and> length (o_extensions (e_rest ev)) \<le> max_attribute_count options) events
    | Inl _ \<Rightarrow> True) \<and>
    protobuf_decode encoded options =
      (case protobuf_decode_detailed encoded options of Inr (ev, _) \<Rightarrow> Inr ev | Inl e \<Rightarrow> Inl e)"
  (is "?single \<and> ?batch \<and> ?detailed")
proof (intro conjI)
  show ?single
    by (auto simp: protobuf_decode_def dest!: decode_event_ok split: sum.split)
  show ?batch
    by (auto simp: protobuf_decode_batch_def decode_events_def and_then_eq_Inr list_all_iff
        dest!: decode_bodies_ok batch_bodies_bound split: sum.split)
  show ?detailed
    by (simp add: protobuf_decode_detailed_def decode_detailed_event_def protobuf_decode_def decode_event_def Let_def
        and_then_def split: sum.split)
qed


section \<open>Concrete events\<close>

definition proto_event :: "unit event" where
  "proto_event = \<lparr>e_id = ''1'', e_source = ''/s'', e_type = ''t'',
     e_rest = \<lparr>o_datacontenttype = Some ''application/protobuf'', o_dataschema = Some ''/p#1'', o_subject = None,
       o_time = Some \<lparr>ts_utc = 1500000000, ts_offset = 60, ts_form = numeric, ts_digits = 1\<rparr>,
       o_extensions = [(''flag'', Bool True), (''n'', Int32 (-7))], o_data = Binary_data [1, 2]\<rparr>\<rparr>"

definition small_limits :: pb_options where
  "small_limits = \<lparr>max_encoded_size = 450, max_attribute_count = 5, max_batch_event_count = 2\<rparr>"

lemma small_limits_simps [simp]:
  "max_encoded_size small_limits = 450" "max_attribute_count small_limits = 5" "max_batch_event_count small_limits = 2"
  by (simp_all add: small_limits_def)

lemma proto_event_ok: "event_ok proto_event" "texts_utf8 proto_event" "data_utf8 (o_data (e_rest proto_event))"
proof -
  have "p_check extension_name_policy ''flag'' = None" "p_check extension_name_policy ''n'' = None"
    "p_check dataschema_policy ''/p#1'' = None"
    by (simp_all add: extension_name_policy_def dataschema_policy_def check_extension_name_None check_text_None
        valid_attribute_name_iff name_char_def is_lower_def reserved_name_def reserved_names_def
        is_valid_utf8_ascii_list)
  then show "event_ok proto_event"
    by (simp add: proto_event_def event_ok_def options_ok_def accepted_by_def value_ok_def om_ok_def ts_ok_def representable_def
        int32_min_def int32_max_def id_policy_def source_policy_def type_policy_def check_text_None is_valid_utf8_ascii_list
        media_type_protobuf)
  show "texts_utf8 proto_event" "data_utf8 (o_data (e_rest proto_event))"
    by (simp_all add: proto_event_def texts_utf8_def text_attribute_def data_utf8_def)
qed

lemma proto_event_sizes:
  "length (encode_event proto_event (proto_type_url proto_event)) \<le> 200"
  "length (encode_event proto_event (Some ''type.test/t'')) \<le> 200"
  "length (encode_attributes proto_event) = 5"
  by code_simp+

theorem protobuf_round_trip_witness:
  "(case protobuf_encode proto_event of
      Inr encoded \<Rightarrow> protobuf_decode encoded small_limits = Inr (proto_event\<lparr>e_rest := (e_rest proto_event)
        \<lparr>o_time := Some \<lparr>ts_utc = 1500000000, ts_offset = 0, ts_form = utc_designator, ts_digits = 3\<rparr>\<rparr>\<rparr>)
    | Inl _ \<Rightarrow> False)"
proof -
  have i: "pb_image proto_event = proto_event\<lparr>e_rest := (e_rest proto_event)
      \<lparr>o_time := Some \<lparr>ts_utc = 1500000000, ts_offset = 0, ts_form = utc_designator, ts_digits = 3\<rparr>\<rparr>\<rparr>"
    by (simp add: pb_image_def proto_event_def pb_time_def digits_holding_def on_values_def pb_value_def pb_data_def)
  have e: "protobuf_encode proto_event = Inr (encode_event proto_event (proto_type_url proto_event))"
    by (simp add: protobuf_encode_def)
  show ?thesis
    using protobuf_round_trip [OF proto_event_ok e, of small_limits] proto_event_sizes by (simp add: e i)
qed

theorem proto_data_round_trip_witness:
  "(case protobuf_encode_proto_data proto_event ''type.test/t'' of
      Inr encoded \<Rightarrow> (case protobuf_decode_detailed encoded small_limits of
          Inr (ev, type_url) \<Rightarrow> type_url = Some ''type.test/t'' \<and> o_dataschema (e_rest ev) = Some ''/p#1'' \<and>
            o_data (e_rest (ev :: unit event)) = Binary_data [1, 2]
        | Inl _ \<Rightarrow> False)
    | Inl _ \<Rightarrow> False)"
proof -
  have "valid_uri_reference ''type.test/t''" by code_simp
  then have e: "protobuf_encode_proto_data proto_event ''type.test/t'' = Inr (encode_event proto_event (Some ''type.test/t''))"
    by (simp add: protobuf_encode_proto_data_def encode_event_as_any_def proto_event_def)
  have "o_dataschema (e_rest (pb_event (Some ''type.test/t'') proto_event)) = Some ''/p#1''"
    "o_data (e_rest (pb_event (Some ''type.test/t'') proto_event)) = Binary_data [1, 2]"
    by (simp_all add: pb_event_def pb_payload_def pb_attributes_def proto_event_def)
  then show ?thesis
    using proto_data_round_trip [OF proto_event_ok(1,2) e, of small_limits] proto_event_sizes by (simp add: e)
qed

theorem protobuf_batch_round_trip_witness:
  "(case protobuf_encode_batch [proto_event, proto_event] of
      Inr encoded \<Rightarrow> protobuf_decode_batch encoded small_limits = Inr [pb_image proto_event, pb_image proto_event]
    | Inl _ \<Rightarrow> False)"
proof -
  have e: "protobuf_encode_batch [proto_event, proto_event] = Inr (encode_events [proto_event, proto_event])"
    by (simp add: protobuf_encode_batch_def)
  have "length (encode_events [proto_event, proto_event]) \<le> 450" by code_simp
  then show ?thesis
    using protobuf_batch_round_trip [OF _ e, of small_limits] proto_event_ok proto_event_sizes by (simp add: e)
qed

definition small_octets :: binary where
  "small_octets = [10, 1, 49, 18, 1, 47, 26, 3, 49, 46, 48, 34, 1, 116]"

theorem unknown_field_ignored_witness:
  "is_ok (protobuf_decode (small_octets @ tag_octets 9 W_length_delimited @ [2, 1, 2]) small_limits :: unit event result) \<and>
   is_ok (protobuf_decode (small_octets @ tag_octets 9 W_fixed32 @ [1, 2, 3, 4]) small_limits :: unit event result) \<and>
   is_ok (protobuf_decode (small_octets @ tag_octets 9 W_fixed64 @ [1, 2, 3, 4, 5, 6, 7, 8]) small_limits :: unit event result) \<and>
   is_ok (protobuf_decode (small_octets @ tag_octets 1 W_varint @ [0x80, 0]) small_limits :: unit event result)"
proof -
  have "is_ok (protobuf_decode small_octets small_limits :: unit event result)" by code_simp
  then obtain ev :: "unit event" where ev: "protobuf_decode small_octets small_limits = Inr ev" by (auto simp: is_ok_iff)
  have "varint_octets 2 = [2]" by code_simp
  then have "field_payload W_length_delimited [2, 1, 2]"
    unfolding field_payload_def by (auto intro!: exI [of _ "[1, 2]"])
  moreover have "field_payload W_fixed32 [1, 2, 3, 4]" "field_payload W_fixed64 [1, 2, 3, 4, 5, 6, 7, 8]"
    by (simp_all add: field_payload_def)
  moreover have "field_payload W_varint [0x80, 0]" by (simp add: field_payload_def is_varint_def)
  moreover have "length (small_octets @ tag_octets 9 W_length_delimited @ [2, 1, 2]) \<le> max_encoded_size small_limits"
    "length (small_octets @ tag_octets 9 W_fixed32 @ [1, 2, 3, 4]) \<le> max_encoded_size small_limits"
    "length (small_octets @ tag_octets 9 W_fixed64 @ [1, 2, 3, 4, 5, 6, 7, 8]) \<le> max_encoded_size small_limits"
    "length (small_octets @ tag_octets 1 W_varint @ [0x80, 0]) \<le> max_encoded_size small_limits"
    by code_simp+
  moreover have "field_number_ok 9" "field_number_ok 1" by (simp_all add: field_number_ok_def)
  ultimately show ?thesis
    using unknown_field_ignored [OF ev, of 9 W_length_delimited "[2, 1, 2]"]
      unknown_field_ignored [OF ev, of 9 W_fixed32 "[1, 2, 3, 4]"]
      unknown_field_ignored [OF ev, of 9 W_fixed64 "[1, 2, 3, 4, 5, 6, 7, 8]"]
      unknown_field_ignored [OF ev, of 1 W_varint "[0x80, 0]"] by simp
qed

end
