(* ===== verification/Binding_Protobuf.thy ===== *)
theory Binding_Protobuf
  imports Protobuf_Safety Binding_Claims
begin

text \<open>
  \<open>include/cloudevents/binding/detail/protobuf_structured.hpp\<close> and the Protobuf calls of the HTTP,
  Kafka and NATS bindings: structured mode in the Protobuf format.
\<close>

section \<open>Structured mode\<close>

definition media_type_padding :: string where
  "media_type_padding = [CHR '' '', CHR 0x09]"

definition media_type_essence :: "string \<Rightarrow> string" where
  "media_type_essence declared =
     (let bare = takeWhile (\<lambda>c. c \<noteq> CHR '';'') declared;
          bare = dropWhile (\<lambda>c. c \<in> set media_type_padding) bare
      in rev (dropWhile (\<lambda>c. c \<in> set media_type_padding) (rev bare)))"

definition encode_protobuf_structured :: "traits \<Rightarrow> 'j event \<Rightarrow> message result" where
  "encode_protobuf_structured T ev =
     and_then (protobuf_encode ev) (\<lambda>encoded.
       Inr \<lparr>header_fields = [(t_content_type_header T, pb_content_type)], body = encoded\<rparr>)"

definition decode_protobuf_structured :: "traits \<Rightarrow> message \<Rightarrow> pb_options \<Rightarrow> 'j event result" where
  "decode_protobuf_structured T incoming options =
     (let declared = (if t_case_sensitive_names T then find_exact (t_content_type_header T) (header_fields incoming)
                      else find_field (t_content_type_header T) (header_fields incoming))
      in if case declared of None \<Rightarrow> True | Some v \<Rightarrow> \<not> iequals (media_type_essence v) pb_content_type
         then fail not_a_cloudevent ''the content type is not application/cloudevents+protobuf'' ''''
         else protobuf_decode (body incoming) options)"


section \<open>The bindings\<close>

definition http_to_message_protobuf :: "'j event \<Rightarrow> message result" where
  "http_to_message_protobuf ev = encode_protobuf_structured (http_traits percent_encoded_values) ev"

definition http_from_message_protobuf :: "message \<Rightarrow> pb_options \<Rightarrow> 'j event result" where
  "http_from_message_protobuf request options =
     decode_protobuf_structured (http_traits percent_encoded_values) request options"

definition kafka_to_message_protobuf :: "'j event \<Rightarrow> message result" where
  "kafka_to_message_protobuf ev = encode_protobuf_structured kafka_traits ev"

definition kafka_from_message_protobuf :: "message \<Rightarrow> pb_options \<Rightarrow> 'j event result" where
  "kafka_from_message_protobuf incoming options = decode_protobuf_structured kafka_traits incoming options"

definition nats_to_message_protobuf :: "'j event \<Rightarrow> message result" where
  "nats_to_message_protobuf ev = encode_protobuf_structured nats_traits ev"

definition nats_from_message_protobuf :: "message \<Rightarrow> pb_options \<Rightarrow> 'j event result" where
  "nats_from_message_protobuf incoming options = decode_protobuf_structured nats_traits incoming options"

definition nats_to_payload_protobuf :: "'j event \<Rightarrow> binary result" where
  "nats_to_payload_protobuf ev = protobuf_encode ev"

definition nats_from_payload_protobuf :: "binary \<Rightarrow> pb_options \<Rightarrow> 'j event result" where
  "nats_from_payload_protobuf payload options = protobuf_decode payload options"


section \<open>The media type\<close>

lemma dropWhile_padding: "\<forall>c \<in> set p. c \<in> set media_type_padding \<Longrightarrow>
     dropWhile (\<lambda>c. c \<in> set media_type_padding) (p @ s) = dropWhile (\<lambda>c. c \<in> set media_type_padding) s"
  by (rule dropWhile_append2) blast

text \<open>Blanks around a media type and parameters after it do not count.\<close>

lemma media_type_essence_padded:
  assumes "\<forall>c \<in> set before \<union> set after. c \<in> set media_type_padding"
    and "CHR '';'' \<notin> set media" "media \<noteq> []" "hd media \<notin> set media_type_padding" "last media \<notin> set media_type_padding"
    and "parameters = [] \<or> hd parameters = CHR '';''"
  shows "media_type_essence (before @ media @ after @ parameters) = media"
proof -
  have p: "takeWhile (\<lambda>c. c \<noteq> CHR '';'') parameters = []"
    using assms(6) by (cases parameters) auto
  have n: "\<forall>c \<in> set (before @ media @ after). c \<noteq> CHR '';''"
    using assms(1,2) by (auto simp: media_type_padding_def)
  have t: "takeWhile (\<lambda>c. c \<noteq> CHR '';'') (before @ media @ after @ parameters) = before @ media @ after"
    using takeWhile_append2 [of "before @ media @ after" "\<lambda>c. c \<noteq> CHR '';''" parameters] n p by simp
  have h: "dropWhile (\<lambda>c. c \<in> set media_type_padding) (media @ s) = media @ s" for s
    using assms(3,4) by (cases media) auto
  have l: "dropWhile (\<lambda>c. c \<in> set media_type_padding) (rev media) = rev media"
    using assms(3,5) by (cases media rule: rev_cases) auto
  show ?thesis
    using assms(1) by (simp add: media_type_essence_def t dropWhile_padding h l)
qed

lemma protobuf_essence: "media_type_essence pb_content_type = pb_content_type"
  using media_type_essence_padded [of "[]" "[]" pb_content_type "[]"]
  by (simp add: pb_content_type_def media_type_padding_def)

lemma decode_structured_protobuf:
  assumes "encode_protobuf_structured T ev = Inr m"
  shows "decode_protobuf_structured T m options = protobuf_decode (body m) options \<and> protobuf_encode ev = Inr (body m)"
  using assms
  by (auto simp: encode_protobuf_structured_def decode_protobuf_structured_def and_then_eq_Inr protobuf_essence)

text \<open>
  The Protobuf message of the HTTP, Kafka and NATS bindings, and the NATS payload, are read back
  as the event that was written, up to what the Protobuf format keeps.
\<close>

theorem protobuf_message_round_trip:
  assumes "event_ok ev" "texts_utf8 ev" "data_utf8 (o_data (e_rest ev))"
    and "length (projr (protobuf_encode ev)) \<le> max_encoded_size options" "max_encoded_size options < 2 ^ 64"
    and "length (encode_attributes ev) \<le> max_attribute_count options"
  shows "and_then (http_to_message_protobuf ev) (\<lambda>m. http_from_message_protobuf m options) = Inr (pb_image ev) \<and>
    and_then (kafka_to_message_protobuf ev) (\<lambda>m. kafka_from_message_protobuf m options) = Inr (pb_image ev) \<and>
    and_then (nats_to_message_protobuf ev) (\<lambda>m. nats_from_message_protobuf m options) = Inr (pb_image ev) \<and>
    and_then (nats_to_payload_protobuf ev) (\<lambda>payload. nats_from_payload_protobuf payload options) = Inr (pb_image ev)"
proof -
  have e: "protobuf_encode ev = Inr (encode_event ev (proto_type_url ev))" by (simp add: protobuf_encode_def)
  have d: "protobuf_decode (encode_event ev (proto_type_url ev)) options = Inr (pb_image ev)"
    using decode_written [OF assms(1-3) proto_type_url_ok [of ev] assms(6) _ assms(5)] assms(4)
    by (simp add: e protobuf_decode_def decode_event_def pb_event_image)
  have m: "and_then (encode_protobuf_structured T ev) (\<lambda>m. decode_protobuf_structured T m options) = Inr (pb_image ev)" for T
    using d by (simp add: encode_protobuf_structured_def decode_protobuf_structured_def e protobuf_essence)
  show ?thesis
    using d by (simp add: http_to_message_protobuf_def http_from_message_protobuf_def kafka_to_message_protobuf_def
        kafka_from_message_protobuf_def nats_to_message_protobuf_def nats_from_message_protobuf_def
        nats_to_payload_protobuf_def nats_from_payload_protobuf_def m e)
qed

theorem protobuf_message_round_trip_witness:
  "and_then (http_to_message_protobuf proto_event) (\<lambda>m. http_from_message_protobuf m small_limits) = Inr (pb_image proto_event)"
  using protobuf_message_round_trip [OF proto_event_ok, of small_limits] proto_event_sizes
  by (simp add: protobuf_encode_def)

end
