(* ===== verification/Describe_Json.thy ===== *)
theory Describe_Json
  imports Json_Codec Attributes Ordered_Map
begin

text \<open>
  \<open>include/cloudevents/describe.hpp\<close> and \<open>include/cloudevents/format/describe_json.hpp\<close>: described
  structs as JSON objects. A described type is its descriptor: the name and type of each member, and
  the value that \<open>T{}\<close> gives it. A value of the type is the list of its members' values.
\<close>

section \<open>Described types\<close>

text \<open>The supported member types. A \<open>double\<close> is its 64-bit representation.\<close>

datatype field_type =
    T_bool
  | T_int32
  | T_int64
  | T_double
  | T_string
  | T_optional field_type
  | T_vector field_type
  | T_map field_type

datatype field_value =
    V_bool bool
  | V_int int
  | V_double u64
  | V_string string
  | V_optional "field_value option"
  | V_vector "field_value list"
  | V_map "(string \<times> field_value) list"

record described_field =
  df_name :: string
  df_type :: field_type
  df_initial :: field_value

type_synonym descriptor = "described_field list"

definition field_count :: "descriptor \<Rightarrow> nat" where
  "field_count D = length D"

definition field_names :: "descriptor \<Rightarrow> string list" where
  "field_names D = map df_name D"


section \<open>To JSON\<close>

fun field_to_json :: "'j codec \<Rightarrow> field_value \<Rightarrow> 'j" where
  "field_to_json C (V_optional v) = (case v of Some held \<Rightarrow> field_to_json C held | None \<Rightarrow> c_make_null C)"
| "field_to_json C (V_vector elements) =
     fold (\<lambda>element array. c_push C array (field_to_json C element)) elements (c_make_array C)"
| "field_to_json C (V_map entries) =
     fold (\<lambda>(key, element) obj. c_set C obj key (field_to_json C element)) entries (c_make_object C)"
| "field_to_json C (V_bool b) = c_make_bool C b"
| "field_to_json C (V_string s) = c_make_string C s"
| "field_to_json C (V_double d) = c_make_double C d"
| "field_to_json C (V_int i) = c_make_int C i"

definition to_json_value :: "'j codec \<Rightarrow> descriptor \<Rightarrow> field_value list \<Rightarrow> 'j" where
  "to_json_value C D held =
     fold (\<lambda>(field, v) obj. c_set C obj (df_name field) (field_to_json C v)) (zip D held) (c_make_object C)"


section \<open>From JSON\<close>


definition integer_from_json :: "'j codec \<Rightarrow> int \<Rightarrow> int \<Rightarrow> 'j \<Rightarrow> string \<Rightarrow> field_value result" where
  "integer_from_json C low high held loc =
     (case c_as_int C held of
        Inl _ \<Rightarrow> fail type_mismatch ''expected a JSON integer'' loc
      | Inr read \<Rightarrow>
          if read < low \<or> read > high then fail out_of_range ''the integer does not fit the declared field'' loc
          else Inr (V_int read))"

text \<open>The scalar types; the other types do not get here.\<close>

fun scalar_from_json :: "'j codec \<Rightarrow> field_type \<Rightarrow> 'j \<Rightarrow> string \<Rightarrow> field_value result" where
  "scalar_from_json C T_bool held loc =
     (case c_as_bool C held of Inl _ \<Rightarrow> fail type_mismatch ''expected a JSON boolean'' loc | Inr read \<Rightarrow> Inr (V_bool read))"
| "scalar_from_json C T_string held loc =
     (case c_as_string C held of Inl _ \<Rightarrow> fail type_mismatch ''expected a JSON string'' loc | Inr read \<Rightarrow> Inr (V_string read))"
| "scalar_from_json C T_double held loc =
     (case c_as_double C held of Inl _ \<Rightarrow> fail type_mismatch ''expected a JSON number'' loc | Inr read \<Rightarrow> Inr (V_double read))"
| "scalar_from_json C T_int32 held loc = integer_from_json C int32_min int32_max held loc"
| "scalar_from_json C _ held loc = integer_from_json C int64_min int64_max held loc"

text \<open>The visitors over the elements and the members: after an error the rest is skipped.\<close>

fun elements_from_json ::
  "('j \<Rightarrow> string \<Rightarrow> field_value result) \<Rightarrow> 'j list \<Rightarrow> string \<Rightarrow> field_value list \<Rightarrow> field_value list result" where
  "elements_from_json read [] loc out = Inr out"
| "elements_from_json read (element # elements) loc out =
     and_then (read element loc) (\<lambda>inner. elements_from_json read elements loc (out @ [inner]))"

fun members_from_json ::
  "('j \<Rightarrow> string \<Rightarrow> field_value result) \<Rightarrow> (string \<times> 'j) list \<Rightarrow> (string, field_value) omap \<Rightarrow>
     (string, field_value) omap result" where
  "members_from_json read [] out = Inr out"
| "members_from_json read ((key, member) # members) out =
     and_then (read member key) (\<lambda>inner. members_from_json read members (om_insert_or_assign key inner out))"

fun field_from_json :: "'j codec \<Rightarrow> field_type \<Rightarrow> 'j \<Rightarrow> string \<Rightarrow> field_value result" where
  "field_from_json C (T_optional U) held loc =
     (if c_kind_of C held = K_null then Inr (V_optional None)
      else and_then (field_from_json C U held loc) (\<lambda>inner. Inr (V_optional (Some inner))))"
| "field_from_json C (T_vector U) held loc =
     (if c_kind_of C held \<noteq> K_array then fail type_mismatch ''expected a JSON array'' loc
      else and_then (elements_from_json (field_from_json C U) (c_elements C held) loc []) (\<lambda>out. Inr (V_vector out)))"
| "field_from_json C (T_map U) held loc =
     (if c_kind_of C held \<noteq> K_object then fail type_mismatch ''expected a JSON object'' loc
      else and_then (members_from_json (field_from_json C U) (c_members C held) []) (\<lambda>out. Inr (V_map out)))"
| "field_from_json C U held loc = scalar_from_json C U held loc"

text \<open>The visitor of \<open>from_json_value\<close>: a member that the document does not have keeps its initial value.\<close>

fun fields_from_json :: "'j codec \<Rightarrow> descriptor \<Rightarrow> 'j \<Rightarrow> field_value list result" where
  "fields_from_json C [] document = Inr []"
| "fields_from_json C (field # D) document =
     and_then
       (case c_find C document (df_name field) of
          None \<Rightarrow> Inr (df_initial field)
        | Some i \<Rightarrow> field_from_json C (df_type field) (snd (c_members C document ! i)) (df_name field))
       (\<lambda>v. and_then (fields_from_json C D document) (\<lambda>vs. Inr (v # vs)))"

definition from_json_value :: "'j codec \<Rightarrow> descriptor \<Rightarrow> 'j \<Rightarrow> field_value list result" where
  "from_json_value C D document =
     (if c_kind_of C document \<noteq> K_object then fail type_mismatch ''a described type decodes from a JSON object'' ''''
      else fields_from_json C D document)"


section \<open>What the conversions rely on in a codec\<close>

text \<open>
  The documented behaviour of the operations that \<open>codec_scalars\<close> and \<open>codec_objects\<close> say nothing
  about: null, arrays, that \<open>find\<close> finds a member that is there, and, for the types that have one,
  doubles.
\<close>

definition codec_containers :: "'j codec \<Rightarrow> bool" where
  "codec_containers C \<longleftrightarrow>
     c_kind_of C (c_make_null C) = K_null \<and>
     c_kind_of C (c_make_array C) = K_array \<and> c_elements C (c_make_array C) = [] \<and>
     (\<forall>array v. c_kind_of C array = K_array \<longrightarrow>
        c_kind_of C (c_push C array v) = K_array \<and> c_elements C (c_push C array v) = c_elements C array @ [v]) \<and>
     (\<forall>obj name. c_kind_of C obj = K_object \<and> c_find C obj name = None \<longrightarrow> name \<notin> fst ` set (c_members C obj))"

definition codec_doubles :: "'j codec \<Rightarrow> bool" where
  "codec_doubles C \<longleftrightarrow>
     (\<forall>d. c_kind_of C (c_make_double C d) \<noteq> K_null \<and> c_as_double C (c_make_double C d) = Inr d)"

fun uses_double :: "field_type \<Rightarrow> bool" where
  "uses_double T_double = True"
| "uses_double (T_optional U) = uses_double U"
| "uses_double (T_vector U) = uses_double U"
| "uses_double (T_map U) = uses_double U"
| "uses_double _ = False"

definition codec_describes :: "'j codec \<Rightarrow> descriptor \<Rightarrow> bool" where
  "codec_describes C D \<longleftrightarrow>
     codec_containers C \<and> ((\<exists>field \<in> set D. uses_double (df_type field)) \<longrightarrow> codec_doubles C)"


section \<open>Values of a type\<close>

text \<open>
  \<open>of_type U v\<close>: a value of type \<open>U\<close> that JSON can hold. An engaged optional whose content is
  written as null is no such value: an optional of an empty optional.
\<close>

fun of_type :: "field_type \<Rightarrow> field_value \<Rightarrow> bool" where
  "of_type T_bool v \<longleftrightarrow> (case v of V_bool _ \<Rightarrow> True | _ \<Rightarrow> False)"
| "of_type T_int32 v \<longleftrightarrow> (case v of V_int i \<Rightarrow> int32_min \<le> i \<and> i \<le> int32_max | _ \<Rightarrow> False)"
| "of_type T_int64 v \<longleftrightarrow> (case v of V_int i \<Rightarrow> int64_min \<le> i \<and> i \<le> int64_max | _ \<Rightarrow> False)"
| "of_type T_double v \<longleftrightarrow> (case v of V_double _ \<Rightarrow> True | _ \<Rightarrow> False)"
| "of_type T_string v \<longleftrightarrow> (case v of V_string _ \<Rightarrow> True | _ \<Rightarrow> False)"
| "of_type (T_optional U) v \<longleftrightarrow>
     (case v of V_optional None \<Rightarrow> True | V_optional (Some held) \<Rightarrow> of_type U held \<and> held \<noteq> V_optional None | _ \<Rightarrow> False)"
| "of_type (T_vector U) v \<longleftrightarrow> (case v of V_vector vs \<Rightarrow> list_all (of_type U) vs | _ \<Rightarrow> False)"
| "of_type (T_map U) v \<longleftrightarrow> (case v of V_map m \<Rightarrow> om_ok m \<and> list_all (\<lambda>entry. of_type U (snd entry)) m | _ \<Rightarrow> False)"

end
