(* ===== verification/Describe_Laws.thy ===== *)
theory Describe_Laws
  imports Describe_Json Json_Round_Trip
begin

text \<open>
  A described struct is read back from the JSON object that was written for it, for any codec that
  keeps what is set in it.
\<close>

section \<open>Containers that were written\<close>

lemma elements_pushed:
  assumes "codec_containers C" "c_kind_of C array = K_array"
  shows "c_kind_of C (fold (\<lambda>e a. c_push C a (f e)) es array) = K_array \<and>
    c_elements C (fold (\<lambda>e a. c_push C a (f e)) es array) = c_elements C array @ map f es"
  using assms(2)
proof (induction es arbitrary: array)
  case (Cons e es)
  have "c_kind_of C (c_push C array (f e)) = K_array" "c_elements C (c_push C array (f e)) = c_elements C array @ [f e]"
    using assms(1) Cons.prems by (simp_all add: codec_containers_def)
  with Cons.IH [of "c_push C array (f e)"] show ?case by simp
qed simp

lemma elements_read:
  "\<forall>v \<in> set vs. read (f v) loc = Inr v \<Longrightarrow> elements_from_json read (map f vs) loc out = Inr (out @ vs)"
  by (induction vs arbitrary: out) simp_all

lemma members_read:
  "\<forall>(k, j) \<in> set ms. \<exists>v. read j k = Inr v \<Longrightarrow>
     members_from_json read ms out = Inr (om.insert_all (map (\<lambda>(k, j). (k, projr (read j k))) ms) out)"
proof (induction ms arbitrary: out)
  case (Cons m ms)
  obtain k j v where "m = (k, j)" "read j k = Inr v" using Cons.prems by (cases m) auto
  with Cons show ?case by simp
qed simp

lemma fold_set_all: "fold (\<lambda>(k, v) obj. c_set C obj k (f v)) m obj = set_all C (map (\<lambda>(k, v). (k, f v)) m) obj"
  by (induction m arbitrary: obj) auto

lemma written_object:
  assumes "codec_objects C" "distinct (map fst entries)"
  shows "c_kind_of C (set_all C entries (c_make_object C)) = K_object"
    "mset (c_members C (set_all C entries (c_make_object C))) = mset entries"
proof -
  have o: "c_kind_of C (c_make_object C) = K_object" "c_members C (c_make_object C) = []"
    using assms(1) by (simp_all add: codec_objects_def)
  show "c_kind_of C (set_all C entries (c_make_object C)) = K_object"
    "mset (c_members C (set_all C entries (c_make_object C))) = mset entries"
    using set_all_members [OF assms(1) o(1), of entries] assms(2) by (simp_all add: o)
qed


section \<open>One member\<close>

lemma written_array:
  assumes "codec_containers C"
  shows "c_kind_of C (field_to_json C (V_vector vs)) = K_array"
    "c_elements C (field_to_json C (V_vector vs)) = map (field_to_json C) vs"
  using elements_pushed [OF assms, of "c_make_array C" "field_to_json C" vs] assms
  by (simp_all add: codec_containers_def)

lemma written_map:
  assumes "codec_objects C" "om_ok m"
  shows "c_kind_of C (field_to_json C (V_map m)) = K_object"
    "mset (c_members C (field_to_json C (V_map m))) = mset (map (\<lambda>(k, v). (k, field_to_json C v)) m)"
proof -
  have e: "field_to_json C (V_map m) = set_all C (map (\<lambda>(k, v). (k, field_to_json C v)) m) (c_make_object C)"
    by (simp add: fold_set_all)
  have "map fst (map (\<lambda>(k, v). (k, field_to_json C v)) m) = map fst m" by auto
  then have d: "distinct (map fst (map (\<lambda>(k, v). (k, field_to_json C v)) m))"
    using om_ok_distinct [OF assms(2)] by (simp only:)
  show "c_kind_of C (field_to_json C (V_map m)) = K_object"
    "mset (c_members C (field_to_json C (V_map m))) = mset (map (\<lambda>(k, v). (k, field_to_json C v)) m)"
    unfolding e by (rule written_object [OF assms(1) d])+
qed

lemma map_members_read:
  assumes r: "\<And>k v. (k, v) \<in> set m \<Longrightarrow> read (f v) k = Inr v" and m: "om_ok m"
    and ms: "mset ms = mset (map (\<lambda>(k, v). (k, f v)) m)"
  shows "members_from_json read ms [] = Inr m"
proof -
  have s: "set ms = set (map (\<lambda>(k, v). (k, f v)) m)" by (rule mset_eq_setD [OF ms])
  have "\<forall>(k, j) \<in> set ms. \<exists>v. read j k = Inr v" unfolding s using r by auto
  note x = members_read [OF this, of "[]"]
  have "mset (map (\<lambda>(k, j). (k, projr (read j k))) ms) =
      mset (map (\<lambda>(k, j). (k, projr (read j k))) (map (\<lambda>(k, v). (k, f v)) m))"
    unfolding mset_map [of "\<lambda>(k, j). (k, projr (read j k))"] ms ..
  also have "map (\<lambda>(k, j). (k, projr (read j k))) (map (\<lambda>(k, v). (k, f v)) m) = m"
    using r by (auto simp: comp_def intro!: map_idI)
  finally have "om.insert_all (map (\<lambda>(k, j). (k, projr (read j k))) ms) [] = m"
    by (intro om.insert_all_entries) (simp_all add: m)
  with x show ?thesis by simp
qed

lemma field_round_trip:
  assumes C: "codec_scalars C" "codec_objects C" "codec_containers C"
  shows "uses_double U \<longrightarrow> codec_doubles C \<Longrightarrow> of_type U v \<Longrightarrow> field_from_json C U (field_to_json C v) loc = Inr v \<and>
    (c_kind_of C (field_to_json C v) = K_null \<longleftrightarrow> v = V_optional None)"
proof (induction U arbitrary: v loc)
  case (T_optional U)
  have n: "c_kind_of C (c_make_null C) = K_null" using C(3) by (simp add: codec_containers_def)
  show ?case
  proof (cases "v = V_optional None")
    case True
    then show ?thesis by (simp add: n)
  next
    case False
    with T_optional.prems obtain held where v: "v = V_optional (Some held)" "of_type U held" "held \<noteq> V_optional None"
      by (cases v) (auto split: option.splits)
    with T_optional.IH [OF _ v(2), of loc] T_optional.prems(1) show ?thesis by simp
  qed
next
  case (T_vector U)
  then obtain vs where v: "v = V_vector vs" "\<forall>w \<in> set vs. of_type U w" by (cases v) (auto simp: list_all_iff)
  have "\<forall>w \<in> set vs. field_from_json C U (field_to_json C w) loc = Inr w" using T_vector.IH T_vector.prems(1) v(2) by simp
  from elements_read [of vs "field_from_json C U" "field_to_json C" loc "[]", OF this] show ?case
    using written_array [OF C(3), of vs] by (simp add: v(1) del: field_to_json.simps)
next
  case (T_map U)
  then obtain m where v: "v = V_map m" "om_ok m" "\<forall>entry \<in> set m. of_type U (snd entry)"
    by (cases v) (auto simp: list_all_iff)
  have r: "field_from_json C U (field_to_json C w) k = Inr w" if "(k, w) \<in> set m" for k w
    using T_map.IH T_map.prems(1) v(3) that by fastforce
  have "members_from_json (field_from_json C U) (c_members C (field_to_json C v)) [] = Inr m"
    using map_members_read [of m "field_from_json C U" "field_to_json C", OF r v(2)] written_map(2) [OF C(2) v(2)]
    unfolding v(1) by blast
  with written_map(1) [OF C(2) v(2)] show ?case by (simp add: v(1) del: field_to_json.simps)
qed (use C in \<open>auto simp: codec_scalars_def codec_doubles_def integer_from_json_def
  int32_min_def int32_max_def int64_min_def int64_max_def split: field_value.splits\<close>)


section \<open>Described structs\<close>

definition described_value :: "descriptor \<Rightarrow> field_value list \<Rightarrow> bool" where
  "described_value D held \<longleftrightarrow> list_all2 (\<lambda>field v. of_type (df_type field) v) D held"

definition described_entries :: "'j codec \<Rightarrow> descriptor \<Rightarrow> field_value list \<Rightarrow> (string \<times> 'j) list" where
  "described_entries C D held = map (\<lambda>(field, v). (df_name field, field_to_json C v)) (zip D held)"

lemma to_json_value_all: "to_json_value C D held = set_all C (described_entries C D held) (c_make_object C)"
proof -
  have "fold (\<lambda>(field, v) obj. c_set C obj (df_name field) (field_to_json C v)) fvs obj =
      set_all C (map (\<lambda>(field, v). (df_name field, field_to_json C v)) fvs) obj" for fvs obj
    by (induction fvs arbitrary: obj) auto
  then show ?thesis by (simp add: to_json_value_def described_entries_def)
qed

lemma described_entries_names:
  "length held = length D \<Longrightarrow> map fst (described_entries C D held) = field_names D"
  by (induction D held rule: list_induct2') (simp_all add: described_entries_def field_names_def)

lemma fields_read:
  assumes f: "\<And>field v. (field, v) \<in> set (zip D held) \<Longrightarrow>
      (\<exists>i. c_find C document (df_name field) = Some i \<and>
        field_from_json C (df_type field) (snd (c_members C document ! i)) (df_name field) = Inr v)"
  shows "length held = length D \<Longrightarrow> fields_from_json C D document = Inr held"
  using f
proof (induction D held rule: list_induct2')
  case (4 field D v held)
  from "4.prems"(2) [of field v] obtain i where "c_find C document (df_name field) = Some i"
    "field_from_json C (df_type field) (snd (c_members C document ! i)) (df_name field) = Inr v" by auto
  moreover have "fields_from_json C D document = Inr held" using 4 by simp
  ultimately show ?case by simp
qed simp_all

lemma described_object:
  assumes "codec_objects C" "described_value D held" "distinct (field_names D)"
  shows "c_kind_of C (to_json_value C D held) = K_object"
    "mset (c_members C (to_json_value C D held)) = mset (described_entries C D held)"
proof -
  have "length held = length D" using assms(2) by (simp add: described_value_def list_all2_lengthD)
  then have "distinct (map fst (described_entries C D held))" using assms(3) by (simp add: described_entries_names)
  from written_object [OF assms(1) this] show "c_kind_of C (to_json_value C D held) = K_object"
    "mset (c_members C (to_json_value C D held)) = mset (described_entries C D held)"
    by (simp_all add: to_json_value_all)
qed

lemma described_struct_read:
  assumes C: "codec_scalars C" "codec_objects C" "codec_describes C D" "codec_lookup C"
    and D: "distinct (field_names D)" "described_value D held"
  shows "from_json_value C D (to_json_value C D held) = Inr held"
proof -
  let ?document = "to_json_value C D held"
  note o = described_object [OF C(2) D(2,1)]
  have l: "length held = length D" using D(2) by (simp add: described_value_def list_all2_lengthD)
  have d: "distinct (map fst (described_entries C D held))" using D(1) by (simp add: described_entries_names l)
  have s: "set (c_members C ?document) = set (described_entries C D held)" by (rule mset_eq_setD [OF o(2)])
  have "\<exists>i. c_find C ?document (df_name field) = Some i \<and>
      field_from_json C (df_type field) (snd (c_members C ?document ! i)) (df_name field) = Inr v"
    if fv: "(field, v) \<in> set (zip D held)" for field v
  proof -
    have e: "(df_name field, field_to_json C v) \<in> set (described_entries C D held)"
      using fv by (force simp: described_entries_def)
    then have "df_name field \<in> fst ` set (c_members C ?document)" unfolding s by force
    then obtain i where i: "c_find C ?document (df_name field) = Some i"
      using C(3) o(1) by (cases "c_find C ?document (df_name field)") (auto simp: codec_describes_def codec_containers_def)
    then have m: "i < length (c_members C ?document)" "fst (c_members C ?document ! i) = df_name field"
      using C(4) by (auto simp: codec_lookup_def)
    then have "(df_name field, snd (c_members C ?document ! i)) \<in> set (described_entries C D held)"
      unfolding s [symmetric] by (metis nth_mem prod.collapse)
    with e d have j: "snd (c_members C ?document ! i) = field_to_json C v" by (metis Some_eq_map_of_iff option.inject)
    have "of_type (df_type field) v" using fv D(2) by (auto simp: described_value_def list_all2_iff)
    moreover have "uses_double (df_type field) \<longrightarrow> codec_doubles C" "codec_containers C"
      using C(3) set_zip_leftD [OF fv] by (auto simp: codec_describes_def)
    ultimately show ?thesis using field_round_trip [OF C(1,2)] i j by auto
  qed
  from fields_read [OF this l] o(1) show ?thesis by (simp add: from_json_value_def)
qed


section \<open>What is read has the declared type\<close>

lemma elements_of_type:
  assumes "\<And>j loc v. read j loc = Inr v \<Longrightarrow> of_type U v"
  shows "elements_from_json read js loc out = Inr vs \<Longrightarrow> list_all (of_type U) out \<Longrightarrow> list_all (of_type U) vs"
  by (induction js arbitrary: out) (auto simp: and_then_eq_Inr dest: assms)

lemma members_of_type:
  assumes "\<And>j loc v. read j loc = Inr v \<Longrightarrow> of_type U v"
  shows "members_from_json read ms out = Inr m \<Longrightarrow> om_ok out \<Longrightarrow> \<forall>k v. om_find k out = Some v \<longrightarrow> of_type U v \<Longrightarrow>
    om_ok m \<and> (\<forall>k v. om_find k m = Some v \<longrightarrow> of_type U v)"
proof (induction ms arbitrary: out)
  case (Cons entry ms)
  obtain k j where e: "entry = (k, j)" by fastforce
  with Cons.prems(1) obtain v where v: "read j k = Inr v" "members_from_json read ms (om_insert_or_assign k v out) = Inr m"
    by (auto simp: and_then_eq_Inr)
  have "\<forall>k' v'. om_find k' (om_insert_or_assign k v out) = Some v' \<longrightarrow> of_type U v'"
    unfolding om_find_insert using Cons.prems(3) assms [OF v(1)] by simp
  from Cons.IH [OF v(2) om_ok_insert [OF Cons.prems(2)] this] show ?case .
qed simp

lemma field_of_type: "field_from_json C U held loc = Inr v \<Longrightarrow> of_type U v"
proof (induction U arbitrary: held loc v)
  case (T_optional U)
  show ?case
  proof (cases "c_kind_of C held = K_null")
    case False
    with T_optional.prems obtain w where w: "field_from_json C U held loc = Inr w" "v = V_optional (Some w)"
      by (auto simp: and_then_eq_Inr)
    have "w \<noteq> V_optional None"
    proof
      assume "w = V_optional None"
      with w(1) False show False
        by (cases U) (auto simp: and_then_eq_Inr integer_from_json_def split: if_splits sum.splits)
    qed
    with T_optional.IH [OF w(1)] w(2) show ?thesis by simp
  qed (use T_optional.prems in auto)
next
  case (T_vector U)
  from T_vector.prems obtain vs where "elements_from_json (field_from_json C U) (c_elements C held) loc [] = Inr vs" "v = V_vector vs"
    by (auto simp: and_then_eq_Inr split: if_splits)
  then show ?case using elements_of_type [of "field_from_json C U" U] T_vector.IH by fastforce
next
  case (T_map U)
  from T_map.prems obtain m where m: "members_from_json (field_from_json C U) (c_members C held) [] = Inr m" "v = V_map m"
    by (auto simp: and_then_eq_Inr split: if_splits)
  have "om_ok m \<and> (\<forall>k v. om_find k m = Some v \<longrightarrow> of_type U v)"
    using members_of_type [of "field_from_json C U" U, OF _ m(1)] T_map.IH by (simp add: om_find_def)
  with m(2) om_entries_all [of m "\<lambda>k v. of_type U v"] show ?case by (auto simp: list_all_iff)
qed (auto simp: integer_from_json_def split: sum.splits if_splits)

lemma fields_of_type:
  "fields_from_json C D document = Inr vs \<Longrightarrow> \<forall>field \<in> set D. of_type (df_type field) (df_initial field) \<Longrightarrow>
     described_value D vs"
  by (induction D arbitrary: vs)
    (auto simp: described_value_def and_then_eq_Inr split: option.splits dest: field_of_type)

text \<open>
  C22: a value that is read from JSON has the declared type in every member: an integer is in the
  range of its type, the keys of a map are in order, an engaged optional holds no empty one. A
  member that the document does not have keeps the value that the type gives it.
\<close>

theorem described_values_typed:
  assumes "from_json_value C D document = Inr held" "\<forall>field \<in> set D. of_type (df_type field) (df_initial field)"
  shows "described_value D held"
  using assms fields_of_type by (auto simp: from_json_value_def split: if_splits)

end
