(* ===== verification/Typed_Payload.thy ===== *)
theory Typed_Payload
  imports Describe_Laws Json_Properties
begin

text \<open>
  \<open>include/cloudevents/format/typed_payload.hpp\<close>: the payload of an event as a value of a described
  type. A function that changes an event returns the changed event.
\<close>

section \<open>Reading\<close>

definition payload_from :: "'j codec \<Rightarrow> descriptor \<Rightarrow> 'j \<Rightarrow> field_value list result" where
  "payload_from C D document =
     (case from_json_value C D document of
        Inl e \<Rightarrow> forward_failure (if err_where e = [] then e\<lparr>err_where := ''data''\<rparr> else e)
      | Inr decoded \<Rightarrow> Inr decoded)"

definition payload_from_text :: "'j codec \<Rightarrow> descriptor \<Rightarrow> string \<Rightarrow> field_value list result" where
  "payload_from_text C D txt = and_then_at (c_parse C txt) ''data'' (payload_from C D)"

definition data_as :: "'j codec \<Rightarrow> descriptor \<Rightarrow> 'j event \<Rightarrow> field_value list result" where
  "data_as C D ev =
     (case o_data (e_rest ev) of
        Json_text stored \<Rightarrow> payload_from_text C D stored
      | Json_document document \<Rightarrow>
          (case document_get C document of
             Some own \<Rightarrow> payload_from C D own
           | None \<Rightarrow> payload_from_text C D (document_dump document))
      | Text_data plain \<Rightarrow>
          if case o_datacontenttype (e_rest ev) of None \<Rightarrow> True | Some m \<Rightarrow> \<not> is_json_content_type m
          then fail type_mismatch ''the payload is text but datacontenttype does not say it is JSON'' ''data''
          else payload_from_text C D plain
      | No_data \<Rightarrow> fail missing_required_attribute ''the event carries no payload'' ''data''
      | Binary_data _ \<Rightarrow> fail type_mismatch ''a binary payload is not a described type'' ''data'')"

text \<open>\<open>decoded<T>\<close>: the event and the payload.\<close>

type_synonym 'j decoded = "'j event \<times> field_value list"

definition typed_read :: "'j codec \<Rightarrow> descriptor \<Rightarrow> 'j event \<Rightarrow> 'j option \<Rightarrow> 'j decoded result" where
  "typed_read C D ev json_member =
     and_then (case json_member of Some member \<Rightarrow> payload_from C D member | None \<Rightarrow> data_as C D ev)
       (\<lambda>payload. Inr (ev, payload))"

definition decode_as :: "'j codec \<Rightarrow> nat \<Rightarrow> descriptor \<Rightarrow> string \<Rightarrow> decode_options \<Rightarrow> 'j decoded result" where
  "decode_as C fresh D txt options = typed_decode C fresh (typed_read C D) txt options"

definition decode_batch_as :: "'j codec \<Rightarrow> nat \<Rightarrow> descriptor \<Rightarrow> string \<Rightarrow> decode_options \<Rightarrow> 'j decoded list result" where
  "decode_batch_as C fresh D txt options = typed_decode_batch C fresh (typed_read C D) txt options"

definition from_value_as :: "'j codec \<Rightarrow> nat \<Rightarrow> descriptor \<Rightarrow> 'j \<Rightarrow> 'j decoded result" where
  "from_value_as C fresh D document = typed_from_value C fresh (typed_read C D) document"


section \<open>Writing\<close>

definition encode_as :: "'j codec \<Rightarrow> descriptor \<Rightarrow> 'j event \<Rightarrow> field_value list \<Rightarrow> string result" where
  "encode_as C D ev payload =
     and_then
       (case o_datacontenttype (e_rest ev) of
          Some declared \<Rightarrow>
            if \<not> is_json_content_type declared
            then fail type_mismatch ''a typed payload is JSON but datacontenttype says otherwise'' ''datacontenttype''
            else Inr declared
        | None \<Rightarrow> Inr ''application/json'')
       (\<lambda>media. and_then (typed_to_value C ev media (to_json_value C D payload)) (\<lambda>document. Inr (c_dump C document)))"

definition typed_set_data ::
  "'j codec \<Rightarrow> nat \<Rightarrow> descriptor \<Rightarrow> 'j event \<Rightarrow> field_value list \<Rightarrow> unit result \<times> 'j event" where
  "typed_set_data C fresh D ev v =
     (let declared = o_datacontenttype (e_rest ev)
      in if case declared of None \<Rightarrow> False | Some m \<Rightarrow> \<not> is_json_content_type m
         then (fail type_mismatch ''a typed payload is JSON but datacontenttype says otherwise'' ''datacontenttype'', ev)
         else (Inr (), set_data (Json_document (document_make C fresh (to_json_value C D v)))
                (case declared of None \<Rightarrow> Some ''application/json'' | Some m \<Rightarrow> Some m) ev))"

text \<open>\<open>event_of<T, Codec>\<close> holds an event; the codec and the type are its parameters.\<close>

record 'j event_of =
  underlying :: "'j event"

definition with_data :: "'j codec \<Rightarrow> nat \<Rightarrow> descriptor \<Rightarrow> 'j event \<Rightarrow> field_value list \<Rightarrow> 'j event_of result" where
  "with_data C fresh D ev v =
     (case typed_set_data C fresh D ev v of
        (Inl e, _) \<Rightarrow> Inl e
      | (Inr _, ev) \<Rightarrow> Inr \<lparr>underlying = ev\<rparr>)"

definition event_of_data :: "'j codec \<Rightarrow> descriptor \<Rightarrow> 'j event_of \<Rightarrow> field_value list result" where
  "event_of_data C D held = data_as C D (underlying held)"

definition event_of_set_data ::
  "'j codec \<Rightarrow> nat \<Rightarrow> descriptor \<Rightarrow> 'j event_of \<Rightarrow> field_value list \<Rightarrow> unit result \<times> 'j event_of" where
  "event_of_set_data C fresh D held v =
     (case typed_set_data C fresh D (underlying held) v of (written, ev) \<Rightarrow> (written, held\<lparr>underlying := ev\<rparr>))"


section \<open>The payload of an event\<close>

lemma payload_from_written:
  assumes "codec_scalars C" "codec_objects C" "codec_describes C D" "codec_lookup C"
    and "distinct (field_names D)" "described_value D held"
  shows "payload_from C D (to_json_value C D held) = Inr held"
  by (simp add: payload_from_def described_struct_read [OF assms])

text \<open>
  The payload that is stored in an event is read back, whatever the event held before; storing
  it keeps a JSON media type, writes \<open>application/json\<close> where there is none, and is refused without
  a change under another media type.
\<close>

theorem typed_data_round_trip:
  assumes "codec_scalars C" "codec_objects C" "codec_describes C D" "codec_lookup C"
    and "distinct (field_names D)" "described_value D held" "typed_set_data C fresh D ev held = (r, ev')"
  shows "if is_ok r
    then data_as C D ev' = Inr held \<and>
      o_datacontenttype (e_rest ev') =
        Some (case o_datacontenttype (e_rest ev) of None \<Rightarrow> ''application/json'' | Some m \<Rightarrow> m) \<and>
      ev' = set_data (o_data (e_rest ev')) (o_datacontenttype (e_rest ev')) ev
    else ev' = ev \<and> fails_with type_mismatch r \<and>
      (case o_datacontenttype (e_rest ev) of None \<Rightarrow> False | Some m \<Rightarrow> \<not> is_json_content_type m)"
  using assms(7) payload_from_written [OF assms(1-6)]
  by (auto simp: typed_set_data_def Let_def set_data_def data_as_def document_get_make split: if_splits option.splits)


section \<open>A whole event with a typed payload\<close>

definition declared_json :: "'j event \<Rightarrow> string" where
  "declared_json ev = (case o_datacontenttype (e_rest ev) of Some m \<Rightarrow> m | None \<Rightarrow> ''application/json'')"

definition typed_image :: "'j event \<Rightarrow> 'j data_t \<Rightarrow> 'j event" where
  "typed_image ev d = ev\<lparr>e_rest := (e_rest ev)\<lparr>o_datacontenttype := Some (declared_json ev),
     o_extensions := json_extensions (o_extensions (e_rest ev)), o_data := d\<rparr>\<rparr>"

lemma application_json: "p_check datacontenttype_policy ''application/json'' = None" "is_json_content_type ''application/json''"
  by code_simp+

lemma encode_as_written:
  assumes "encode_as C D ev held = Inr txt"
  shows "is_json_content_type (declared_json ev) \<and>
    txt = c_dump C (set_all C (context_entries C ev (Some (declared_json ev)) @ extension_entries C ev @
      [(''data'', to_json_value C D held)]) (c_make_object C))"
  using assms application_json(2)
  by (auto simp: encode_as_def typed_to_value_def to_value_writing_all declared_json_def and_then_eq_Inr split: option.splits if_splits)

lemma decode_typed_data:
  assumes "first_ref ''data'' ms 0 = Some (k, v)" "first_ref ''data_base64'' ms 0 = None"
    and "o_datacontenttype into = Some m" "is_json_content_type m"
  shows "decode_data C fresh (found_in ms 0) owned mode own_text True into =
    Inr (into\<lparr>o_data := json_payload C fresh (k, v) owned mode own_text\<rparr>, if mode \<noteq> P_move then Some v else None)"
  using assms by (simp add: decode_data_def found_in_def Let_def)

lemma typed_event_read:
  assumes C: "codec_scalars C" "codec_objects C" "codec_lookup C" and ev: "event_ok ev" "time_fits ev"
    and media: "is_json_content_type (declared_json ev)"
    and root: "root = set_all C (context_entries C ev (Some (declared_json ev)) @ extension_entries C ev @
      [(''data'', v)]) (c_make_object C)"
  shows "\<exists>k. first_ref ''data'' (c_members C root) 0 = Some (k, v) \<and>
    read_event C fresh root owned mode own_text True =
      Inr (typed_image ev (json_payload C fresh (k, v) owned mode own_text), if mode \<noteq> P_move then Some v else None)"
proof -
  let ?ev = "ev\<lparr>e_rest := (e_rest ev)\<lparr>o_datacontenttype := Some (declared_json ev)\<rparr>\<rparr>"
  have "p_check datacontenttype_policy (declared_json ev) = None"
    using ev(1) application_json(1) by (auto simp: declared_json_def event_ok_def options_ok_def accepted_by_def split: option.split)
  then have ok: "event_ok ?ev" using ev(1) by (simp add: event_ok_def options_ok_def accepted_by_def)
  have time: "time_fits ?ev" using ev(2) by (simp add: time_fits_def)
  have same: "context_entries C ?ev m = context_entries C ev m" "extension_entries C ?ev = extension_entries C ev" for m
    by (simp_all add: context_entries_def extension_entries_def)
  have D: "data_entries C (Json_document (document_make C 0 v)) = Inr [(''data'', v)]"
    using C(3) by (simp add: data_entries_def document_get_make codec_lookup_def)
  have r: "root = set_all C (context_entries C ?ev (o_datacontenttype (e_rest ?ev)) @ extension_entries C ?ev @ [(''data'', v)]) (c_make_object C)"
    using root by (simp add: same)
  note m = written_members [OF C(2) ok D r]
  note dm = map_of_written(9,10) [OF ok D, of "o_datacontenttype (e_rest ?ev)", folded m(2)]
  from dm obtain k where k: "first_ref ''data'' (c_members C root) 0 = Some (k, v)"
    using first_ref_map_of [of "''data''" "c_members C root" 0] by auto
  have b: "first_ref ''data_base64'' (c_members C root) 0 = None"
    using first_ref_map_of [of "''data_base64''" "c_members C root" 0] dm by simp
  have d: "decode_data C fresh (found_in (c_members C root) 0) owned mode own_text True
      ((e_rest ?ev)\<lparr>o_extensions := json_extensions (o_extensions (e_rest ?ev)), o_data := No_data\<rparr>) =
      Inr ((e_rest (typed_image ev (json_payload C fresh (k, v) owned mode own_text))), if mode \<noteq> P_move then Some v else None)"
    by (subst decode_typed_data [OF k b _ media]) (simp_all add: typed_image_def)
  from read_event_written [OF C(1,2) ok time D r d] k show ?thesis by (simp add: typed_image_def)
qed

lemma decode_as_encoded:
  assumes "codec_scalars C" "codec_objects C" "codec_describes C D" "codec_lookup C" "codec_text C"
    and "distinct (field_names D)" "described_value D held" "event_ok ev" "time_fits ev"
    and "encode_as C D ev held = Inr txt"
  shows "\<exists>d. decode_as C fresh D txt options = Inr (typed_image ev d, held)"
proof -
  note w = encode_as_written [OF assms(10)]
  let ?v = "to_json_value C D held"
  let ?root = "set_all C (context_entries C ev (Some (declared_json ev)) @ extension_entries C ev @ [(''data'', ?v)]) (c_make_object C)"
  have p: "c_parse C txt = Inr ?root" using w assms(5) by (simp add: codec_text_def)
  note r = typed_event_read [OF assms(1,2,4,8,9) conjunct1 [OF w] refl]
  note held = payload_from_written [OF assms(1-4,6,7)]
  show ?thesis
  proof (cases "retains txt options")
    case True
    obtain k where k: "first_ref ''data'' (c_members C ?root) 0 = Some (k, ?v)"
      and e: "read_event C fresh ?root (Some ?root) P_move None True =
        Inr (typed_image ev (json_payload C fresh (k, ?v) (Some ?root) P_move None), None)"
      using r [of ?v fresh "Some ?root" P_move None] by auto
    have "json_payload C fresh (k, ?v) (Some ?root) P_move None = Json_document (document_make C fresh ?v)"
      using json_payload_move [OF assms(4) k, of fresh None None] assms(4) by (simp add: json_payload_def codec_lookup_def)
    moreover have "data_as C D (typed_image ev (Json_document (document_make C fresh ?v))) = Inr held"
      by (simp add: data_as_def typed_image_def document_get_make held)
    ultimately have "decode_as C fresh D txt options =
        Inr (typed_image ev (Json_document (document_make C fresh ?v)), held)"
      using e p True by (simp add: decode_as_def typed_decode_def decode_reading_def typed_reader_def typed_read_def)
    then show ?thesis by blast
  next
    case False
    obtain k where "read_event C fresh ?root (Some ?root) P_text (data_member_text txt) True =
        Inr (typed_image ev (json_payload C fresh (k, ?v) (Some ?root) P_text (data_member_text txt)), Some ?v)"
      using r [of ?v fresh "Some ?root" P_text "data_member_text txt"] by auto
    then have "decode_as C fresh D txt options =
        Inr (typed_image ev (json_payload C fresh (k, ?v) (Some ?root) P_text (data_member_text txt)), held)"
      using held p False by (simp add: decode_as_def typed_decode_def decode_reading_def typed_reader_def typed_read_def)
    then show ?thesis by blast
  qed
qed

text \<open>
  C21: an event that is written with a typed payload is read back with it, whether the reader keeps
  the document or its text: the payload member by member, the event with its media type (or
  \<open>application/json\<close>) and with the extensions as JSON holds them.
\<close>

theorem typed_event_round_trip:
  assumes "codec_scalars C" "codec_objects C" "codec_describes C D" "codec_lookup C" "codec_text C"
    and "distinct (field_names D)" "described_value D held" "event_ok ev" "time_fits ev"
    and "encode_as C D ev held = Inr txt"
  shows "\<exists>d. decode_as C fresh D txt options = Inr (typed_image ev d, held)"
  by (rule decode_as_encoded [OF assms])


section \<open>A described type\<close>

definition order_type :: descriptor where
  "order_type = [\<lparr>df_name = ''n'', df_type = T_int32, df_initial = V_int 0\<rparr>,
     \<lparr>df_name = ''tags'', df_type = T_vector T_string, df_initial = V_vector []\<rparr>,
     \<lparr>df_name = ''m'', df_type = T_map (T_optional T_bool), df_initial = V_map []\<rparr>]"

definition order_value :: "field_value list" where
  "order_value = [V_int (-7), V_vector [V_string ''a''], V_map [(''k'', V_optional None), (''l'', V_optional (Some (V_bool True)))]]"

lemma order_ok: "distinct (field_names order_type)" "described_value order_type order_value"
  "codec_describes reference_codec order_type"
proof -
  show "distinct (field_names order_type)" by (simp add: field_names_def order_type_def)
  show "described_value order_type order_value"
    by (simp add: described_value_def order_type_def order_value_def int32_min_def int32_max_def om_ok_def)
  have "length (takeWhile (\<lambda>m. fst m \<noteq> n) ms) < length ms" if "n \<in> fst ` set ms" for n and ms :: "(string \<times> jv) list"
    using that by (induction ms) auto
  then have "codec_containers reference_codec"
    by (fastforce simp: codec_containers_def reference_codec_def Let_def split: jv.splits if_splits)
  then show "codec_describes reference_codec order_type" by (simp add: codec_describes_def order_type_def)
qed

theorem typed_data_round_trip_witness:
  "(case typed_set_data reference_codec 0 order_type full_event order_value of
      (r, ev) \<Rightarrow> is_ok r \<and> data_as reference_codec order_type ev = Inr order_value)"
proof -
  obtain r ev where e: "typed_set_data reference_codec 0 order_type full_event order_value = (r, ev)" by fastforce
  have "is_ok r" using e by (auto simp: typed_set_data_def full_event_def)
  with typed_data_round_trip [OF reference_scalars reference_objects order_ok(3) reference_lookup order_ok(1,2) e] e
  show ?thesis by simp
qed

theorem typed_event_round_trip_witness:
  "(case encode_as reference_codec order_type full_event order_value of
      Inr txt \<Rightarrow> (case decode_as reference_codec 5 order_type txt default_decode_options of
          Inr (_, payload) \<Rightarrow> payload = order_value | Inl _ \<Rightarrow> False)
    | Inl _ \<Rightarrow> False)"
proof -
  obtain encoded where e: "encode_as reference_codec order_type full_event order_value = Inr encoded"
    by (simp add: encode_as_def full_event_def typed_to_value_def to_value_writing_all)
  from typed_event_round_trip [OF reference_scalars reference_objects order_ok(3) reference_lookup reference_text
      order_ok(1,2) full_event_ok e, of 5 default_decode_options]
  show ?thesis by (auto simp: e)
qed

theorem described_values_typed_witness:
  "described_value order_type (projr (from_json_value reference_codec order_type (J_object [(''n'', J_int 5)])))"
proof -
  have "is_ok (from_json_value reference_codec order_type (J_object [(''n'', J_int 5)]))" by code_simp
  then obtain held where h: "from_json_value reference_codec order_type (J_object [(''n'', J_int 5)]) = Inr held"
    by (auto simp: is_ok_iff)
  have "\<forall>field \<in> set order_type. of_type (df_type field) (df_initial field)"
    by (simp add: order_type_def int32_min_def int32_max_def om_ok_def)
  from described_values_typed [OF h this] show ?thesis by (simp add: h)
qed

end
