(* ===== verification/V1_Core.thy ===== *)
theory V1_Core
  imports Events
begin

unbundle bit_operations_syntax

text \<open>
  \<open>include/cloudevents/v1/core.hpp\<close> and \<open>v1/detail/timestamp.hpp\<close>: the first
  generation of the SDK, which stays available beside the current one. Its event is an aggregate
  that anybody may fill in, and \<open>validate\<close> is asked before an event is written and after it is
  read. Timestamps, attribute values, extension structs and header lists have the shape of the
  current generation and share its types.
\<close>

section \<open>Text\<close>

text \<open>\<open>detail::iequals\<close>: the loop over both texts from index \<open>i\<close> on.\<close>

function v1_iequals_from :: "string \<Rightarrow> string \<Rightarrow> nat \<Rightarrow> bool" where
  "v1_iequals_from left right i =
     (if i < length left
      then if ascii_lower (left ! i) \<noteq> ascii_lower (right ! i) then False
           else v1_iequals_from left right (Suc i)
      else True)"
  by pat_completeness auto
termination
  by (relation "measure (\<lambda>(left, right, i). length left - i)") auto

declare v1_iequals_from.simps [simp del]

definition v1_iequals :: "string \<Rightarrow> string \<Rightarrow> bool" where
  "v1_iequals left right = (if length left \<noteq> length right then False else v1_iequals_from left right 0)"

definition v1_iends_with :: "string \<Rightarrow> string \<Rightarrow> bool" where
  "v1_iends_with txt suffix \<longleftrightarrow>
     length txt \<ge> length suffix \<and> v1_iequals (drop (length txt - length suffix) txt) suffix"

definition v1_starts_with_ignoring_case :: "string \<Rightarrow> string \<Rightarrow> bool" where
  "v1_starts_with_ignoring_case txt prefix \<longleftrightarrow>
     length txt \<ge> length prefix \<and> v1_iequals (take (length prefix) txt) prefix"

text \<open>The branches on the lead byte; \<open>None\<close> is \<open>return false\<close>.\<close>

definition v1_utf8_lead :: "byte \<Rightarrow> (nat \<times> u32) option" where
  "v1_utf8_lead lead =
     (if lead AND 0xE0 = 0xC0 then Some (2, ucast lead AND 0x1F)
      else if lead AND 0xF0 = 0xE0 then Some (3, ucast lead AND 0x0F)
      else if lead AND 0xF8 = 0xF0 then Some (4, ucast lead AND 0x07)
      else None)"

text \<open>The loop over the \<open>n\<close> continuation bytes from position \<open>pos\<close> on.\<close>

fun v1_continuations :: "string \<Rightarrow> nat \<Rightarrow> nat \<Rightarrow> u32 \<Rightarrow> u32 option" where
  "v1_continuations txt pos 0 code = Some code"
| "v1_continuations txt pos (Suc n) code =
     (let continuation = uchar (txt ! pos)
      in if continuation AND 0xC0 \<noteq> 0x80 then None
         else v1_continuations txt (Suc pos) n (push_bit 6 code OR (ucast continuation AND 0x3F)))"

definition v1_code_refused :: "nat \<Rightarrow> u32 \<Rightarrow> bool" where
  "v1_code_refused len code \<longleftrightarrow>
     len = 2 \<and> code < 0x80 \<or> len = 3 \<and> code < 0x800 \<or> len = 4 \<and> code < 0x10000 \<or>
     code > 0x10FFFF \<or> code \<ge> 0xD800 \<and> code \<le> 0xDFFF"

function v1_utf8_from :: "string \<Rightarrow> nat \<Rightarrow> bool" where
  "v1_utf8_from txt index =
     (if index < length txt
      then let lead = uchar (txt ! index)
        in if lead < 0x80 then v1_utf8_from txt (Suc index)
           else case v1_utf8_lead lead of
               None \<Rightarrow> False
             | Some (len, code) \<Rightarrow>
                 if index + len > length txt then False
                 else case v1_continuations txt (Suc index) (len - 1) code of
                     None \<Rightarrow> False
                   | Some code \<Rightarrow> if v1_code_refused len code then False else v1_utf8_from txt (index + len)
      else True)"
  by pat_completeness auto
termination
  by (relation "measure (\<lambda>(txt, index). length txt - index)") (auto simp: v1_utf8_lead_def split: if_splits)

declare v1_utf8_from.simps [simp del]

definition v1_is_valid_utf8 :: "string \<Rightarrow> bool" where
  "v1_is_valid_utf8 txt = v1_utf8_from txt 0"

definition v1_valid_attribute_name :: "string \<Rightarrow> bool" where
  "v1_valid_attribute_name name \<longleftrightarrow> rx_match attribute_name_pattern name \<noteq> None"

fun v1_reserved_in :: "string list \<Rightarrow> string \<Rightarrow> bool" where
  "v1_reserved_in [] name = False"
| "v1_reserved_in (reserved # others) name = (if reserved = name then True else v1_reserved_in others name)"

definition v1_reserved_name :: "string \<Rightarrow> bool" where
  "v1_reserved_name name = v1_reserved_in reserved_names name"

definition v1_is_json_content_type :: "string \<Rightarrow> bool" where
  "v1_is_json_content_type content_type =
     (case rx_match content_type_pattern content_type of
        None \<Rightarrow> False
      | Some caps \<Rightarrow>
          let subtype = capture caps 2
          in v1_iequals subtype ''json'' \<or> v1_iends_with subtype ''+json'')"


section \<open>Timestamps\<close>

text \<open>
  The reader has no check of the digit count, which the pattern bounds; the offset and the range
  check are the current ones. The writer produces the fraction digit by digit.
\<close>

definition v1_read_fields :: "string \<Rightarrow> captures \<Rightarrow> timestamp result" where
  "v1_read_fields txt caps =
     (let year = to_int (capture caps 1);
          month = to_int (capture caps 2);
          day = to_int (capture caps 3);
          hour = to_int (capture caps 4);
          minute = to_int (capture caps 5);
          second = to_int (capture caps 6)
      in if \<not> is_valid_date year month day
         then fail invalid_timestamp ''no such calendar date'' txt
         else if hour > 23 \<or> minute > 59
         then fail invalid_timestamp ''hour or minute out of range'' txt
         else if second > 60
         then fail invalid_timestamp ''second out of range'' txt
         else
           let fraction = (case map_of caps 7 of
                 None \<Rightarrow> (0, 0)
               | Some fractional \<Rightarrow> (length fractional mod 256, add_fraction fractional 100000000 0))
           in and_then (read_offset txt caps) (\<lambda>zone.
             let days = days_from_civil (int year) (int month) (int day);
                 time_of_day = int hour * 3600 + int minute * 60 + int second
             in make_timestamp txt (days * 86400 + time_of_day) fraction zone))"

definition v1_parse_timestamp :: "string \<Rightarrow> timestamp result" where
  "v1_parse_timestamp txt =
     (case rx_match rfc3339_pattern txt of
        None \<Rightarrow> fail invalid_timestamp ''not an RFC 3339 date-time'' txt
      | Some caps \<Rightarrow> v1_read_fields txt caps)"

text \<open>\<open>fraction.push_back('0' + (nanos / place) % 10); place /= 10\<close>, \<open>n\<close> times.\<close>

fun v1_fraction_digits :: "nat \<Rightarrow> int \<Rightarrow> int \<Rightarrow> string" where
  "v1_fraction_digits 0 nanos place = []"
| "v1_fraction_digits (Suc n) nanos place =
     char_of (48 + nat ((nanos div place) mod 10)) # v1_fraction_digits n nanos (place div 10)"

definition v1_to_string :: "timestamp \<Rightarrow> string" where
  "v1_to_string t =
     (let lt = local_time t;
          days = lt div ns_per_day;
          (year, month, day) = civil_from_days days;
          since_midnight = wrap64 (lt - days * ns_per_day);
          hours = since_midnight div 3600000000000;
          minutes = (since_midnight - hours * 3600000000000) div 60000000000;
          seconds = (since_midnight - hours * 3600000000000 - minutes * 60000000000) div 1000000000;
          nanos = since_midnight - hours * 3600000000000 - minutes * 60000000000 - seconds * 1000000000;
          shown = min (ts_digits t) 9;
          fraction = (if shown > 0 then CHR ''.'' # v1_fraction_digits shown nanos 100000000 else []);
          offset_minutes = ts_offset t;
          offset_magnitude = (if offset_minutes < 0 then - offset_minutes else offset_minutes);
          date_time =
            zero_padded 4 year @ ''-'' @ zero_padded 2 month @ ''-'' @ zero_padded 2 day @ ''T'' @
            zero_padded 2 hours @ '':'' @ zero_padded 2 minutes @ '':'' @ zero_padded 2 seconds @ fraction
      in if ts_form t = utc_designator then date_time @ ''Z''
         else date_time @ (if offset_minutes < 0 then ''-'' else ''+'') @
           zero_padded 2 (offset_magnitude div 60) @ '':'' @ zero_padded 2 (offset_magnitude mod 60))"


section \<open>The event\<close>

datatype v1_data = V1_none | V1_text string | V1_binary binary | V1_json string

record v1_event =
  v1_id :: string
  v1_source :: string
  v1_type :: string
  v1_specversion :: string
  v1_datacontenttype :: "string option"
  v1_dataschema :: "string option"
  v1_subject :: "string option"
  v1_time :: "timestamp option"
  v1_extensions :: extension_map
  v1_data :: v1_data

text \<open>\<open>event{.id = {}, .source = {}, .type = {}}\<close>.\<close>

definition v1_empty_event :: v1_event where
  "v1_empty_event = \<lparr>v1_id = [], v1_source = [], v1_type = [], v1_specversion = ''1.0'',
     v1_datacontenttype = None, v1_dataschema = None, v1_subject = None, v1_time = None,
     v1_extensions = [], v1_data = V1_none\<rparr>"

definition v1_check_name :: "string \<Rightarrow> unit result" where
  "v1_check_name name =
     (if \<not> v1_valid_attribute_name name
      then fail invalid_attribute_name ''extension names must match [a-z0-9]+'' name
      else if v1_reserved_name name
      then fail reserved_attribute_name ''an extension may not redefine a context attribute'' name
      else Inr ())"

definition v1_set_extension :: "string \<Rightarrow> attribute_value \<Rightarrow> v1_event \<Rightarrow> unit result \<times> v1_event" where
  "v1_set_extension name v ev =
     (case v1_check_name name of
        Inl e \<Rightarrow> (Inl e, ev)
      | Inr _ \<Rightarrow> (Inr (), ev\<lparr>v1_extensions := om_insert_or_assign name v (v1_extensions ev)\<rparr>))"

definition v1_extension :: "string \<Rightarrow> v1_event \<Rightarrow> attribute_value option" where
  "v1_extension name ev = om_find name (v1_extensions ev)"

definition v1_from_attribute_text :: "field_kind \<Rightarrow> string \<Rightarrow> string \<Rightarrow> attribute_value result" where
  "v1_from_attribute_text F txt loc =
     (case F of
        F_string \<Rightarrow> Inr (Str txt)
      | F_uri \<Rightarrow> Inr (Uri txt)
      | F_uri_ref \<Rightarrow> Inr (Uri_ref txt)
      | F_bool \<Rightarrow>
          if txt = ''true'' then Inr (Bool True)
          else if txt = ''false'' then Inr (Bool False)
          else fail type_mismatch (''expected '' @ [CHR 0x22] @ ''true'' @ [CHR 0x22] @ '' or '' @
            [CHR 0x22] @ ''false'' @ [CHR 0x22]) loc
      | F_int32 \<Rightarrow>
          (case from_chars_int32 txt of
             Some (parsed, []) \<Rightarrow> Inr (Int32 parsed)
           | _ \<Rightarrow> fail type_mismatch ''expected an integer'' loc)
      | F_time \<Rightarrow>
          (case v1_parse_timestamp txt of
             Inl e \<Rightarrow> fail type_mismatch (err_detail e) loc
           | Inr parsed \<Rightarrow> Inr (Time parsed)))"

definition v1_read_attribute :: "field_kind \<Rightarrow> attribute_value \<Rightarrow> string \<Rightarrow> attribute_value result" where
  "v1_read_attribute F stored loc =
     (if has_kind F stored then Inr stored
      else (case stored of
          Str txt \<Rightarrow> v1_from_attribute_text F txt loc
        | _ \<Rightarrow> fail type_mismatch ''the stored attribute has an unrelated type'' loc))"

text \<open>\<open>event::get<Ext>\<close>.\<close>

fun v1_get :: "ext_field list \<Rightarrow> v1_event \<Rightarrow> ext_value result" where
  "v1_get [] ev = Inr []"
| "v1_get (f # fs) ev =
     (case v1_extension (f_name f) ev of
        None \<Rightarrow>
          if f_optional f then and_then (v1_get fs ev) (\<lambda>vs. Inr (None # vs))
          else fail missing_required_attribute ''the extension requires this attribute'' (f_name f)
      | Some stored \<Rightarrow>
          and_then (v1_read_attribute (f_kind f) stored (f_name f)) (\<lambda>v.
            and_then (v1_get fs ev) (\<lambda>vs. Inr (Some v # vs))))"

text \<open>\<open>event::set<Ext>\<close>: after an error the rest of the fields are skipped.\<close>

fun v1_set :: "ext_field list \<Rightarrow> ext_value \<Rightarrow> v1_event \<Rightarrow> unit result \<times> v1_event" where
  "v1_set (f # fs) (v # vs) ev =
     (case v of
        None \<Rightarrow> v1_set fs vs (ev\<lparr>v1_extensions := om_erase (f_name f) (v1_extensions ev)\<rparr>)
      | Some held \<Rightarrow>
          (case v1_set_extension (f_name f) held ev of
             (Inl e, ev) \<Rightarrow> (Inl e, ev)
           | (Inr _, ev) \<Rightarrow> v1_set fs vs ev))"
| "v1_set fs vs ev = (Inr (), ev)"

fun v1_check_names :: "extension_map \<Rightarrow> unit result" where
  "v1_check_names [] = Inr ()"
| "v1_check_names ((name, v) # rest) = and_then (v1_check_name name) (\<lambda>_. v1_check_names rest)"

definition v1_validate :: "v1_event \<Rightarrow> unit result" where
  "v1_validate ev =
     (if v1_specversion ev \<noteq> ''1.0''
      then fail unsupported_spec_version ''this SDK implements CloudEvents 1.0 only'' ''specversion''
      else if v1_id ev = [] then fail missing_required_attribute ''id must be non-empty'' ''id''
      else if v1_source ev = [] then fail missing_required_attribute ''source must be non-empty'' ''source''
      else if v1_type ev = [] then fail missing_required_attribute ''type must be non-empty'' ''type''
      else if v1_datacontenttype ev = Some []
      then fail invalid_attribute_value ''datacontenttype is present but empty'' ''datacontenttype''
      else if (case v1_datacontenttype ev of None \<Rightarrow> False
        | Some media \<Rightarrow> \<not> v1_is_json_content_type media \<and> rx_match content_type_pattern media = None)
      then fail invalid_content_type ''not a valid media type'' ''datacontenttype''
      else if v1_dataschema ev = Some []
      then fail invalid_attribute_value ''dataschema is present but empty'' ''dataschema''
      else if v1_subject ev = Some []
      then fail invalid_attribute_value ''subject is present but empty'' ''subject''
      else v1_check_names (v1_extensions ev))"

definition v1_lint :: "v1_event \<Rightarrow> lint_warning list" where
  "v1_lint ev = fold (\<lambda>(name, v) warnings.
       if length name > 20
       then warnings @ [\<lparr>w_attribute = name, w_message = ''extension names should be 20 characters or fewer''\<rparr>]
       else warnings)
     (v1_extensions ev) []"


section \<open>The routines that were rewritten later\<close>

text \<open>
  The current generation replaced the loops of this one; the functions are the same.
\<close>

lemma v1_iequals_from_drop:
  "length left = length right \<Longrightarrow>
     v1_iequals_from left right i \<longleftrightarrow> map ascii_lower (drop i left) = map ascii_lower (drop i right)"
proof (induction left right i rule: v1_iequals_from.induct)
  case (1 left right i)
  then show ?case
    by (subst v1_iequals_from.simps)
      (cases "i < length left"; simp add: Cons_nth_drop_Suc [symmetric])
qed

lemma v1_iequals [simp]: "v1_iequals left right = iequals left right"
  by (auto simp: v1_iequals_def iequals_def v1_iequals_from_drop dest: map_eq_imp_length_eq)

lemma v1_iends_with [simp]: "v1_iends_with t suffix = iends_with t suffix"
  by (simp add: v1_iends_with_def iends_with_def iequals_def)

lemma v1_starts_with [simp]: "v1_starts_with_ignoring_case t prefix = starts_with_ignoring_case t prefix"
  by (simp add: v1_starts_with_ignoring_case_def starts_with_ignoring_case_def iequals_def)

lemma v1_valid_attribute_name [simp]: "v1_valid_attribute_name = valid_attribute_name"
  by (simp add: v1_valid_attribute_name_def valid_attribute_name_def fun_eq_iff)

lemma v1_reserved_in: "v1_reserved_in names name \<longleftrightarrow> name \<in> set names"
  by (induction names) auto

lemma v1_reserved_name [simp]: "v1_reserved_name name = reserved_name name"
  by (simp add: v1_reserved_name_def v1_reserved_in reserved_name_def)

lemma v1_is_json_content_type [simp]: "v1_is_json_content_type media = is_json_content_type media"
  by (simp add: v1_is_json_content_type_def is_json_content_type_def split: option.split)

lemma v1_continuations_take:
  "pos + n \<le> length t \<Longrightarrow> v1_continuations t pos n code = read_continuations (take n (drop pos t)) code"
  by (induction t pos n code rule: v1_continuations.induct)
    (auto simp: Let_def Cons_nth_drop_Suc [symmetric])

lemma v1_code_refused:
  "len \<in> {2, 3, 4} \<Longrightarrow> v1_code_refused len code \<longleftrightarrow> \<not> utf8_code_point_allowed len code"
  by (auto simp: v1_code_refused_def utf8_code_point_allowed_def utf8_floor_def not_le not_less)

lemma v1_utf8_lead:
  "\<not> lead < 0x80 \<Longrightarrow> read_utf8_lead lead =
     (case v1_utf8_lead lead of None \<Rightarrow> \<lparr>lead_length = 0, lead_payload = 0\<rparr>
      | Some (len, code) \<Rightarrow> \<lparr>lead_length = len, lead_payload = code\<rparr>)"
  by (simp add: read_utf8_lead_def v1_utf8_lead_def)

lemma v1_utf8_lead_length: "v1_utf8_lead lead = Some (len, code) \<Longrightarrow> len \<in> {2, 3, 4}"
  by (auto simp: v1_utf8_lead_def split: if_splits)

lemma v1_utf8_from_drop: "v1_utf8_from t index = is_valid_utf8 (drop index t)"
proof (induction t index rule: v1_utf8_from.induct)
  case (1 t index)
  let ?lead = "uchar (t ! index)"
  show ?case
  proof (cases "index < length t")
    case False
    then show ?thesis by (simp add: v1_utf8_from.simps [of t index])
  next
    case True
    then have d: "drop index t = t ! index # drop (Suc index) t" by (simp add: Cons_nth_drop_Suc)
    show ?thesis
    proof (cases "?lead < 0x80")
      case l: True
      then have "is_valid_utf8 (drop index t) = is_valid_utf8 (drop (Suc index) t)"
        unfolding d by (subst is_valid_utf8.simps) (simp add: read_utf8_lead_def)
      with "1.IH"(1) [OF True refl l] True l show ?thesis by (simp add: v1_utf8_from.simps [of t index])
    next
      case l: False
      show ?thesis
      proof (cases "v1_utf8_lead ?lead")
        case None
        then show ?thesis
          using True l unfolding d by (simp add: v1_utf8_from.simps [of t index] is_valid_utf8.simps v1_utf8_lead)
      next
        case (Some p)
        obtain len code where p: "p = (len, code)" by fastforce
        note s = Some [unfolded p]
        have len: "len \<in> {2, 3, 4}" by (rule v1_utf8_lead_length [OF s])
        have short: "index + len > length t \<longleftrightarrow> len > length (drop index t)" using True by auto
        have r: "is_valid_utf8 (drop index t) \<longleftrightarrow> index + len \<le> length t \<and>
            (case read_continuations (take (len - 1) (drop (Suc index) t)) code of None \<Rightarrow> False
             | Some code \<Rightarrow> utf8_code_point_allowed len code \<and> is_valid_utf8 (drop (index + len) t))"
          using True len by (subst is_valid_utf8.simps)
            (auto simp: d [symmetric] hd_drop_conv_nth v1_utf8_lead [OF l] s Let_def add.commute split: option.splits)
        show ?thesis
        proof (cases "index + len \<le> length t")
          case False
          then show ?thesis using True l s r by (simp add: v1_utf8_from.simps [of t index])
        next
          case fits: True
          have c: "v1_continuations t (Suc index) (len - 1) code =
              read_continuations (take (len - 1) (drop (Suc index) t)) code"
            using fits len by (intro v1_continuations_take) auto
          show ?thesis
            using True l s r fits c "1.IH"(2) [OF True refl l s refl]
            by (auto simp: v1_utf8_from.simps [of t index] v1_code_refused [OF len] split: option.splits)
        qed
      qed
    qed
  qed
qed

lemma v1_is_valid_utf8 [simp]: "v1_is_valid_utf8 t = is_valid_utf8 t"
  by (simp add: v1_is_valid_utf8_def v1_utf8_from_drop)

lemma v1_read_fields:
  assumes "fraction_part fr cf" "zone_part zn cz"
  shows "v1_read_fields s (rfc_captures y mo d h mi sec cf cz) = read_fields s (rfc_captures y mo d h mi sec cf cz)"
  using assms(1)
  by (auto simp: v1_read_fields_def read_fields_def read_fraction_def fraction_digits_make_def rfc_captures_lookup [OF assms]
      fraction_part_def last_hour_def last_minute_def leap_second_def max_fractional_digits_def
      first_fraction_place_def Let_def)

lemma v1_parse_timestamp [simp]: "v1_parse_timestamp t = parse_timestamp t"
proof (cases "rx_match rfc3339_pattern t")
  case None
  then show ?thesis by (simp add: v1_parse_timestamp_def parse_timestamp_def)
next
  case (Some caps)
  from rfc3339_sound [OF rx_match_sound [OF this]] obtain y mo d sep h mi sec fr cf zn cz where
    "rfc_shape t y mo d sep h mi sec fr cf zn cz" "caps = rfc_captures y mo d h mi sec cf cz" by blast
  then show ?thesis
    using Some v1_read_fields [of fr cf zn cz] by (simp add: v1_parse_timestamp_def parse_timestamp_def rfc_shape_def)
qed

lemma fixed_digits_mod: "fixed_digits w (n mod 10 ^ w) = fixed_digits w n"
  using fixed_digits_to_int [OF fixed_digits_are_digits length_fixed_digits, of w n]
  by (simp add: to_int_fixed_digits)

lemma v1_fraction_digits_fixed:
  "0 < n \<Longrightarrow> v1_fraction_digits n (int nanos) (10 ^ (n + k - 1)) = fixed_digits n (nanos div 10 ^ k)"
proof (induction n)
  case (Suc n)
  have "v1_fraction_digits n (int nanos) (10 ^ (n + k) div 10) = fixed_digits n (nanos div 10 ^ k)"
  proof (cases "n = 0")
    case False
    then have "(10 :: int) ^ (n + k) div 10 = 10 ^ (n + k - 1)" by (cases "n + k") auto
    with Suc.IH False show ?thesis by simp
  qed simp
  moreover have "int nanos div 10 ^ (n + k) mod 10 = int (nanos div 10 ^ k div 10 ^ n mod 10)"
    by (simp add: div_mult2_eq [symmetric] power_add mult.commute zdiv_int zmod_int)
  ultimately show ?case
    using fixed_digits_split [of 1 n "nanos div 10 ^ k"] by (simp add: fixed_digits_mod digit_char_def)
qed simp

lemma v1_fraction_digits_take:
  assumes "0 \<le> nanos" "0 < n"
  shows "v1_fraction_digits (min n 9) nanos 100000000 = take (min n 9) (fixed_digits 9 (nat nanos))"
  using v1_fraction_digits_fixed [of "min n 9" "nat nanos" "9 - min n 9"] assms
  by (simp add: take_fixed_digits)

lemma v1_to_string [simp]: "v1_to_string t = to_string t"
proof -
  have "0 \<le> x - a * p - b * q - (x - a * p - b * q) div r * r" if "0 < r" for x a p b q r :: int
    using that by (simp add: minus_div_mult_eq_mod)
  then have nanos: "0 \<le> x - a * 3600000000000 - b * 60000000000 -
      (x - a * 3600000000000 - b * 60000000000) div 1000000000 * 1000000000" for x a b :: int
    by simp
  show ?thesis
    unfolding v1_to_string_def to_string_def Let_def max_fractional_digits_def minutes_per_hour_def
    by (cases "ts_digits t = 0") (simp_all add: v1_fraction_digits_take [OF nanos] split: prod.split)
qed

end
