(* ===== verification/V1_Json.thy ===== *)
theory V1_Json
  imports V1_Core Json_Format
begin

text \<open>
  \<open>include/cloudevents/v1/format/json_format.hpp\<close>: the JSON format of the first generation. It
  looks every member up by its name, keeps JSON data as text, and validates the event before it
  writes and after it reads one.
\<close>

section \<open>Writing\<close>

definition v1_encode_attribute :: "'j codec \<Rightarrow> attribute_value \<Rightarrow> 'j result" where
  "v1_encode_attribute C attribute =
     (case attribute of
        Bool held \<Rightarrow> Inr (c_make_bool C held)
      | Int32 held \<Rightarrow> Inr (c_make_int C held)
      | Str held \<Rightarrow> Inr (c_make_string C held)
      | Bin held \<Rightarrow> Inr (c_make_string C (base64_encode held))
      | Time held \<Rightarrow> Inr (c_make_string C (v1_to_string held))
      | Uri held \<Rightarrow> Inr (c_make_string C held)
      | Uri_ref held \<Rightarrow> Inr (c_make_string C held))"

definition v1_encode_data :: "'j codec \<Rightarrow> v1_data \<Rightarrow> 'j \<Rightarrow> 'j result" where
  "v1_encode_data C data root =
     (case data of
        V1_none \<Rightarrow> Inr root
      | V1_binary held \<Rightarrow> Inr (c_set C root ''data_base64'' (c_make_string C (base64_encode held)))
      | V1_text held \<Rightarrow> Inr (c_set C root ''data'' (c_make_string C held))
      | V1_json held \<Rightarrow>
          (case c_parse C held of
             Inl _ \<Rightarrow> fail parse_error ''data is not well-formed JSON'' ''/data''
           | Inr parsed \<Rightarrow> Inr (c_set C root ''data'' parsed)))"

fun v1_set_extensions :: "'j codec \<Rightarrow> extension_map \<Rightarrow> 'j \<Rightarrow> 'j result" where
  "v1_set_extensions C [] root = Inr root"
| "v1_set_extensions C ((name, attribute) # rest) root =
     and_then_at (v1_encode_attribute C attribute) name
       (\<lambda>encoded. v1_set_extensions C rest (c_set C root name encoded))"

definition v1_to_value :: "'j codec \<Rightarrow> v1_event \<Rightarrow> 'j result" where
  "v1_to_value C ev =
     and_then (v1_validate ev) (\<lambda>_.
       let root = c_make_object C;
           root = c_set C root ''specversion'' (c_make_string C (v1_specversion ev));
           root = c_set C root ''id'' (c_make_string C (v1_id ev));
           root = c_set C root ''source'' (c_make_string C (v1_source ev));
           root = c_set C root ''type'' (c_make_string C (v1_type ev));
           root = (case v1_datacontenttype ev of
               Some media \<Rightarrow> c_set C root ''datacontenttype'' (c_make_string C media) | None \<Rightarrow> root);
           root = (case v1_dataschema ev of
               Some schema \<Rightarrow> c_set C root ''dataschema'' (c_make_string C schema) | None \<Rightarrow> root);
           root = (case v1_subject ev of
               Some about \<Rightarrow> c_set C root ''subject'' (c_make_string C about) | None \<Rightarrow> root);
           root = (case v1_time ev of
               Some instant \<Rightarrow> c_set C root ''time'' (c_make_string C (v1_to_string instant)) | None \<Rightarrow> root)
       in and_then (v1_set_extensions C (v1_extensions ev) root) (v1_encode_data C (v1_data ev)))"

definition v1_encode :: "'j codec \<Rightarrow> v1_event \<Rightarrow> string result" where
  "v1_encode C ev = and_then (v1_to_value C ev) (\<lambda>document. Inr (c_dump C document))"

fun v1_push_events :: "'j codec \<Rightarrow> v1_event list \<Rightarrow> 'j \<Rightarrow> 'j result" where
  "v1_push_events C [] arr = Inr arr"
| "v1_push_events C (ev # events) arr =
     and_then (v1_to_value C ev) (\<lambda>document. v1_push_events C events (c_push C arr document))"

definition v1_encode_batch :: "'j codec \<Rightarrow> v1_event list \<Rightarrow> string result" where
  "v1_encode_batch C events =
     and_then (v1_push_events C events (c_make_array C)) (\<lambda>arr. Inr (c_dump C arr))"


section \<open>Reading\<close>

text \<open>\<open>Codec::find\<close> and the member it points to.\<close>

definition v1_find :: "'j codec \<Rightarrow> 'j \<Rightarrow> string \<Rightarrow> 'j option" where
  "v1_find C document name =
     map_option (\<lambda>i. snd (c_members C document ! i)) (c_find C document name)"

definition v1_required :: "'j codec \<Rightarrow> 'j \<Rightarrow> string \<Rightarrow> string result" where
  "v1_required C document name =
     (case v1_find C document name of
        None \<Rightarrow> fail missing_required_attribute ''required attribute is absent'' name
      | Some member \<Rightarrow>
          (case c_as_string C member of
             Inl _ \<Rightarrow> fail invalid_attribute_value ''must be a JSON string'' name
           | Inr txt \<Rightarrow> Inr txt))"

definition v1_optional_string :: "'j codec \<Rightarrow> 'j \<Rightarrow> string \<Rightarrow> (string option) result" where
  "v1_optional_string C document name =
     (case v1_find C document name of
        None \<Rightarrow> Inr None
      | Some member \<Rightarrow>
          if c_kind_of C member = K_null then Inr None
          else (case c_as_string C member of
              Inl _ \<Rightarrow> fail invalid_attribute_value ''must be a JSON string'' name
            | Inr txt \<Rightarrow> Inr (Some txt)))"

definition v1_decode_attribute :: "'j codec \<Rightarrow> 'j \<Rightarrow> attribute_value result" where
  "v1_decode_attribute C member =
     (case c_kind_of C member of
        K_boolean \<Rightarrow> and_then_at (c_as_bool C member) '''' (\<lambda>held. Inr (Bool held))
      | K_integer \<Rightarrow> and_then_at (c_as_int C member) '''' (\<lambda>held.
          if held < int32_min \<or> held > int32_max
          then fail out_of_range ''the CloudEvents Integer type is 32-bit signed'' ''''
          else Inr (Int32 held))
      | K_string \<Rightarrow> and_then_at (c_as_string C member) '''' (\<lambda>held. Inr (Str held))
      | K_floating \<Rightarrow> fail type_mismatch ''the CloudEvents type system has no floating-point type'' ''''
      | _ \<Rightarrow> fail type_mismatch ''an extension attribute must be a boolean, integer or string'' '''')"

definition v1_decode_data :: "'j codec \<Rightarrow> 'j \<Rightarrow> string option \<Rightarrow> v1_data result" where
  "v1_decode_data C document media =
     (case (v1_find C document ''data'', v1_find C document ''data_base64'') of
        (Some _, Some _) \<Rightarrow> fail data_conflict ''data and data_base64 are mutually exclusive'' ''data''
      | (None, Some data_base64) \<Rightarrow>
          (case c_as_string C data_base64 of
             Inl _ \<Rightarrow> fail invalid_attribute_value ''data_base64 must be a JSON string'' ''data_base64''
           | Inr txt \<Rightarrow> and_then_at (base64_decode txt) ''data_base64'' (\<lambda>decoded. Inr (V1_binary decoded)))
      | (None, None) \<Rightarrow> Inr V1_none
      | (Some data, None) \<Rightarrow>
          let declared_non_json = (case media of Some m \<Rightarrow> \<not> v1_is_json_content_type m | None \<Rightarrow> False)
          in if declared_non_json \<and> c_kind_of C data = K_string
             then (case c_as_string C data of
                 Inl _ \<Rightarrow> fail invalid_attribute_value ''data must be a JSON string'' ''data''
               | Inr txt \<Rightarrow> Inr (V1_text txt))
             else Inr (V1_json (c_dump C data)))"

text \<open>The visitor over the members; after an error the rest of them are skipped.\<close>

fun v1_read_extensions ::
  "'j codec \<Rightarrow> (string \<times> 'j) list \<Rightarrow> unit result \<Rightarrow> extension_map \<Rightarrow> unit result \<times> extension_map" where
  "v1_read_extensions C [] extension_error into = (extension_error, into)"
| "v1_read_extensions C ((name, member) # ms) extension_error into =
     (if \<not> is_ok extension_error \<or> v1_reserved_name name then v1_read_extensions C ms extension_error into
      else if c_kind_of C member = K_null then v1_read_extensions C ms extension_error into
      else if \<not> v1_valid_attribute_name name
      then v1_read_extensions C ms
        (fail invalid_attribute_name ''extension names must match [a-z0-9]+'' name) into
      else (case v1_decode_attribute C member of
          Inl e \<Rightarrow> v1_read_extensions C ms (forward_failure_at e name) into
        | Inr decoded \<Rightarrow> v1_read_extensions C ms extension_error (om_insert_or_assign name decoded into)))"

definition v1_from_value :: "'j codec \<Rightarrow> 'j \<Rightarrow> v1_event result" where
  "v1_from_value C document =
     (if c_kind_of C document \<noteq> K_object then fail parse_error ''a CloudEvent must be a JSON object'' ''''
      else
        and_then (v1_required C document ''specversion'') (\<lambda>version.
        if version \<noteq> ''1.0''
        then fail unsupported_spec_version ''this SDK implements CloudEvents 1.0 only'' ''specversion''
        else
        and_then (v1_required C document ''id'') (\<lambda>i.
        and_then (v1_required C document ''source'') (\<lambda>origin.
        and_then (v1_required C document ''type'') (\<lambda>k.
        and_then (v1_optional_string C document ''datacontenttype'') (\<lambda>media.
        and_then (v1_optional_string C document ''dataschema'') (\<lambda>schema.
        and_then (v1_optional_string C document ''subject'') (\<lambda>about.
        and_then (v1_optional_string C document ''time'') (\<lambda>time_text.
        and_then (case time_text of None \<Rightarrow> Inr None
          | Some present \<Rightarrow> and_then_at (v1_parse_timestamp present) ''time'' (\<lambda>parsed. Inr (Some parsed))) (\<lambda>instant.
        and_then (v1_decode_data C document media) (\<lambda>data.
        case v1_read_extensions C (c_members C document) (Inr ()) [] of (extension_error, exts) \<Rightarrow>
        and_then extension_error (\<lambda>_.
        let ev = \<lparr>v1_id = i, v1_source = origin, v1_type = k, v1_specversion = version,
                  v1_datacontenttype = media, v1_dataschema = schema, v1_subject = about, v1_time = instant,
                  v1_extensions = exts, v1_data = data\<rparr>
        in and_then (v1_validate ev) (\<lambda>_. Inr ev)))))))))))))"

definition v1_decode :: "'j codec \<Rightarrow> string \<Rightarrow> v1_event result" where
  "v1_decode C txt = and_then_at (c_parse C txt) '''' (v1_from_value C)"

text \<open>The visitor over the elements: the first error ends it.\<close>

fun v1_from_values :: "'j codec \<Rightarrow> 'j list \<Rightarrow> (v1_event list) result" where
  "v1_from_values C [] = Inr []"
| "v1_from_values C (element # elements) =
     and_then (v1_from_value C element) (\<lambda>ev.
     and_then (v1_from_values C elements) (\<lambda>events. Inr (ev # events)))"

definition v1_decode_batch :: "'j codec \<Rightarrow> string \<Rightarrow> (v1_event list) result" where
  "v1_decode_batch C txt =
     and_then_at (c_parse C txt) '''' (\<lambda>document.
       if c_kind_of C document \<noteq> K_array then fail parse_error ''a batch must be a JSON array'' ''''
       else v1_from_values C (c_elements C document))"

end
