(* ===== verification/V1_Messages.thy ===== *)
theory V1_Messages
  imports V1_Core Percent
begin

unbundle bit_operations_syntax

text \<open>
  \<open>include/cloudevents/v1/message.hpp\<close> and \<open>v1/binding/detail/percent.hpp\<close>: header fields by the
  case-ignoring loop of the first generation, and its percent-decoder, which goes over the text by
  index. The rest of both files has the text of the current generation, whose definitions stand
  for both.
\<close>

section \<open>Header fields\<close>

definition v1_set_field :: "string \<Rightarrow> string \<Rightarrow> raw_headers \<Rightarrow> raw_headers" where
  "v1_set_field name value entries =
     filter (\<lambda>candidate. \<not> v1_iequals (fst candidate) name) entries @ [(name, value)]"

fun v1_find_field :: "string \<Rightarrow> raw_headers \<Rightarrow> string option" where
  "v1_find_field name [] = None"
| "v1_find_field name ((candidate, value) # entries) =
     (if v1_iequals candidate name then Some value else v1_find_field name entries)"

definition v1_contains :: "string \<Rightarrow> raw_headers \<Rightarrow> bool" where
  "v1_contains name entries \<longleftrightarrow> v1_find_field name entries \<noteq> None"

lemma v1_fields [simp]: "v1_set_field = set_field" "v1_find_field = find_field" "v1_contains = contains"
proof -
  show set: "v1_set_field = set_field"
    by (simp add: fun_eq_iff v1_set_field_def set_field_def v1_iequals)
  have "v1_find_field name entries = find_field name entries" for name entries
    by (induction name entries rule: v1_find_field.induct) (simp_all add: v1_iequals)
  then show find: "v1_find_field = find_field" by (simp add: fun_eq_iff)
  show "v1_contains = contains" by (simp add: fun_eq_iff v1_contains_def contains_def find)
qed


section \<open>Percent-decoding\<close>

function v1_percent_decode_from :: "string \<Rightarrow> nat \<Rightarrow> string \<Rightarrow> string result" where
  "v1_percent_decode_from txt index out =
     (if index < length txt
      then if txt ! index \<noteq> CHR ''%'' then v1_percent_decode_from txt (Suc index) (out @ [txt ! index])
           else if index + 2 \<ge> length txt then fail parse_error ''truncated percent escape'' txt
           else
             let high = hex_value (txt ! (index + 1));
                 low = hex_value (txt ! (index + 2))
             in if high < 0 \<or> low < 0 then fail parse_error ''percent escape is not hexadecimal'' txt
                else v1_percent_decode_from txt (index + 3)
                  (out @ [char_of_byte (push_bit 4 (word_of_int high) OR word_of_int low)])
      else Inr out)"
  by pat_completeness auto
termination
  by (relation "measure (\<lambda>(txt, index, out). length txt - index)") auto

declare v1_percent_decode_from.simps [simp del]

definition v1_percent_decode :: "string \<Rightarrow> string result" where
  "v1_percent_decode txt =
     and_then (v1_percent_decode_from txt 0 []) (\<lambda>out.
       if \<not> v1_is_valid_utf8 out
       then fail invalid_utf8 ''the decoded header value is not well-formed UTF-8'' txt
       else Inr out)"

lemma v1_percent_decode_from: "v1_percent_decode_from t i out = percent_decode_loop t (drop i t) out"
proof (induction t i out rule: v1_percent_decode_from.induct)
  case (1 t i out)
  note step = v1_percent_decode_from.simps [of t i out]
  consider (ended) "length t \<le> i" | (plain) "i < length t" "t ! i \<noteq> CHR ''%''"
    | (cut) "i < length t" "t ! i = CHR ''%''" "i + 2 \<ge> length t"
    | (escape) "i + 2 < length t" "t ! i = CHR ''%''"
    by (meson linorder_not_less)
  then show ?case
  proof cases
    case plain
    then have d: "drop i t = t ! i # drop (Suc i) t" by (simp add: Cons_nth_drop_Suc)
    from 1(1) plain show ?thesis by (simp add: step d)
  next
    case cut
    then have "length (drop (Suc i) t) \<le> 1" by simp
    then have "drop (Suc i) t = [] \<or> (\<exists>c. drop (Suc i) t = [c])" by (cases "drop (Suc i) t") auto
    moreover have d: "drop i t = t ! i # drop (Suc i) t" using Cons_nth_drop_Suc [OF cut(1)] by simp
    ultimately show ?thesis using cut by (auto simp: step)
  next
    case escape
    then have d: "drop i t = t ! i # t ! (i + 1) # t ! (i + 2) # drop (i + 3) t"
      using Cons_nth_drop_Suc [of i t] Cons_nth_drop_Suc [of "Suc i" t] Cons_nth_drop_Suc [of "Suc (Suc i)" t]
      by (simp add: numeral_3_eq_3)
    from 1(2) escape show ?thesis by (simp add: step d Let_def)
  qed (simp add: step)
qed

lemma v1_percent_decode [simp]: "v1_percent_decode = percent_decode"
  by (simp add: fun_eq_iff v1_percent_decode_def percent_decode_def v1_percent_decode_from v1_is_valid_utf8)

end
