(* ===== verification/V1_Bindings.thy ===== *)
theory V1_Bindings
  imports V1_Json V1_Messages Binding_Kafka
begin

text \<open>
  \<open>include/cloudevents/v1/binding\<close>: the HTTP, Kafka and NATS bindings of the first generation. A
  binding is given by its traits, as in the current generation, and a message is the list of its
  header fields and its body; the functions take and return whole messages.
\<close>

section \<open>What the bindings share\<close>

definition v1_carries_prefix :: "traits \<Rightarrow> string \<Rightarrow> bool" where
  "v1_carries_prefix T name =
     (if t_case_sensitive_names T then starts_with name (t_attribute_prefix T)
      else v1_starts_with_ignoring_case name (t_attribute_prefix T))"

definition v1_attribute_name_of :: "traits \<Rightarrow> string \<Rightarrow> string" where
  "v1_attribute_name_of T field =
     (let name = drop (length (t_attribute_prefix T)) field
      in if \<not> t_case_sensitive_names T then map ascii_lower name else name)"

definition v1_render_attribute :: "attribute_value \<Rightarrow> string" where
  "v1_render_attribute v =
     (case v of
        Bool held \<Rightarrow> (if held then ''true'' else ''false'')
      | Int32 held \<Rightarrow> dec_int held
      | Str held \<Rightarrow> held
      | Bin held \<Rightarrow> base64_encode held
      | Time held \<Rightarrow> v1_to_string held
      | Uri held \<Rightarrow> held
      | Uri_ref held \<Rightarrow> held)"

definition v1_put_attribute :: "traits \<Rightarrow> string \<Rightarrow> string \<Rightarrow> writing \<Rightarrow> writing" where
  "v1_put_attribute T name v = (\<lambda>(failure, into).
     if \<not> is_ok failure then (failure, into)
     else (case t_encode_value T v of
         Inl e \<Rightarrow> (forward_failure_at e name, into)
       | Inr encoded \<Rightarrow> (failure, put T (t_attribute_prefix T @ name) encoded into)))"

fun v1_put_extensions :: "traits \<Rightarrow> extension_map \<Rightarrow> writing \<Rightarrow> writing" where
  "v1_put_extensions T [] w = w"
| "v1_put_extensions T ((name, attribute) # rest) w =
     v1_put_extensions T rest (v1_put_attribute T name (v1_render_attribute attribute) w)"

definition v1_write_attributes :: "traits \<Rightarrow> v1_event \<Rightarrow> raw_headers \<Rightarrow> writing" where
  "v1_write_attributes T ev into =
     (let w = (Inr (), into);
          w = v1_put_attribute T ''specversion'' (v1_specversion ev) w;
          w = v1_put_attribute T ''id'' (v1_id ev) w;
          w = v1_put_attribute T ''source'' (v1_source ev) w;
          w = v1_put_attribute T ''type'' (v1_type ev) w;
          w = (case v1_dataschema ev of Some schema \<Rightarrow> v1_put_attribute T ''dataschema'' schema w | None \<Rightarrow> w);
          w = (case v1_subject ev of Some about \<Rightarrow> v1_put_attribute T ''subject'' about w | None \<Rightarrow> w);
          w = (case v1_time ev of Some t \<Rightarrow> v1_put_attribute T ''time'' (v1_to_string t) w | None \<Rightarrow> w);
          (failure, into) = v1_put_extensions T (v1_extensions ev) w
      in if \<not> is_ok failure then (failure, into)
         else (case v1_datacontenttype ev of
             None \<Rightarrow> (failure, into)
           | Some media \<Rightarrow>
               if t_content_type_as_attribute T then v1_put_attribute T ''datacontenttype'' media (failure, into)
               else (failure, put T (t_content_type_header T) media into)))"

text \<open>The reader's state: the event so far and which of the required attributes were seen.\<close>

record v1_reading =
  vr_event :: v1_event
  vr_saw_id :: bool
  vr_saw_source :: bool
  vr_saw_type :: bool

definition v1_nothing_read :: v1_reading where
  "v1_nothing_read = \<lparr>vr_event = v1_empty_event, vr_saw_id = False, vr_saw_source = False, vr_saw_type = False\<rparr>"

definition v1_apply_attribute :: "traits \<Rightarrow> string \<Rightarrow> string \<Rightarrow> v1_reading \<Rightarrow> v1_reading result" where
  "v1_apply_attribute T attribute decoded r =
     (let ev = vr_event r in
      if attribute = ''datacontenttype''
      then if t_content_type_as_attribute T then Inr (r\<lparr>vr_event := ev\<lparr>v1_datacontenttype := Some decoded\<rparr>\<rparr>)
           else fail invalid_argument
             ''this binding carries datacontenttype in its content-type field, not as a prefixed attribute'' attribute
      else if attribute = ''specversion'' then Inr (r\<lparr>vr_event := ev\<lparr>v1_specversion := decoded\<rparr>\<rparr>)
      else if attribute = ''id'' then Inr (r\<lparr>vr_event := ev\<lparr>v1_id := decoded\<rparr>, vr_saw_id := True\<rparr>)
      else if attribute = ''source'' then Inr (r\<lparr>vr_event := ev\<lparr>v1_source := decoded\<rparr>, vr_saw_source := True\<rparr>)
      else if attribute = ''type'' then Inr (r\<lparr>vr_event := ev\<lparr>v1_type := decoded\<rparr>, vr_saw_type := True\<rparr>)
      else if attribute = ''dataschema'' then Inr (r\<lparr>vr_event := ev\<lparr>v1_dataschema := Some decoded\<rparr>\<rparr>)
      else if attribute = ''subject'' then Inr (r\<lparr>vr_event := ev\<lparr>v1_subject := Some decoded\<rparr>\<rparr>)
      else if attribute = ''time''
      then and_then_at (v1_parse_timestamp decoded) ''time'' (\<lambda>parsed. Inr (r\<lparr>vr_event := ev\<lparr>v1_time := Some parsed\<rparr>\<rparr>))
      else if \<not> v1_valid_attribute_name attribute
      then fail invalid_attribute_name ''extension names must match [a-z0-9]+'' attribute
      else Inr (r\<lparr>vr_event := ev\<lparr>v1_extensions := om_insert_or_assign attribute (Str decoded) (v1_extensions ev)\<rparr>\<rparr>))"

text \<open>The loop over the fields; \<open>seen\<close> is the set of the attribute names so far.\<close>

fun v1_read_fields_loop :: "traits \<Rightarrow> raw_headers \<Rightarrow> string list \<Rightarrow> v1_reading \<Rightarrow> v1_reading result" where
  "v1_read_fields_loop T [] seen r = Inr r"
| "v1_read_fields_loop T ((name, raw_value) # rest) seen r =
     (if \<not> v1_carries_prefix T name then v1_read_fields_loop T rest seen r
      else let attribute = v1_attribute_name_of T name
        in if attribute \<in> set seen
           then fail invalid_argument
             ''two fields carry the same attribute, so which one is meant is undecidable'' name
           else and_then_at (t_decode_value T raw_value) attribute (\<lambda>decoded.
             and_then (v1_apply_attribute T attribute decoded r) (\<lambda>r.
               v1_read_fields_loop T rest (attribute # seen) r)))"

definition v1_read_attributes :: "traits \<Rightarrow> raw_headers \<Rightarrow> v1_event result" where
  "v1_read_attributes T delivered =
     and_then (v1_read_fields_loop T delivered [] v1_nothing_read) (\<lambda>r.
       if v1_specversion (vr_event r) \<noteq> ''1.0''
       then fail unsupported_spec_version ''this SDK implements CloudEvents 1.0 only'' ''specversion''
       else if \<not> vr_saw_id r \<or> \<not> vr_saw_source r \<or> \<not> vr_saw_type r
       then fail missing_required_attribute ''id, source and type are all required''
         (if \<not> vr_saw_id r then ''id'' else if \<not> vr_saw_source r then ''source'' else ''type'')
       else Inr (vr_event r))"

definition v1_write_body :: "v1_event \<Rightarrow> message \<Rightarrow> message" where
  "v1_write_body ev into =
     (case v1_data ev of
        V1_none \<Rightarrow> into
      | V1_binary held \<Rightarrow> into\<lparr>body := held\<rparr>
      | V1_text held \<Rightarrow> into\<lparr>body := to_bytes held\<rparr>
      | V1_json held \<Rightarrow> into\<lparr>body := to_bytes held\<rparr>)"

definition v1_read_body :: "binary \<Rightarrow> v1_event \<Rightarrow> v1_event" where
  "v1_read_body b into =
     (if b = [] then into
      else if (case v1_datacontenttype into of Some media \<Rightarrow> v1_is_json_content_type media | None \<Rightarrow> False)
      then into\<lparr>v1_data := V1_json (to_text b)\<rparr>
      else into\<lparr>v1_data := V1_binary b\<rparr>)"

definition v1_encode_structured :: "traits \<Rightarrow> 'j codec \<Rightarrow> v1_event \<Rightarrow> message result" where
  "v1_encode_structured T C ev =
     and_then (v1_encode C ev) (\<lambda>txt.
       Inr (empty_message\<lparr>header_fields := put T (t_content_type_header T) json_content_type [], body := to_bytes txt\<rparr>))"

definition v1_decode_structured :: "'j codec \<Rightarrow> message \<Rightarrow> v1_event result" where
  "v1_decode_structured C incoming = v1_decode C (to_text (body incoming))"


section \<open>HTTP\<close>

definition v1_percent_encoded_values :: value_policy where
  "v1_percent_encoded_values = \<lparr>vp_encode = (\<lambda>txt. Inr (percent_encode txt)), vp_decode = v1_percent_decode\<rparr>"

fun v1_refuse_controls :: "string \<Rightarrow> unit result" where
  "v1_refuse_controls [] = Inr ()"
| "v1_refuse_controls (character # txt) =
     (if uchar character < 0x20 \<or> uchar character = 0x7F
      then fail invalid_argument ''a literal header value may not contain a control character'' ''''
      else v1_refuse_controls txt)"

definition v1_literal_values :: value_policy where
  "v1_literal_values = \<lparr>
     vp_encode = (\<lambda>txt. and_then (v1_refuse_controls txt) (\<lambda>_.
       if \<not> v1_is_valid_utf8 txt then fail invalid_utf8 ''a header value must be well-formed UTF-8'' ''''
       else Inr txt)),
     vp_decode = (\<lambda>txt.
       if \<not> v1_is_valid_utf8 txt then fail invalid_utf8 ''a header value must be well-formed UTF-8'' ''''
       else Inr txt)\<rparr>"

definition v1_http_detect_content_mode :: "message \<Rightarrow> content_mode" where
  "v1_http_detect_content_mode request =
     (case v1_find_field ''Content-Type'' (header_fields request) of
        None \<Rightarrow> binary_mode
      | Some declared \<Rightarrow>
          if v1_starts_with_ignoring_case declared ''application/cloudevents-batch'' then batched
          else if v1_starts_with_ignoring_case declared ''application/cloudevents'' then structured
          else binary_mode)"

definition v1_http_to_message :: "value_policy \<Rightarrow> 'j codec \<Rightarrow> v1_event \<Rightarrow> content_mode \<Rightarrow> message result" where
  "v1_http_to_message V C ev mode =
     and_then (v1_validate ev) (\<lambda>_.
       if mode = structured then v1_encode_structured (http_traits V) C ev
       else if mode = batched
       then fail invalid_argument ''a batch carries several events; use to_batch_message'' ''''
       else (case v1_write_attributes (http_traits V) ev [] of (written, hs) \<Rightarrow>
         and_then written (\<lambda>_. Inr (v1_write_body ev (empty_message\<lparr>header_fields := hs\<rparr>)))))"

definition v1_http_to_batch_message :: "'j codec \<Rightarrow> v1_event list \<Rightarrow> message result" where
  "v1_http_to_batch_message C events =
     and_then (v1_encode_batch C events) (\<lambda>txt.
       Inr (empty_message\<lparr>header_fields := v1_set_field ''Content-Type'' json_batch_content_type [],
         body := to_bytes txt\<rparr>))"

text \<open>What the binary-mode readers do after the attributes are read.\<close>

definition v1_declare_media_type :: "string option \<Rightarrow> v1_event \<Rightarrow> v1_event" where
  "v1_declare_media_type declared ev =
     (case declared of None \<Rightarrow> ev | Some media \<Rightarrow> ev\<lparr>v1_datacontenttype := Some media\<rparr>)"

definition v1_http_from_message :: "value_policy \<Rightarrow> 'j codec \<Rightarrow> message \<Rightarrow> v1_event result" where
  "v1_http_from_message V C request =
     (let mode = v1_http_detect_content_mode request
      in if mode = structured then v1_decode_structured C request
         else if mode = batched
         then fail invalid_argument ''this message is a batch; use from_batch_message'' ''''
         else if \<not> v1_contains ''ce-specversion'' (header_fields request)
         then fail not_a_cloudevent ''no ce-specversion header and no CloudEvents content type'' ''''
         else and_then (v1_read_attributes (http_traits V) (header_fields request)) (\<lambda>ev.
           let ev = v1_declare_media_type (v1_find_field ''Content-Type'' (header_fields request)) ev;
               ev = v1_read_body (body request) ev
           in and_then (v1_validate ev) (\<lambda>_. Inr ev)))"

definition v1_http_from_batch_message :: "'j codec \<Rightarrow> message \<Rightarrow> (v1_event list) result" where
  "v1_http_from_batch_message C request =
     (if v1_http_detect_content_mode request \<noteq> batched
      then fail not_a_cloudevent ''the content type is not a CloudEvents batch'' ''''
      else v1_decode_batch C (to_text (body request)))"


section \<open>Kafka\<close>

definition v1_kafka_encode_value :: "string \<Rightarrow> string result" where
  "v1_kafka_encode_value txt =
     (if \<not> v1_is_valid_utf8 txt then fail invalid_utf8 ''a Kafka header value must be a UTF-8 string'' '''' else Inr txt)"

definition v1_kafka_traits :: traits where
  "v1_kafka_traits = \<lparr>t_attribute_prefix = ''ce_'', t_content_type_header = ''content-type'',
     t_case_sensitive_names = True, t_encode_value = v1_kafka_encode_value,
     t_decode_value = v1_kafka_encode_value, t_content_type_as_attribute = False\<rparr>"

definition v1_kafka_detect_content_mode :: "message \<Rightarrow> content_mode" where
  "v1_kafka_detect_content_mode incoming =
     (case find_exact ''content-type'' (header_fields incoming) of
        None \<Rightarrow> binary_mode
      | Some declared \<Rightarrow>
          if starts_with declared ''application/cloudevents-batch'' then batched
          else if starts_with declared ''application/cloudevents'' then structured
          else binary_mode)"

definition v1_kafka_to_message :: "'j codec \<Rightarrow> v1_event \<Rightarrow> content_mode \<Rightarrow> message result" where
  "v1_kafka_to_message C ev mode =
     and_then (v1_validate ev) (\<lambda>_.
       if mode = batched then fail invalid_argument ''the Kafka binding defines no batch mode'' ''''
       else if mode = structured then v1_encode_structured v1_kafka_traits C ev
       else (case v1_write_attributes v1_kafka_traits ev [] of (written, hs) \<Rightarrow>
         and_then written (\<lambda>_. Inr (v1_write_body ev (empty_message\<lparr>header_fields := hs\<rparr>)))))"

definition v1_kafka_from_message :: "'j codec \<Rightarrow> message \<Rightarrow> v1_event result" where
  "v1_kafka_from_message C incoming =
     (let mode = v1_kafka_detect_content_mode incoming
      in if mode = batched then fail invalid_argument ''the Kafka binding defines no batch mode'' ''''
         else if mode = structured then v1_decode_structured C incoming
         else if \<not> contains_exact ''ce_specversion'' (header_fields incoming)
         then fail not_a_cloudevent ''no ce_specversion header and no CloudEvents content type'' ''''
         else and_then (v1_read_attributes v1_kafka_traits (header_fields incoming)) (\<lambda>ev.
           let ev = v1_declare_media_type (find_exact ''content-type'' (header_fields incoming)) ev;
               ev = v1_read_body (body incoming) ev
           in and_then (v1_validate ev) (\<lambda>_. Inr ev)))"

definition v1_no_key_of :: "v1_event \<Rightarrow> string option" where
  "v1_no_key_of ev = None"

definition v1_partitionkey_of :: "v1_event \<Rightarrow> string option" where
  "v1_partitionkey_of ev =
     (case v1_extension ''partitionkey'' ev of None \<Rightarrow> None | Some stored \<Rightarrow> Some (v1_render_attribute stored))"

definition v1_to_record ::
  "(v1_event \<Rightarrow> string option) \<Rightarrow> 'j codec \<Rightarrow> v1_event \<Rightarrow> content_mode \<Rightarrow> kafka_record result" where
  "v1_to_record key_of C ev mode =
     and_then (v1_kafka_to_message C ev mode) (\<lambda>laid_out. Inr \<lparr>kr_value = laid_out, kr_key = key_of ev\<rparr>)"


section \<open>NATS\<close>

definition v1_nats_to_payload :: "'j codec \<Rightarrow> v1_event \<Rightarrow> string result" where
  "v1_nats_to_payload C ev = v1_encode C ev"

definition v1_nats_from_payload :: "'j codec \<Rightarrow> string \<Rightarrow> v1_event result" where
  "v1_nats_from_payload C payload = v1_decode C payload"

definition v1_nats_traits :: traits where
  "v1_nats_traits = \<lparr>t_attribute_prefix = ''ce-'', t_content_type_header = ''Content-Type'',
     t_case_sensitive_names = False, t_encode_value = (\<lambda>txt. Inr (percent_encode txt)),
     t_decode_value = v1_percent_decode, t_content_type_as_attribute = True\<rparr>"

definition v1_nats_detect_content_mode :: "message \<Rightarrow> content_mode" where
  "v1_nats_detect_content_mode incoming =
     (case v1_find_field ''Content-Type'' (header_fields incoming) of
        Some declared \<Rightarrow>
          if v1_starts_with_ignoring_case declared ''application/cloudevents'' then structured else binary_mode
      | None \<Rightarrow> binary_mode)"

definition v1_nats_to_message :: "'j codec \<Rightarrow> v1_event \<Rightarrow> content_mode \<Rightarrow> message result" where
  "v1_nats_to_message C ev mode =
     and_then (v1_validate ev) (\<lambda>_.
       if mode = batched then fail invalid_argument ''the NATS binding defines no batch mode'' ''''
       else if mode = structured then v1_encode_structured v1_nats_traits C ev
       else (case v1_write_attributes v1_nats_traits ev [] of (written, hs) \<Rightarrow>
         and_then written (\<lambda>_. Inr (v1_write_body ev (empty_message\<lparr>header_fields := hs\<rparr>)))))"

definition v1_nats_from_message :: "'j codec \<Rightarrow> message \<Rightarrow> v1_event result" where
  "v1_nats_from_message C incoming =
     (if v1_nats_detect_content_mode incoming = structured then v1_decode_structured C incoming
      else if \<not> v1_contains ''ce-specversion'' (header_fields incoming)
      then fail not_a_cloudevent ''no ce-specversion header and no CloudEvents content type'' ''''
      else and_then (v1_read_attributes v1_nats_traits (header_fields incoming)) (\<lambda>ev.
        let ev = v1_read_body (body incoming) ev
        in and_then (v1_validate ev) (\<lambda>_. Inr ev)))"

end
