(* ===== verification/V1_Compat.thy ===== *)
theory V1_Compat
  imports V1_Bindings Binding_Safety
begin

text \<open>
  The first and the current generation on one wire: both write the same JSON and the same messages
  for an event, and what the current generation reads, the first generation reads as the same
  event. The first generation refuses less: it writes a message that it cannot read itself.
\<close>

section \<open>One event in both generations\<close>

definition downgrade_data :: "'j data_t \<Rightarrow> v1_data" where
  "downgrade_data data =
     (case data of No_data \<Rightarrow> V1_none | Text_data s \<Rightarrow> V1_text s | Binary_data b \<Rightarrow> V1_binary b
      | Json_text s \<Rightarrow> V1_json s | Json_document d \<Rightarrow> V1_json (document_dump d))"

definition downgrade :: "'j event \<Rightarrow> v1_event" where
  "downgrade ev = \<lparr>v1_id = e_id ev, v1_source = e_source ev, v1_type = e_type ev, v1_specversion = ''1.0'',
     v1_datacontenttype = o_datacontenttype (e_rest ev), v1_dataschema = o_dataschema (e_rest ev),
     v1_subject = o_subject (e_rest ev), v1_time = o_time (e_rest ev),
     v1_extensions = o_extensions (e_rest ev), v1_data = downgrade_data (o_data (e_rest ev))\<rparr>"

lemma v1_check_names_ok:
  "\<forall>(name, v) \<in> set m. p_check extension_name_policy name = None \<Longrightarrow> v1_check_names m = Inr ()"
  by (induction m) (auto simp: v1_check_name_def extension_name_policy_def check_extension_name_None)

lemma v1_validate_ok:
  assumes "event_ok ev"
  shows "v1_validate ((downgrade ev)\<lparr>v1_data := d\<rparr>) = Inr ()"
proof -
  let ?r = "e_rest ev"
  have "e_id ev \<noteq> []" "e_source ev \<noteq> []" "e_type ev \<noteq> []" "o_dataschema ?r \<noteq> Some []" "o_subject ?r \<noteq> Some []"
    using assms id_rules.accepted [of "[]"] source_rules.accepted [of "[]"] type_rules.accepted [of "[]"]
      dataschema_rules.accepted [of "[]"] subject_rules.accepted [of "[]"]
    by (auto simp: event_ok_def options_ok_def accepted_by_def)
  moreover have "o_datacontenttype ?r \<noteq> Some []"
    "\<And>m. o_datacontenttype ?r = Some m \<Longrightarrow> rx_match content_type_pattern m \<noteq> None"
    using assms by (auto simp: event_ok_def options_ok_def accepted_by_def datacontenttype_policy_def check_content_type_None)
  moreover have "v1_check_names (o_extensions ?r) = Inr ()"
    using assms by (intro v1_check_names_ok) (auto simp: event_ok_def options_ok_def)
  ultimately show ?thesis by (simp add: v1_validate_def downgrade_def split: option.split)
qed

lemma downgrade_valid: "event_ok ev \<Longrightarrow> v1_validate (downgrade ev) = Inr ()"
  using v1_validate_ok [of ev "v1_data (downgrade ev)"] by simp


section \<open>Writing JSON\<close>

text \<open>An identity names one codec: a document with the identity of \<open>C\<close> is a document of \<open>C\<close>.\<close>

definition one_codec :: "'j codec \<Rightarrow> 'j event \<Rightarrow> bool" where
  "one_codec C ev \<longleftrightarrow>
     (case o_data (e_rest ev) of
        Json_document d \<Rightarrow> (case doc_model d of Holder C' v \<Rightarrow> c_identity C' = c_identity C \<longrightarrow> C' = C | Null_model \<Rightarrow> True)
      | _ \<Rightarrow> True)"

definition generations_codec :: "'j codec \<Rightarrow> bool" where
  "generations_codec C \<longleftrightarrow> codec_text C \<and> codec_lookup C \<and> codec_adopts C"

lemma built_string_make: "codec_adopts C \<Longrightarrow> built_string C s = c_make_string C s"
  by (simp add: codec_adopts_def built_string_def split: option.splits)

lemma v1_encode_attribute_eq: "codec_adopts C \<Longrightarrow> v1_encode_attribute C a = encode_attribute C a"
  by (cases a) (simp_all add: v1_encode_attribute_def encode_attribute_def built_string_make)

lemma v1_set_extensions_eq: "codec_adopts C \<Longrightarrow> v1_set_extensions C exts root = set_extensions C exts root"
  by (induction C exts root rule: v1_set_extensions.induct) (auto simp: v1_encode_attribute_eq encode_attribute_json)

lemma document_get_dump:
  assumes "codec_text C" "document_get C d = Some own"
    and "case doc_model d of Holder C' v \<Rightarrow> c_identity C' = c_identity C \<longrightarrow> C' = C | Null_model \<Rightarrow> True"
  shows "c_parse C (document_dump d) = Inr own"
  using assms
  by (auto simp: document_get_def built_by_def model_identity_def document_dump_def model_dump_def codec_text_def
      split: json_document_model.splits if_splits)

lemma v1_encode_data_eq:
  assumes "generations_codec C" "one_codec C ev"
  shows "v1_encode_data C (downgrade_data (o_data (e_rest ev))) root = encode_data C (o_data (e_rest ev)) root"
proof (cases "o_data (e_rest ev)")
  case (Json_document d)
  with assms document_get_dump [of C d] show ?thesis
    by (cases "document_get C d")
      (auto simp: v1_encode_data_def encode_data_def downgrade_data_def generations_codec_def one_codec_def
        codec_lookup_def)
qed (use assms in \<open>simp_all add: v1_encode_data_def encode_data_def downgrade_data_def built_string_make generations_codec_def\<close>)

lemma v1_to_value_eq:
  assumes "generations_codec C" "one_codec C ev" "event_ok ev"
  shows "v1_to_value C (downgrade ev) = to_value C ev"
proof -
  have "v1_encode_data C (v1_data (downgrade ev)) = encode_data C (o_data (e_rest ev))"
    using v1_encode_data_eq [OF assms(1,2)] by (auto simp: downgrade_def)
  with assms show ?thesis
    by (simp add: v1_to_value_def downgrade_valid to_value_def to_value_writing_def set_optional_def
        v1_set_extensions_eq built_string_make generations_codec_def spec_version_view_def Let_def)
      (simp add: downgrade_def v1_set_extensions_eq built_string_make generations_codec_def split: option.split)
qed

lemma v1_encode_eq:
  "generations_codec C \<Longrightarrow> one_codec C ev \<Longrightarrow> event_ok ev \<Longrightarrow> v1_encode C (downgrade ev) = json_encode C ev"
  by (simp add: v1_encode_def json_encode_def v1_to_value_eq)

lemma v1_encode_batch_eq:
  assumes "generations_codec C" "\<forall>ev \<in> set evs. one_codec C ev \<and> event_ok ev"
  shows "v1_encode_batch C (map downgrade evs) = json_encode_batch C evs"
proof -
  from assms have "v1_push_events C (map downgrade evs) arr = push_events C evs arr" for arr
    by (induction evs arbitrary: arr) (auto simp: v1_to_value_eq intro: and_then_cong)
  then show ?thesis by (simp add: v1_encode_batch_def json_encode_batch_def)
qed


section \<open>Writing messages\<close>

lemma v1_put_attribute [simp]: "v1_put_attribute = put_attribute"
  by (simp add: fun_eq_iff v1_put_attribute_def put_attribute_def)

lemma v1_render_attribute [simp]: "v1_render_attribute = render_attribute"
  by (simp add: fun_eq_iff v1_render_attribute_def render_attribute_def split: attribute_value.split)

lemma v1_put_extensions_all:
  "v1_put_extensions T exts w = put_all T (map (\<lambda>(n, a). (n, render_attribute a)) exts) w"
  by (induction T exts w rule: v1_put_extensions.induct) auto

lemma v1_put_extensions_eq: "v1_put_extensions = put_extensions"
  by (simp add: fun_eq_iff v1_put_extensions_all put_extensions_all)

lemma v1_write_attributes_eq: "v1_write_attributes T (downgrade ev) = write_attributes T ev"
  unfolding v1_write_attributes_def write_attributes_def v1_put_extensions_eq v1_put_attribute put_present_def
    spec_version_view_def downgrade_def v1_event.simps v1_to_string Let_def
  by (cases "o_dataschema (e_rest ev)"; cases "o_subject (e_rest ev)"; cases "o_time (e_rest ev)"; simp)

text \<open>Traits that differ in the encoder only, and not on well-formed text.\<close>

definition same_traits :: "traits \<Rightarrow> traits \<Rightarrow> bool" where
  "same_traits T U \<longleftrightarrow> t_attribute_prefix T = t_attribute_prefix U \<and>
     t_content_type_header T = t_content_type_header U \<and> t_case_sensitive_names T = t_case_sensitive_names U \<and>
     t_decode_value T = t_decode_value U \<and> t_content_type_as_attribute T = t_content_type_as_attribute U \<and>
     (\<forall>s. is_valid_utf8 s \<longrightarrow> t_encode_value T s = t_encode_value U s)"

lemma same_traits_put: "same_traits T U \<Longrightarrow> put T = put U"
  by (simp add: fun_eq_iff put_def same_traits_def)

lemma put_all_same_traits:
  "same_traits T U \<Longrightarrow> \<forall>p \<in> set texts. is_valid_utf8 (snd p) \<Longrightarrow> put_all T texts w = put_all U texts w"
proof (induction texts arbitrary: w)
  case (Cons p texts)
  obtain n s where p: "p = (n, s)" by fastforce
  have "put_attribute T n s w = put_attribute U n s w"
    using Cons.prems p same_traits_put [OF Cons.prems(1)] by (cases w) (auto simp: put_attribute_def same_traits_def split: sum.split)
  with Cons p show ?case by simp
qed simp

lemma write_attributes_same_traits:
  assumes "same_traits T U" "event_ok ev" "texts_utf8 ev"
  shows "write_attributes T ev into = write_attributes U ev into"
proof -
  have "attribute_texts T ev = attribute_texts U ev" "content_type_field T ev = content_type_field U ev"
    using assms(1) by (simp_all add: attribute_texts_def content_type_field_def same_traits_def)
  then show ?thesis
    using put_all_same_traits [OF assms(1) attribute_texts_utf8 [OF assms(2,3)]]
    unfolding write_attributes_all same_traits_put [OF assms(1)] by metis
qed

lemma v1_refuse_controls [simp]: "v1_refuse_controls t = refuse_controls t"
  by (induction t) simp_all

lemma same_traits_refl: "same_traits T T"
  by (simp add: same_traits_def)

lemma same_traits_percent: "same_traits (http_traits v1_percent_encoded_values) (http_traits percent_encoded_values)"
  by (simp add: same_traits_def http_traits_def v1_percent_encoded_values_def percent_encoded_values_def)

lemma same_traits_literal: "same_traits (http_traits v1_literal_values) (http_traits literal_values)"
  by (simp add: same_traits_def http_traits_def v1_literal_values_def literal_values_def)

lemma v1_kafka_traits [simp]: "v1_kafka_traits = kafka_traits"
  by (simp add: v1_kafka_traits_def kafka_traits_def v1_kafka_encode_value_def kafka_encode_value_def
      kafka_content_type_header_def fun_eq_iff)

lemma v1_nats_traits [simp]: "v1_nats_traits = nats_traits"
  by (simp add: v1_nats_traits_def nats_traits_def)

lemma v1_write_body_eq: "v1_write_body (downgrade ev) m = write_body ev m"
  by (simp add: v1_write_body_def write_body_def downgrade_def downgrade_data_def split: data_t.split)

lemma v1_encode_structured_eq:
  "generations_codec C \<Longrightarrow> one_codec C ev \<Longrightarrow> event_ok ev \<Longrightarrow> same_traits T U \<Longrightarrow>
     v1_encode_structured T C (downgrade ev) = encode_structured U C ev"
  by (simp add: v1_encode_structured_def encode_structured_def v1_encode_eq same_traits_put) (simp add: same_traits_def)

lemma v1_http_to_message_eq:
  assumes "generations_codec C" "one_codec C ev" "event_ok ev" "texts_utf8 ev"
    and "same_traits (http_traits V) (http_traits W)"
  shows "v1_http_to_message V C (downgrade ev) mode = http_to_message W C ev mode"
  using assms write_attributes_same_traits [OF assms(5,3,4)]
  by (simp add: v1_http_to_message_def http_to_message_def downgrade_valid v1_encode_structured_eq
      v1_write_attributes_eq v1_write_body_eq)

lemma v1_kafka_to_message_eq:
  assumes "generations_codec C" "one_codec C ev" "event_ok ev"
  shows "v1_kafka_to_message C (downgrade ev) mode = kafka_to_message C ev mode"
  using assms same_traits_refl [of kafka_traits]
  by (simp add: v1_kafka_to_message_def kafka_to_message_def downgrade_valid v1_encode_structured_eq
      v1_write_attributes_eq v1_write_body_eq)

lemma v1_nats_to_message_eq:
  assumes "generations_codec C" "one_codec C ev" "event_ok ev"
  shows "v1_nats_to_message C (downgrade ev) mode = nats_to_message C ev mode"
  using assms same_traits_refl [of nats_traits]
  by (simp add: v1_nats_to_message_def nats_to_message_def downgrade_valid v1_encode_structured_eq
      v1_write_attributes_eq v1_write_body_eq)

lemma v1_partitionkey_eq: "v1_partitionkey_of (downgrade ev) = partitionkey_of ev"
  by (simp add: v1_partitionkey_of_def partitionkey_of_def v1_extension_def extension_def downgrade_def
      split: option.split)


section \<open>Reading JSON\<close>

text \<open>The same payload: equal, or a document of the value that the text is parsed to.\<close>

definition same_payload :: "'j codec \<Rightarrow> 'j data_t \<Rightarrow> v1_data \<Rightarrow> bool" where
  "same_payload C data old \<longleftrightarrow>
     (case data of
        No_data \<Rightarrow> old = V1_none
      | Text_data s \<Rightarrow> old = V1_text s
      | Binary_data b \<Rightarrow> old = V1_binary b
      | Json_text s \<Rightarrow> old = V1_json s
      | Json_document d \<Rightarrow>
          (case (doc_model d, old) of (Holder C' v, V1_json s) \<Rightarrow> c_parse C s = Inr v | _ \<Rightarrow> False))"

definition same_event :: "'j codec \<Rightarrow> 'j event \<Rightarrow> v1_event \<Rightarrow> bool" where
  "same_event C ev old \<longleftrightarrow>
     old = (downgrade ev)\<lparr>v1_data := v1_data old\<rparr> \<and> same_payload C (o_data (e_rest ev)) (v1_data old)"

text \<open>What the current generation accepts, the first one accepts as the same event.\<close>

definition accepts_as_well :: "'j codec \<Rightarrow> 'j event result \<Rightarrow> v1_event result \<Rightarrow> bool" where
  "accepts_as_well C current old \<longleftrightarrow>
     (case current of Inl _ \<Rightarrow> True | Inr ev \<Rightarrow> (case old of Inl _ \<Rightarrow> False | Inr ev1 \<Rightarrow> same_event C ev ev1))"

lemma v1_required_eq:
  "v1_find C document name = map_of ms name \<Longrightarrow>
     v1_required C document name = required_text_of C (first_ref name ms 0) name"
  using first_ref_map_of [of name ms 0, symmetric]
  by (cases "first_ref name ms 0") (auto simp: v1_required_def required_text_of_def)

lemma v1_optional_eq:
  "v1_find C document name = map_of ms name \<Longrightarrow>
     v1_optional_string C document name = optional_text_of C (first_ref name ms 0) name"
  using first_ref_map_of [of name ms 0, symmetric]
  by (cases "first_ref name ms 0") (auto simp: v1_optional_string_def optional_text_of_def)

lemma v1_decode_attribute [simp]: "v1_decode_attribute = decode_attribute"
  by (simp add: fun_eq_iff v1_decode_attribute_def decode_attribute_def)

lemma made_extension_name: "make_validated extension_name_policy n = Inr x \<longleftrightarrow> x = n \<and> valid_attribute_name n \<and> \<not> reserved_name n"
  unfolding extension_name_rules.make_Inr by (simp add: extension_name_policy_def check_extension_name_None)

lemma v1_read_extensions_eq:
  "read_extensions C (extension_members ms) (Inr ()) into = (Inr (), into') \<Longrightarrow>
     v1_read_extensions C ms (Inr ()) (o_extensions into) = (Inr (), o_extensions into')"
proof (induction ms arbitrary: into)
  case (Cons m ms)
  obtain name v where m: "m = (name, v)" by fastforce
  show ?case
  proof (cases "reserved_name name \<or> c_kind_of C v = K_null")
    case True
    with Cons m show ?thesis by (auto simp: extension_members_def read_extension_def split: if_splits)
  next
    case False
    with Cons.prems m obtain r into1 where r: "read_extension C name v into = (r, into1)"
      "read_extensions C (extension_members ms) r into1 = (Inr (), into')"
      by (auto simp: extension_members_def split: prod.splits)
    have ok: "r = Inr ()"
      using read_extensions_failed [of r C "extension_members ms" into1] r(2) by (cases r) auto
    with r(1) False obtain a where "valid_attribute_name name" "decode_attribute C v = Inr a"
      "into1 = into\<lparr>o_extensions := om_insert_or_assign name a (o_extensions into)\<rparr>"
      by (auto simp: read_extension_def made_extension_name forward_failure_at_def split: sum.splits)
    with Cons.IH [of into1] r(2) ok False m show ?thesis by simp
  qed
qed (simp add: extension_members_def)

lemma read_extension_only: "read_extension C n v into = (r, into') \<Longrightarrow> into' = into\<lparr>o_extensions := o_extensions into'\<rparr>"
  by (auto simp: read_extension_def split: if_splits sum.splits)

lemma read_extensions_only:
  "read_extensions C ms r into = (r', into') \<Longrightarrow> into' = into\<lparr>o_extensions := o_extensions into'\<rparr>"
proof (induction ms arbitrary: r into)
  case (Cons m ms)
  obtain n v where m: "m = (n, v)" by fastforce
  obtain r1 into1 where x: "read_extension C n v into = (r1, into1)" by fastforce
  show ?case
  proof (cases "is_ok r")
    case True
    with Cons.prems m x have "read_extensions C ms r1 into1 = (r', into')" by simp
    with Cons.IH read_extension_only [OF x] show ?thesis by (metis options.select_convs(5) options.update_convs(5) options.surjective)
  qed (use Cons.prems m in simp)
qed simp

lemma v1_decode_data_eq:
  assumes "codec_text C" "codec_lookup C"
    and f: "\<And>name. v1_find C document name = map_of ms name"
    and "decode_data C fresh (found_in ms 0) None P_copy None False into = Inr (into', m)" "o_data into = No_data"
  shows "\<exists>d. v1_decode_data C document (o_datacontenttype into) = Inr d \<and> same_payload C (o_data into') d \<and>
    into' = into\<lparr>o_data := o_data into'\<rparr>"
proof -
  have r: "map_of ms name = map_option snd (first_ref name ms 0)" for name by (simp add: first_ref_map_of)
  show ?thesis
    using assms(1,2,4,5)
    by (auto simp: decode_data_def v1_decode_data_def f r found_in_def and_then_at_eq_Inr Let_def json_payload_def
        document_make_def codec_text_def codec_lookup_def same_payload_def split: option.splits sum.splits if_splits)
qed

lemma read_context_fields:
  assumes "read_context C (found_in ms 0) (new_builder\<lparr>b_rest := rest\<rparr>) = Inr b"
    and "o_datacontenttype rest = None" "o_dataschema rest = None" "o_subject rest = None" "o_time rest = None"
  obtains i origin k time_text where
    "required_text_of C (first_ref ''specversion'' ms 0) ''specversion'' = Inr ''1.0''"
    "required_text_of C (first_ref ''id'' ms 0) ''id'' = Inr i" "b_id b = Some i"
    "required_text_of C (first_ref ''source'' ms 0) ''source'' = Inr origin" "b_source b = Some origin"
    "required_text_of C (first_ref ''type'' ms 0) ''type'' = Inr k" "b_type b = Some k"
    "optional_text_of C (first_ref ''datacontenttype'' ms 0) ''datacontenttype'' = Inr (o_datacontenttype (b_rest b))"
    "optional_text_of C (first_ref ''dataschema'' ms 0) ''dataschema'' = Inr (o_dataschema (b_rest b))"
    "optional_text_of C (first_ref ''subject'' ms 0) ''subject'' = Inr (o_subject (b_rest b))"
    "optional_text_of C (first_ref ''time'' ms 0) ''time'' = Inr time_text"
    "(case time_text of None \<Rightarrow> Inr None | Some present \<Rightarrow> and_then_at (parse_timestamp present) ''time'' (\<lambda>t. Inr (Some t))) =
       Inr (o_time (b_rest b))"
    "o_extensions (b_rest b) = o_extensions rest" "o_data (b_rest b) = o_data rest"
  using assms
  by (auto simp: read_context_def and_then_eq_Inr and_then_at_eq_Inr Let_def store_required_def store_optional_def
      store_time_def found_in_def spec_version_make_def policies attribute_policy.store_Inr
      split: if_splits option.splits)

lemma v1_from_value_reads:
  assumes "codec_text C" "codec_lookup C" "codec_finds C"
  shows "accepts_as_well C (from_value C fresh document) (v1_from_value C document)"
proof (cases "from_value C fresh document")
  case (Inr ev)
  let ?ms = "c_members C document"
  from Inr obtain rest b rest' m where k: "c_kind_of C document = K_object"
    and e: "read_extensions C (extension_members ?ms) (Inr ()) no_options = (Inr (), rest)"
    and c: "read_context C (found_in ?ms 0) (new_builder\<lparr>b_rest := rest\<rparr>) = Inr b"
    and d: "decode_data C fresh (found_in ?ms 0) None P_copy None False (b_rest b) = Inr (rest', m)"
    and b: "build (b\<lparr>b_rest := rest'\<rparr>) = Inr ev"
    unfolding from_value_Inr read_event_Inr by blast
  have f: "v1_find C document name = map_of ?ms name" for name
    using assms(3) k by (simp add: codec_finds_def v1_find_def)
  have fresh: "o_datacontenttype rest = None" "o_dataschema rest = None" "o_subject rest = None" "o_time rest = None"
    "o_data rest = No_data"
    using read_extensions_only [OF e] by (metis no_options_def options.simps(1-4,6) options.select_convs options.surjective options.update_convs(5))+
  from read_context_fields [OF c fresh(1-4)] obtain i origin k' time_text where r:
    "required_text_of C (first_ref ''specversion'' ?ms 0) ''specversion'' = Inr ''1.0''"
    "required_text_of C (first_ref ''id'' ?ms 0) ''id'' = Inr i" "b_id b = Some i"
    "required_text_of C (first_ref ''source'' ?ms 0) ''source'' = Inr origin" "b_source b = Some origin"
    "required_text_of C (first_ref ''type'' ?ms 0) ''type'' = Inr k'" "b_type b = Some k'"
    "optional_text_of C (first_ref ''datacontenttype'' ?ms 0) ''datacontenttype'' = Inr (o_datacontenttype (b_rest b))"
    "optional_text_of C (first_ref ''dataschema'' ?ms 0) ''dataschema'' = Inr (o_dataschema (b_rest b))"
    "optional_text_of C (first_ref ''subject'' ?ms 0) ''subject'' = Inr (o_subject (b_rest b))"
    "optional_text_of C (first_ref ''time'' ?ms 0) ''time'' = Inr time_text"
    "(case time_text of None \<Rightarrow> Inr None | Some present \<Rightarrow> and_then_at (parse_timestamp present) ''time'' (\<lambda>t. Inr (Some t))) =
       Inr (o_time (b_rest b))"
    "o_extensions (b_rest b) = o_extensions rest" "o_data (b_rest b) = o_data rest" .
  from v1_decode_data_eq [OF assms(1,2) f d] r fresh obtain old where
    o: "v1_decode_data C document (o_datacontenttype (b_rest b)) = Inr old" "same_payload C (o_data rest') old"
      "rest' = b_rest b\<lparr>o_data := o_data rest'\<rparr>" by auto
  have x: "v1_read_extensions C ?ms (Inr ()) [] = (Inr (), o_extensions rest)"
    using v1_read_extensions_eq [OF e] by (simp add: no_options_def)
  let ?old = "(downgrade ev)\<lparr>v1_data := old\<rparr>"
  have ev: "e_id ev = i" "e_source ev = origin" "e_type ev = k'" "e_rest ev = rest'"
    using b r by (simp_all add: build_Inr)
  have old: "?old = \<lparr>v1_id = i, v1_source = origin, v1_type = k', v1_specversion = ''1.0'',
      v1_datacontenttype = o_datacontenttype (b_rest b), v1_dataschema = o_dataschema (b_rest b),
      v1_subject = o_subject (b_rest b), v1_time = o_time (b_rest b),
      v1_extensions = o_extensions rest, v1_data = old\<rparr>"
    using r by (simp add: downgrade_def ev) (subst (1 2 3 4 5) o(3), simp)
  have "v1_validate ?old = Inr ()" by (intro v1_validate_ok from_value_ok [OF Inr])
  moreover have "(case time_text of None \<Rightarrow> Inr None
      | Some present \<Rightarrow> and_then_at (v1_parse_timestamp present) ''time'' (\<lambda>t. Inr (Some t))) = Inr (o_time (b_rest b))"
    using r(12) unfolding v1_parse_timestamp .
  ultimately have "v1_from_value C document = Inr ?old"
    unfolding old by (simp add: v1_from_value_def k v1_required_eq [OF f] v1_optional_eq [OF f] r o(1) x)
  then show ?thesis using Inr o(2) by (simp add: accepts_as_well_def same_event_def ev)
qed (simp add: accepts_as_well_def)

lemma v1_decode_reads:
  assumes "codec_text C" "codec_lookup C" "codec_finds C" "retains txt options"
  shows "accepts_as_well C (json_decode C fresh txt options) (v1_decode C txt)"
proof (cases "c_parse C txt")
  case (Inl e)
  then show ?thesis by (simp add: accepts_as_well_def json_decode_def decode_reading_def)
next
  case (Inr document)
  then show ?thesis
    using v1_from_value_reads [OF assms(1-3)] json_decode_retained [OF assms(2) Inr assms(4)]
    by (simp add: v1_decode_def)
qed


section \<open>Reading messages\<close>

text \<open>A builder as the state of the first generation's reader.\<close>

definition reading_of :: "'j builder \<Rightarrow> v1_reading" where
  "reading_of b =
     \<lparr>vr_event = \<lparr>v1_id = (case b_id b of Some s \<Rightarrow> s | None \<Rightarrow> []), v1_source = (case b_source b of Some s \<Rightarrow> s | None \<Rightarrow> []),
        v1_type = (case b_type b of Some s \<Rightarrow> s | None \<Rightarrow> []), v1_specversion = ''1.0'',
        v1_datacontenttype = o_datacontenttype (b_rest b), v1_dataschema = o_dataschema (b_rest b),
        v1_subject = o_subject (b_rest b), v1_time = o_time (b_rest b), v1_extensions = o_extensions (b_rest b),
        v1_data = V1_none\<rparr>,
      vr_saw_id = (b_id b \<noteq> None), vr_saw_source = (b_source b \<noteq> None), vr_saw_type = (b_type b \<noteq> None)\<rparr>"

lemma reading_of_new: "reading_of new_builder = v1_nothing_read"
  by (simp add: reading_of_def new_builder_def no_options_def v1_nothing_read_def v1_empty_event_def)

lemma v1_apply_attribute_reads:
  assumes "apply_attribute U b n s = Inr b'" "same_traits T U"
  shows "v1_apply_attribute T n s (reading_of b) = Inr (reading_of b')"
proof -
  have "n \<notin> {''datacontenttype'', ''specversion'', ''id'', ''source'', ''type'', ''dataschema'', ''subject'', ''time''} \<Longrightarrow>
      valid_attribute_name n"
    using assms(1) by (auto simp: apply_attribute_def and_then_eq_Inr made_extension_name)
  with assms show ?thesis
    by (auto simp: apply_attribute_def v1_apply_attribute_def reading_of_def and_then_eq_Inr and_then_at_eq_Inr Let_def
        same_traits_def policies attribute_policy.store_Inr made_extension_name spec_version_make_def
        split: if_splits)
qed

lemma v1_names [simp]: "v1_carries_prefix T n = carries_prefix T n" "v1_attribute_name_of T n = attribute_name_of T n"
  by (simp_all add: v1_carries_prefix_def carries_prefix_def v1_attribute_name_of_def attribute_name_of_def Let_def)

lemma same_attribute_same_field:
  assumes "carries_prefix T a" "carries_prefix T b" "attribute_name_of T a = attribute_name_of T b"
  shows "same_field_name T a b"
proof (cases "t_case_sensitive_names T")
  case True
  with assms show ?thesis
    by (simp add: carries_prefix_def starts_with_def attribute_name_of_def same_field_name_def) (metis append_take_drop_id)
next
  case False
  let ?n = "length (t_attribute_prefix T)"
  from assms False have "map ascii_lower (take ?n a @ drop ?n a) = map ascii_lower (take ?n b @ drop ?n b)"
    unfolding map_append by (simp add: carries_prefix_def starts_with_ignoring_case_def attribute_name_of_def)
  with False show ?thesis by (simp add: same_field_name_def iequals_def)
qed

lemma v1_read_fields_reads:
  assumes "same_traits T U" "read_fields U hs b = Inr b'" "distinct_fields U hs"
    and "\<forall>f \<in> set hs. carries_prefix U (fst f) \<longrightarrow> attribute_name_of U (fst f) \<notin> set seen"
  shows "v1_read_fields_loop T hs seen (reading_of b) = Inr (reading_of b')"
  using assms(2-)
proof (induction hs arbitrary: b seen)
  case (Cons f hs)
  obtain n s where f: "f = (n, s)" by fastforce
  have T: "carries_prefix T = carries_prefix U" "attribute_name_of T = attribute_name_of U" "t_decode_value T = t_decode_value U"
    using assms(1) by (auto simp: fun_eq_iff carries_prefix_def attribute_name_of_def same_traits_def)
  show ?case
  proof (cases "carries_prefix U n")
    case False
    with Cons f T show ?thesis by (simp add: distinct_fields_def)
  next
    case True
    with Cons.prems(1) f obtain d b1 where d: "t_decode_value U s = Inr d"
      "apply_attribute U b (attribute_name_of U n) d = Inr b1" "read_fields U hs b1 = Inr b'"
      by (auto simp: Let_def and_then_eq_Inr and_then_at_eq_Inr)
    have "\<forall>g \<in> set hs. carries_prefix U (fst g) \<longrightarrow> attribute_name_of U (fst g) \<notin> set (attribute_name_of U n # seen)"
      using Cons.prems(2,3) f True same_attribute_same_field [OF True] by (fastforce simp: distinct_fields_def)
    with Cons.IH [OF d(3) _ this] Cons.prems(2,3) v1_apply_attribute_reads [OF d(2) assms(1)] d(1) f True T
    show ?thesis by (simp add: Let_def distinct_fields_def)
  qed
qed simp

lemma v1_read_attributes_reads:
  assumes "same_traits T U" "read_attributes U hs = Inr b" "b_id b \<noteq> None" "b_source b \<noteq> None" "b_type b \<noteq> None"
  shows "v1_read_attributes T hs = Inr (vr_event (reading_of b))"
proof -
  have "distinct_fields U hs" "read_fields U hs new_builder = Inr b"
    using assms(2) first_repeated_None [of U hs] by (auto simp: read_attributes_def split: option.splits)
  from v1_read_fields_reads [OF assms(1) this(2,1), of "[]"] assms(3-) show ?thesis
    by (simp add: v1_read_attributes_def reading_of_new) (simp add: reading_of_def)
qed

text \<open>What every binary-mode reader does once the attributes are read.\<close>

lemma v1_rest_reads:
  assumes "codec_text C" "codec_lookup C"
    and "and_then (read_body C fresh bytes (o_datacontenttype (b_rest b)) options)
      (\<lambda>payload. build (b\<lparr>b_rest := b_rest b\<lparr>o_data := payload\<rparr>\<rparr>)) = Inr ev" "event_ok ev"
  shows "case (let old = v1_read_body bytes (vr_event (reading_of b)) in and_then (v1_validate old) (\<lambda>_. Inr old)) of
    Inl _ \<Rightarrow> False | Inr old \<Rightarrow> same_event C ev old"
proof -
  from assms(3) obtain payload where p: "read_body C fresh bytes (o_datacontenttype (b_rest b)) options = Inr payload"
    and e: "build (b\<lparr>b_rest := b_rest b\<lparr>o_data := payload\<rparr>\<rparr>) = Inr ev"
    by (auto simp: and_then_eq_Inr)
  have f: "b_id b = Some (e_id ev)" "b_source b = Some (e_source ev)" "b_type b = Some (e_type ev)"
    "e_rest ev = b_rest b\<lparr>o_data := payload\<rparr>"
    using e by (auto simp: build_Inr)
  let ?old = "v1_read_body bytes (vr_event (reading_of b))"
  have o: "?old = (downgrade ev)\<lparr>v1_data := v1_data ?old\<rparr>"
    by (auto simp: f v1_read_body_def reading_of_def downgrade_def split: option.split)
  moreover have "same_payload C (o_data (e_rest ev)) (v1_data ?old)"
    using p by (auto simp: f read_body_def v1_read_body_def reading_of_def same_payload_def Let_def and_then_eq_Inr
        text_of_def to_text_def document_make_def split: option.splits if_splits)
  ultimately show ?thesis
    using v1_validate_ok [OF assms(4), of "v1_data ?old"] by (simp add: same_event_def Let_def)
qed

lemma v1_http_detect [simp]: "v1_http_detect_content_mode m = http_detect_content_mode m"
  by (simp add: v1_http_detect_content_mode_def http_detect_content_mode_def http_content_type_header_def
      split: option.split)

lemma v1_kafka_detect [simp]: "v1_kafka_detect_content_mode m = kafka_detect_content_mode m"
  by (simp add: v1_kafka_detect_content_mode_def kafka_detect_content_mode_def kafka_content_type_header_def)

lemma v1_nats_detect [simp]: "v1_nats_detect_content_mode m = nats_detect_content_mode m"
  by (simp add: v1_nats_detect_content_mode_def nats_detect_content_mode_def split: option.split)

definition reading_codec :: "'j codec \<Rightarrow> bool" where
  "reading_codec C \<longleftrightarrow> codec_text C \<and> codec_lookup C \<and> codec_finds C"

lemma v1_decode_structured_reads:
  assumes "reading_codec C" "retains_text_of (length (body m)) options"
  shows "accepts_as_well C (decode_structured C fresh m options) (v1_decode_structured C m)"
  using assms v1_decode_reads [of C "text_of (body m)" options fresh]
  by (simp add: decode_structured_def v1_decode_structured_def reading_codec_def retains_def text_of_def to_text_def)

lemma declare_media_type_reads:
  assumes "declare_media_type declared b = Inr b'"
  shows "v1_declare_media_type declared (vr_event (reading_of b)) = vr_event (reading_of b')"
    "b_id b' = b_id b" "b_source b' = b_source b" "b_type b' = b_type b"
  using assms
  by (auto simp: declare_media_type_def v1_declare_media_type_def reading_of_def and_then_eq_Inr
      datacontenttype_rules.make_Inr split: option.splits)

text \<open>The binary mode of the three bindings; \<open>declared\<close> is the content-type field, if it is looked at.\<close>

lemma v1_binary_reads:
  assumes "reading_codec C" "same_traits T U"
    and "current = and_then (read_attributes U hs) (\<lambda>b. and_then (declare_media_type declared b) (\<lambda>b.
      and_then (read_body C fresh bytes (o_datacontenttype (b_rest b)) options)
        (\<lambda>payload. build (b\<lparr>b_rest := b_rest b\<lparr>o_data := payload\<rparr>\<rparr>))))"
  shows "accepts_as_well C current (and_then (v1_read_attributes T hs) (\<lambda>ev.
    let ev = v1_declare_media_type declared ev; ev = v1_read_body bytes ev in and_then (v1_validate ev) (\<lambda>_. Inr ev)))"
proof (cases current)
  case (Inr ev)
  from assms(3) [unfolded Inr, symmetric] obtain b b' where r: "read_attributes U hs = Inr b" "declare_media_type declared b = Inr b'"
    and e: "and_then (read_body C fresh bytes (o_datacontenttype (b_rest b')) options)
      (\<lambda>payload. build (b'\<lparr>b_rest := b_rest b'\<lparr>o_data := payload\<rparr>\<rparr>)) = Inr ev"
    by (auto simp: and_then_eq_Inr)
  have ok: "event_ok ev"
    using r e by (auto simp: and_then_eq_Inr dest: read_attributes_ok declare_media_type_ok build_data_ok)
  from e have "b_id b' = Some (e_id ev)" "b_source b' = Some (e_source ev)" "b_type b' = Some (e_type ev)"
    by (auto simp: and_then_eq_Inr build_Inr)
  then have "v1_read_attributes T hs = Inr (vr_event (reading_of b))"
    using declare_media_type_reads [OF r(2)] by (intro v1_read_attributes_reads [OF assms(2) r(1)]) auto
  then show ?thesis
    using v1_rest_reads [OF _ _ e ok] assms(1) declare_media_type_reads(1) [OF r(2)] Inr
    by (simp add: accepts_as_well_def reading_codec_def Let_def)
qed (simp add: accepts_as_well_def)

lemma accepts_refused [simp]: "accepts_as_well C (fail c d w) old"
  by (simp add: accepts_as_well_def fail_def)

end
