(* ===== verification/V3_Json.thy ===== *)
theory V3_Json
  imports V1_Compat
begin

text \<open>
  The readers of \<open>include/cloudevents/v3/format/json_format.hpp\<close> that look a member up by its name.
  The current generation, and the rest of that file (\<open>V3_Format\<close>), reads the members in one pass:
  the two ways of reading are the same function.
\<close>

section \<open>Reading by name\<close>

text \<open>\<open>Codec::find\<close>: a pointer to the member.\<close>

definition find_member :: "'j codec \<Rightarrow> 'j \<Rightarrow> string \<Rightarrow> 'j member_ref option" where
  "find_member C document name =
     map_option (\<lambda>i. (i, snd (c_members C document ! i))) (c_find C document name)"

definition v3_required_text :: "'j codec \<Rightarrow> 'j \<Rightarrow> string \<Rightarrow> string result" where
  "v3_required_text C document name = required_text_of C (find_member C document name) name"

definition v3_optional_text :: "'j codec \<Rightarrow> 'j \<Rightarrow> string \<Rightarrow> (string option) result" where
  "v3_optional_text C document name = optional_text_of C (find_member C document name) name"

definition v3_read_required :: "'j codec \<Rightarrow> policy \<Rightarrow> 'j \<Rightarrow> string \<Rightarrow> (string option) result" where
  "v3_read_required C p document name = store_required C p (find_member C document name) name"

definition v3_read_optional ::
  "'j codec \<Rightarrow> policy \<Rightarrow> 'j \<Rightarrow> string \<Rightarrow> string option \<Rightarrow> (string option) result" where
  "v3_read_optional C p document name slot = store_optional C p (find_member C document name) name slot"

definition v3_read_time :: "'j codec \<Rightarrow> 'j \<Rightarrow> 'j options \<Rightarrow> 'j options result" where
  "v3_read_time C document into = store_time C (find_member C document ''time'') into"

definition v3_read_context_attributes :: "'j codec \<Rightarrow> 'j \<Rightarrow> 'j builder \<Rightarrow> 'j builder result" where
  "v3_read_context_attributes C document into =
     read_context C
       \<lparr>mm_specversion = find_member C document ''specversion'',
        mm_id = find_member C document ''id'',
        mm_source = find_member C document ''source'',
        mm_type = find_member C document ''type'',
        mm_datacontenttype = find_member C document ''datacontenttype'',
        mm_dataschema = find_member C document ''dataschema'',
        mm_subject = find_member C document ''subject'',
        mm_time = find_member C document ''time'',
        mm_data = None,
        mm_data_base64 = None\<rparr> into"

text \<open>The visitor: after an error the rest of the members are skipped.\<close>

fun v3_read_extensions_loop ::
  "'j codec \<Rightarrow> (string \<times> 'j) list \<Rightarrow> unit result \<Rightarrow> 'j options \<Rightarrow> unit result \<times> 'j options" where
  "v3_read_extensions_loop C [] outcome into = (outcome, into)"
| "v3_read_extensions_loop C ((name, member) # ms) outcome into =
     (if \<not> is_ok outcome \<or> reserved_name name then v3_read_extensions_loop C ms outcome into
      else (case read_extension C name member into of (outcome, into) \<Rightarrow> v3_read_extensions_loop C ms outcome into))"

definition v3_read_extensions :: "'j codec \<Rightarrow> 'j \<Rightarrow> 'j options \<Rightarrow> unit result \<times> 'j options" where
  "v3_read_extensions C document into = v3_read_extensions_loop C (c_members C document) (Inr ()) into"


section \<open>One pass reads what the names find\<close>

lemma find_member_first:
  assumes "codec_finds C" "c_kind_of C document = K_object"
  shows "map_option snd (find_member C document name) = map_option snd (first_ref name (c_members C document) 0)"
  using assms by (simp add: find_member_def codec_finds_def v1_find_def first_ref_map_of option.map_comp comp_def)

lemma required_text_value: "map_option snd m = map_option snd m' \<Longrightarrow> required_text_of C m name = required_text_of C m' name"
  by (cases m; cases m') (auto simp: required_text_of_def)

lemma optional_text_value: "map_option snd m = map_option snd m' \<Longrightarrow> optional_text_of C m name = optional_text_of C m' name"
  by (cases m; cases m') (auto simp: optional_text_of_def)

lemma read_context_values:
  assumes "\<And>select. select \<in> {mm_specversion, mm_id, mm_source, mm_type, mm_datacontenttype, mm_dataschema, mm_subject, mm_time} \<Longrightarrow>
    map_option snd (select found) = map_option snd (select found')"
  shows "read_context C found into = read_context C found' into"
proof -
  note v = assms [of mm_specversion] assms [of mm_id] assms [of mm_source] assms [of mm_type] assms [of mm_datacontenttype]
    assms [of mm_dataschema] assms [of mm_subject] assms [of mm_time]
  have "required_text_of C (mm_specversion found) n = required_text_of C (mm_specversion found') n"
    "required_text_of C (mm_id found) n = required_text_of C (mm_id found') n"
    "required_text_of C (mm_source found) n = required_text_of C (mm_source found') n"
    "required_text_of C (mm_type found) n = required_text_of C (mm_type found') n"
    "optional_text_of C (mm_datacontenttype found) n = optional_text_of C (mm_datacontenttype found') n"
    "optional_text_of C (mm_dataschema found) n = optional_text_of C (mm_dataschema found') n"
    "optional_text_of C (mm_subject found) n = optional_text_of C (mm_subject found') n"
    "optional_text_of C (mm_time found) n = optional_text_of C (mm_time found') n" for n
    using v by (auto intro: required_text_value optional_text_value)
  then show ?thesis
    unfolding read_context_def store_required_def store_optional_def store_time_def by presburger
qed

lemma v3_read_extensions_failed: "\<not> is_ok r \<Longrightarrow> v3_read_extensions_loop C ms r into = (r, into)"
  by (induction ms) auto

lemma v3_read_extensions_loop_eq:
  "v3_read_extensions_loop C ms r into = read_extensions C (extension_members ms) r into"
proof (induction C ms r into rule: v3_read_extensions_loop.induct)
  case (2 C name member ms outcome into)
  then show ?case
    by (auto simp: v3_read_extensions_failed read_extensions_failed split: prod.split)
qed (simp add: extension_members_def)

text \<open>
  The one-pass reader finds what looking the members up by name finds. The context attributes
  that the visitor collected are read with the result, value or error, of reading them by name, and
  the extensions are read with the same result and the same entries, for every object of a codec
  whose find points to the first member with a name.
\<close>

theorem one_pass_reads_by_name:
  assumes "codec_finds C" "c_kind_of C document = K_object"
    and "visit_members C (c_members C document) 0 no_members (Inr ()) into = (found, extensions_read, rest)"
  shows "read_context C found b = v3_read_context_attributes C document b \<and>
    v3_read_extensions C document into = (extensions_read, rest)"
proof
  have f: "found = found_in (c_members C document) 0"
    and e: "read_extensions C (extension_members (c_members C document)) (Inr ()) into = (extensions_read, rest)"
    using assms(3) unfolding visit_members_eq keep_found_none by (auto split: prod.splits)
  show "v3_read_extensions C document into = (extensions_read, rest)"
    unfolding v3_read_extensions_def v3_read_extensions_loop_eq by (rule e)
  show "read_context C found b = v3_read_context_attributes C document b"
    unfolding f v3_read_context_attributes_def
    by (rule read_context_values) (auto simp: found_in_def find_member_first [OF assms(1,2)])
qed

end
