(* ===== verification/V3_Conversion.thy ===== *)
theory V3_Conversion
  imports Events
begin

text \<open>
  \<open>include/cloudevents/v3_conversion.hpp\<close> with the document and the event of
  \<open>include/cloudevents/v3/core.hpp\<close>: events of the third generation and of the current one are
  turned into each other by copying or moving their parts. The attribute types are the same; a
  document is a pointer to the same document model, which the third generation copies where the
  current one moves it. A conversion that is given the original up also returns what it leaves of
  the original's data.
\<close>

section \<open>The third generation's document and event\<close>

record 'j v3_document =
  v3_address :: nat
  v3_model :: "'j json_document_model"

definition v3_built_by :: "'j codec \<Rightarrow> 'j v3_document \<Rightarrow> bool" where
  "v3_built_by codec d \<longleftrightarrow> model_identity (v3_model d) = c_identity codec"

definition v3_document_get :: "'j codec \<Rightarrow> 'j v3_document \<Rightarrow> 'j option" where
  "v3_document_get codec d =
     (if \<not> v3_built_by codec d then None
      else (case v3_model d of Holder _ v \<Rightarrow> Some v | Null_model \<Rightarrow> None))"

definition v3_document_dump :: "'j v3_document \<Rightarrow> string" where
  "v3_document_dump d = model_dump (v3_model d)"

definition v3_document_equal :: "'j v3_document \<Rightarrow> 'j v3_document \<Rightarrow> bool" where
  "v3_document_equal left right =
     (if v3_address left = v3_address right then True
      else if model_identity (v3_model left) = [] \<or> model_identity (v3_model right) = [] then False
      else if model_identity (v3_model left) = model_identity (v3_model right)
      then model_equal_value (v3_model left) (v3_model right)
      else model_equal_text (v3_model left) (model_dump (v3_model right)))"

datatype 'j v3_data =
    V3_none
  | V3_text string
  | V3_binary binary
  | V3_json_text string
  | V3_document "'j v3_document"

record 'j v3_options =
  v3_datacontenttype :: "string option"
  v3_dataschema :: "string option"
  v3_subject :: "string option"
  v3_time :: "timestamp option"
  v3_extensions :: extension_map
  v3_data :: "'j v3_data"

record 'j v3_event =
  v3_id :: string
  v3_source :: string
  v3_type :: string
  v3_rest :: "'j v3_options"

definition v3_data_equal :: "'j v3_data \<Rightarrow> 'j v3_data \<Rightarrow> bool" where
  "v3_data_equal a b =
     (case (a, b) of
        (V3_none, V3_none) \<Rightarrow> True
      | (V3_text s, V3_text t) \<Rightarrow> s = t
      | (V3_binary s, V3_binary t) \<Rightarrow> s = t
      | (V3_json_text s, V3_json_text t) \<Rightarrow> s = t
      | (V3_document d, V3_document d') \<Rightarrow> v3_document_equal d d'
      | _ \<Rightarrow> False)"

definition v3_options_equal :: "'j v3_options \<Rightarrow> 'j v3_options \<Rightarrow> bool" where
  "v3_options_equal a b \<longleftrightarrow>
     v3_datacontenttype a = v3_datacontenttype b \<and> v3_dataschema a = v3_dataschema b \<and>
     v3_subject a = v3_subject b \<and> v3_time a = v3_time b \<and> v3_extensions a = v3_extensions b \<and>
     v3_data_equal (v3_data a) (v3_data b)"

definition v3_event_equal :: "'j v3_event \<Rightarrow> 'j v3_event \<Rightarrow> bool" where
  "v3_event_equal a b \<longleftrightarrow> v3_id a = v3_id b \<and> v3_source a = v3_source b \<and> v3_type a = v3_type b \<and>
     v3_options_equal (v3_rest a) (v3_rest b)"


section \<open>Documents\<close>

text \<open>
  \<open>convert_document\<close>, to either generation; the second component is what is left of the original.
  A v3 document has no move constructor, so that giving it up copies its pointer.
\<close>

definition document_to_v3 :: "bool \<Rightarrow> 'j json_document \<Rightarrow> 'j v3_document \<times> 'j json_document" where
  "document_to_v3 move original =
     (if move then (case document_move original of (taken, left) \<Rightarrow>
        (\<lparr>v3_address = doc_address taken, v3_model = doc_model taken\<rparr>, left))
      else (\<lparr>v3_address = doc_address original, v3_model = doc_model original\<rparr>, original))"

definition document_from_v3 :: "bool \<Rightarrow> 'j v3_document \<Rightarrow> 'j json_document \<times> 'j v3_document" where
  "document_from_v3 move original =
     (if move then let taken = original
        in (\<lparr>doc_address = v3_address taken, doc_model = v3_model taken\<rparr>, original)
      else (\<lparr>doc_address = v3_address original, doc_model = v3_model original\<rparr>, original))"


section \<open>Data and events\<close>

text \<open>
  The second component is what is left of a document payload; a string or an octet vector that is
  moved from is in a state the language leaves open.
\<close>

definition data_to_v3 :: "bool \<Rightarrow> 'j data_t \<Rightarrow> 'j v3_data \<times> 'j json_document option" where
  "data_to_v3 move original =
     (case original of
        No_data \<Rightarrow> (V3_none, None)
      | Text_data s \<Rightarrow> (V3_text s, None)
      | Binary_data b \<Rightarrow> (V3_binary b, None)
      | Json_text s \<Rightarrow> (V3_json_text s, None)
      | Json_document d \<Rightarrow> (case document_to_v3 move d of (converted, left) \<Rightarrow> (V3_document converted, Some left)))"

definition data_from_v3 :: "bool \<Rightarrow> 'j v3_data \<Rightarrow> 'j data_t \<times> 'j v3_document option" where
  "data_from_v3 move original =
     (case original of
        V3_none \<Rightarrow> (No_data, None)
      | V3_text s \<Rightarrow> (Text_data s, None)
      | V3_binary b \<Rightarrow> (Binary_data b, None)
      | V3_json_text s \<Rightarrow> (Json_text s, None)
      | V3_document d \<Rightarrow> (case document_from_v3 move d of (converted, left) \<Rightarrow> (Json_document converted, Some left)))"

definition event_to_v3 :: "bool \<Rightarrow> 'j event \<Rightarrow> 'j v3_event \<times> 'j json_document option" where
  "event_to_v3 move original =
     (case data_to_v3 move (o_data (e_rest original)) of (converted, left) \<Rightarrow>
        (\<lparr>v3_id = e_id original, v3_source = e_source original, v3_type = e_type original,
          v3_rest = \<lparr>v3_datacontenttype = o_datacontenttype (e_rest original),
            v3_dataschema = o_dataschema (e_rest original), v3_subject = o_subject (e_rest original),
            v3_time = o_time (e_rest original), v3_extensions = o_extensions (e_rest original),
            v3_data = converted\<rparr>\<rparr>, left))"

definition event_from_v3 :: "bool \<Rightarrow> 'j v3_event \<Rightarrow> 'j event \<times> 'j v3_document option" where
  "event_from_v3 move original =
     (case data_from_v3 move (v3_data (v3_rest original)) of (converted, left) \<Rightarrow>
        (\<lparr>e_id = v3_id original, e_source = v3_source original, e_type = v3_type original,
          e_rest = \<lparr>o_datacontenttype = v3_datacontenttype (v3_rest original),
            o_dataschema = v3_dataschema (v3_rest original), o_subject = v3_subject (v3_rest original),
            o_time = v3_time (v3_rest original), o_extensions = v3_extensions (v3_rest original),
            o_data = converted\<rparr>\<rparr>, left))"

text \<open>The four conversions, by what they are given.\<close>

definition from_v3 :: "'j v3_event \<Rightarrow> 'j event" where
  "from_v3 original = fst (event_from_v3 False original)"

definition from_v3_moving :: "'j v3_event \<Rightarrow> 'j event \<times> 'j v3_document option" where
  "from_v3_moving original = event_from_v3 True original"

definition to_v3 :: "'j event \<Rightarrow> 'j v3_event" where
  "to_v3 original = fst (event_to_v3 False original)"

definition to_v3_moving :: "'j event \<Rightarrow> 'j v3_event \<times> 'j json_document option" where
  "to_v3_moving original = event_to_v3 True original"


section \<open>Conversion loses nothing\<close>

lemmas conversions = from_v3_def from_v3_moving_def to_v3_def to_v3_moving_def event_from_v3_def event_to_v3_def
  data_from_v3_def data_to_v3_def document_from_v3_def document_to_v3_def document_move_def

lemma from_v3_to_v3: "from_v3 (to_v3 ev) = ev"
  by (cases "o_data (e_rest ev)") (simp_all add: conversions)

lemma to_v3_from_v3: "to_v3 (from_v3 old) = old"
  by (cases "v3_data (v3_rest old)") (simp_all add: conversions)

lemma moving_converts: "fst (to_v3_moving ev) = to_v3 ev" "fst (from_v3_moving old) = from_v3 old"
  by (simp_all add: conversions split: data_t.split v3_data.split)

lemma moving_leaves:
  "snd (to_v3_moving ev) =
     (case o_data (e_rest ev) of Json_document d \<Rightarrow> Some moved_from | _ \<Rightarrow> None)"
  "snd (from_v3_moving old) = (case v3_data (v3_rest old) of V3_document d \<Rightarrow> Some d | _ \<Rightarrow> None)"
  by (simp_all add: conversions split: data_t.split v3_data.split)

lemma to_v3_equal: "v3_event_equal (to_v3 a) (to_v3 b) \<longleftrightarrow> event_equal a b"
  by (simp add: conversions v3_event_equal_def event_equal_def v3_options_equal_def options_equal_def
      v3_data_equal_def data_equal_def v3_document_equal_def document_equal_def split: data_t.split)

lemma v3_document_same:
  "v3_data (v3_rest (to_v3 ev)) = V3_document d \<Longrightarrow> \<exists>d'. o_data (e_rest ev) = Json_document d' \<and>
     v3_document_dump d = document_dump d' \<and> v3_document_get C d = document_get C d'"
  by (auto simp: conversions v3_document_dump_def document_dump_def v3_document_get_def v3_built_by_def
      document_get_def built_by_def split: data_t.splits)

text \<open>
  C28: converting between the generations loses nothing. A conversion there and back is the
  identity in both directions; converted events are equal exactly when the originals are; a
  conversion that moves makes the same event as one that copies. Moved into the third generation, a
  document leaves the moved-from document behind; moved out of it, the original keeps its document.
\<close>

theorem conversion_round_trip:
  "from_v3 (to_v3 ev) = ev \<and> to_v3 (from_v3 old) = old \<and>
   (v3_event_equal (to_v3 ev) (to_v3 ev') \<longleftrightarrow> event_equal ev ev') \<and>
   fst (to_v3_moving ev) = to_v3 ev \<and> fst (from_v3_moving old) = from_v3 old \<and>
   snd (to_v3_moving ev) = (case o_data (e_rest ev) of Json_document d \<Rightarrow> Some moved_from | _ \<Rightarrow> None) \<and>
   snd (from_v3_moving old) = (case v3_data (v3_rest old) of V3_document d \<Rightarrow> Some d | _ \<Rightarrow> None)"
  by (simp add: from_v3_to_v3 to_v3_from_v3 to_v3_equal moving_converts moving_leaves)

end
