(* ===== verification/Generations.thy ===== *)
theory Generations
  imports V3_Json V3_Conversion
begin

text \<open>
  What holds between the generations of the SDK, with the witnesses on the reference codec.
\<close>

section \<open>Both generations write the same\<close>

text \<open>
  C23: for a well-formed event, the first generation writes what the current one writes: the same
  JSON text and the same HTTP, Kafka and NATS messages in every mode, with the same errors, and
  the same record key. The codec parses back what it dumps, and a string it adopts is the string
  it makes.
\<close>

theorem generations_write_the_same:
  assumes "generations_codec C" "one_codec C ev" "event_ok ev" "texts_utf8 ev"
  shows "v1_encode C (downgrade ev) = json_encode C ev \<and>
    v1_http_to_message v1_percent_encoded_values C (downgrade ev) mode = http_to_message percent_encoded_values C ev mode \<and>
    v1_http_to_message v1_literal_values C (downgrade ev) mode = http_to_message literal_values C ev mode \<and>
    v1_to_record v1_partitionkey_of C (downgrade ev) mode = to_record partitionkey_of C ev mode \<and>
    v1_nats_to_message C (downgrade ev) mode = nats_to_message C ev mode"
  using v1_http_to_message_eq [OF assms same_traits_percent] v1_http_to_message_eq [OF assms same_traits_literal]
  by (simp add: v1_encode_eq v1_nats_to_message_eq v1_kafka_to_message_eq assms(1-3) v1_to_record_def to_record_def v1_partitionkey_eq)

lemma reference_generations: "generations_codec reference_codec" "reading_codec reference_codec"
proof -
  have "codec_adopts reference_codec" by (simp add: codec_adopts_def reference_codec_def)
  then show "generations_codec reference_codec" by (simp add: generations_codec_def reference_text reference_lookup)
  have "map_of ms n = None" if "\<not> length (takeWhile (\<lambda>m. fst m \<noteq> n) ms) < length ms" for n and ms :: "(string \<times> jv) list"
    using that by (induction ms) (auto split: if_splits)
  then have "codec_finds reference_codec"
    by (auto simp: map_of_takeWhile codec_finds_def v1_find_def reference_codec_def Let_def split: jv.splits)
  then show "reading_codec reference_codec" by (simp add: reading_codec_def reference_text reference_lookup)
qed

lemma full_event_one_codec: "one_codec C full_event" "texts_utf8 full_event"
  by (simp_all add: one_codec_def full_event_def texts_utf8_def text_attribute_def)

theorem generations_write_the_same_witness:
  "is_ok (v1_http_to_message v1_literal_values reference_codec (downgrade full_event) structured)"
proof -
  have "is_ok (http_to_message literal_values reference_codec full_event structured)" by code_simp
  with generations_write_the_same [OF reference_generations(1) full_event_one_codec(1) full_event_ok(1) full_event_one_codec(2)]
  show ?thesis by simp
qed


section \<open>The first generation reads what the current one reads\<close>

text \<open>
  C24: a JSON text or a message that the current generation reads as an event, the first generation
  reads as the same event: the same attributes and extensions, and the same data, where a document
  is the value that the first generation's text is parsed to. The text is within the retention
  limit, so that the current generation keeps a document; the codec finds the first member of a
  name and parses back what it dumps.
\<close>

theorem first_generation_reads:
  assumes "reading_codec C" "retains_text_of (length (body m)) options"
  shows "accepts_as_well C (json_decode C fresh (to_text (body m)) options) (v1_decode C (to_text (body m))) \<and>
    accepts_as_well C (http_from_message percent_encoded_values C fresh m options)
      (v1_http_from_message v1_percent_encoded_values C m) \<and>
    accepts_as_well C (http_from_message literal_values C fresh m options)
      (v1_http_from_message v1_literal_values C m) \<and>
    accepts_as_well C (kafka_from_message C fresh m options) (v1_kafka_from_message C m) \<and>
    accepts_as_well C (nats_from_message C fresh m options) (v1_nats_from_message C m)"
proof (intro conjI)
  note s = v1_decode_structured_reads [OF assms]
  note b = v1_binary_reads [OF assms(1) _ refl]
  show "accepts_as_well C (json_decode C fresh (to_text (body m)) options) (v1_decode C (to_text (body m)))"
    using s [of fresh] by (simp add: decode_structured_def v1_decode_structured_def text_of_def to_text_def)
  show "accepts_as_well C (http_from_message percent_encoded_values C fresh m options)
      (v1_http_from_message v1_percent_encoded_values C m)"
    using s b [OF same_traits_percent]
    by (simp add: http_from_message_def v1_http_from_message_def Let_def http_content_type_header_def)
  show "accepts_as_well C (http_from_message literal_values C fresh m options)
      (v1_http_from_message v1_literal_values C m)"
    using s b [OF same_traits_literal]
    by (simp add: http_from_message_def v1_http_from_message_def Let_def http_content_type_header_def)
  show "accepts_as_well C (kafka_from_message C fresh m options) (v1_kafka_from_message C m)"
    using s b [OF same_traits_refl [of kafka_traits]]
    by (simp add: kafka_from_message_def v1_kafka_from_message_def Let_def kafka_content_type_header_def)
  show "accepts_as_well C (nats_from_message C fresh m options) (v1_nats_from_message C m)"
    using s b [OF same_traits_refl [of nats_traits], of _ None]
    by (simp add: nats_from_message_def v1_nats_from_message_def Let_def declare_media_type_def v1_declare_media_type_def)
qed

lemma same_event_fields:
  "same_event C ev old \<Longrightarrow> v1_id old = e_id ev \<and> v1_extensions old = o_extensions (e_rest ev)"
  by (cases old) (simp add: same_event_def downgrade_def)

definition json_request :: message where
  "json_request = \<lparr>header_fields =
     [(''CE-id'', ''A%201''), (''ce-source'', ''/s''), (''ce-type'', ''t''), (''ce-specversion'', ''1.0''),
      (''ce-trace'', ''x''), (''content-type'', ''application/json'')], body = to_bytes ''{}''\<rparr>"

theorem first_generation_reads_witness:
  "case v1_http_from_message v1_percent_encoded_values reference_codec json_request of
     Inr old \<Rightarrow> v1_id old = ''A 1'' \<and> v1_extensions old = [(''trace'', Str ''x'')]
   | Inl _ \<Rightarrow> False"
proof -
  have ok: "case http_from_message percent_encoded_values reference_codec 0 json_request default_decode_options of
      Inr ev \<Rightarrow> e_id ev = ''A 1'' \<and> o_extensions (e_rest ev) = [(''trace'', Str ''x'')] | Inl _ \<Rightarrow> False"
    by code_simp
  have l: "retains_text_of (length (body json_request)) default_decode_options" by code_simp
  from first_generation_reads [OF reference_generations(2) l, of 0]
  have "accepts_as_well reference_codec (http_from_message percent_encoded_values reference_codec 0 json_request default_decode_options)
      (v1_http_from_message v1_percent_encoded_values reference_codec json_request)"
    by blast
  with ok show ?thesis
    by (auto simp: accepts_as_well_def same_event_fields split: sum.splits)
qed


section \<open>The first generation refuses less\<close>

text \<open>
  An event whose id is not UTF-8 passes the validation of the first generation, which writes
  it as a binary-mode HTTP message and then refuses to read that message: validate does not look
  at the encoding of the attributes, the reader of header values does. In the current generation
  no such event exists.
\<close>

theorem first_generation_writes_what_it_refuses:
  "let ev = v1_empty_event\<lparr>v1_id := [CHR 0xFF], v1_source := ''/s'', v1_type := ''t''\<rparr>
   in v1_validate ev = Inr () \<and>
     fails_with invalid_utf8 (and_then (v1_http_to_message v1_percent_encoded_values reference_codec ev binary_mode)
       (v1_http_from_message v1_percent_encoded_values reference_codec)) \<and>
     is_ok (v1_http_to_message v1_percent_encoded_values reference_codec ev binary_mode) \<and>
     \<not> is_ok (make_validated id_policy (v1_id ev))"
  by code_simp

section \<open>Reading by name\<close>

theorem one_pass_reads_by_name_witness:
  "case visit_members reference_codec (c_members reference_codec sample_document) 0 no_members (Inr ()) no_options of
     (found, extensions_read, rest) \<Rightarrow>
       v3_read_extensions reference_codec sample_document no_options = (extensions_read, rest) \<and>
       is_ok (v3_read_context_attributes reference_codec sample_document new_builder)"
proof -
  obtain found r rest where v: "visit_members reference_codec (c_members reference_codec sample_document) 0 no_members
      (Inr ()) no_options = (found, r, rest)"
    using prod_cases3 by blast
  have f: "codec_finds reference_codec" using reference_generations(2) by (simp add: reading_codec_def)
  have k: "c_kind_of reference_codec sample_document = K_object" by (simp add: reference_codec_def sample_document_def)
  have "case visit_members reference_codec (c_members reference_codec sample_document) 0 no_members (Inr ()) no_options of
      (found, r, rest) \<Rightarrow> is_ok (read_context reference_codec found new_builder)"
    by code_simp
  with one_pass_reads_by_name [OF f k v, of new_builder] show ?thesis by (simp add: v)
qed

end
