(* ===== verification/Codecs.thy ===== *)
theory Codecs
  imports Describe_Json Reference_Codec
begin

text \<open>
  \<open>include/cloudevents/codec/nlohmann.hpp\<close>, \<open>rapidjson.hpp\<close> and \<open>boost_json.hpp\<close>: the codecs that the
  SDK ships, each a set of small functions over a JSON library. A library is not part of the
  repository: it is a record of the calls that the adapter makes, and its documented behaviour is
  stated over \<open>view\<close>, which gives the JSON value that a library value holds, one level deep. A call
  that returns an iterator returns the position in the order of iteration.
\<close>

section \<open>What a library value holds\<close>

datatype 'j shape =
    S_null
  | S_bool bool
  | S_int int
  | S_uint int
  | S_double u64
  | S_string string
  | S_array "'j list"
  | S_object "(string \<times> 'j) list"

fun shape_kind :: "'j shape \<Rightarrow> kind" where
  "shape_kind S_null = K_null"
| "shape_kind (S_bool _) = K_boolean"
| "shape_kind (S_int _) = K_integer"
| "shape_kind (S_uint _) = K_integer"
| "shape_kind (S_double _) = K_floating"
| "shape_kind (S_string _) = K_string"
| "shape_kind (S_array _) = K_array"
| "shape_kind (S_object _) = K_object"

text \<open>The position of the first member with a name.\<close>

fun position :: "string \<Rightarrow> (string \<times> 'j) list \<Rightarrow> nat option" where
  "position key [] = None"
| "position key ((name, v) # ms) = (if name = key then Some 0 else map_option Suc (position key ms))"


section \<open>nlohmann::json\<close>

text \<open>
  \<open>nj_dump\<close> is \<open>None\<close> where \<open>dump\<close> throws: its default handler throws on a string that is not UTF-8. The
  adapter does not catch it.
\<close>

record 'j nlohmann =
  nj_parse :: "string \<Rightarrow> 'j option"
  nj_dump :: "'j \<Rightarrow> string option"
  nj_null :: 'j
  nj_of_bool :: "bool \<Rightarrow> 'j"
  nj_of_int64 :: "int \<Rightarrow> 'j"
  nj_of_double :: "u64 \<Rightarrow> 'j"
  nj_of_string :: "string \<Rightarrow> 'j"
  nj_array :: 'j
  nj_object :: 'j
  nj_is_null :: "'j \<Rightarrow> bool"
  nj_is_boolean :: "'j \<Rightarrow> bool"
  nj_is_number_integer :: "'j \<Rightarrow> bool"
  nj_is_number_unsigned :: "'j \<Rightarrow> bool"
  nj_is_number_float :: "'j \<Rightarrow> bool"
  nj_is_number :: "'j \<Rightarrow> bool"
  nj_is_string :: "'j \<Rightarrow> bool"
  nj_is_array :: "'j \<Rightarrow> bool"
  nj_is_object :: "'j \<Rightarrow> bool"
  nj_get_bool :: "'j \<Rightarrow> bool"
  nj_get_uint64 :: "'j \<Rightarrow> int"
  nj_get_int64 :: "'j \<Rightarrow> int"
  nj_get_double :: "'j \<Rightarrow> u64"
  nj_get_string :: "'j \<Rightarrow> string"
  nj_find :: "'j \<Rightarrow> string \<Rightarrow> nat option"
  nj_at :: "'j \<Rightarrow> nat \<Rightarrow> 'j"
  nj_assign :: "'j \<Rightarrow> string \<Rightarrow> 'j \<Rightarrow> 'j"
  nj_push_back :: "'j \<Rightarrow> 'j \<Rightarrow> 'j"
  nj_size :: "'j \<Rightarrow> nat"
  nj_items :: "'j \<Rightarrow> (string \<times> 'j) list"
  nj_elements :: "'j \<Rightarrow> 'j list"
  nj_equal :: "'j \<Rightarrow> 'j \<Rightarrow> bool"

definition nlohmann_parse :: "'j nlohmann \<Rightarrow> string \<Rightarrow> 'j result" where
  "nlohmann_parse A txt =
     (case nj_parse A txt of
        None \<Rightarrow> fail parse_error ''not well-formed JSON'' ''''
      | Some parsed \<Rightarrow> Inr parsed)"

definition nlohmann_extract :: "'j nlohmann \<Rightarrow> 'j \<Rightarrow> string \<Rightarrow> 'j" where
  "nlohmann_extract A obj key =
     (if \<not> nj_is_object A obj then nj_null A
      else (case nj_find A obj key of None \<Rightarrow> nj_null A | Some found \<Rightarrow> nj_at A obj found))"

definition nlohmann_kind_of :: "'j nlohmann \<Rightarrow> 'j \<Rightarrow> kind" where
  "nlohmann_kind_of A held =
     (if nj_is_null A held then K_null
      else if nj_is_boolean A held then K_boolean
      else if nj_is_number_integer A held \<or> nj_is_number_unsigned A held then K_integer
      else if nj_is_number_float A held then K_floating
      else if nj_is_string A held then K_string
      else if nj_is_array A held then K_array
      else K_object)"

definition nlohmann_find :: "'j nlohmann \<Rightarrow> 'j \<Rightarrow> string \<Rightarrow> nat option" where
  "nlohmann_find A obj key =
     (if \<not> nj_is_object A obj then None
      else (case nj_find A obj key of None \<Rightarrow> None | Some found \<Rightarrow> Some found))"

definition nlohmann_as_bool :: "'j nlohmann \<Rightarrow> 'j \<Rightarrow> bool result" where
  "nlohmann_as_bool A held =
     (if \<not> nj_is_boolean A held then fail type_mismatch ''not a JSON boolean'' ''''
      else Inr (nj_get_bool A held))"

definition nlohmann_as_int :: "'j nlohmann \<Rightarrow> 'j \<Rightarrow> int result" where
  "nlohmann_as_int A held =
     (if nj_is_number_unsigned A held
      then let unsigned_value = nj_get_uint64 A held
        in if unsigned_value > int64_max then fail out_of_range ''JSON integer too large for int64'' ''''
           else Inr unsigned_value
      else if nj_is_number_integer A held then Inr (nj_get_int64 A held)
      else fail type_mismatch ''not a JSON integer'' '''')"

definition nlohmann_as_double :: "'j nlohmann \<Rightarrow> 'j \<Rightarrow> u64 result" where
  "nlohmann_as_double A held =
     (if \<not> nj_is_number A held then fail type_mismatch ''not a JSON number'' ''''
      else Inr (nj_get_double A held))"

definition nlohmann_as_string :: "'j nlohmann \<Rightarrow> 'j \<Rightarrow> string result" where
  "nlohmann_as_string A held =
     (if \<not> nj_is_string A held then fail type_mismatch ''not a JSON string'' ''''
      else Inr (nj_get_string A held))"

definition nlohmann_codec :: "'j nlohmann \<Rightarrow> 'j codec" where
  "nlohmann_codec A = \<lparr>
     c_identity = ''io.cloudevents.cpp.codec.nlohmann'',
     c_parse = nlohmann_parse A,
     c_dump = (\<lambda>held. case nj_dump A held of Some txt \<Rightarrow> txt | None \<Rightarrow> []),
     c_dump_throws = (\<lambda>held. nj_dump A held = None),
     c_make_null = nj_null A,
     c_make_bool = nj_of_bool A,
     c_make_int = nj_of_int64 A,
     c_make_double = nj_of_double A,
     c_make_string = nj_of_string A,
     c_make_array = nj_array A,
     c_make_object = nj_object A,
     c_set = nj_assign A,
     c_push = nj_push_back A,
     c_find = nlohmann_find A,
     c_size_of = nj_size A,
     c_kind_of = nlohmann_kind_of A,
     c_as_bool = nlohmann_as_bool A,
     c_as_int = nlohmann_as_int A,
     c_as_double = nlohmann_as_double A,
     c_as_string = nlohmann_as_string A,
     c_members = nj_items A,
     c_elements = nj_elements A,
     c_equal = nj_equal A,
     c_copy = (\<lambda>held. held),
     c_extract = nlohmann_extract A,
     c_adopt_string = Some (nj_of_string A)\<rparr>"


section \<open>RapidJSON\<close>

datatype rj_type = RJ_null | RJ_false | RJ_true | RJ_object | RJ_array | RJ_string | RJ_number

text \<open>\<open>rj_size_cast\<close> is the conversion to the library's \<open>SizeType\<close>; \<open>rj_parse\<close> returns the text of an error.\<close>

record 'j rapidjson =
  rj_parse :: "string \<Rightarrow> string + 'j"
  rj_dump :: "'j \<Rightarrow> string"
  rj_size_cast :: "nat \<Rightarrow> nat"
  rj_null :: 'j
  rj_of_bool :: "bool \<Rightarrow> 'j"
  rj_of_int64 :: "int \<Rightarrow> 'j"
  rj_of_double :: "u64 \<Rightarrow> 'j"
  rj_of_chars :: "string \<Rightarrow> 'j"
  rj_array :: 'j
  rj_object :: 'j
  rj_get_type :: "'j \<Rightarrow> rj_type"
  rj_is_bool :: "'j \<Rightarrow> bool"
  rj_is_int64 :: "'j \<Rightarrow> bool"
  rj_is_uint64 :: "'j \<Rightarrow> bool"
  rj_is_number :: "'j \<Rightarrow> bool"
  rj_is_string :: "'j \<Rightarrow> bool"
  rj_is_array :: "'j \<Rightarrow> bool"
  rj_is_object :: "'j \<Rightarrow> bool"
  rj_get_bool :: "'j \<Rightarrow> bool"
  rj_get_int64 :: "'j \<Rightarrow> int"
  rj_get_double :: "'j \<Rightarrow> u64"
  rj_get_string :: "'j \<Rightarrow> string"
  rj_find_member :: "'j \<Rightarrow> string \<Rightarrow> nat option"
  rj_at :: "'j \<Rightarrow> nat \<Rightarrow> 'j"
  rj_put_at :: "'j \<Rightarrow> nat \<Rightarrow> 'j \<Rightarrow> 'j"
  rj_add_member :: "'j \<Rightarrow> string \<Rightarrow> 'j \<Rightarrow> 'j"
  rj_push_back :: "'j \<Rightarrow> 'j \<Rightarrow> 'j"
  rj_size :: "'j \<Rightarrow> nat"
  rj_member_count :: "'j \<Rightarrow> nat"
  rj_members :: "'j \<Rightarrow> (string \<times> 'j) list"
  rj_elements :: "'j \<Rightarrow> 'j list"
  rj_equal :: "'j \<Rightarrow> 'j \<Rightarrow> bool"
  rj_copy :: "'j \<Rightarrow> 'j"

text \<open>The characters that the library reads: the pointer, and the size as a \<open>SizeType\<close>.\<close>

definition rapidjson_chars :: "'j rapidjson \<Rightarrow> string \<Rightarrow> string" where
  "rapidjson_chars A txt = take (rj_size_cast A (length txt)) txt"

definition rapidjson_make_string :: "'j rapidjson \<Rightarrow> string \<Rightarrow> 'j" where
  "rapidjson_make_string A held = rj_of_chars A (rapidjson_chars A held)"

definition rapidjson_set :: "'j rapidjson \<Rightarrow> 'j \<Rightarrow> string \<Rightarrow> 'j \<Rightarrow> 'j" where
  "rapidjson_set A obj key member =
     (case rj_find_member A obj (rapidjson_chars A key) of
        Some found \<Rightarrow> rj_put_at A obj found member
      | None \<Rightarrow> rj_add_member A obj (rapidjson_chars A key) member)"

definition rapidjson_kind_of :: "'j rapidjson \<Rightarrow> 'j \<Rightarrow> kind" where
  "rapidjson_kind_of A held =
     (case rj_get_type A held of
        RJ_null \<Rightarrow> K_null
      | RJ_false \<Rightarrow> K_boolean
      | RJ_true \<Rightarrow> K_boolean
      | RJ_object \<Rightarrow> K_object
      | RJ_array \<Rightarrow> K_array
      | RJ_string \<Rightarrow> K_string
      | _ \<Rightarrow> if rj_is_int64 A held \<or> rj_is_uint64 A held then K_integer else K_floating)"

definition rapidjson_size_of :: "'j rapidjson \<Rightarrow> 'j \<Rightarrow> nat" where
  "rapidjson_size_of A held =
     (if rj_is_array A held then rj_size A held
      else if rj_is_object A held then rj_member_count A held else 0)"

definition rapidjson_find :: "'j rapidjson \<Rightarrow> 'j \<Rightarrow> string \<Rightarrow> nat option" where
  "rapidjson_find A obj key =
     (if \<not> rj_is_object A obj then None else rj_find_member A obj (rapidjson_chars A key))"

definition rapidjson_as_bool :: "'j rapidjson \<Rightarrow> 'j \<Rightarrow> bool result" where
  "rapidjson_as_bool A held =
     (if \<not> rj_is_bool A held then fail type_mismatch ''not a JSON boolean'' '''' else Inr (rj_get_bool A held))"

definition rapidjson_as_int :: "'j rapidjson \<Rightarrow> 'j \<Rightarrow> int result" where
  "rapidjson_as_int A held =
     (if rj_is_int64 A held then Inr (rj_get_int64 A held)
      else if rj_is_uint64 A held then fail out_of_range ''JSON integer too large for int64'' ''''
      else fail type_mismatch ''not a JSON integer'' '''')"

definition rapidjson_as_double :: "'j rapidjson \<Rightarrow> 'j \<Rightarrow> u64 result" where
  "rapidjson_as_double A held =
     (if \<not> rj_is_number A held then fail type_mismatch ''not a JSON number'' '''' else Inr (rj_get_double A held))"

definition rapidjson_as_string :: "'j rapidjson \<Rightarrow> 'j \<Rightarrow> string result" where
  "rapidjson_as_string A held =
     (if \<not> rj_is_string A held then fail type_mismatch ''not a JSON string'' '''' else Inr (rj_get_string A held))"

definition rapidjson_members :: "'j rapidjson \<Rightarrow> 'j \<Rightarrow> (string \<times> 'j) list" where
  "rapidjson_members A obj = (if \<not> rj_is_object A obj then [] else rj_members A obj)"

definition rapidjson_elements :: "'j rapidjson \<Rightarrow> 'j \<Rightarrow> 'j list" where
  "rapidjson_elements A arr = (if \<not> rj_is_array A arr then [] else rj_elements A arr)"

definition rapidjson_parse :: "'j rapidjson \<Rightarrow> string \<Rightarrow> 'j result" where
  "rapidjson_parse A txt =
     (case rj_parse A txt of Inl message \<Rightarrow> fail parse_error message '''' | Inr document \<Rightarrow> Inr document)"

definition rapidjson_extract :: "'j rapidjson \<Rightarrow> 'j \<Rightarrow> string \<Rightarrow> 'j" where
  "rapidjson_extract A obj key =
     (if \<not> rj_is_object A obj then rj_null A
      else (case rj_find_member A obj (rapidjson_chars A key) of
          None \<Rightarrow> rj_null A
        | Some found \<Rightarrow> rj_at A obj found))"

definition rapidjson_codec :: "'j rapidjson \<Rightarrow> 'j codec" where
  "rapidjson_codec A = \<lparr>
     c_identity = ''io.cloudevents.cpp.codec.rapidjson'',
     c_parse = rapidjson_parse A,
     c_dump = rj_dump A,
     c_dump_throws = (\<lambda>_. False),
     c_make_null = rj_null A,
     c_make_bool = rj_of_bool A,
     c_make_int = rj_of_int64 A,
     c_make_double = rj_of_double A,
     c_make_string = rapidjson_make_string A,
     c_make_array = rj_array A,
     c_make_object = rj_object A,
     c_set = rapidjson_set A,
     c_push = rj_push_back A,
     c_find = rapidjson_find A,
     c_size_of = rapidjson_size_of A,
     c_kind_of = rapidjson_kind_of A,
     c_as_bool = rapidjson_as_bool A,
     c_as_int = rapidjson_as_int A,
     c_as_double = rapidjson_as_double A,
     c_as_string = rapidjson_as_string A,
     c_members = rapidjson_members A,
     c_elements = rapidjson_elements A,
     c_equal = rj_equal A,
     c_copy = rj_copy A,
     c_extract = rapidjson_extract A,
     c_adopt_string = None\<rparr>"


section \<open>Boost.JSON\<close>

datatype bj_kind = BJ_null | BJ_bool | BJ_int64 | BJ_uint64 | BJ_double | BJ_string | BJ_array | BJ_object

record 'j boost_json =
  bj_parse :: "string \<Rightarrow> string + 'j"
  bj_serialize :: "'j \<Rightarrow> string"
  bj_null :: 'j
  bj_of_bool :: "bool \<Rightarrow> 'j"
  bj_of_int64 :: "int \<Rightarrow> 'j"
  bj_of_double :: "u64 \<Rightarrow> 'j"
  bj_of_string :: "string \<Rightarrow> 'j"
  bj_array :: 'j
  bj_object :: 'j
  bj_kind_of :: "'j \<Rightarrow> bj_kind"
  bj_is_bool :: "'j \<Rightarrow> bool"
  bj_is_int64 :: "'j \<Rightarrow> bool"
  bj_is_uint64 :: "'j \<Rightarrow> bool"
  bj_is_number :: "'j \<Rightarrow> bool"
  bj_is_string :: "'j \<Rightarrow> bool"
  bj_is_array :: "'j \<Rightarrow> bool"
  bj_is_object :: "'j \<Rightarrow> bool"
  bj_get_bool :: "'j \<Rightarrow> bool"
  bj_get_int64 :: "'j \<Rightarrow> int"
  bj_get_uint64 :: "'j \<Rightarrow> int"
  bj_to_double :: "'j \<Rightarrow> u64"
  bj_get_string :: "'j \<Rightarrow> string"
  bj_if_contains :: "'j \<Rightarrow> string \<Rightarrow> nat option"
  bj_at :: "'j \<Rightarrow> nat \<Rightarrow> 'j"
  bj_insert_or_assign :: "'j \<Rightarrow> string \<Rightarrow> 'j \<Rightarrow> 'j"
  bj_push_back :: "'j \<Rightarrow> 'j \<Rightarrow> 'j"
  bj_array_size :: "'j \<Rightarrow> nat"
  bj_object_size :: "'j \<Rightarrow> nat"
  bj_entries :: "'j \<Rightarrow> (string \<times> 'j) list"
  bj_elements :: "'j \<Rightarrow> 'j list"
  bj_equal :: "'j \<Rightarrow> 'j \<Rightarrow> bool"

definition boost_kind_of :: "'j boost_json \<Rightarrow> 'j \<Rightarrow> kind" where
  "boost_kind_of A held =
     (case bj_kind_of A held of
        BJ_null \<Rightarrow> K_null
      | BJ_bool \<Rightarrow> K_boolean
      | BJ_int64 \<Rightarrow> K_integer
      | BJ_uint64 \<Rightarrow> K_integer
      | BJ_double \<Rightarrow> K_floating
      | BJ_string \<Rightarrow> K_string
      | BJ_array \<Rightarrow> K_array
      | BJ_object \<Rightarrow> K_object)"

definition boost_size_of :: "'j boost_json \<Rightarrow> 'j \<Rightarrow> nat" where
  "boost_size_of A held =
     (if bj_is_array A held then bj_array_size A held
      else if bj_is_object A held then bj_object_size A held else 0)"

definition boost_find :: "'j boost_json \<Rightarrow> 'j \<Rightarrow> string \<Rightarrow> nat option" where
  "boost_find A obj key = (if \<not> bj_is_object A obj then None else bj_if_contains A obj key)"

definition boost_as_bool :: "'j boost_json \<Rightarrow> 'j \<Rightarrow> bool result" where
  "boost_as_bool A held =
     (if \<not> bj_is_bool A held then fail type_mismatch ''not a JSON boolean'' '''' else Inr (bj_get_bool A held))"

definition boost_as_int :: "'j boost_json \<Rightarrow> 'j \<Rightarrow> int result" where
  "boost_as_int A held =
     (if bj_is_int64 A held then Inr (bj_get_int64 A held)
      else if bj_is_uint64 A held
      then let unsigned_held = bj_get_uint64 A held
        in if unsigned_held > int64_max then fail out_of_range ''JSON integer too large for int64'' ''''
           else Inr unsigned_held
      else fail type_mismatch ''not a JSON integer'' '''')"

definition boost_as_double :: "'j boost_json \<Rightarrow> 'j \<Rightarrow> u64 result" where
  "boost_as_double A held =
     (if \<not> bj_is_number A held then fail type_mismatch ''not a JSON number'' '''' else Inr (bj_to_double A held))"

definition boost_as_string :: "'j boost_json \<Rightarrow> 'j \<Rightarrow> string result" where
  "boost_as_string A held =
     (if \<not> bj_is_string A held then fail type_mismatch ''not a JSON string'' '''' else Inr (bj_get_string A held))"

definition boost_members :: "'j boost_json \<Rightarrow> 'j \<Rightarrow> (string \<times> 'j) list" where
  "boost_members A obj = (if \<not> bj_is_object A obj then [] else bj_entries A obj)"

definition boost_elements :: "'j boost_json \<Rightarrow> 'j \<Rightarrow> 'j list" where
  "boost_elements A arr = (if \<not> bj_is_array A arr then [] else bj_elements A arr)"

definition boost_parse :: "'j boost_json \<Rightarrow> string \<Rightarrow> 'j result" where
  "boost_parse A txt =
     (case bj_parse A txt of Inl message \<Rightarrow> fail parse_error message '''' | Inr parsed \<Rightarrow> Inr parsed)"

definition boost_extract :: "'j boost_json \<Rightarrow> 'j \<Rightarrow> string \<Rightarrow> 'j" where
  "boost_extract A obj key =
     (if \<not> bj_is_object A obj then bj_null A
      else (case bj_if_contains A obj key of None \<Rightarrow> bj_null A | Some found \<Rightarrow> bj_at A obj found))"

definition boost_json_codec :: "'j boost_json \<Rightarrow> 'j codec" where
  "boost_json_codec A = \<lparr>
     c_identity = ''io.cloudevents.cpp.codec.boost_json'',
     c_parse = boost_parse A,
     c_dump = bj_serialize A,
     c_dump_throws = (\<lambda>_. False),
     c_make_null = bj_null A,
     c_make_bool = bj_of_bool A,
     c_make_int = bj_of_int64 A,
     c_make_double = bj_of_double A,
     c_make_string = bj_of_string A,
     c_make_array = bj_array A,
     c_make_object = bj_object A,
     c_set = bj_insert_or_assign A,
     c_push = bj_push_back A,
     c_find = boost_find A,
     c_size_of = boost_size_of A,
     c_kind_of = boost_kind_of A,
     c_as_bool = boost_as_bool A,
     c_as_int = boost_as_int A,
     c_as_double = boost_as_double A,
     c_as_string = boost_as_string A,
     c_members = boost_members A,
     c_elements = boost_elements A,
     c_equal = bj_equal A,
     c_copy = (\<lambda>held. held),
     c_extract = boost_extract A,
     c_adopt_string = None\<rparr>"

end
