(* ===== verification/Codec_Laws.thy ===== *)
theory Codec_Laws
  imports Codecs
begin

text \<open>
  The adapters of \<open>Codecs\<close> present a library's values as the codec concept asks: what the format
  code relies on in a codec follows from the documented behaviour of the library.
\<close>

section \<open>Reading a value by its shape\<close>

definition shape_bool :: "'j shape \<Rightarrow> bool result" where
  "shape_bool s = (case s of S_bool b \<Rightarrow> Inr b | _ \<Rightarrow> fail type_mismatch ''not a JSON boolean'' '''')"

definition shape_int :: "'j shape \<Rightarrow> int result" where
  "shape_int s =
     (case s of
        S_int i \<Rightarrow> Inr i
      | S_uint n \<Rightarrow> if n > int64_max then fail out_of_range ''JSON integer too large for int64'' '''' else Inr n
      | _ \<Rightarrow> fail type_mismatch ''not a JSON integer'' '''')"

definition shape_double :: "(int \<Rightarrow> u64) \<Rightarrow> 'j shape \<Rightarrow> u64 result" where
  "shape_double conv s =
     (case s of
        S_double d \<Rightarrow> Inr d
      | S_int i \<Rightarrow> Inr (conv i)
      | S_uint n \<Rightarrow> Inr (conv n)
      | _ \<Rightarrow> fail type_mismatch ''not a JSON number'' '''')"

definition shape_string :: "'j shape \<Rightarrow> string result" where
  "shape_string s = (case s of S_string t \<Rightarrow> Inr t | _ \<Rightarrow> fail type_mismatch ''not a JSON string'' '''')"

text \<open>
  What a library's constructors and container operations do. A string or a name that does not fit, by
  \<open>fits\<close>, is not promised to be kept.
\<close>

definition makes ::
  "(string \<Rightarrow> bool) \<Rightarrow> ('j \<Rightarrow> 'j shape) \<Rightarrow> 'j \<Rightarrow> (bool \<Rightarrow> 'j) \<Rightarrow> (int \<Rightarrow> 'j) \<Rightarrow> (u64 \<Rightarrow> 'j) \<Rightarrow> (string \<Rightarrow> 'j) \<Rightarrow> 'j \<Rightarrow> 'j \<Rightarrow> bool" where
  "makes fits view null boolean integer double str arr obj \<longleftrightarrow>
     view null = S_null \<and> (\<forall>b. view (boolean b) = S_bool b) \<and>
     (\<forall>i. int64_min \<le> i \<and> i \<le> int64_max \<longrightarrow> view (integer i) = S_int i) \<and>
     (\<forall>d. view (double d) = S_double d) \<and> (\<forall>s. fits s \<longrightarrow> view (str s) = S_string s) \<and>
     view arr = S_array [] \<and> view obj = S_object []"

definition sets :: "(string \<Rightarrow> bool) \<Rightarrow> ('j \<Rightarrow> 'j shape) \<Rightarrow> ('j \<Rightarrow> string \<Rightarrow> 'j \<Rightarrow> 'j) \<Rightarrow> bool" where
  "sets fits view set_member \<longleftrightarrow>
     (\<forall>obj ms key w. view obj = S_object ms \<and> fits key \<longrightarrow>
        (\<exists>ms'. view (set_member obj key w) = S_object ms' \<and>
           (position key ms = None \<longrightarrow> mset ms' = add_mset (key, w) (mset ms))))"

definition pushes :: "('j \<Rightarrow> 'j shape) \<Rightarrow> ('j \<Rightarrow> 'j \<Rightarrow> 'j) \<Rightarrow> bool" where
  "pushes view push \<longleftrightarrow> (\<forall>arr vs w. view arr = S_array vs \<longrightarrow> view (push arr w) = S_array (vs @ [w]))"

text \<open>
  A codec that presents the values of a library, as \<open>view\<close> shows them, for the strings and the names
  that fit.
\<close>

definition presents :: "'j codec \<Rightarrow> (string \<Rightarrow> bool) \<Rightarrow> ('j \<Rightarrow> 'j shape) \<Rightarrow> (int \<Rightarrow> u64) \<Rightarrow> bool" where
  "presents C fits view conv \<longleftrightarrow>
     (\<forall>v. c_kind_of C v = shape_kind (view v) \<and> c_as_bool C v = shape_bool (view v) \<and>
        c_as_int C v = shape_int (view v) \<and> c_as_double C v = shape_double conv (view v) \<and>
        c_as_string C v = shape_string (view v) \<and> c_copy C v = v) \<and>
     (\<forall>v. case view v of
        S_object ms \<Rightarrow> c_members C v = ms \<and> (\<forall>key. fits key \<longrightarrow> c_find C v key = position key ms) \<and>
          (\<forall>key i. fits key \<and> position key ms = Some i \<longrightarrow> c_extract C v key = snd (ms ! i))
      | S_array vs \<Rightarrow> c_elements C v = vs \<and> c_size_of C v = length vs \<and> (\<forall>key. c_find C v key = None)
      | _ \<Rightarrow> \<forall>key. c_find C v key = None) \<and>
     makes fits view (c_make_null C) (c_make_bool C) (c_make_int C) (c_make_double C) (c_make_string C)
       (c_make_array C) (c_make_object C) \<and>
     sets fits view (c_set C) \<and> pushes view (c_push C) \<and> codec_adopts C"

text \<open>
  The laws that the SDK relies on for values, for the strings and the names that fit: those of
  \<open>codec_scalars\<close>, \<open>codec_adopts\<close>, \<open>codec_objects\<close>, \<open>codec_lookup\<close>, \<open>codec_finds\<close>, \<open>codec_containers\<close> and
  \<open>codec_doubles\<close>, in this order.
\<close>

definition scalars_on :: "(string \<Rightarrow> bool) \<Rightarrow> 'j codec \<Rightarrow> bool" where
  "scalars_on fits C \<longleftrightarrow>
     (\<forall>b. c_kind_of C (c_make_bool C b) = K_boolean \<and> c_as_bool C (c_make_bool C b) = Inr b) \<and>
     (\<forall>i. int64_min \<le> i \<and> i \<le> int64_max \<longrightarrow>
        c_kind_of C (c_make_int C i) = K_integer \<and> c_as_int C (c_make_int C i) = Inr i) \<and>
     (\<forall>s. fits s \<longrightarrow> c_kind_of C (c_make_string C s) = K_string \<and> c_as_string C (c_make_string C s) = Inr s) \<and>
     (\<forall>v. c_kind_of C v = K_string \<longrightarrow> is_ok (c_as_string C v)) \<and> codec_adopts C"

definition objects_on :: "(string \<Rightarrow> bool) \<Rightarrow> 'j codec \<Rightarrow> bool" where
  "objects_on fits C \<longleftrightarrow>
     c_kind_of C (c_make_object C) = K_object \<and> c_members C (c_make_object C) = [] \<and>
     (\<forall>obj name v. c_kind_of C obj = K_object \<and> fits name \<longrightarrow>
        c_kind_of C (c_set C obj name v) = K_object \<and>
        (name \<notin> fst ` set (c_members C obj) \<longrightarrow>
           mset (c_members C (c_set C obj name v)) = add_mset (name, v) (mset (c_members C obj))))"

definition lookup_on :: "(string \<Rightarrow> bool) \<Rightarrow> 'j codec \<Rightarrow> bool" where
  "lookup_on fits C \<longleftrightarrow>
     (\<forall>obj name i. fits name \<and> c_find C obj name = Some i \<longrightarrow>
        i < length (c_members C obj) \<and> fst (c_members C obj ! i) = name \<and>
        c_extract C obj name = snd (c_members C obj ! i)) \<and>
     (\<forall>v. c_copy C v = v) \<and>
     (\<forall>obj name. c_kind_of C obj = K_object \<and> fits name \<longrightarrow>
        map_option (\<lambda>i. snd (c_members C obj ! i)) (c_find C obj name) = map_of (c_members C obj) name)"

definition containers_on :: "(string \<Rightarrow> bool) \<Rightarrow> 'j codec \<Rightarrow> bool" where
  "containers_on fits C \<longleftrightarrow>
     c_kind_of C (c_make_null C) = K_null \<and>
     c_kind_of C (c_make_array C) = K_array \<and> c_elements C (c_make_array C) = [] \<and>
     (\<forall>array v. c_kind_of C array = K_array \<longrightarrow>
        c_kind_of C (c_push C array v) = K_array \<and> c_elements C (c_push C array v) = c_elements C array @ [v]) \<and>
     (\<forall>obj name. c_kind_of C obj = K_object \<and> fits name \<and> c_find C obj name = None \<longrightarrow>
        name \<notin> fst ` set (c_members C obj)) \<and>
     codec_doubles C"

definition laws_on :: "(string \<Rightarrow> bool) \<Rightarrow> 'j codec \<Rightarrow> bool" where
  "laws_on fits C \<longleftrightarrow> scalars_on fits C \<and> objects_on fits C \<and> lookup_on fits C \<and> containers_on fits C"

text \<open>Where every string fits, these are the laws as \<open>Json_Codec\<close> and \<open>Describe_Json\<close> have them.\<close>

lemma laws_on_all:
  assumes "laws_on fits C" "\<And>s. fits s"
  shows "codec_scalars C \<and> codec_objects C \<and> codec_lookup C \<and> codec_finds C \<and> codec_adopts C \<and>
    codec_containers C \<and> codec_doubles C"
proof -
  note on = assms(1) [unfolded laws_on_def]
  have s: "scalars_on fits C" and o: "objects_on fits C" and l: "lookup_on fits C" and c: "containers_on fits C" using on by auto
  have "codec_scalars C"
    using s by (simp add: scalars_on_def codec_scalars_def codec_adopts_def assms(2) split: option.splits)
  moreover have "codec_objects C" using o by (simp add: objects_on_def codec_objects_def assms(2))
  moreover have "codec_lookup C \<and> codec_finds C"
    using l by (simp add: lookup_on_def codec_lookup_def codec_finds_def assms(2))
  moreover have "codec_containers C \<and> codec_doubles C" using c by (simp add: containers_on_def codec_containers_def assms(2))
  ultimately show ?thesis using s by (simp add: scalars_on_def)
qed


section \<open>What a presenting codec keeps\<close>

lemma position_Some: "position key ms = Some i \<Longrightarrow> i < length ms \<and> fst (ms ! i) = key \<and> map_of ms key = Some (snd (ms ! i))"
  by (induction key ms arbitrary: i rule: position.induct) (auto split: if_splits)

lemma position_None: "position key ms = None \<longleftrightarrow> map_of ms key = None"
  by (induction key ms rule: position.induct) auto

lemma object_shape: "shape_kind s = K_object \<longleftrightarrow> (\<exists>ms. s = S_object ms)"
  by (cases s) auto

lemma array_shape: "shape_kind s = K_array \<longleftrightarrow> (\<exists>vs. s = S_array vs)"
  by (cases s) auto

lemma string_shape: "shape_kind s = K_string \<longleftrightarrow> (\<exists>t. s = S_string t)"
  by (cases s) auto

lemma presents_find:
  assumes "presents C fits view conv" "fits key" "c_find C v key = Some i"
  shows "\<exists>ms. view v = S_object ms \<and> c_members C v = ms \<and> position key ms = Some i \<and> c_extract C v key = snd (ms ! i)"
proof -
  have "case view v of
      S_object ms \<Rightarrow> c_members C v = ms \<and> (\<forall>key. fits key \<longrightarrow> c_find C v key = position key ms) \<and>
        (\<forall>key i. fits key \<and> position key ms = Some i \<longrightarrow> c_extract C v key = snd (ms ! i))
    | S_array vs \<Rightarrow> c_elements C v = vs \<and> c_size_of C v = length vs \<and> (\<forall>key. c_find C v key = None)
    | _ \<Rightarrow> \<forall>key. c_find C v key = None"
    using assms(1) by (simp add: presents_def)
  with assms(2,3) show ?thesis by (auto split: shape.splits)
qed

lemma presents_members:
  "presents C fits view conv \<Longrightarrow> view v = S_object ms \<Longrightarrow>
     c_members C v = ms \<and> (\<forall>key. fits key \<longrightarrow> c_find C v key = position key ms)"
  by (auto simp: presents_def split: shape.splits dest!: spec [of _ v])

lemma presents_elements: "presents C fits view conv \<Longrightarrow> view v = S_array vs \<Longrightarrow> c_elements C v = vs"
  by (auto simp: presents_def split: shape.splits dest!: spec [of _ v])

lemma presents_kind: "presents C fits view conv \<Longrightarrow> c_kind_of C v = shape_kind (view v)"
  by (simp add: presents_def)

lemma presents_scalars: "presents C fits view conv \<Longrightarrow> scalars_on fits C"
  by (auto simp: presents_def scalars_on_def makes_def shape_bool_def shape_int_def shape_string_def string_shape)

lemma presents_objects:
  assumes "presents C fits view conv"
  shows "objects_on fits C"
proof -
  note k = presents_kind [OF assms]
  have m: "view (c_make_object C) = S_object []" and w: "sets fits view (c_set C)"
    using assms by (simp_all add: presents_def makes_def)
  have "c_kind_of C (c_set C obj name v) = K_object \<and>
      (name \<notin> fst ` set (c_members C obj) \<longrightarrow> mset (c_members C (c_set C obj name v)) = add_mset (name, v) (mset (c_members C obj)))"
    if object: "c_kind_of C obj = K_object" and fit: "fits name" for obj name v
  proof -
    from object obtain ms where ms: "view obj = S_object ms" by (auto simp: k object_shape)
    then obtain ms' where "view (c_set C obj name v) = S_object ms'"
      "position name ms = None \<longrightarrow> mset ms' = add_mset (name, v) (mset ms)"
      using w fit unfolding sets_def by blast
    then show ?thesis
      using presents_members [OF assms] ms by (simp add: k position_None map_of_eq_None_iff)
  qed
  then show ?thesis using presents_members [OF assms m] by (auto simp: objects_on_def k m)
qed

lemma presents_lookup:
  assumes "presents C fits view conv"
  shows "lookup_on fits C"
proof -
  have "map_option (\<lambda>i. snd (c_members C obj ! i)) (c_find C obj name) = map_of (c_members C obj) name"
    if "c_kind_of C obj = K_object" "fits name" for obj name
  proof -
    from that(1) obtain ms where "view obj = S_object ms" by (auto simp: presents_kind [OF assms] object_shape)
    note m = presents_members [OF assms this]
    show ?thesis
    proof (cases "position name ms")
      case None
      with m that(2) show ?thesis by (simp add: position_None)
    next
      case (Some i)
      with m that(2) position_Some [OF Some] show ?thesis by simp
    qed
  qed
  moreover have "i < length (c_members C obj) \<and> fst (c_members C obj ! i) = name \<and>
      c_extract C obj name = snd (c_members C obj ! i)" if "fits name" "c_find C obj name = Some i" for obj name i
    using presents_find [OF assms that] position_Some by fastforce
  moreover have "c_copy C v = v" for v using assms by (simp add: presents_def)
  ultimately show ?thesis unfolding lookup_on_def by blast
qed

lemma presents_containers:
  assumes "presents C fits view conv"
  shows "containers_on fits C"
proof -
  note k = presents_kind [OF assms]
  have m: "view (c_make_null C) = S_null" "view (c_make_array C) = S_array []" "\<And>d. view (c_make_double C d) = S_double d"
    using assms by (simp_all add: presents_def makes_def)
  have p: "view (c_push C arr w) = S_array (vs @ [w])" if "view arr = S_array vs" for arr vs w
    using assms that by (simp add: presents_def pushes_def)
  have f: "name \<notin> fst ` set (c_members C obj)"
    if "shape_kind (view obj) = K_object" "fits name" "c_find C obj name = None" for obj name
  proof -
    from that obtain ms where "view obj = S_object ms" by (auto simp: object_shape)
    with presents_members [OF assms this] that show ?thesis by (simp add: position_None map_of_eq_None_iff)
  qed
  have a: "c_kind_of C (c_push C arr v) = K_array \<and> c_elements C (c_push C arr v) = c_elements C arr @ [v]"
    if "shape_kind (view arr) = K_array" for arr v
  proof -
    from that obtain vs where "view arr = S_array vs" by (auto simp: array_shape)
    with presents_elements [OF assms this] presents_elements [OF assms p [OF this]] p [OF this]
    show ?thesis by (simp add: k)
  qed
  have "codec_doubles C" using assms m(3) by (simp add: codec_doubles_def presents_def shape_double_def)
  then show ?thesis using f a presents_elements [OF assms m(2)] by (simp add: containers_on_def k m)
qed

lemma presents_laws: "presents C fits view conv \<Longrightarrow> laws_on fits C"
  by (simp add: laws_on_def presents_scalars presents_objects presents_lookup presents_containers)


section \<open>The documented behaviour of the libraries\<close>

text \<open>
  A library's type tests answer by the shape of the value; an accessor whose test holds returns what
  the value holds, and a number as a \<open>double\<close> is the conversion \<open>conv\<close>.
\<close>

fun is_unsigned :: "'j shape \<Rightarrow> bool" where
  "is_unsigned (S_uint _) = True"
| "is_unsigned _ = False"

definition is_number :: "'j shape \<Rightarrow> bool" where
  "is_number s \<longleftrightarrow> shape_kind s = K_integer \<or> shape_kind s = K_floating"

definition nlohmann_documented :: "'j nlohmann \<Rightarrow> ('j \<Rightarrow> 'j shape) \<Rightarrow> (int \<Rightarrow> u64) \<Rightarrow> bool" where
  "nlohmann_documented A view conv \<longleftrightarrow>
     (\<forall>v. nj_is_null A v = (shape_kind (view v) = K_null) \<and> nj_is_boolean A v = (shape_kind (view v) = K_boolean) \<and>
        nj_is_number_integer A v = (shape_kind (view v) = K_integer) \<and> nj_is_number_unsigned A v = is_unsigned (view v) \<and>
        nj_is_number_float A v = (shape_kind (view v) = K_floating) \<and> nj_is_number A v = is_number (view v) \<and>
        nj_is_string A v = (shape_kind (view v) = K_string) \<and> nj_is_array A v = (shape_kind (view v) = K_array) \<and>
        nj_is_object A v = (shape_kind (view v) = K_object)) \<and>
     (\<forall>v. case view v of
        S_null \<Rightarrow> True
      | S_bool b \<Rightarrow> nj_get_bool A v = b
      | S_int i \<Rightarrow> nj_get_int64 A v = i \<and> nj_get_double A v = conv i
      | S_uint n \<Rightarrow> nj_get_uint64 A v = n \<and> nj_get_double A v = conv n
      | S_double d \<Rightarrow> nj_get_double A v = d
      | S_string t \<Rightarrow> nj_get_string A v = t
      | S_array vs \<Rightarrow> nj_elements A v = vs \<and> nj_size A v = length vs
      | S_object ms \<Rightarrow> nj_items A v = ms \<and> (\<forall>key. nj_find A v key = position key ms) \<and>
          (\<forall>i < length ms. nj_at A v i = snd (ms ! i))) \<and>
     makes (\<lambda>_. True) view (nj_null A) (nj_of_bool A) (nj_of_int64 A) (nj_of_double A) (nj_of_string A) (nj_array A) (nj_object A) \<and>
     sets (\<lambda>_. True) view (nj_assign A) \<and> pushes view (nj_push_back A)"

definition boost_documented :: "'j boost_json \<Rightarrow> ('j \<Rightarrow> 'j shape) \<Rightarrow> (int \<Rightarrow> u64) \<Rightarrow> bool" where
  "boost_documented A view conv \<longleftrightarrow>
     (\<forall>v. bj_is_bool A v = (shape_kind (view v) = K_boolean) \<and>
        bj_is_int64 A v = (shape_kind (view v) = K_integer \<and> \<not> is_unsigned (view v)) \<and>
        bj_is_uint64 A v = is_unsigned (view v) \<and> bj_is_number A v = is_number (view v) \<and>
        bj_is_string A v = (shape_kind (view v) = K_string) \<and> bj_is_array A v = (shape_kind (view v) = K_array) \<and>
        bj_is_object A v = (shape_kind (view v) = K_object)) \<and>
     (\<forall>v. case view v of
        S_null \<Rightarrow> bj_kind_of A v = BJ_null
      | S_bool b \<Rightarrow> bj_kind_of A v = BJ_bool \<and> bj_get_bool A v = b
      | S_int i \<Rightarrow> bj_kind_of A v = BJ_int64 \<and> bj_get_int64 A v = i \<and> bj_to_double A v = conv i
      | S_uint n \<Rightarrow> bj_kind_of A v = BJ_uint64 \<and> bj_get_uint64 A v = n \<and> bj_to_double A v = conv n
      | S_double d \<Rightarrow> bj_kind_of A v = BJ_double \<and> bj_to_double A v = d
      | S_string t \<Rightarrow> bj_kind_of A v = BJ_string \<and> bj_get_string A v = t
      | S_array vs \<Rightarrow> bj_kind_of A v = BJ_array \<and> bj_elements A v = vs \<and> bj_array_size A v = length vs
      | S_object ms \<Rightarrow> bj_kind_of A v = BJ_object \<and> bj_entries A v = ms \<and>
          (\<forall>key. bj_if_contains A v key = position key ms) \<and> (\<forall>i < length ms. bj_at A v i = snd (ms ! i))) \<and>
     makes (\<lambda>_. True) view (bj_null A) (bj_of_bool A) (bj_of_int64 A) (bj_of_double A) (bj_of_string A) (bj_array A) (bj_object A) \<and>
     sets (\<lambda>_. True) view (bj_insert_or_assign A) \<and> pushes view (bj_push_back A)"

text \<open>
  RapidJSON marks a number that fits both as \<open>Int64\<close> and as \<open>Uint64\<close>. \<open>AddMember\<close> appends without a
  look at the names that are there, and a member's value is assigned in place.
\<close>

fun rj_shape_type :: "'j shape \<Rightarrow> rj_type" where
  "rj_shape_type S_null = RJ_null"
| "rj_shape_type (S_bool b) = (if b then RJ_true else RJ_false)"
| "rj_shape_type (S_string _) = RJ_string"
| "rj_shape_type (S_array _) = RJ_array"
| "rj_shape_type (S_object _) = RJ_object"
| "rj_shape_type _ = RJ_number"

definition rapidjson_documented :: "'j rapidjson \<Rightarrow> ('j \<Rightarrow> 'j shape) \<Rightarrow> (int \<Rightarrow> u64) \<Rightarrow> bool" where
  "rapidjson_documented A view conv \<longleftrightarrow>
     (\<forall>v. rj_get_type A v = rj_shape_type (view v) \<and> rj_is_bool A v = (shape_kind (view v) = K_boolean) \<and>
        rj_is_int64 A v = (case view v of S_int _ \<Rightarrow> True | S_uint n \<Rightarrow> n \<le> int64_max | _ \<Rightarrow> False) \<and>
        rj_is_uint64 A v = (case view v of S_int i \<Rightarrow> 0 \<le> i | S_uint _ \<Rightarrow> True | _ \<Rightarrow> False) \<and>
        rj_is_number A v = is_number (view v) \<and>
        rj_is_string A v = (shape_kind (view v) = K_string) \<and> rj_is_array A v = (shape_kind (view v) = K_array) \<and>
        rj_is_object A v = (shape_kind (view v) = K_object) \<and> rj_copy A v = v) \<and>
     (\<forall>v. case view v of
        S_null \<Rightarrow> True
      | S_bool b \<Rightarrow> rj_get_bool A v = b
      | S_int i \<Rightarrow> rj_get_int64 A v = i \<and> rj_get_double A v = conv i
      | S_uint n \<Rightarrow> (if n \<le> int64_max then rj_get_int64 A v = n else True) \<and> rj_get_double A v = conv n
      | S_double d \<Rightarrow> rj_get_double A v = d
      | S_string t \<Rightarrow> rj_get_string A v = t
      | S_array vs \<Rightarrow> rj_elements A v = vs \<and> rj_size A v = length vs
      | S_object ms \<Rightarrow> rj_members A v = ms \<and> (\<forall>key. rj_find_member A v key = position key ms) \<and>
          (\<forall>i < length ms. rj_at A v i = snd (ms ! i) \<and>
             (\<forall>w. view (rj_put_at A v i w) = S_object (ms[i := (fst (ms ! i), w)]))) \<and>
          (\<forall>key w. view (rj_add_member A v key w) = S_object (ms @ [(key, w)]))) \<and>
     makes (\<lambda>_. True) view (rj_null A) (rj_of_bool A) (rj_of_int64 A) (rj_of_double A) (rj_of_chars A) (rj_array A) (rj_object A) \<and>
     pushes view (rj_push_back A)"

text \<open>
  The strings whose length is kept by the cast to \<open>SizeType\<close>. The type has 32 bits unless an
  application configures another.
\<close>

definition rapidjson_fits :: "'j rapidjson \<Rightarrow> string \<Rightarrow> bool" where
  "rapidjson_fits A s \<longleftrightarrow> rj_size_cast A (length s) = length s"

lemma rapidjson_fits_default:
  "\<forall>n. rj_size_cast A n = n mod 2 ^ 32 \<Longrightarrow> rapidjson_fits A s \<longleftrightarrow> length s < 2 ^ 32"
  by (simp add: rapidjson_fits_def) (metis mod_less mod_less_divisor zero_less_numeral)


section \<open>Each adapter presents its library\<close>

lemma nlohmann_presents:
  assumes d: "nlohmann_documented A view conv"
  shows "presents (nlohmann_codec A) (\<lambda>_. True) view conv"
proof -
  have v: "(nlohmann_kind_of A v = shape_kind (view v) \<and> nlohmann_as_bool A v = shape_bool (view v) \<and>
        nlohmann_as_int A v = shape_int (view v) \<and> nlohmann_as_double A v = shape_double conv (view v) \<and>
        nlohmann_as_string A v = shape_string (view v)) \<and>
     (case view v of
        S_object ms \<Rightarrow> nj_items A v = ms \<and> (\<forall>key. nlohmann_find A v key = position key ms) \<and>
          (\<forall>key i. position key ms = Some i \<longrightarrow> nlohmann_extract A v key = snd (ms ! i))
      | S_array vs \<Rightarrow> nj_elements A v = vs \<and> nj_size A v = length vs \<and> (\<forall>key. nlohmann_find A v key = None)
      | _ \<Rightarrow> \<forall>key. nlohmann_find A v key = None)" for v
    using d [unfolded nlohmann_documented_def, THEN conjunct1, rule_format, of v]
      d [unfolded nlohmann_documented_def, THEN conjunct2, THEN conjunct1, rule_format, of v]
    by (cases "view v")
      (auto simp: nlohmann_kind_of_def nlohmann_as_bool_def nlohmann_as_int_def nlohmann_as_double_def
        nlohmann_as_string_def nlohmann_find_def nlohmann_extract_def shape_bool_def shape_int_def
        shape_double_def shape_string_def is_number_def dest: position_Some split: option.splits)
  show ?thesis
    unfolding presents_def nlohmann_codec_def codec.select_convs simp_thms
    using v d by (simp add: codec_adopts_def nlohmann_documented_def)
qed

lemma boost_presents:
  assumes d: "boost_documented A view conv"
  shows "presents (boost_json_codec A) (\<lambda>_. True) view conv"
proof -
  have v: "(boost_kind_of A v = shape_kind (view v) \<and> boost_as_bool A v = shape_bool (view v) \<and>
        boost_as_int A v = shape_int (view v) \<and> boost_as_double A v = shape_double conv (view v) \<and>
        boost_as_string A v = shape_string (view v)) \<and>
     (case view v of
        S_object ms \<Rightarrow> boost_members A v = ms \<and> (\<forall>key. boost_find A v key = position key ms) \<and>
          (\<forall>key i. position key ms = Some i \<longrightarrow> boost_extract A v key = snd (ms ! i))
      | S_array vs \<Rightarrow> boost_elements A v = vs \<and> boost_size_of A v = length vs \<and> (\<forall>key. boost_find A v key = None)
      | _ \<Rightarrow> \<forall>key. boost_find A v key = None)" for v
    using d [unfolded boost_documented_def, THEN conjunct1, rule_format, of v]
      d [unfolded boost_documented_def, THEN conjunct2, THEN conjunct1, rule_format, of v]
    by (cases "view v")
      (auto simp: boost_kind_of_def boost_as_bool_def boost_as_int_def boost_as_double_def
        boost_as_string_def boost_find_def boost_extract_def boost_members_def boost_elements_def boost_size_of_def
        shape_bool_def shape_int_def shape_double_def shape_string_def is_number_def
        dest: position_Some split: option.splits)
  show ?thesis
    unfolding presents_def boost_json_codec_def codec.select_convs simp_thms
    using v d by (simp add: codec_adopts_def boost_documented_def)
qed

lemma rapidjson_presents:
  assumes d: "rapidjson_documented A view conv"
  shows "presents (rapidjson_codec A) (rapidjson_fits A) view conv"
proof -
  have chars: "rapidjson_chars A t = t" if "rapidjson_fits A t" for t
    using that by (simp add: rapidjson_chars_def rapidjson_fits_def)
  note tests = d [unfolded rapidjson_documented_def, THEN conjunct1, rule_format]
  note holds = d [unfolded rapidjson_documented_def, THEN conjunct2, THEN conjunct1, rule_format]
  have v: "(rapidjson_kind_of A v = shape_kind (view v) \<and> rapidjson_as_bool A v = shape_bool (view v) \<and>
        rapidjson_as_int A v = shape_int (view v) \<and> rapidjson_as_double A v = shape_double conv (view v) \<and>
        rapidjson_as_string A v = shape_string (view v) \<and> rj_copy A v = v) \<and>
     (case view v of
        S_object ms \<Rightarrow> rapidjson_members A v = ms \<and> (\<forall>key. rapidjson_fits A key \<longrightarrow> rapidjson_find A v key = position key ms) \<and>
          (\<forall>key i. rapidjson_fits A key \<and> position key ms = Some i \<longrightarrow> rapidjson_extract A v key = snd (ms ! i))
      | S_array vs \<Rightarrow> rapidjson_elements A v = vs \<and> rapidjson_size_of A v = length vs \<and> (\<forall>key. rapidjson_find A v key = None)
      | _ \<Rightarrow> \<forall>key. rapidjson_find A v key = None)" for v
    using tests [of v] holds [of v]
    by (cases "view v")
      (auto simp: rapidjson_kind_of_def rapidjson_as_bool_def rapidjson_as_int_def rapidjson_as_double_def
        rapidjson_as_string_def rapidjson_find_def rapidjson_extract_def rapidjson_members_def
        rapidjson_elements_def rapidjson_size_of_def chars shape_bool_def shape_int_def
        shape_double_def shape_string_def is_number_def dest: position_Some split: option.splits if_splits)
  have "sets (rapidjson_fits A) view (rapidjson_set A)"
    unfolding sets_def
  proof (intro allI impI, elim conjE)
    fix obj ms key w
    assume ms: "view obj = S_object ms" and key: "rapidjson_fits A key"
    show "\<exists>ms'. view (rapidjson_set A obj key w) = S_object ms' \<and>
        (position key ms = None \<longrightarrow> mset ms' = add_mset (key, w) (mset ms))"
      using holds [of obj] position_Some [of key ms] unfolding ms
      by (cases "position key ms") (simp_all add: rapidjson_set_def chars [OF key])
  qed
  moreover have "\<forall>s. rapidjson_fits A s \<longrightarrow> rapidjson_make_string A s = rj_of_chars A s"
    by (simp add: rapidjson_make_string_def chars)
  ultimately show ?thesis
    unfolding presents_def rapidjson_codec_def codec.select_convs
    using v d by (simp add: codec_adopts_def rapidjson_documented_def makes_def)
qed

end
