(* ===== verification/Shipped_Codecs.thy ===== *)
theory Shipped_Codecs
  imports Codec_Laws
begin

text \<open>
  The codecs that the SDK ships keep the laws that the format code relies on for values, for every
  library that behaves as documented; and what RapidJSON's 32-bit sizes cost. A library whose values are trees of
  shapes shows that each documented behaviour can hold.
\<close>

section \<open>The three codecs\<close>




text \<open>
  What a client of a codec may rely on. The laws hold for every codec that presents the values of its
  library, and each library that behaves as documented gives such a codec.
\<close>

locale codec_contract =
  fixes C :: "'j codec" and fits :: "string \<Rightarrow> bool" and view :: "'j \<Rightarrow> 'j shape" and conv :: "int \<Rightarrow> u64"
  assumes presented: "presents C fits view conv"
begin

lemma laws: "laws_on fits C"
  by (rule presents_laws [OF presented])

text \<open>An integer is refused exactly when it does not fit, whichever library read it.\<close>

lemma as_int:
  "c_as_int C v =
    (case view v of S_int i \<Rightarrow> Inr i
     | S_uint n \<Rightarrow> if n > int64_max then fail out_of_range ''JSON integer too large for int64'' '''' else Inr n
     | _ \<Rightarrow> fail type_mismatch ''not a JSON integer'' '''')"
  using presented unfolding presents_def shape_int_def by blast

end

locale nlohmann_library =
  fixes A :: "'j nlohmann" and view :: "'j \<Rightarrow> 'j shape" and conv :: "int \<Rightarrow> u64"
  assumes documented: "nlohmann_documented A view conv"

sublocale nlohmann_library \<subseteq> adapter: codec_contract "nlohmann_codec A" "\<lambda>_. True" view conv
  by unfold_locales (rule nlohmann_presents [OF documented])

locale rapidjson_library =
  fixes A :: "'j rapidjson" and view :: "'j \<Rightarrow> 'j shape" and conv :: "int \<Rightarrow> u64"
  assumes documented: "rapidjson_documented A view conv"

sublocale rapidjson_library \<subseteq> adapter: codec_contract "rapidjson_codec A" "rapidjson_fits A" view conv
  by unfold_locales (rule rapidjson_presents [OF documented])

locale boost_library =
  fixes A :: "'j boost_json" and view :: "'j \<Rightarrow> 'j shape" and conv :: "int \<Rightarrow> u64"
  assumes documented: "boost_documented A view conv"

sublocale boost_library \<subseteq> adapter: codec_contract "boost_json_codec A" "\<lambda>_. True" view conv
  by unfold_locales (rule boost_presents [OF documented])



section \<open>Sizes of 32 bits\<close>

lemma rapidjson_strings:
  assumes d: "rapidjson_documented A view conv"
  shows "rapidjson_as_string A (rapidjson_make_string A s) = Inr (take (rj_size_cast A (length s)) s)"
proof -
  let ?v = "rj_of_chars A (take (rj_size_cast A (length s)) s)"
  have v: "view ?v = S_string (take (rj_size_cast A (length s)) s)"
    using d by (simp add: rapidjson_documented_def makes_def)
  have "rj_is_string A ?v"
    using d [unfolded rapidjson_documented_def, THEN conjunct1, rule_format, of ?v] v by simp
  moreover have "rj_get_string A ?v = take (rj_size_cast A (length s)) s"
    using d [unfolded rapidjson_documented_def, THEN conjunct2, THEN conjunct1, rule_format, of ?v] v by simp
  ultimately show ?thesis by (simp add: rapidjson_as_string_def rapidjson_make_string_def rapidjson_chars_def)
qed

lemma rapidjson_truncates:
  assumes d: "rapidjson_documented A view conv" and cast: "\<forall>n. rj_size_cast A n = n mod 2 ^ 32"
  shows "\<not> codec_scalars (rapidjson_codec A)"
proof
  obtain s :: string where s: "length s = 2 ^ 32" using Ex_list_of_length by blast
  assume "codec_scalars (rapidjson_codec A)"
  then have "rapidjson_as_string A (rapidjson_make_string A s) = Inr s"
    by (simp add: codec_scalars_def rapidjson_codec_def)
  with s show False using cast by (simp add: rapidjson_strings [OF d])
qed


section \<open>A library of trees\<close>

datatype tree = Tree (shape_of: "tree shape")

text \<open>What the three libraries share, on trees.\<close>

definition as_object :: "tree \<Rightarrow> (string \<times> tree) list" where
  "as_object t = (case shape_of t of S_object ms \<Rightarrow> ms | _ \<Rightarrow> [])"

definition as_array :: "tree \<Rightarrow> tree list" where
  "as_array t = (case shape_of t of S_array vs \<Rightarrow> vs | _ \<Rightarrow> [])"

definition held_bool :: "tree \<Rightarrow> bool" where
  "held_bool t = (case shape_of t of S_bool b \<Rightarrow> b | _ \<Rightarrow> False)"

definition held_int :: "tree \<Rightarrow> int" where
  "held_int t = (case shape_of t of S_int i \<Rightarrow> i | S_uint n \<Rightarrow> n | _ \<Rightarrow> 0)"

definition held_double :: "tree \<Rightarrow> u64" where
  "held_double t = (case shape_of t of S_double d \<Rightarrow> d | S_int i \<Rightarrow> word_of_int i | S_uint n \<Rightarrow> word_of_int n | _ \<Rightarrow> 0)"

definition held_string :: "tree \<Rightarrow> string" where
  "held_string t = (case shape_of t of S_string s \<Rightarrow> s | _ \<Rightarrow> [])"

definition tree_find :: "tree \<Rightarrow> string \<Rightarrow> nat option" where
  "tree_find t key = position key (as_object t)"

definition tree_at :: "tree \<Rightarrow> nat \<Rightarrow> tree" where
  "tree_at t i = snd (as_object t ! i)"

definition tree_put :: "tree \<Rightarrow> nat \<Rightarrow> tree \<Rightarrow> tree" where
  "tree_put t i w = Tree (S_object ((as_object t)[i := (fst (as_object t ! i), w)]))"

definition tree_add :: "tree \<Rightarrow> string \<Rightarrow> tree \<Rightarrow> tree" where
  "tree_add t key w = Tree (S_object (as_object t @ [(key, w)]))"

definition tree_assign :: "tree \<Rightarrow> string \<Rightarrow> tree \<Rightarrow> tree" where
  "tree_assign t key w = (case tree_find t key of Some i \<Rightarrow> tree_put t i w | None \<Rightarrow> tree_add t key w)"

definition tree_push :: "tree \<Rightarrow> tree \<Rightarrow> tree" where
  "tree_push t w = Tree (S_array (as_array t @ [w]))"

definition tree_size :: "tree \<Rightarrow> nat" where
  "tree_size t = length (as_array t) + length (as_object t)"

definition tree_is :: "kind \<Rightarrow> tree \<Rightarrow> bool" where
  "tree_is k t \<longleftrightarrow> shape_kind (shape_of t) = k"

lemmas tree_defs = as_object_def as_array_def held_bool_def held_int_def held_double_def held_string_def
  tree_find_def tree_at_def tree_put_def tree_add_def tree_push_def tree_size_def tree_is_def

lemma tree_makes:
  "makes (\<lambda>_. True) shape_of (Tree S_null) (Tree \<circ> S_bool) (Tree \<circ> S_int) (Tree \<circ> S_double) (Tree \<circ> S_string)
     (Tree (S_array [])) (Tree (S_object []))"
  by (simp add: makes_def)

lemma tree_sets: "sets (\<lambda>_. True) shape_of tree_assign"
  by (auto simp: sets_def tree_assign_def tree_defs split: option.splits)

lemma tree_pushes: "pushes shape_of tree_push"
  by (simp add: pushes_def tree_defs)

definition tree_nlohmann :: "tree nlohmann" where
  "tree_nlohmann = \<lparr>
     nj_parse = (\<lambda>_. None), nj_dump = (\<lambda>_. Some []),
     nj_null = Tree S_null, nj_of_bool = Tree \<circ> S_bool, nj_of_int64 = Tree \<circ> S_int, nj_of_double = Tree \<circ> S_double,
     nj_of_string = Tree \<circ> S_string, nj_array = Tree (S_array []), nj_object = Tree (S_object []),
     nj_is_null = tree_is K_null, nj_is_boolean = tree_is K_boolean, nj_is_number_integer = tree_is K_integer,
     nj_is_number_unsigned = is_unsigned \<circ> shape_of, nj_is_number_float = tree_is K_floating,
     nj_is_number = is_number \<circ> shape_of, nj_is_string = tree_is K_string, nj_is_array = tree_is K_array,
     nj_is_object = tree_is K_object,
     nj_get_bool = held_bool, nj_get_uint64 = held_int, nj_get_int64 = held_int, nj_get_double = held_double,
     nj_get_string = held_string, nj_find = tree_find, nj_at = tree_at, nj_assign = tree_assign,
     nj_push_back = tree_push, nj_size = tree_size, nj_items = as_object, nj_elements = as_array, nj_equal = (=)\<rparr>"

definition tree_rapidjson :: "(nat \<Rightarrow> nat) \<Rightarrow> tree rapidjson" where
  "tree_rapidjson cast = \<lparr>
     rj_parse = (\<lambda>_. Inl ''The document is empty.''), rj_dump = (\<lambda>_. []), rj_size_cast = cast,
     rj_null = Tree S_null, rj_of_bool = Tree \<circ> S_bool, rj_of_int64 = Tree \<circ> S_int, rj_of_double = Tree \<circ> S_double,
     rj_of_chars = Tree \<circ> S_string, rj_array = Tree (S_array []), rj_object = Tree (S_object []),
     rj_get_type = rj_shape_type \<circ> shape_of, rj_is_bool = tree_is K_boolean,
     rj_is_int64 = (\<lambda>t. case shape_of t of S_int _ \<Rightarrow> True | S_uint n \<Rightarrow> n \<le> int64_max | _ \<Rightarrow> False),
     rj_is_uint64 = (\<lambda>t. case shape_of t of S_int i \<Rightarrow> 0 \<le> i | S_uint _ \<Rightarrow> True | _ \<Rightarrow> False),
     rj_is_number = is_number \<circ> shape_of, rj_is_string = tree_is K_string, rj_is_array = tree_is K_array,
     rj_is_object = tree_is K_object,
     rj_get_bool = held_bool, rj_get_int64 = held_int, rj_get_double = held_double, rj_get_string = held_string,
     rj_find_member = tree_find, rj_at = tree_at, rj_put_at = tree_put, rj_add_member = tree_add,
     rj_push_back = tree_push, rj_size = tree_size, rj_member_count = tree_size, rj_members = as_object,
     rj_elements = as_array, rj_equal = (=), rj_copy = (\<lambda>t. t)\<rparr>"

definition tree_boost_kind :: "tree \<Rightarrow> bj_kind" where
  "tree_boost_kind t =
     (case shape_of t of S_null \<Rightarrow> BJ_null | S_bool _ \<Rightarrow> BJ_bool | S_int _ \<Rightarrow> BJ_int64 | S_uint _ \<Rightarrow> BJ_uint64
      | S_double _ \<Rightarrow> BJ_double | S_string _ \<Rightarrow> BJ_string | S_array _ \<Rightarrow> BJ_array | S_object _ \<Rightarrow> BJ_object)"

definition tree_boost :: "tree boost_json" where
  "tree_boost = \<lparr>
     bj_parse = (\<lambda>_. Inl ''incomplete JSON''), bj_serialize = (\<lambda>_. []),
     bj_null = Tree S_null, bj_of_bool = Tree \<circ> S_bool, bj_of_int64 = Tree \<circ> S_int, bj_of_double = Tree \<circ> S_double,
     bj_of_string = Tree \<circ> S_string, bj_array = Tree (S_array []), bj_object = Tree (S_object []),
     bj_kind_of = tree_boost_kind, bj_is_bool = tree_is K_boolean,
     bj_is_int64 = (\<lambda>t. tree_is K_integer t \<and> \<not> is_unsigned (shape_of t)), bj_is_uint64 = is_unsigned \<circ> shape_of,
     bj_is_number = is_number \<circ> shape_of, bj_is_string = tree_is K_string, bj_is_array = tree_is K_array,
     bj_is_object = tree_is K_object,
     bj_get_bool = held_bool, bj_get_int64 = held_int, bj_get_uint64 = held_int, bj_to_double = held_double,
     bj_get_string = held_string, bj_if_contains = tree_find, bj_at = tree_at, bj_insert_or_assign = tree_assign,
     bj_push_back = tree_push, bj_array_size = tree_size, bj_object_size = tree_size, bj_entries = as_object,
     bj_elements = as_array, bj_equal = (=)\<rparr>"

lemma tree_nlohmann_documented: "nlohmann_documented tree_nlohmann shape_of word_of_int"
  unfolding nlohmann_documented_def
  using tree_makes tree_sets tree_pushes by (auto simp: tree_nlohmann_def tree_defs split: shape.split)

lemma tree_boost_documented: "boost_documented tree_boost shape_of word_of_int"
  unfolding boost_documented_def
  using tree_makes tree_sets tree_pushes by (auto simp: tree_boost_def tree_boost_kind_def tree_defs split: shape.split)

lemma tree_rapidjson_documented: "rapidjson_documented (tree_rapidjson cast) shape_of word_of_int"
  unfolding rapidjson_documented_def
  using tree_makes tree_pushes by (auto simp: tree_rapidjson_def tree_defs split: shape.split)

text \<open>A \<open>SizeType\<close> of 32 bits.\<close>

abbreviation tree_rapidjson_32 :: "tree rapidjson" where
  "tree_rapidjson_32 \<equiv> tree_rapidjson (\<lambda>n. n mod 2 ^ 32)"


interpretation tree_nj: nlohmann_library tree_nlohmann shape_of word_of_int
  by unfold_locales (rule tree_nlohmann_documented)

interpretation tree_rj: rapidjson_library tree_rapidjson_32 shape_of word_of_int
  by unfold_locales (rule tree_rapidjson_documented)

interpretation tree_bj: boost_library tree_boost shape_of word_of_int
  by unfold_locales (rule tree_boost_documented)

lemma trees_agree:
  "c_as_int (nlohmann_codec tree_nlohmann) v = c_as_int (rapidjson_codec tree_rapidjson_32) v \<and>
   c_as_int (boost_json_codec tree_boost) v = c_as_int (rapidjson_codec tree_rapidjson_32) v"
  by (simp only: tree_nj.adapter.as_int tree_rj.adapter.as_int tree_bj.adapter.as_int simp_thms)


section \<open>The laws\<close>



lemma tree_rapidjson_truncates: "\<not> codec_scalars (rapidjson_codec tree_rapidjson_32)"
  by (rule rapidjson_truncates [OF tree_rapidjson_documented]) (simp add: tree_rapidjson_def)

end
