(* ===== verification/Expected.thy ===== *)
theory Expected
  imports Errors
begin

text \<open>
  \<open>include/cloudevents/detail/expected_polyfill.hpp\<close>: \<open>expected<T, E>\<close>, the type of a result where the
  standard library has none. An object is a flag and a union whose alternatives the class constructs
  and destroys by hand. A slot holds what is alive in the union; to read or destroy what is not
  alive, or to construct over what is, is \<open>Misuse\<close>. The models elsewhere take a result for the sum of
  its error and its value: here that is shown of every program over the class.
\<close>

section \<open>Objects and outcomes\<close>

record ('v, 'e) expected =
  holds_value :: bool
  value_slot :: "'v option"
  error_slot :: "'e option"

text \<open>
  An operation ends, lets an exception of a copy constructor through, calls \<open>std::abort\<close>, or misuses
  the union. \<open>Thrown\<close> holds what the operation leaves.
\<close>

datatype 'a outcome = Done 'a | Thrown 'a | Aborted | Misuse

fun and_next :: "'a outcome \<Rightarrow> ('a \<Rightarrow> 'b outcome) \<Rightarrow> ('a \<Rightarrow> 'b) \<Rightarrow> 'b outcome" where
  "and_next (Done x) f g = f x"
| "and_next (Thrown x) f g = Thrown (g x)"
| "and_next Aborted f g = Aborted"
| "and_next Misuse f g = Misuse"

text \<open>
  The parameters \<open>T\<close> and \<open>E\<close>: whether a copy constructor returns, and what a move leaves behind. The
  moves of the types that the SDK uses do not throw.
\<close>

record ('v, 'e) alternatives =
  value_copies :: "'v \<Rightarrow> bool"
  error_copies :: "'e \<Rightarrow> bool"
  value_left :: "'v \<Rightarrow> 'v"
  error_left :: "'e \<Rightarrow> 'e"

definition storage :: "bool \<Rightarrow> ('v, 'e) expected" where
  "storage held = \<lparr>holds_value = held, value_slot = None, error_slot = None\<rparr>"

text \<open>\<open>std::construct_at\<close> on either alternative.\<close>

definition construct_value :: "'v \<Rightarrow> ('v, 'e) expected \<Rightarrow> ('v, 'e) expected outcome" where
  "construct_value v x =
     (if value_slot x = None \<and> error_slot x = None then Done (x\<lparr>value_slot := Some v\<rparr>) else Misuse)"

definition construct_error :: "'e \<Rightarrow> ('v, 'e) expected \<Rightarrow> ('v, 'e) expected outcome" where
  "construct_error e x =
     (if value_slot x = None \<and> error_slot x = None then Done (x\<lparr>error_slot := Some e\<rparr>) else Misuse)"

definition destroy_alternative :: "('v, 'e) expected \<Rightarrow> ('v, 'e) expected outcome" where
  "destroy_alternative x =
     (if holds_value x
      then (case value_slot x of Some _ \<Rightarrow> Done (x\<lparr>value_slot := None\<rparr>) | None \<Rightarrow> Misuse)
      else (case error_slot x of Some _ \<Rightarrow> Done (x\<lparr>error_slot := None\<rparr>) | None \<Rightarrow> Misuse))"


section \<open>The member functions\<close>

definition expected_default :: "'v \<Rightarrow> ('v, 'e) expected" where
  "expected_default initial = \<lparr>holds_value = True, value_slot = Some initial, error_slot = None\<rparr>"

definition expected_from_value :: "'v \<Rightarrow> ('v, 'e) expected" where
  "expected_from_value v = \<lparr>holds_value = True, value_slot = Some v, error_slot = None\<rparr>"

definition expected_from_error :: "'e \<Rightarrow> ('v, 'e) expected" where
  "expected_from_error e = \<lparr>holds_value = False, value_slot = None, error_slot = Some e\<rparr>"

text \<open>The conditional of the four copying and moving members, once the flag is taken over.\<close>

definition copy_alternative ::
  "('v, 'e) alternatives \<Rightarrow> ('v, 'e) expected \<Rightarrow> ('v, 'e) expected \<Rightarrow> ('v, 'e) expected outcome" where
  "copy_alternative M other x =
     (if holds_value x
      then (case value_slot other of None \<Rightarrow> Misuse
        | Some v \<Rightarrow> if value_copies M v then construct_value v x else Thrown x)
      else (case error_slot other of None \<Rightarrow> Misuse
        | Some e \<Rightarrow> if error_copies M e then construct_error e x else Thrown x))"

definition move_alternative ::
  "('v, 'e) alternatives \<Rightarrow> ('v, 'e) expected \<Rightarrow> ('v, 'e) expected \<Rightarrow> (('v, 'e) expected \<times> ('v, 'e) expected) outcome" where
  "move_alternative M other x =
     (if holds_value x
      then (case value_slot other of None \<Rightarrow> Misuse
        | Some v \<Rightarrow> and_next (construct_value v x)
            (\<lambda>y. Done (y, other\<lparr>value_slot := Some (value_left M v)\<rparr>)) (\<lambda>y. (y, other)))
      else (case error_slot other of None \<Rightarrow> Misuse
        | Some e \<Rightarrow> and_next (construct_error e x)
            (\<lambda>y. Done (y, other\<lparr>error_slot := Some (error_left M e)\<rparr>)) (\<lambda>y. (y, other))))"

type_synonym ('v, 'e) objects = "nat \<rightharpoonup> ('v, 'e) expected"

text \<open>An object whose constructor throws never exists.\<close>

definition expected_copy :: "('v, 'e) alternatives \<Rightarrow> nat \<Rightarrow> nat \<Rightarrow> ('v, 'e) objects \<Rightarrow> ('v, 'e) objects outcome" where
  "expected_copy M this other st =
     (case st other of None \<Rightarrow> Misuse
      | Some o1 \<Rightarrow> and_next (copy_alternative M o1 (storage (holds_value o1))) (\<lambda>x. Done (st(this \<mapsto> x))) (\<lambda>_. st))"

definition expected_move :: "('v, 'e) alternatives \<Rightarrow> nat \<Rightarrow> nat \<Rightarrow> ('v, 'e) objects \<Rightarrow> ('v, 'e) objects outcome" where
  "expected_move M this other st =
     (case st other of None \<Rightarrow> Misuse
      | Some o1 \<Rightarrow> and_next (move_alternative M o1 (storage (holds_value o1)))
          (\<lambda>(x, left). Done (st(this \<mapsto> x, other \<mapsto> left))) (\<lambda>_. st))"

definition expected_assign :: "('v, 'e) alternatives \<Rightarrow> nat \<Rightarrow> nat \<Rightarrow> ('v, 'e) objects \<Rightarrow> ('v, 'e) objects outcome" where
  "expected_assign M this other st =
     (if this \<noteq> other
      then (case (st this, st other) of
          (Some x, Some o1) \<Rightarrow>
            and_next (destroy_alternative x)
              (\<lambda>x. and_next (copy_alternative M o1 (x\<lparr>holds_value := holds_value o1\<rparr>))
                 (\<lambda>y. Done (st(this \<mapsto> y))) (\<lambda>y. st(this \<mapsto> y)))
              (\<lambda>_. st)
        | _ \<Rightarrow> Misuse)
      else Done st)"

definition expected_move_assign :: "('v, 'e) alternatives \<Rightarrow> nat \<Rightarrow> nat \<Rightarrow> ('v, 'e) objects \<Rightarrow> ('v, 'e) objects outcome" where
  "expected_move_assign M this other st =
     (if this \<noteq> other
      then (case (st this, st other) of
          (Some x, Some o1) \<Rightarrow>
            and_next (destroy_alternative x)
              (\<lambda>x. and_next (move_alternative M o1 (x\<lparr>holds_value := holds_value o1\<rparr>))
                 (\<lambda>(y, left). Done (st(this \<mapsto> y, other \<mapsto> left))) (\<lambda>(y, left). st(this \<mapsto> y, other \<mapsto> left)))
              (\<lambda>_. st)
        | _ \<Rightarrow> Misuse)
      else Done st)"

definition expected_destroy :: "nat \<Rightarrow> ('v, 'e) objects \<Rightarrow> ('v, 'e) objects outcome" where
  "expected_destroy this st =
     (case st this of None \<Rightarrow> Misuse
      | Some x \<Rightarrow> and_next (destroy_alternative x) (\<lambda>_. Done (st(this := None))) (\<lambda>_. st))"

definition has_value :: "('v, 'e) expected \<Rightarrow> bool" where
  "has_value x = holds_value x"

text \<open>\<open>require\<close> aborts before the union is read.\<close>

definition require :: "bool \<Rightarrow> unit outcome" where
  "require held = (if \<not> held then Aborted else Done ())"

definition held_value :: "('v, 'e) expected \<Rightarrow> 'v outcome" where
  "held_value x =
     (case require (holds_value x) of
        Done _ \<Rightarrow> (case value_slot x of None \<Rightarrow> Misuse | Some v \<Rightarrow> Done v)
      | _ \<Rightarrow> Aborted)"

definition held_error :: "('v, 'e) expected \<Rightarrow> 'e outcome" where
  "held_error x =
     (case require (\<not> holds_value x) of
        Done _ \<Rightarrow> (case error_slot x of None \<Rightarrow> Misuse | Some e \<Rightarrow> Done e)
      | _ \<Rightarrow> Aborted)"


section \<open>Programs over results\<close>

datatype ('v, 'e) call =
    Default nat 'v
  | From_value nat 'v
  | From_error nat 'e
  | Copy nat nat
  | Move nat nat
  | Assign nat nat
  | Move_assign nat nat
  | Destroy nat

text \<open>A program constructs objects where there is none and names only objects that exist.\<close>

fun allowed :: "('v, 'e) call \<Rightarrow> ('v, 'e) objects \<Rightarrow> bool" where
  "allowed (Default a _) st = (st a = None)"
| "allowed (From_value a _) st = (st a = None)"
| "allowed (From_error a _) st = (st a = None)"
| "allowed (Copy a b) st = (st a = None \<and> st b \<noteq> None)"
| "allowed (Move a b) st = (st a = None \<and> st b \<noteq> None)"
| "allowed (Assign a b) st = (st a \<noteq> None \<and> st b \<noteq> None)"
| "allowed (Move_assign a b) st = (st a \<noteq> None \<and> st b \<noteq> None)"
| "allowed (Destroy a) st = (st a \<noteq> None)"

fun run_call :: "('v, 'e) alternatives \<Rightarrow> ('v, 'e) call \<Rightarrow> ('v, 'e) objects \<Rightarrow> ('v, 'e) objects outcome" where
  "run_call M (Default a v) st = Done (st(a \<mapsto> expected_default v))"
| "run_call M (From_value a v) st = Done (st(a \<mapsto> expected_from_value v))"
| "run_call M (From_error a e) st = Done (st(a \<mapsto> expected_from_error e))"
| "run_call M (Copy a b) st = expected_copy M a b st"
| "run_call M (Move a b) st = expected_move M a b st"
| "run_call M (Assign a b) st = expected_assign M a b st"
| "run_call M (Move_assign a b) st = expected_move_assign M a b st"
| "run_call M (Destroy a) st = expected_destroy a st"

text \<open>What a program reaches; one that catches an exception goes on with what the call left.\<close>

inductive reached :: "('v, 'e) alternatives \<Rightarrow> ('v, 'e) objects \<Rightarrow> bool" for M :: "('v, 'e) alternatives" where
  nothing: "reached M Map.empty"
| ended: "reached M st \<Longrightarrow> allowed c st \<Longrightarrow> run_call M c st = Done st' \<Longrightarrow> reached M st'"
| caught: "reached M st \<Longrightarrow> allowed c st \<Longrightarrow> run_call M c st = Thrown st' \<Longrightarrow> reached M st'"


section \<open>Results are sums\<close>

definition tracked :: "('v, 'e) expected \<Rightarrow> bool" where
  "tracked x \<longleftrightarrow> (value_slot x \<noteq> None \<longleftrightarrow> holds_value x) \<and> (error_slot x \<noteq> None \<longleftrightarrow> \<not> holds_value x)"

definition as_sum :: "('v, 'e) expected \<Rightarrow> 'e + 'v" where
  "as_sum x = (case value_slot x of Some v \<Rightarrow> Inr v | None \<Rightarrow> Inl (the (error_slot x)))"

definition sums :: "('v, 'e) objects \<Rightarrow> nat \<rightharpoonup> 'e + 'v" where
  "sums st = (\<lambda>a. map_option as_sum (st a))"

fun left_behind :: "('v, 'e) alternatives \<Rightarrow> 'e + 'v \<Rightarrow> 'e + 'v" where
  "left_behind M (Inl e) = Inl (error_left M e)"
| "left_behind M (Inr v) = Inr (value_left M v)"

text \<open>What the calls mean on sums.\<close>

fun sum_call :: "('v, 'e) alternatives \<Rightarrow> ('v, 'e) call \<Rightarrow> (nat \<rightharpoonup> 'e + 'v) \<Rightarrow> nat \<rightharpoonup> 'e + 'v" where
  "sum_call M (Default a v) m = m(a \<mapsto> Inr v)"
| "sum_call M (From_value a v) m = m(a \<mapsto> Inr v)"
| "sum_call M (From_error a e) m = m(a \<mapsto> Inl e)"
| "sum_call M (Copy a b) m = m(a := m b)"
| "sum_call M (Move a b) m = m(a := m b, b := map_option (left_behind M) (m b))"
| "sum_call M (Assign a b) m = m(a := m b)"
| "sum_call M (Move_assign a b) m = (if a = b then m else m(a := m b, b := map_option (left_behind M) (m b)))"
| "sum_call M (Destroy a) m = m(a := None)"

definition copies_return :: "('v, 'e) alternatives \<Rightarrow> bool" where
  "copies_return M \<longleftrightarrow> (\<forall>v. value_copies M v) \<and> (\<forall>e. error_copies M e)"

lemma tracked_cases:
  assumes "tracked x"
  obtains (holds_a_value) v where "x = \<lparr>holds_value = True, value_slot = Some v, error_slot = None\<rparr>"
  | (holds_an_error) e where "x = \<lparr>holds_value = False, value_slot = None, error_slot = Some e\<rparr>"
  using assms by (cases x) (auto simp: tracked_def)

lemma tracked_new: "tracked (expected_default v)" "tracked (expected_from_value v)" "tracked (expected_from_error e)"
  by (simp_all add: tracked_def expected_default_def expected_from_value_def expected_from_error_def)

lemmas union_defs = construct_value_def construct_error_def destroy_alternative_def copy_alternative_def
  move_alternative_def storage_def

text \<open>What the union operations do with an object whose flag is right.\<close>

lemma destroy_tracked: "tracked x \<Longrightarrow> destroy_alternative x = Done (storage (holds_value x))"
  by (erule tracked_cases) (simp_all add: union_defs)

lemma copy_tracked: "tracked x \<Longrightarrow> copies_return M \<Longrightarrow> copy_alternative M x (storage (holds_value x)) = Done x"
  by (erule tracked_cases) (simp_all add: union_defs copies_return_def)

lemma move_tracked:
  "tracked x \<Longrightarrow> \<exists>left. move_alternative M x (storage (holds_value x)) = Done (x, left) \<and> tracked left \<and>
     as_sum left = left_behind M (as_sum x)"
  by (erule tracked_cases) (simp_all add: union_defs tracked_def as_sum_def)

lemma storage_flag [simp]: "storage h\<lparr>holds_value := h'\<rparr> = storage h'"
  by (simp add: storage_def)

definition all_tracked :: "('v, 'e) objects \<Rightarrow> bool" where
  "all_tracked st \<longleftrightarrow> (\<forall>a x. st a = Some x \<longrightarrow> tracked x)"

lemma all_tracked_update: "all_tracked st \<Longrightarrow> tracked x \<Longrightarrow> all_tracked (st(a \<mapsto> x))"
  by (simp add: all_tracked_def)

lemma all_tracked_at: "all_tracked st \<Longrightarrow> st a = Some x \<Longrightarrow> tracked x"
  by (simp add: all_tracked_def)

lemma sums_update: "sums (st(a \<mapsto> x)) = (sums st)(a \<mapsto> as_sum x)"
  by (simp add: sums_def fun_eq_iff)

lemma sums_new:
  "as_sum (expected_default v) = Inr v" "as_sum (expected_from_value v) = Inr v" "as_sum (expected_from_error e) = Inl e"
  by (simp_all add: as_sum_def expected_default_def expected_from_value_def expected_from_error_def)

lemma call_on_sums:
  assumes st: "all_tracked st" and c: "allowed c st" and M: "copies_return M"
  shows "\<exists>st'. run_call M c st = Done st' \<and> all_tracked st' \<and> sums st' = sum_call M c (sums st)"
proof (cases c)
  case (Copy a b)
  with c obtain x where x: "st b = Some x" by auto
  then show ?thesis
    using st copy_tracked [OF all_tracked_at [OF st x] M] all_tracked_at [OF st x]
    by (simp add: Copy expected_copy_def all_tracked_update sums_update) (simp add: sums_def)
next
  case (Move a b)
  with c obtain x where x: "st b = Some x" by auto
  note t = all_tracked_at [OF st x]
  from move_tracked [OF t, of M] obtain rest where "move_alternative M x (storage (holds_value x)) = Done (x, rest)"
    "tracked rest" "as_sum rest = left_behind M (as_sum x)" by blast
  then show ?thesis
    using st t x c by (auto simp: Move expected_move_def all_tracked_update sums_update) (auto simp: sums_def)
next
  case (Assign a b)
  with c obtain x y where x: "st b = Some x" and y: "st a = Some y" by auto
  note t = all_tracked_at [OF st x]
  from destroy_tracked [OF all_tracked_at [OF st y]] have "destroy_alternative y = Done (storage (holds_value y))" .
  then show ?thesis
    using st t x y copy_tracked [OF t M]
    by (auto simp: Assign expected_assign_def all_tracked_update sums_update) (auto simp: sums_def)
next
  case (Move_assign a b)
  with c obtain x y where x: "st b = Some x" and y: "st a = Some y" by auto
  note t = all_tracked_at [OF st x]
  from destroy_tracked [OF all_tracked_at [OF st y]] have "destroy_alternative y = Done (storage (holds_value y))" .
  moreover from move_tracked [OF t, of M] obtain rest where "move_alternative M x (storage (holds_value x)) = Done (x, rest)"
    "tracked rest" "as_sum rest = left_behind M (as_sum x)" by blast
  ultimately show ?thesis
    using st t x y
    by (auto simp: Move_assign expected_move_assign_def all_tracked_update sums_update) (auto simp: sums_def)
next
  case (Destroy a)
  with c obtain x where x: "st a = Some x" by auto
  from destroy_tracked [OF all_tracked_at [OF st x]] have "destroy_alternative x = Done (storage (holds_value x))" .
  with x st show ?thesis
    by (auto simp: Destroy expected_destroy_def all_tracked_def sums_def fun_eq_iff split: if_splits intro!: exI [of _ "st(a := None)"])
qed (simp_all add: st tracked_new all_tracked_update sums_update sums_new)

lemma reached_tracked:
  assumes "reached M st" "copies_return M"
  shows "all_tracked st"
  using assms(1)
proof (induction rule: reached.induct)
  case nothing
  then show ?case by (simp add: all_tracked_def)
next
  case (ended st c st')
  with call_on_sums [OF ended.IH ended.hyps(2) assms(2)] show ?case by auto
next
  case (caught st c st')
  with call_on_sums [OF caught.IH caught.hyps(2) assms(2)] show ?case by auto
qed

text \<open>
  C35: with copy constructors that return, every program over results is a program over sums. From any
  state that a program reaches, every call ends, never misusing the union, with the effect that the
  call has on sums: copies and moves carry error or value over, a move leaves what the type leaves,
  assigning a result to itself does nothing. The accessors return what the sum holds, and abort on
  the other alternative.
\<close>

theorem results_are_sums:
  assumes "copies_return M" "reached M st" "allowed c st"
  shows "(\<exists>st'. run_call M c st = Done st' \<and> sums st' = sum_call M c (sums st)) \<and>
    (\<forall>a x. st a = Some x \<longrightarrow>
       has_value x = (\<exists>v. as_sum x = Inr v) \<and>
       held_value x = (case as_sum x of Inr v \<Rightarrow> Done v | Inl _ \<Rightarrow> Aborted) \<and>
       held_error x = (case as_sum x of Inl e \<Rightarrow> Done e | Inr _ \<Rightarrow> Aborted))"
proof -
  have t: "all_tracked st" using reached_tracked [OF assms(2,1)] .
  have "has_value x = (\<exists>v. as_sum x = Inr v) \<and>
       held_value x = (case as_sum x of Inr v \<Rightarrow> Done v | Inl _ \<Rightarrow> Aborted) \<and>
       held_error x = (case as_sum x of Inl e \<Rightarrow> Done e | Inr _ \<Rightarrow> Aborted)" if "tracked x" for x :: "('v, 'e) expected"
    using that by (rule tracked_cases) (simp_all add: has_value_def held_value_def held_error_def require_def as_sum_def)
  with call_on_sums [OF t assms(3,1)] all_tracked_at [OF t] show ?thesis by blast
qed

text \<open>Strings whose copy constructor returns for lengths that the memory has room for.\<close>

definition room_for :: "nat \<Rightarrow> (string, string) alternatives" where
  "room_for n = \<lparr>value_copies = (\<lambda>v. length v \<le> n), error_copies = (\<lambda>e. length e \<le> n),
     value_left = (\<lambda>_. []), error_left = (\<lambda>_. [])\<rparr>"

definition endless :: "(string, string) alternatives" where
  "endless = \<lparr>value_copies = (\<lambda>_. True), error_copies = (\<lambda>_. True), value_left = (\<lambda>_. []), error_left = (\<lambda>_. [])\<rparr>"

definition two_results :: "(string, string) objects" where
  "two_results = [0 \<mapsto> expected_from_error ''e'', 1 \<mapsto> expected_from_value ''value'']"

lemma two_reached: "reached M two_results"
proof -
  have "reached M [0 \<mapsto> expected_from_error ''e'']"
    by (rule reached.ended [OF reached.nothing, where c = "From_error 0 ''e''"]) simp_all
  then show ?thesis
    unfolding two_results_def by (rule reached.ended [where c = "From_value 1 ''value''"]) simp_all
qed

theorem results_are_sums_witness:
  "\<exists>st'. run_call endless (Move_assign 0 1) two_results = Done st' \<and>
     sums st' = sum_call endless (Move_assign 0 1) (sums two_results)"
proof -
  have "copies_return endless" by (simp add: copies_return_def endless_def)
  moreover have "allowed (Move_assign 0 1) two_results" by (simp add: two_results_def)
  ultimately show ?thesis using results_are_sums [OF _ two_reached] by blast
qed


section \<open>Results without a value\<close>

text \<open>
  \<open>expected<void, E>\<close>, a class of its own: the union holds an error or an empty struct, which has no
  lifetime to keep.
\<close>

record 'e vexpected =
  void_holds :: bool
  void_error_slot :: "'e option"

definition void_default :: "'e vexpected" where
  "void_default = \<lparr>void_holds = True, void_error_slot = None\<rparr>"

definition void_from_error :: "'e \<Rightarrow> 'e vexpected" where
  "void_from_error e = \<lparr>void_holds = False, void_error_slot = Some e\<rparr>"

definition void_construct_error :: "'e \<Rightarrow> 'e vexpected \<Rightarrow> 'e vexpected outcome" where
  "void_construct_error e x = (if void_error_slot x = None then Done (x\<lparr>void_error_slot := Some e\<rparr>) else Misuse)"

definition void_destroy_alternative :: "'e vexpected \<Rightarrow> 'e vexpected outcome" where
  "void_destroy_alternative x =
     (if \<not> void_holds x
      then (case void_error_slot x of Some _ \<Rightarrow> Done (x\<lparr>void_error_slot := None\<rparr>) | None \<Rightarrow> Misuse)
      else Done x)"

text \<open>The copying or moving of the error, once the flag is taken over.\<close>

definition void_take :: "('e \<Rightarrow> bool) \<Rightarrow> 'e vexpected \<Rightarrow> 'e vexpected \<Rightarrow> 'e vexpected outcome" where
  "void_take copies other x =
     (if \<not> void_holds x
      then (case void_error_slot other of None \<Rightarrow> Misuse
        | Some e \<Rightarrow> if copies e then void_construct_error e x else Thrown x)
      else Done x)"

definition void_left :: "('e \<Rightarrow> 'e) \<Rightarrow> 'e vexpected \<Rightarrow> 'e vexpected" where
  "void_left leaves x = (if \<not> void_holds x then x\<lparr>void_error_slot := map_option leaves (void_error_slot x)\<rparr> else x)"

definition void_copy :: "('e \<Rightarrow> bool) \<Rightarrow> 'e vexpected \<Rightarrow> 'e vexpected outcome" where
  "void_copy copies other = void_take copies other \<lparr>void_holds = void_holds other, void_error_slot = None\<rparr>"

definition void_move :: "('e \<Rightarrow> 'e) \<Rightarrow> 'e vexpected \<Rightarrow> ('e vexpected \<times> 'e vexpected) outcome" where
  "void_move leaves other =
     and_next (void_take (\<lambda>_. True) other \<lparr>void_holds = void_holds other, void_error_slot = None\<rparr>)
       (\<lambda>x. Done (x, void_left leaves other)) (\<lambda>x. (x, other))"

text \<open>The assignments from another object; assigning an object to itself does nothing.\<close>

definition void_assign :: "('e \<Rightarrow> bool) \<Rightarrow> 'e vexpected \<Rightarrow> 'e vexpected \<Rightarrow> 'e vexpected outcome" where
  "void_assign copies other this =
     and_next (void_destroy_alternative this)
       (\<lambda>x. void_take copies other (x\<lparr>void_holds := void_holds other\<rparr>)) (\<lambda>x. x)"

definition void_move_assign ::
  "('e \<Rightarrow> 'e) \<Rightarrow> 'e vexpected \<Rightarrow> 'e vexpected \<Rightarrow> ('e vexpected \<times> 'e vexpected) outcome" where
  "void_move_assign leaves other this =
     and_next (void_destroy_alternative this)
       (\<lambda>x. and_next (void_take (\<lambda>_. True) other (x\<lparr>void_holds := void_holds other\<rparr>))
          (\<lambda>y. Done (y, void_left leaves other)) (\<lambda>y. (y, other))) (\<lambda>x. (x, other))"

text \<open>The same object with a value of the one-element type, on which the calls agree.\<close>

definition with_unit :: "'e vexpected \<Rightarrow> (unit, 'e) expected" where
  "with_unit x = \<lparr>holds_value = void_holds x, value_slot = (if void_holds x then Some () else None),
     error_slot = void_error_slot x\<rparr>"

lemma with_unit_inject: "with_unit x = with_unit y \<Longrightarrow> x = y"
  by (cases x; cases y) (simp add: with_unit_def)

lemma void_tracked:
  "tracked (with_unit x) \<longleftrightarrow>
     x = \<lparr>void_holds = True, void_error_slot = None\<rparr> \<or> (\<exists>e. x = \<lparr>void_holds = False, void_error_slot = Some e\<rparr>)"
  by (cases x) (auto simp: tracked_def with_unit_def)

lemmas void_defs = void_construct_error_def void_destroy_alternative_def void_take_def void_left_def
  void_copy_def void_move_def void_assign_def void_move_assign_def with_unit_def

lemma void_is_unit:
  fixes M :: "(unit, 'e) alternatives"
  assumes "tracked (with_unit x)" "tracked (with_unit y)" "value_copies M ()"
  shows "map_outcome with_unit (void_copy (error_copies M) y) = copy_alternative M (with_unit y) (storage (void_holds y))"
    "map_outcome (map_prod with_unit with_unit) (void_move (error_left M) y) =
      move_alternative M (with_unit y) (storage (void_holds y))"
    "map_outcome with_unit (void_assign (error_copies M) y x) = copy_alternative M (with_unit y) (storage (void_holds y))"
    "map_outcome (map_prod with_unit with_unit) (void_move_assign (error_left M) y x) =
      move_alternative M (with_unit y) (storage (void_holds y))"
  using assms unfolding void_tracked
  by (elim disjE exE; simp add: void_defs union_defs)+


section \<open>An exception in an assignment\<close>

lemma destroy_nothing: "destroy_alternative (storage h) = Misuse"
  by (simp add: union_defs)

text \<open>
  C38: copy assignment is not safe when the copy constructor throws. The old alternative is destroyed
  before the copy, so that the exception leaves an object with nothing alive in its union: the
  destructor, which runs when the exception unwinds, destroys what is not there. The standard's
  \<open>expected\<close> keeps the old contents.
\<close>

theorem throwing_assignment_breaks_the_object:
  assumes "st b = Some y" "tracked y" "case as_sum y of Inr v \<Rightarrow> \<not> value_copies M v | Inl e \<Rightarrow> \<not> error_copies M e"
    and "st a = Some x" "tracked x" "a \<noteq> b"
  shows "\<exists>st'. run_call M (Assign a b) st = Thrown st' \<and> run_call M (Destroy a) st' = Misuse"
proof -
  have "copy_alternative M y (storage (holds_value y)) = Thrown (storage (holds_value y))"
    using assms(2,3) by (cases rule: tracked_cases) (simp_all add: union_defs as_sum_def)
  then show ?thesis
    using assms(1,4,6) destroy_tracked [OF assms(5)] by (simp add: destroy_nothing expected_assign_def expected_destroy_def)
qed

theorem throwing_assignment_witness:
  "reached (room_for 3) two_results \<and>
   (\<exists>st'. run_call (room_for 3) (Assign 0 1) two_results = Thrown st' \<and> run_call (room_for 3) (Destroy 0) st' = Misuse)"
proof
  show "\<exists>st'. run_call (room_for 3) (Assign 0 1) two_results = Thrown st' \<and> run_call (room_for 3) (Destroy 0) st' = Misuse"
    by (rule throwing_assignment_breaks_the_object [of _ _ "expected_from_value ''value''" _ _ "expected_from_error ''e''"])
      (simp_all add: two_results_def tracked_new sums_new room_for_def)
qed (rule two_reached)

end
