(* ===== verification/Result_Maps.thy ===== *)
theory Result_Maps
  imports Errors
begin

text \<open>
  A function applied to the value of a result: how the generations of the SDK are compared, where one
  generation's reader is the image of another's, errors included.
\<close>

definition on_ok :: "('a \<Rightarrow> 'b) \<Rightarrow> 'a result \<Rightarrow> 'b result" where
  "on_ok f r = (case r of Inr x \<Rightarrow> Inr (f x) | Inl e \<Rightarrow> Inl e)"

lemma on_ok_simps [simp]: "on_ok f (Inr x) = Inr (f x)" "on_ok f (Inl e) = Inl e" "on_ok f (fail c d w) = fail c d w"
  by (simp_all add: on_ok_def fail_def)

lemma on_ok_on_ok [simp]: "on_ok f (on_ok g r) = on_ok (\<lambda>x. f (g x)) r"
  by (simp add: on_ok_def split: sum.split)

lemma is_ok_on_ok [simp]: "is_ok (on_ok f r) = is_ok r"
  by (cases r) simp_all

lemma on_ok_and_then: "on_ok f (and_then r g) = and_then r (\<lambda>x. on_ok f (g x))"
  by (cases r) simp_all

lemma and_then_Inr: "and_then r (\<lambda>x. Inr (f x)) = on_ok f r"
  by (cases r) simp_all

lemma and_then_on_ok: "and_then (on_ok f r) g = and_then r (\<lambda>x. g (f x))"
  by (cases r) simp_all

lemma on_ok_and_then_at: "on_ok f (and_then_at r w g) = and_then_at r w (\<lambda>x. on_ok f (g x))"
  by (cases r) simp_all

end
