(* ===== verification/V2_Core.thy ===== *)
theory V2_Core
  imports Events Result_Maps
begin

text \<open>
  \<open>include/cloudevents/v2/core.hpp\<close>: the event of the second generation, the first whose attributes
  are validated. Its data has no document alternative: JSON is kept as text. The attribute types are
  those of the current generation, which takes them from here.
\<close>

section \<open>The event\<close>

datatype v2_data = V2_none | V2_text string | V2_binary binary | V2_json string

record v2_options =
  w_datacontenttype :: "string option"
  w_dataschema :: "string option"
  w_subject :: "string option"
  w_time :: "timestamp option"
  w_extensions :: extension_map
  w_data :: v2_data

definition v2_no_options :: v2_options where
  "v2_no_options = \<lparr>w_datacontenttype = None, w_dataschema = None, w_subject = None, w_time = None,
     w_extensions = [], w_data = V2_none\<rparr>"

record v2_event =
  w_id :: string
  w_source :: string
  w_type :: string
  w_rest :: v2_options

record v2_builder =
  wb_id :: "string option"
  wb_source :: "string option"
  wb_type :: "string option"
  wb_rest :: v2_options

definition v2_new_builder :: v2_builder where
  "v2_new_builder = \<lparr>wb_id = None, wb_source = None, wb_type = None, wb_rest = v2_no_options\<rparr>"

definition v2_build :: "v2_builder \<Rightarrow> v2_event result" where
  "v2_build b =
     (case wb_id b of
        None \<Rightarrow> fail missing_required_attribute ''id must be present'' ''id''
      | Some i \<Rightarrow>
          (case wb_source b of
             None \<Rightarrow> fail missing_required_attribute ''source must be present'' ''source''
           | Some origin \<Rightarrow>
               (case wb_type b of
                  None \<Rightarrow> fail missing_required_attribute ''type must be present'' ''type''
                | Some k \<Rightarrow> Inr \<lparr>w_id = i, w_source = origin, w_type = k, w_rest = wb_rest b\<rparr>)))"

definition v2_set_data :: "v2_data \<Rightarrow> string option \<Rightarrow> v2_event \<Rightarrow> v2_event" where
  "v2_set_data payload media ev = ev\<lparr>w_rest := w_rest ev\<lparr>w_data := payload, w_datacontenttype := media\<rparr>\<rparr>"

definition v2_set_extension :: "string \<Rightarrow> attribute_value \<Rightarrow> v2_event \<Rightarrow> v2_event" where
  "v2_set_extension name v ev =
     ev\<lparr>w_rest := w_rest ev\<lparr>w_extensions := om_insert_or_assign name v (w_extensions (w_rest ev))\<rparr>\<rparr>"

definition v2_remove_extension :: "string \<Rightarrow> v2_event \<Rightarrow> bool \<times> v2_event" where
  "v2_remove_extension name ev =
     (case om_find name (w_extensions (w_rest ev)) of
        None \<Rightarrow> (False, ev)
      | Some _ \<Rightarrow> (True, ev\<lparr>w_rest := w_rest ev\<lparr>w_extensions := om_erase name (w_extensions (w_rest ev))\<rparr>\<rparr>))"

definition v2_extension :: "string \<Rightarrow> v2_event \<Rightarrow> attribute_value option" where
  "v2_extension name ev = om_find name (w_extensions (w_rest ev))"

definition v2_lint :: "v2_event \<Rightarrow> lint_warning list" where
  "v2_lint ev = fold (\<lambda>(name, v) warnings.
       if length name > 20
       then warnings @ [\<lparr>w_attribute = name, w_message = ''extension names should be 20 characters or fewer''\<rparr>]
       else warnings)
     (w_extensions (w_rest ev)) []"

text \<open>\<open>event::get<Ext>\<close> and \<open>event::set<Ext>\<close>, field by field.\<close>

fun v2_get_ext :: "ext_field list \<Rightarrow> v2_event \<Rightarrow> ext_value result" where
  "v2_get_ext [] ev = Inr []"
| "v2_get_ext (f # fs) ev =
     (case v2_extension (f_name f) ev of
        None \<Rightarrow>
          if f_optional f then and_then (v2_get_ext fs ev) (\<lambda>vs. Inr (None # vs))
          else fail missing_required_attribute ''the extension requires this attribute'' (f_name f)
      | Some stored \<Rightarrow>
          and_then (read_attribute (f_kind f) stored (f_name f)) (\<lambda>v.
            and_then (v2_get_ext fs ev) (\<lambda>vs. Inr (Some v # vs))))"

fun v2_set_ext :: "ext_field list \<Rightarrow> ext_value \<Rightarrow> v2_event \<Rightarrow> unit result \<times> v2_event" where
  "v2_set_ext (f # fs) (v # vs) ev =
     (case v of
        None \<Rightarrow> v2_set_ext fs vs (snd (v2_remove_extension (f_name f) ev))
      | Some held \<Rightarrow>
          (case make_validated extension_name_policy (f_name f) of
             Inl e \<Rightarrow> (Inl e, ev)
           | Inr attribute \<Rightarrow> v2_set_ext fs vs (v2_set_extension attribute held ev)))"
| "v2_set_ext fs vs ev = (Inr (), ev)"


section \<open>An event of the current generation as one of the second\<close>

text \<open>A document becomes its text.\<close>

definition v2_data_of :: "'j data_t \<Rightarrow> v2_data" where
  "v2_data_of data =
     (case data of No_data \<Rightarrow> V2_none | Text_data s \<Rightarrow> V2_text s | Binary_data b \<Rightarrow> V2_binary b
      | Json_text s \<Rightarrow> V2_json s | Json_document d \<Rightarrow> V2_json (document_dump d))"

definition v2_options_of :: "'j options \<Rightarrow> v2_options" where
  "v2_options_of r = \<lparr>w_datacontenttype = o_datacontenttype r, w_dataschema = o_dataschema r, w_subject = o_subject r,
     w_time = o_time r, w_extensions = o_extensions r, w_data = v2_data_of (o_data r)\<rparr>"

definition v2_of :: "'j event \<Rightarrow> v2_event" where
  "v2_of ev = \<lparr>w_id = e_id ev, w_source = e_source ev, w_type = e_type ev, w_rest = v2_options_of (e_rest ev)\<rparr>"

definition v2_builder_of :: "'j builder \<Rightarrow> v2_builder" where
  "v2_builder_of b = \<lparr>wb_id = b_id b, wb_source = b_source b, wb_type = b_type b, wb_rest = v2_options_of (b_rest b)\<rparr>"

lemma v2_options_sel [simp]:
  "w_datacontenttype (v2_options_of r) = o_datacontenttype r" "w_dataschema (v2_options_of r) = o_dataschema r"
  "w_subject (v2_options_of r) = o_subject r" "w_time (v2_options_of r) = o_time r"
  "w_extensions (v2_options_of r) = o_extensions r" "w_data (v2_options_of r) = v2_data_of (o_data r)"
  by (simp_all add: v2_options_of_def)

lemma v2_options_upd:
  "v2_options_of (r\<lparr>o_datacontenttype := m\<rparr>) = (v2_options_of r)\<lparr>w_datacontenttype := m\<rparr>"
  "v2_options_of (r\<lparr>o_dataschema := s\<rparr>) = (v2_options_of r)\<lparr>w_dataschema := s\<rparr>"
  "v2_options_of (r\<lparr>o_subject := s'\<rparr>) = (v2_options_of r)\<lparr>w_subject := s'\<rparr>"
  "v2_options_of (r\<lparr>o_time := t\<rparr>) = (v2_options_of r)\<lparr>w_time := t\<rparr>"
  "v2_options_of (r\<lparr>o_extensions := x\<rparr>) = (v2_options_of r)\<lparr>w_extensions := x\<rparr>"
  "v2_options_of (r\<lparr>o_data := d\<rparr>) = (v2_options_of r)\<lparr>w_data := v2_data_of d\<rparr>"
  by (simp_all add: v2_options_of_def)

lemma v2_builder_sel [simp]:
  "wb_id (v2_builder_of b) = b_id b" "wb_source (v2_builder_of b) = b_source b" "wb_type (v2_builder_of b) = b_type b"
  "wb_rest (v2_builder_of b) = v2_options_of (b_rest b)"
  by (simp_all add: v2_builder_of_def)

lemma v2_builder_upd:
  "v2_builder_of (b\<lparr>b_id := i\<rparr>) = (v2_builder_of b)\<lparr>wb_id := i\<rparr>"
  "v2_builder_of (b\<lparr>b_source := s\<rparr>) = (v2_builder_of b)\<lparr>wb_source := s\<rparr>"
  "v2_builder_of (b\<lparr>b_type := t\<rparr>) = (v2_builder_of b)\<lparr>wb_type := t\<rparr>"
  "v2_builder_of (b\<lparr>b_rest := r\<rparr>) = (v2_builder_of b)\<lparr>wb_rest := v2_options_of r\<rparr>"
  by (simp_all add: v2_builder_of_def)

lemmas v2_images = v2_options_upd v2_builder_upd

lemma v2_of_sel [simp]:
  "w_id (v2_of ev) = e_id ev" "w_source (v2_of ev) = e_source ev" "w_type (v2_of ev) = e_type ev"
  "w_rest (v2_of ev) = v2_options_of (e_rest ev)"
  by (simp_all add: v2_of_def)

lemma v2_new_builder_of: "v2_builder_of new_builder = v2_new_builder" "v2_options_of no_options = v2_no_options"
  by (simp_all add: v2_builder_of_def new_builder_def v2_new_builder_def v2_options_of_def no_options_def
      v2_no_options_def v2_data_of_def)

lemma v2_build_of: "v2_build (v2_builder_of b) = on_ok v2_of (build b)"
  by (simp add: v2_build_def build_def v2_of_def split: option.split)

text \<open>The operations on an event do not depend on the generation.\<close>

lemma v2_operations:
  "v2_of (set_data payload media ev) = v2_set_data (v2_data_of payload) media (v2_of ev)"
  "v2_of (set_extension name v ev) = v2_set_extension name v (v2_of ev)"
  "map_prod id v2_of (remove_extension name ev) = v2_remove_extension name (v2_of ev)"
  "v2_extension name (v2_of ev) = extension name ev"
  "v2_lint (v2_of ev) = lint ev"
  by (simp_all add: v2_set_data_def set_data_def v2_set_extension_def set_extension_def v2_remove_extension_def
      remove_extension_def v2_extension_def extension_def v2_lint_def lint_def recommended_name_length_def v2_of_def
      v2_images split: option.split)

lemma v2_get_ext_of: "v2_get_ext fs (v2_of ev) = get_ext fs ev"
  by (induction fs) (simp_all add: v2_operations split: option.split)

lemma v2_set_ext_of: "map_prod id v2_of (set_ext fs vs ev) = v2_set_ext fs vs (v2_of ev)"
proof (induction fs vs ev rule: set_ext.induct)
  case (1 f fs v vs ev)
  have "snd (v2_remove_extension (f_name f) (v2_of ev)) = v2_of (snd (remove_extension (f_name f) ev))"
    using v2_operations(3) [of "f_name f" ev] by (metis snd_map_prod)
  with 1 show ?case by (auto simp: v2_operations split: option.split sum.split)
qed simp_all

end
