(* ===== verification/V2_Json.thy ===== *)
theory V2_Json
  imports V2_Core V1_Compat
begin

text \<open>
  \<open>include/cloudevents/v2/format/json_format.hpp\<close>: the JSON format of the second generation. It
  reads the members of an object in one pass, as the current generation does, and keeps JSON data as
  the text that the codec dumps. The functions of that file that do not mention an event (\<open>claim\<close>,
  the readers of a required or optional text, \<open>decode_attribute\<close>) have the text of the current ones,
  whose definitions stand for both.
\<close>

section \<open>Writing\<close>

definition v2_encode_attribute :: "'j codec \<Rightarrow> attribute_value \<Rightarrow> 'j result" where
  "v2_encode_attribute C attribute =
     (case attribute of
        Bool held \<Rightarrow> Inr (c_make_bool C held)
      | Int32 held \<Rightarrow> Inr (c_make_int C held)
      | Str held \<Rightarrow> Inr (c_make_string C held)
      | Bin held \<Rightarrow> Inr (c_make_string C (base64_encode held))
      | Time held \<Rightarrow> Inr (c_make_string C (to_string held))
      | Uri held \<Rightarrow> Inr (c_make_string C held)
      | Uri_ref held \<Rightarrow> Inr (c_make_string C held))"

definition v2_encode_data :: "'j codec \<Rightarrow> v2_data \<Rightarrow> 'j \<Rightarrow> 'j result" where
  "v2_encode_data C data root =
     (case data of
        V2_none \<Rightarrow> Inr root
      | V2_binary held \<Rightarrow> Inr (c_set C root ''data_base64'' (c_make_string C (base64_encode held)))
      | V2_text held \<Rightarrow> Inr (c_set C root ''data'' (c_make_string C held))
      | V2_json held \<Rightarrow>
          (case c_parse C held of
             Inl _ \<Rightarrow> fail parse_error ''data is not well-formed JSON'' ''/data''
           | Inr parsed \<Rightarrow> Inr (c_set C root ''data'' parsed)))"

fun v2_set_extensions :: "'j codec \<Rightarrow> extension_map \<Rightarrow> 'j \<Rightarrow> 'j result" where
  "v2_set_extensions C [] root = Inr root"
| "v2_set_extensions C ((name, attribute) # rest) root =
     and_then_at (v2_encode_attribute C attribute) name
       (\<lambda>encoded. v2_set_extensions C rest (c_set C root name encoded))"

definition v2_to_value :: "'j codec \<Rightarrow> v2_event \<Rightarrow> 'j result" where
  "v2_to_value C ev =
     (let root = c_make_object C;
          root = c_set C root ''specversion'' (c_make_string C spec_version_view);
          root = c_set C root ''id'' (c_make_string C (w_id ev));
          root = c_set C root ''source'' (c_make_string C (w_source ev));
          root = c_set C root ''type'' (c_make_string C (w_type ev));
          root = (case w_datacontenttype (w_rest ev) of
              Some media \<Rightarrow> c_set C root ''datacontenttype'' (c_make_string C media) | None \<Rightarrow> root);
          root = (case w_dataschema (w_rest ev) of
              Some schema \<Rightarrow> c_set C root ''dataschema'' (c_make_string C schema) | None \<Rightarrow> root);
          root = (case w_subject (w_rest ev) of
              Some named \<Rightarrow> c_set C root ''subject'' (c_make_string C named) | None \<Rightarrow> root);
          root = (case w_time (w_rest ev) of
              Some instant \<Rightarrow> c_set C root ''time'' (c_make_string C (to_string instant)) | None \<Rightarrow> root)
      in and_then (v2_set_extensions C (w_extensions (w_rest ev)) root) (v2_encode_data C (w_data (w_rest ev))))"

definition v2_encode :: "'j codec \<Rightarrow> v2_event \<Rightarrow> string result" where
  "v2_encode C ev = and_then (v2_to_value C ev) (\<lambda>document. Inr (c_dump C document))"

fun v2_push_events :: "'j codec \<Rightarrow> v2_event list \<Rightarrow> 'j \<Rightarrow> 'j result" where
  "v2_push_events C [] arr = Inr arr"
| "v2_push_events C (ev # events) arr =
     and_then (v2_to_value C ev) (\<lambda>document. v2_push_events C events (c_push C arr document))"

definition v2_encode_batch :: "'j codec \<Rightarrow> v2_event list \<Rightarrow> string result" where
  "v2_encode_batch C events =
     and_then (v2_push_events C events (c_make_array C)) (\<lambda>arr. Inr (c_dump C arr))"


section \<open>Reading\<close>

definition v2_store_time :: "'j codec \<Rightarrow> 'j member_ref option \<Rightarrow> v2_options \<Rightarrow> v2_options result" where
  "v2_store_time C member into =
     and_then (optional_text_of C member ''time'') (\<lambda>txt.
       case txt of
         Some present \<Rightarrow> and_then_at (parse_timestamp present) ''time'' (\<lambda>parsed. Inr (into\<lparr>w_time := Some parsed\<rparr>))
       | None \<Rightarrow> Inr into)"

definition v2_read_context :: "'j codec \<Rightarrow> 'j members \<Rightarrow> v2_builder \<Rightarrow> v2_builder result" where
  "v2_read_context C found into =
     and_then (required_text_of C (mm_specversion found) ''specversion'') (\<lambda>version.
     and_then (spec_version_make version) (\<lambda>_.
     and_then (store_required C id_policy (mm_id found) ''id'') (\<lambda>slot. let into = into\<lparr>wb_id := slot\<rparr> in
     and_then (store_required C source_policy (mm_source found) ''source'') (\<lambda>slot. let into = into\<lparr>wb_source := slot\<rparr> in
     and_then (store_required C type_policy (mm_type found) ''type'') (\<lambda>slot. let into = into\<lparr>wb_type := slot\<rparr> in
     and_then (store_optional C datacontenttype_policy (mm_datacontenttype found) ''datacontenttype''
       (w_datacontenttype (wb_rest into))) (\<lambda>slot. let into = into\<lparr>wb_rest := wb_rest into\<lparr>w_datacontenttype := slot\<rparr>\<rparr> in
     and_then (store_optional C dataschema_policy (mm_dataschema found) ''dataschema''
       (w_dataschema (wb_rest into))) (\<lambda>slot. let into = into\<lparr>wb_rest := wb_rest into\<lparr>w_dataschema := slot\<rparr>\<rparr> in
     and_then (store_optional C subject_policy (mm_subject found) ''subject''
       (w_subject (wb_rest into))) (\<lambda>slot. let into = into\<lparr>wb_rest := wb_rest into\<lparr>w_subject := slot\<rparr>\<rparr> in
     and_then (v2_store_time C (mm_time found) (wb_rest into)) (\<lambda>rest.
     Inr (into\<lparr>wb_rest := rest\<rparr>))))))))))"

definition v2_read_extension :: "'j codec \<Rightarrow> string \<Rightarrow> 'j \<Rightarrow> v2_options \<Rightarrow> unit result \<times> v2_options" where
  "v2_read_extension C name member into =
     (if c_kind_of C member = K_null then (Inr (), into)
      else (case make_validated extension_name_policy name of
          Inl e \<Rightarrow> (forward_failure_at e name, into)
        | Inr attribute \<Rightarrow>
            (case decode_attribute C member of
               Inl e \<Rightarrow> (forward_failure_at e name, into)
             | Inr decoded \<Rightarrow>
                 (Inr (), into\<lparr>w_extensions := om_insert_or_assign attribute decoded (w_extensions into)\<rparr>))))"

text \<open>The visitor of \<open>from_value\<close>: the members from position \<open>i\<close> on.\<close>

fun v2_visit_members ::
  "'j codec \<Rightarrow> (string \<times> 'j) list \<Rightarrow> nat \<Rightarrow> 'j members \<Rightarrow> unit result \<Rightarrow> v2_options \<Rightarrow>
   'j members \<times> unit result \<times> v2_options"
where
  "v2_visit_members C [] i found extensions_read rest = (found, extensions_read, rest)"
| "v2_visit_members C ((name, member) # ms) i found extensions_read rest =
     (case claim found name (i, member) of (claimed, found) \<Rightarrow>
        if claimed \<or> \<not> is_ok extensions_read
        then v2_visit_members C ms (Suc i) found extensions_read rest
        else (case v2_read_extension C name member rest of (extensions_read, rest) \<Rightarrow>
            v2_visit_members C ms (Suc i) found extensions_read rest))"

definition v2_decode_data :: "'j codec \<Rightarrow> 'j members \<Rightarrow> v2_options \<Rightarrow> v2_options result" where
  "v2_decode_data C found into =
     (if mm_data found \<noteq> None \<and> mm_data_base64 found \<noteq> None
      then fail data_conflict ''data and data_base64 are mutually exclusive'' ''data''
      else (case mm_data_base64 found of
          Some (_, member) \<Rightarrow>
            (case c_as_string C member of
               Inl _ \<Rightarrow> fail invalid_attribute_value ''data_base64 must be a JSON string'' ''data_base64''
             | Inr txt \<Rightarrow> and_then_at (base64_decode txt) ''data_base64''
                 (\<lambda>decoded. Inr (into\<lparr>w_data := V2_binary decoded\<rparr>)))
        | None \<Rightarrow>
            (case mm_data found of
               None \<Rightarrow> Inr into
             | Some data \<Rightarrow>
                 let declared_non_json = (case w_datacontenttype into of
                       Some media \<Rightarrow> \<not> is_json_content_type media | None \<Rightarrow> False)
                 in if declared_non_json \<and> c_kind_of C (snd data) = K_string
                    then (case c_as_string C (snd data) of
                        Inl _ \<Rightarrow> fail invalid_attribute_value ''data must be a JSON string'' ''data''
                      | Inr txt \<Rightarrow> Inr (into\<lparr>w_data := V2_text txt\<rparr>))
                    else Inr (into\<lparr>w_data := V2_json (c_dump C (snd data))\<rparr>))))"

definition v2_from_value :: "'j codec \<Rightarrow> 'j \<Rightarrow> v2_event result" where
  "v2_from_value C document =
     (if c_kind_of C document \<noteq> K_object
      then fail parse_error ''a CloudEvent must be a JSON object'' ''''
      else (case v2_visit_members C (c_members C document) 0 no_members (Inr ()) (wb_rest v2_new_builder) of
          (found, extensions_read, rest) \<Rightarrow>
            and_then (v2_read_context C found (v2_new_builder\<lparr>wb_rest := rest\<rparr>)) (\<lambda>under_construction.
            and_then (v2_decode_data C found (wb_rest under_construction)) (\<lambda>rest.
            and_then extensions_read (\<lambda>_.
            v2_build (under_construction\<lparr>wb_rest := rest\<rparr>))))))"

definition v2_decode :: "'j codec \<Rightarrow> string \<Rightarrow> v2_event result" where
  "v2_decode C txt = and_then_at (c_parse C txt) '''' (v2_from_value C)"

text \<open>The visitor over the elements: the first error ends it.\<close>

fun v2_from_values :: "'j codec \<Rightarrow> 'j list \<Rightarrow> (v2_event list) result" where
  "v2_from_values C [] = Inr []"
| "v2_from_values C (element # elements) =
     and_then (v2_from_value C element) (\<lambda>ev.
     and_then (v2_from_values C elements) (\<lambda>events. Inr (ev # events)))"

definition v2_decode_batch :: "'j codec \<Rightarrow> string \<Rightarrow> (v2_event list) result" where
  "v2_decode_batch C txt =
     and_then_at (c_parse C txt) '''' (\<lambda>document.
       if c_kind_of C document \<noteq> K_array then fail parse_error ''a batch must be a JSON array'' ''''
       else v2_from_values C (c_elements C document))"


section \<open>The same text is written\<close>

lemma v2_encode_attribute_eq: "codec_adopts C \<Longrightarrow> v2_encode_attribute C a = encode_attribute C a"
  by (cases a) (simp_all add: v2_encode_attribute_def encode_attribute_def built_string_make)

lemma v2_set_extensions_eq: "codec_adopts C \<Longrightarrow> v2_set_extensions C exts root = set_extensions C exts root"
  by (induction C exts root rule: v2_set_extensions.induct) (auto simp: v2_encode_attribute_eq encode_attribute_json)

lemma v2_encode_data_eq:
  assumes "generations_codec C" "one_codec C ev"
  shows "v2_encode_data C (v2_data_of (o_data (e_rest ev))) = encode_data C (o_data (e_rest ev))"
proof
  fix root
  show "v2_encode_data C (v2_data_of (o_data (e_rest ev))) root = encode_data C (o_data (e_rest ev)) root"
  proof (cases "o_data (e_rest ev)")
    case (Json_document d)
    with assms document_get_dump [of C d] show ?thesis
      by (cases "document_get C d")
        (auto simp: v2_encode_data_def encode_data_def v2_data_of_def generations_codec_def one_codec_def
          codec_lookup_def)
  qed (use assms in \<open>simp_all add: v2_encode_data_def encode_data_def v2_data_of_def built_string_make generations_codec_def\<close>)
qed

lemma v2_to_value_eq:
  assumes "generations_codec C" "one_codec C ev"
  shows "v2_to_value C (v2_of ev) = to_value C ev"
  using assms
  by (simp add: v2_to_value_def to_value_def to_value_writing_def set_optional_def v2_encode_data_eq
      v2_set_extensions_eq built_string_make generations_codec_def Let_def)
    (simp split: option.split)

lemma v2_encode_eq: "generations_codec C \<Longrightarrow> one_codec C ev \<Longrightarrow> v2_encode C (v2_of ev) = json_encode C ev"
  by (simp add: v2_encode_def json_encode_def v2_to_value_eq)

lemma v2_encode_batch_eq:
  assumes "generations_codec C" "\<forall>ev \<in> set evs. one_codec C ev"
  shows "v2_encode_batch C (map v2_of evs) = json_encode_batch C evs"
proof -
  from assms have "v2_push_events C (map v2_of evs) arr = push_events C evs arr" for arr
    by (induction evs arbitrary: arr) (auto simp: v2_to_value_eq intro: and_then_cong)
  then show ?thesis by (simp add: v2_encode_batch_def json_encode_batch_def)
qed


section \<open>The same event is read\<close>

lemma v2_store_time_of: "v2_store_time C m (v2_options_of r) = on_ok v2_options_of (store_time C m r)"
  by (simp add: v2_store_time_def store_time_def on_ok_and_then on_ok_and_then_at v2_images option.case_distrib
      cong: option.case_cong)

lemma v2_read_context_of: "v2_read_context C found (v2_builder_of b) = on_ok v2_builder_of (read_context C found b)"
proof -
  have "v2_store_time C m (v2_options_of r\<lparr>w_datacontenttype := c, w_dataschema := d, w_subject := s\<rparr>) =
      on_ok v2_options_of (store_time C m (r\<lparr>o_datacontenttype := c, o_dataschema := d, o_subject := s\<rparr>))" for m r c d s
    using v2_store_time_of [of C m "r\<lparr>o_datacontenttype := c, o_dataschema := d, o_subject := s\<rparr>"]
    by (simp add: v2_images)
  then show ?thesis
    by (simp add: v2_read_context_def read_context_def on_ok_and_then and_then_on_ok Let_def v2_images)
qed

lemma v2_read_extension_of:
  "v2_read_extension C name member (v2_options_of r) = map_prod id v2_options_of (read_extension C name member r)"
  by (simp add: v2_read_extension_def read_extension_def v2_images split: sum.split)

lemma v2_visit_members_of:
  "v2_visit_members C ms i found x (v2_options_of r) =
     map_prod id (map_prod id v2_options_of) (visit_members C ms i found x r)"
  by (induction C ms i found x r rule: visit_members.induct)
    (auto simp: v2_read_extension_of split: prod.split)

text \<open>The data, with the current reader making a document of a copy.\<close>

lemma v2_decode_data_of:
  assumes "codec_lookup C"
  shows "v2_decode_data C found (v2_options_of r) =
    on_ok (\<lambda>x. v2_options_of (fst x)) (decode_data C fresh found None P_copy own_text wants r)"
proof -
  have "v2_data_of (json_payload C fresh data None P_copy own_text) = V2_json (c_dump C (snd data))" for data
    using assms
    by (simp add: json_payload_def v2_data_of_def document_dump_def document_make_def model_dump_def codec_lookup_def)
  then show ?thesis
    by (simp add: v2_decode_data_def decode_data_def on_ok_and_then_at v2_images Let_def v2_data_of_def
        split: option.split sum.split)
qed

lemma v2_read_event_of:
  fixes C :: "'j codec"
  assumes "codec_lookup C"
  shows "v2_from_value C document = on_ok (\<lambda>x. v2_of (fst x)) (read_event C fresh document None P_copy own_text wants)"
proof (cases "c_kind_of C document = K_object")
  case True
  obtain found x rest where v: "visit_members C (c_members C document) 0 no_members (Inr ()) (b_rest new_builder) = (found, x, rest)"
    by (metis prod_cases3)
  note new = v2_new_builder_of(1) [where 'a = 'j, symmetric]
  have "v2_visit_members C (c_members C document) 0 no_members (Inr ()) (wb_rest v2_new_builder) = (found, x, v2_options_of rest)"
    using v2_visit_members_of [of C "c_members C document" 0 no_members "Inr ()" "b_rest new_builder"] v
    by (simp add: new)
  moreover have "v2_new_builder\<lparr>wb_rest := v2_options_of rest\<rparr> = v2_builder_of (new_builder\<lparr>b_rest := rest\<rparr>)"
    by (simp add: v2_images new)
  ultimately show ?thesis
    using True v
    by (simp add: v2_from_value_def read_event_def v2_read_context_of and_then_on_ok on_ok_and_then and_then_Inr
        v2_decode_data_of [OF assms, where fresh = fresh and own_text = own_text and wants = wants]
        v2_builder_upd(4) [symmetric] v2_build_of case_prod_unfold)
qed (simp add: v2_from_value_def read_event_def)

lemma v2_from_value_of: "codec_lookup C \<Longrightarrow> v2_from_value C document = on_ok v2_of (from_value C fresh document)"
  using v2_read_event_of [of C document fresh None False]
  by (simp add: from_value_def from_value_reading_def keep_event_def on_ok_and_then case_prod_unfold)
    (simp add: on_ok_def split: sum.split)

lemma v2_decode_of:
  assumes "codec_lookup C" "retains txt options"
  shows "v2_decode C txt = on_ok v2_of (json_decode C fresh txt options)"
proof (cases "c_parse C txt")
  case (Inr document)
  with json_decode_retained [OF assms(1) Inr assms(2)] v2_from_value_of [OF assms(1)] show ?thesis
    by (simp add: v2_decode_def)
qed (simp add: v2_decode_def json_decode_def decode_reading_def)

text \<open>A batch, when the current reader keeps documents.\<close>

lemma v2_from_values_of:
  assumes "codec_lookup C"
  shows "v2_from_values C elements = on_ok (map v2_of) (visit_elements C fresh keep_event P_move slices elements)"
proof (induction elements arbitrary: fresh slices)
  case (Cons element elements)
  have "read_event C fresh element (Some element) P_move own False = read_event C fresh element None P_copy None False" for own
    by (rule read_event_move [OF assms])
  then show ?case
    using v2_read_event_of [OF assms, of element fresh None False] Cons [of "Suc fresh" slices]
    by (simp add: keep_event_def on_ok_and_then and_then_on_ok and_then_Inr case_prod_unfold)
qed simp

lemma v2_decode_batch_of:
  assumes "codec_lookup C" "\<And>document. c_parse C txt = Inr document \<Longrightarrow> retains_batch (length txt) (c_size_of C document) options"
  shows "v2_decode_batch C txt = on_ok (map v2_of) (json_decode_batch C fresh txt options)"
  using assms(2) v2_from_values_of [OF assms(1)]
  by (cases "c_parse C txt") (simp_all add: v2_decode_batch_def json_decode_batch_def decode_batch_reading_def)

end
