(* ===== verification/V2_Bindings.thy ===== *)
theory V2_Bindings
  imports V2_Json
begin

text \<open>
  \<open>include/cloudevents/v2/binding\<close>: the HTTP, Kafka and NATS bindings of the second generation. The
  traits, the value policies, the detection of the mode and the naming of attributes have the text
  of the current bindings, whose definitions stand for both. A binary-mode body is never parsed, and
  repeated fields are found by \<open>headers::adopt\<close>.
\<close>

section \<open>What the bindings share\<close>

definition v2_apply_attribute :: "traits \<Rightarrow> v2_builder \<Rightarrow> string \<Rightarrow> string \<Rightarrow> v2_builder result" where
  "v2_apply_attribute T into attribute v =
     (if attribute = ''datacontenttype''
      then if t_content_type_as_attribute T
           then and_then (store_attribute datacontenttype_policy v)
             (\<lambda>slot. Inr (into\<lparr>wb_rest := wb_rest into\<lparr>w_datacontenttype := slot\<rparr>\<rparr>))
           else fail invalid_argument
             ''this binding carries datacontenttype in its content-type field, not as a prefixed attribute'' attribute
      else if attribute = ''specversion'' then and_then (spec_version_make v) (\<lambda>_. Inr into)
      else if attribute = ''id'' then and_then (store_attribute id_policy v) (\<lambda>slot. Inr (into\<lparr>wb_id := slot\<rparr>))
      else if attribute = ''source'' then and_then (store_attribute source_policy v) (\<lambda>slot. Inr (into\<lparr>wb_source := slot\<rparr>))
      else if attribute = ''type'' then and_then (store_attribute type_policy v) (\<lambda>slot. Inr (into\<lparr>wb_type := slot\<rparr>))
      else if attribute = ''dataschema''
      then and_then (store_attribute dataschema_policy v) (\<lambda>slot. Inr (into\<lparr>wb_rest := wb_rest into\<lparr>w_dataschema := slot\<rparr>\<rparr>))
      else if attribute = ''subject''
      then and_then (store_attribute subject_policy v) (\<lambda>slot. Inr (into\<lparr>wb_rest := wb_rest into\<lparr>w_subject := slot\<rparr>\<rparr>))
      else if attribute = ''time''
      then and_then_at (parse_timestamp v) ''time'' (\<lambda>parsed. Inr (into\<lparr>wb_rest := wb_rest into\<lparr>w_time := Some parsed\<rparr>\<rparr>))
      else and_then (make_validated extension_name_policy attribute) (\<lambda>extension.
        Inr (into\<lparr>wb_rest := wb_rest into\<lparr>w_extensions :=
          om_insert_or_assign extension (Str v) (w_extensions (wb_rest into))\<rparr>\<rparr>)))"

fun v2_put_extensions :: "traits \<Rightarrow> extension_map \<Rightarrow> writing \<Rightarrow> writing" where
  "v2_put_extensions T [] w = w"
| "v2_put_extensions T ((name, attribute) # rest) w =
     v2_put_extensions T rest (put_attribute T name (render_attribute attribute) w)"

definition v2_write_attributes :: "traits \<Rightarrow> v2_event \<Rightarrow> raw_headers \<Rightarrow> writing" where
  "v2_write_attributes T ev into =
     (let w = (Inr (), into);
          w = put_attribute T ''specversion'' spec_version_view w;
          w = put_attribute T ''id'' (w_id ev) w;
          w = put_attribute T ''source'' (w_source ev) w;
          w = put_attribute T ''type'' (w_type ev) w;
          w = (case w_dataschema (w_rest ev) of Some schema \<Rightarrow> put_attribute T ''dataschema'' schema w | None \<Rightarrow> w);
          w = (case w_subject (w_rest ev) of Some named \<Rightarrow> put_attribute T ''subject'' named w | None \<Rightarrow> w);
          w = (case w_time (w_rest ev) of Some instant \<Rightarrow> put_attribute T ''time'' (to_string instant) w | None \<Rightarrow> w);
          (failure, into) = v2_put_extensions T (w_extensions (w_rest ev)) w
      in if \<not> is_ok failure then (failure, into)
         else (case w_datacontenttype (w_rest ev) of
             None \<Rightarrow> (failure, into)
           | Some media \<Rightarrow>
               if t_content_type_as_attribute T then put_attribute T ''datacontenttype'' media (failure, into)
               else (failure, put T (t_content_type_header T) media into)))"

fun v2_read_fields :: "traits \<Rightarrow> raw_headers \<Rightarrow> v2_builder \<Rightarrow> v2_builder result" where
  "v2_read_fields T [] b = Inr b"
| "v2_read_fields T ((name, raw_value) # rest) b =
     (if \<not> carries_prefix T name then v2_read_fields T rest b
      else let attribute = attribute_name_of T name
        in and_then_at (t_decode_value T raw_value) attribute (\<lambda>decoded.
           and_then (v2_apply_attribute T b attribute decoded) (\<lambda>b. v2_read_fields T rest b)))"

definition v2_read_attributes :: "traits \<Rightarrow> raw_headers \<Rightarrow> v2_builder result" where
  "v2_read_attributes T delivered =
     and_then (adopt delivered (if t_case_sensitive_names T then case_sensitive else case_insensitive)) (\<lambda>adopted.
       v2_read_fields T (delivered_fields adopted) v2_new_builder)"

definition v2_write_body :: "v2_event \<Rightarrow> message \<Rightarrow> message" where
  "v2_write_body ev into =
     (case w_data (w_rest ev) of
        V2_none \<Rightarrow> into
      | V2_binary held \<Rightarrow> into\<lparr>body := held\<rparr>
      | V2_text held \<Rightarrow> into\<lparr>body := to_bytes held\<rparr>
      | V2_json held \<Rightarrow> into\<lparr>body := to_bytes held\<rparr>)"

definition v2_read_body :: "binary \<Rightarrow> string option \<Rightarrow> v2_data" where
  "v2_read_body b media =
     (if b = [] then V2_none
      else if (case media of Some m \<Rightarrow> is_json_content_type m | None \<Rightarrow> False) then V2_json (to_text b)
      else V2_binary b)"

definition v2_encode_structured :: "traits \<Rightarrow> 'j codec \<Rightarrow> v2_event \<Rightarrow> message result" where
  "v2_encode_structured T C ev =
     and_then (v2_encode C ev) (\<lambda>txt.
       Inr (empty_message\<lparr>header_fields := put T (t_content_type_header T) json_content_type [], body := to_bytes txt\<rparr>))"

definition v2_decode_structured :: "'j codec \<Rightarrow> message \<Rightarrow> v2_event result" where
  "v2_decode_structured C incoming = v2_decode C (to_text (body incoming))"

text \<open>The end of every reader of a binary-mode message.\<close>

definition v2_declare_media_type :: "string option \<Rightarrow> v2_builder \<Rightarrow> v2_builder result" where
  "v2_declare_media_type declared b =
     (case declared of
        None \<Rightarrow> Inr b
      | Some m \<Rightarrow> and_then (make_validated datacontenttype_policy m)
          (\<lambda>media. Inr (b\<lparr>wb_rest := wb_rest b\<lparr>w_datacontenttype := Some media\<rparr>\<rparr>)))"

definition v2_build_with_body :: "binary \<Rightarrow> v2_builder \<Rightarrow> v2_event result" where
  "v2_build_with_body b under_construction =
     v2_build (under_construction\<lparr>wb_rest := wb_rest under_construction\<lparr>w_data :=
       v2_read_body b (w_datacontenttype (wb_rest under_construction))\<rparr>\<rparr>)"


section \<open>HTTP\<close>

definition v2_http_to_message :: "value_policy \<Rightarrow> 'j codec \<Rightarrow> v2_event \<Rightarrow> content_mode \<Rightarrow> message result" where
  "v2_http_to_message V C ev mode =
     (if mode = structured then v2_encode_structured (http_traits V) C ev
      else if mode = batched
      then fail invalid_argument ''a batch carries several events; use to_batch_message'' ''''
      else (case v2_write_attributes (http_traits V) ev [] of (written, hs) \<Rightarrow>
        and_then written (\<lambda>_. Inr (v2_write_body ev (empty_message\<lparr>header_fields := hs\<rparr>)))))"

definition v2_http_to_batch_message :: "'j codec \<Rightarrow> v2_event list \<Rightarrow> message result" where
  "v2_http_to_batch_message C events =
     and_then (v2_encode_batch C events) (\<lambda>txt.
       Inr (empty_message\<lparr>header_fields := set_field http_content_type_header json_batch_content_type [],
         body := to_bytes txt\<rparr>))"

definition v2_http_from_message :: "value_policy \<Rightarrow> 'j codec \<Rightarrow> message \<Rightarrow> v2_event result" where
  "v2_http_from_message V C request =
     (let mode = http_detect_content_mode request
      in if mode = structured then v2_decode_structured C request
         else if mode = batched
         then fail invalid_argument ''this message is a batch; use from_batch_message'' ''''
         else if \<not> contains ''ce-specversion'' (header_fields request)
         then fail not_a_cloudevent ''no ce-specversion header and no CloudEvents content type'' ''''
         else and_then (v2_read_attributes (http_traits V) (header_fields request)) (\<lambda>b.
           and_then (v2_declare_media_type (find_field http_content_type_header (header_fields request)) b)
             (v2_build_with_body (body request))))"

definition v2_http_from_batch_message :: "'j codec \<Rightarrow> message \<Rightarrow> v2_event list result" where
  "v2_http_from_batch_message C request =
     (if http_detect_content_mode request \<noteq> batched
      then fail not_a_cloudevent ''the content type is not a CloudEvents batch'' ''''
      else v2_decode_batch C (to_text (body request)))"


section \<open>Kafka\<close>

definition v2_kafka_to_message :: "'j codec \<Rightarrow> v2_event \<Rightarrow> content_mode \<Rightarrow> message result" where
  "v2_kafka_to_message C ev mode =
     (if mode = batched then fail invalid_argument ''the Kafka binding defines no batch mode'' ''''
      else if mode = structured then v2_encode_structured kafka_traits C ev
      else (case v2_write_attributes kafka_traits ev [] of (written, hs) \<Rightarrow>
        and_then written (\<lambda>_. Inr (v2_write_body ev (empty_message\<lparr>header_fields := hs\<rparr>)))))"

definition v2_kafka_from_message :: "'j codec \<Rightarrow> message \<Rightarrow> v2_event result" where
  "v2_kafka_from_message C incoming =
     (let mode = kafka_detect_content_mode incoming
      in if mode = batched then fail invalid_argument ''the Kafka binding defines no batch mode'' ''''
         else if mode = structured then v2_decode_structured C incoming
         else if \<not> contains_exact ''ce_specversion'' (header_fields incoming)
         then fail not_a_cloudevent ''no ce_specversion header and no CloudEvents content type'' ''''
         else and_then (v2_read_attributes kafka_traits (header_fields incoming)) (\<lambda>b.
           and_then (v2_declare_media_type (find_exact kafka_content_type_header (header_fields incoming)) b)
             (v2_build_with_body (body incoming))))"

definition v2_no_key_of :: "v2_event \<Rightarrow> string option" where
  "v2_no_key_of ev = None"

definition v2_partitionkey_of :: "v2_event \<Rightarrow> string option" where
  "v2_partitionkey_of ev =
     (case v2_extension ''partitionkey'' ev of None \<Rightarrow> None | Some stored \<Rightarrow> Some (render_attribute stored))"

definition v2_to_record :: "(v2_event \<Rightarrow> string option) \<Rightarrow> 'j codec \<Rightarrow> v2_event \<Rightarrow> content_mode \<Rightarrow> kafka_record result" where
  "v2_to_record key_of C ev mode =
     and_then (v2_kafka_to_message C ev mode) (\<lambda>laid_out. Inr \<lparr>kr_value = laid_out, kr_key = key_of ev\<rparr>)"


section \<open>NATS\<close>

definition v2_nats_to_payload :: "'j codec \<Rightarrow> v2_event \<Rightarrow> string result" where
  "v2_nats_to_payload C ev = v2_encode C ev"

definition v2_nats_from_payload :: "'j codec \<Rightarrow> string \<Rightarrow> v2_event result" where
  "v2_nats_from_payload C payload = v2_decode C payload"

definition v2_nats_to_message :: "'j codec \<Rightarrow> v2_event \<Rightarrow> content_mode \<Rightarrow> message result" where
  "v2_nats_to_message C ev mode =
     (if mode = batched then fail invalid_argument ''the NATS binding defines no batch mode'' ''''
      else if mode = structured then v2_encode_structured nats_traits C ev
      else (case v2_write_attributes nats_traits ev [] of (written, hs) \<Rightarrow>
        and_then written (\<lambda>_. Inr (v2_write_body ev (empty_message\<lparr>header_fields := hs\<rparr>)))))"

definition v2_nats_from_message :: "'j codec \<Rightarrow> message \<Rightarrow> v2_event result" where
  "v2_nats_from_message C incoming =
     (if nats_detect_content_mode incoming = structured then v2_decode_structured C incoming
      else if \<not> contains ''ce-specversion'' (header_fields incoming)
      then fail not_a_cloudevent ''no ce-specversion header and no CloudEvents content type'' ''''
      else and_then (v2_read_attributes nats_traits (header_fields incoming)) (v2_build_with_body (body incoming)))"


section \<open>The same messages are written\<close>

lemma v2_put_extensions_eq: "v2_put_extensions T exts w = put_extensions T exts w"
  by (induction T exts w rule: v2_put_extensions.induct)
    (auto simp: text_attribute_def render_attribute_def split: attribute_value.split)

lemma v2_write_attributes_eq: "v2_write_attributes T (v2_of ev) = write_attributes T ev"
  unfolding v2_write_attributes_def write_attributes_def v2_put_extensions_eq put_present_def Let_def v2_of_sel v2_options_sel
  by (cases "o_dataschema (e_rest ev)"; cases "o_subject (e_rest ev)"; cases "o_time (e_rest ev)"; simp)

lemma v2_write_body_eq: "v2_write_body (v2_of ev) = write_body ev"
  by (simp add: fun_eq_iff v2_write_body_def write_body_def v2_data_of_def split: data_t.split)

lemma v2_encode_structured_eq:
  "generations_codec C \<Longrightarrow> one_codec C ev \<Longrightarrow> v2_encode_structured T C (v2_of ev) = encode_structured T C ev"
  by (simp add: v2_encode_structured_def encode_structured_def v2_encode_eq)

lemma v2_to_message_eq:
  assumes "generations_codec C" "one_codec C ev"
  shows "v2_http_to_message V C (v2_of ev) mode = http_to_message V C ev mode"
    and "v2_kafka_to_message C (v2_of ev) mode = kafka_to_message C ev mode"
    and "v2_nats_to_message C (v2_of ev) mode = nats_to_message C ev mode"
  by (simp_all add: v2_http_to_message_def http_to_message_def v2_kafka_to_message_def kafka_to_message_def
      v2_nats_to_message_def nats_to_message_def v2_encode_structured_eq [OF assms] v2_write_attributes_eq v2_write_body_eq)

lemma v2_keys: "v2_partitionkey_of (v2_of ev) = partitionkey_of ev" "v2_no_key_of (v2_of ev) = no_key_of ev"
  by (simp_all add: v2_partitionkey_of_def partitionkey_of_def v2_operations v2_no_key_of_def no_key_of_def)


section \<open>The same events are read\<close>

lemma v2_apply_attribute_of:
  "v2_apply_attribute T (v2_builder_of b) n s = on_ok v2_builder_of (apply_attribute T b n s)"
  by (simp add: v2_apply_attribute_def apply_attribute_def on_ok_and_then on_ok_and_then_at v2_images)

lemma v2_read_fields_of: "v2_read_fields T hs (v2_builder_of b) = on_ok v2_builder_of (read_fields T hs b)"
  by (induction T hs b rule: read_fields.induct)
    (simp_all add: v2_apply_attribute_of on_ok_and_then on_ok_and_then_at and_then_on_ok Let_def
      cong: and_then_cong)

text \<open>\<open>headers::adopt\<close> refuses what the search for a repeated name finds, with the same error.\<close>

lemma adopt_loop_first_repeated:
  "adopt_loop (if t_case_sensitive_names T then case_sensitive else case_insensitive) later earlier =
    (case first_repeated_loop T earlier later of
       Some repeated \<Rightarrow> fail invalid_argument
         ''two fields carry the same attribute, so which one is meant is undecidable'' repeated
     | None \<Rightarrow> Inr \<lparr>delivered_fields = earlier @ later\<rparr>)"
proof (induction later arbitrary: earlier)
  case (Cons field later)
  obtain n v where f: "field = (n, v)" by fastforce
  have "repeated_in T earlier n \<longleftrightarrow>
      (\<exists>entry \<in> set earlier. same_name (if t_case_sensitive_names T then case_sensitive else case_insensitive) (fst entry) n)"
    by (simp add: repeated_in_iff same_field_name_def same_name_def)
  then show ?case
    using Cons [of "earlier @ [(n, v)]"] by (simp add: f adopt_loop_step del: adopt_loop.simps split: option.split)
qed simp

lemma v2_read_attributes_of:
  fixes T :: traits
  shows "v2_read_attributes T hs = on_ok (v2_builder_of :: 'j builder \<Rightarrow> v2_builder) (read_attributes T hs)"
  using v2_read_fields_of [of T hs "new_builder :: 'j builder"]
  by (simp add: v2_read_attributes_def adopt_def adopt_loop_first_repeated read_attributes_def first_repeated_name_def
      v2_new_builder_of fail_def split: option.split)

lemma v2_declare_media_type_of:
  "v2_declare_media_type declared (v2_builder_of b) = on_ok v2_builder_of (declare_media_type declared b)"
  by (simp add: v2_declare_media_type_def declare_media_type_def on_ok_and_then v2_images split: option.split)

lemma v2_build_with_body_of:
  assumes "\<not> parse_binary_body options"
  shows "v2_build_with_body bytes (v2_builder_of b) =
    on_ok v2_of (and_then (read_body C fresh bytes (o_datacontenttype (b_rest b)) options)
      (\<lambda>payload. build (b\<lparr>b_rest := b_rest b\<lparr>o_data := payload\<rparr>\<rparr>)))"
proof -
  have d: "on_ok v2_of (build (b\<lparr>b_rest := b_rest b\<lparr>o_data := d\<rparr>\<rparr>)) =
      v2_build ((v2_builder_of b)\<lparr>wb_rest := (v2_options_of (b_rest b))\<lparr>w_data := v2_data_of d\<rparr>\<rparr>)" for d
    by (simp add: v2_build_of [symmetric] v2_images)
  show ?thesis
    using assms
    by (auto simp: v2_build_with_body_def v2_read_body_def read_body_def Let_def text_of_def to_text_def d
        v2_data_of_def split: option.split)
qed

end
