(* ===== verification/V2_Compat.thy ===== *)
theory V2_Compat
  imports V2_Bindings Generations
begin

text \<open>
  The second and the current generation on one wire: they write the same texts and messages, and read
  the same events with the same errors, as long as the current generation keeps a JSON body as text.
\<close>

lemma v2_decode_structured_of:
  "codec_lookup C \<Longrightarrow> retains_text_of (length (body m)) options \<Longrightarrow>
     v2_decode_structured C m = on_ok v2_of (decode_structured C fresh m options)"
  using v2_decode_of [of C "text_of (body m)" options fresh]
  by (simp add: v2_decode_structured_def decode_structured_def retains_def text_of_def to_text_def)

text \<open>The binary mode of the three bindings; \<open>declared\<close> is the content-type field, if it is looked at.\<close>

lemma v2_binary_of:
  fixes C :: "'j codec"
  assumes "\<not> parse_binary_body options"
  shows "and_then (v2_read_attributes T hs) (\<lambda>b. and_then (v2_declare_media_type declared b) (v2_build_with_body bytes)) =
    on_ok v2_of (and_then (read_attributes T hs) (\<lambda>b. and_then (declare_media_type declared b) (\<lambda>b.
      and_then (read_body C fresh bytes (o_datacontenttype (b_rest b)) options)
        (\<lambda>payload. build (b\<lparr>b_rest := b_rest b\<lparr>o_data := payload\<rparr>\<rparr>)))))"
  unfolding v2_read_attributes_of [where 'j = 'j] and_then_on_ok v2_declare_media_type_of
    v2_build_with_body_of [OF assms, where C = C and fresh = fresh] on_ok_and_then ..

lemma v2_from_message_of:
  assumes "codec_lookup C" "retains_text_of (length (body m)) options" "\<not> parse_binary_body options"
  shows "v2_http_from_message V C m = on_ok v2_of (http_from_message V C fresh m options)"
    and "v2_kafka_from_message C m = on_ok v2_of (kafka_from_message C fresh m options)"
    and "v2_nats_from_message C m = on_ok v2_of (nats_from_message C fresh m options)"
proof -
  note s = v2_decode_structured_of [OF assms(1,2), of fresh]
  note b = v2_binary_of [OF assms(3), where C = C and fresh = fresh]
  show "v2_http_from_message V C m = on_ok v2_of (http_from_message V C fresh m options)"
    by (simp add: v2_http_from_message_def http_from_message_def Let_def s b)
  show "v2_kafka_from_message C m = on_ok v2_of (kafka_from_message C fresh m options)"
    by (simp add: v2_kafka_from_message_def kafka_from_message_def Let_def s b)
  show "v2_nats_from_message C m = on_ok v2_of (nats_from_message C fresh m options)"
    using b [where declared = None]
    by (simp add: v2_nats_from_message_def nats_from_message_def Let_def s v2_declare_media_type_def declare_media_type_def)
qed

text \<open>
  C26: the second generation is the current one without documents. It writes the text and the messages
  that the current one writes, and what it reads from a message is what the current one reads, value
  or error, with a document as its text. The current generation is asked to leave JSON bodies of
  binary mode unparsed, as the second one does, and the codec parses back what it dumps.
\<close>

theorem second_generation_is_the_current_one:
  assumes "generations_codec C" "one_codec C ev"
    and "retains_text_of (length (body m)) options" "\<not> parse_binary_body options"
  shows "v2_encode C (v2_of ev) = json_encode C ev \<and>
    v2_http_to_message V C (v2_of ev) mode = http_to_message V C ev mode \<and>
    v2_to_record v2_partitionkey_of C (v2_of ev) mode = to_record partitionkey_of C ev mode \<and>
    v2_nats_to_message C (v2_of ev) mode = nats_to_message C ev mode \<and>
    v2_http_from_message V C m = on_ok v2_of (http_from_message V C fresh m options) \<and>
    v2_kafka_from_message C m = on_ok v2_of (kafka_from_message C fresh m options) \<and>
    v2_nats_from_message C m = on_ok v2_of (nats_from_message C fresh m options)"
proof -
  have "codec_lookup C" using assms(1) by (simp add: generations_codec_def)
  from v2_from_message_of [OF this assms(3,4)] v2_to_message_eq [OF assms(1,2)] show ?thesis
    by (simp add: v2_encode_eq [OF assms(1,2)] v2_to_record_def to_record_def v2_keys)
qed

definition text_bodies :: decode_options where
  "text_bodies = \<lparr>retain_document_up_to = 1024, parse_binary_body = False\<rparr>"

theorem second_generation_witness:
  "is_ok (v2_http_to_message literal_values reference_codec (v2_of full_event) structured) \<and>
   is_ok (v2_http_from_message percent_encoded_values reference_codec json_request)"
proof -
  have l: "retains_text_of (length (body json_request)) text_bodies" "\<not> parse_binary_body text_bodies" by code_simp+
  have "is_ok (http_to_message literal_values reference_codec full_event structured)"
    "is_ok (http_from_message percent_encoded_values reference_codec 0 json_request text_bodies)"
    by code_simp+
  with second_generation_is_the_current_one [OF reference_generations(1) full_event_one_codec(1) l,
      of literal_values structured 0]
    second_generation_is_the_current_one [OF reference_generations(1) full_event_one_codec(1) l,
      of percent_encoded_values structured 0]
  show ?thesis by simp
qed

end
