(* ===== verification/V3_Core.thy ===== *)
theory V3_Core
  imports V3_Conversion Result_Maps
begin

text \<open>
  \<open>include/cloudevents/v3/core.hpp\<close>: the builder and the operations of an event of the third
  generation, whose types \<open>V3_Conversion\<close> declares, and how they go with the conversion.
\<close>

section \<open>The builder and the operations\<close>

definition v3_document_make :: "'j codec \<Rightarrow> nat \<Rightarrow> 'j \<Rightarrow> 'j v3_document" where
  "v3_document_make codec fresh v = \<lparr>v3_address = Suc fresh, v3_model = Holder codec v\<rparr>"

record 'j v3_builder =
  v3b_id :: "string option"
  v3b_source :: "string option"
  v3b_type :: "string option"
  v3b_rest :: "'j v3_options"

definition v3_no_options :: "'j v3_options" where
  "v3_no_options = \<lparr>v3_datacontenttype = None, v3_dataschema = None, v3_subject = None, v3_time = None,
     v3_extensions = [], v3_data = V3_none\<rparr>"

definition v3_new_builder :: "'j v3_builder" where
  "v3_new_builder = \<lparr>v3b_id = None, v3b_source = None, v3b_type = None, v3b_rest = v3_no_options\<rparr>"

definition v3_build :: "'j v3_builder \<Rightarrow> 'j v3_event result" where
  "v3_build b =
     (case v3b_id b of
        None \<Rightarrow> fail missing_required_attribute ''id must be present'' ''id''
      | Some i \<Rightarrow>
          (case v3b_source b of
             None \<Rightarrow> fail missing_required_attribute ''source must be present'' ''source''
           | Some origin \<Rightarrow>
               (case v3b_type b of
                  None \<Rightarrow> fail missing_required_attribute ''type must be present'' ''type''
                | Some k \<Rightarrow> Inr \<lparr>v3_id = i, v3_source = origin, v3_type = k, v3_rest = v3b_rest b\<rparr>)))"

definition v3_set_data :: "'j v3_data \<Rightarrow> string option \<Rightarrow> 'j v3_event \<Rightarrow> 'j v3_event" where
  "v3_set_data payload media ev =
     ev\<lparr>v3_rest := v3_rest ev\<lparr>v3_data := payload, v3_datacontenttype := media\<rparr>\<rparr>"

definition v3_set_extension :: "string \<Rightarrow> attribute_value \<Rightarrow> 'j v3_event \<Rightarrow> 'j v3_event" where
  "v3_set_extension name v ev =
     ev\<lparr>v3_rest := v3_rest ev\<lparr>v3_extensions := om_insert_or_assign name v (v3_extensions (v3_rest ev))\<rparr>\<rparr>"

definition v3_remove_extension :: "string \<Rightarrow> 'j v3_event \<Rightarrow> bool \<times> 'j v3_event" where
  "v3_remove_extension name ev =
     (case om_find name (v3_extensions (v3_rest ev)) of
        None \<Rightarrow> (False, ev)
      | Some _ \<Rightarrow> (True, ev\<lparr>v3_rest := v3_rest ev\<lparr>v3_extensions := om_erase name (v3_extensions (v3_rest ev))\<rparr>\<rparr>))"

definition v3_extension :: "string \<Rightarrow> 'j v3_event \<Rightarrow> attribute_value option" where
  "v3_extension name ev = om_find name (v3_extensions (v3_rest ev))"

definition v3_lint :: "'j v3_event \<Rightarrow> lint_warning list" where
  "v3_lint ev = fold (\<lambda>(name, v) warnings.
       if length name > 20
       then warnings @ [\<lparr>w_attribute = name, w_message = ''extension names should be 20 characters or fewer''\<rparr>]
       else warnings)
     (v3_extensions (v3_rest ev)) []"

text \<open>\<open>event::get<Ext>\<close> and \<open>event::set<Ext>\<close>, field by field.\<close>

fun v3_get_ext :: "ext_field list \<Rightarrow> 'j v3_event \<Rightarrow> ext_value result" where
  "v3_get_ext [] ev = Inr []"
| "v3_get_ext (f # fs) ev =
     (case v3_extension (f_name f) ev of
        None \<Rightarrow>
          if f_optional f then and_then (v3_get_ext fs ev) (\<lambda>vs. Inr (None # vs))
          else fail missing_required_attribute ''the extension requires this attribute'' (f_name f)
      | Some stored \<Rightarrow>
          and_then (read_attribute (f_kind f) stored (f_name f)) (\<lambda>v.
            and_then (v3_get_ext fs ev) (\<lambda>vs. Inr (Some v # vs))))"

fun v3_set_ext :: "ext_field list \<Rightarrow> ext_value \<Rightarrow> 'j v3_event \<Rightarrow> unit result \<times> 'j v3_event" where
  "v3_set_ext (f # fs) (v # vs) ev =
     (case v of
        None \<Rightarrow> v3_set_ext fs vs (snd (v3_remove_extension (f_name f) ev))
      | Some held \<Rightarrow>
          (case make_validated extension_name_policy (f_name f) of
             Inl e \<Rightarrow> (Inl e, ev)
           | Inr attribute \<Rightarrow> v3_set_ext fs vs (v3_set_extension attribute held ev)))"
| "v3_set_ext fs vs ev = (Inr (), ev)"


section \<open>The conversion of options and builders\<close>

definition v3_data_of :: "'j data_t \<Rightarrow> 'j v3_data" where
  "v3_data_of data = fst (data_to_v3 False data)"

definition v3_options_of :: "'j options \<Rightarrow> 'j v3_options" where
  "v3_options_of r = \<lparr>v3_datacontenttype = o_datacontenttype r, v3_dataschema = o_dataschema r, v3_subject = o_subject r,
     v3_time = o_time r, v3_extensions = o_extensions r, v3_data = v3_data_of (o_data r)\<rparr>"

definition v3_builder_of :: "'j builder \<Rightarrow> 'j v3_builder" where
  "v3_builder_of b = \<lparr>v3b_id = b_id b, v3b_source = b_source b, v3b_type = b_type b, v3b_rest = v3_options_of (b_rest b)\<rparr>"

lemma v3_data_of_simps:
  "v3_data_of No_data = V3_none" "v3_data_of (Text_data s) = V3_text s" "v3_data_of (Binary_data b) = V3_binary b"
  "v3_data_of (Json_text t) = V3_json_text t"
  "v3_data_of (Json_document d) = V3_document \<lparr>v3_address = doc_address d, v3_model = doc_model d\<rparr>"
  by (simp_all add: v3_data_of_def data_to_v3_def document_to_v3_def)

lemma v3_data_of_made [simp]:
  "v3_data_of (Json_document (document_make C fresh v)) = V3_document (v3_document_make C fresh v)"
  by (simp add: v3_data_of_simps document_make_def v3_document_make_def)

lemma v3_options_sel [simp]:
  "v3_datacontenttype (v3_options_of r) = o_datacontenttype r" "v3_dataschema (v3_options_of r) = o_dataschema r"
  "v3_subject (v3_options_of r) = o_subject r" "v3_time (v3_options_of r) = o_time r"
  "v3_extensions (v3_options_of r) = o_extensions r" "v3_data (v3_options_of r) = v3_data_of (o_data r)"
  by (simp_all add: v3_options_of_def)

lemma v3_options_upd:
  "v3_options_of (r\<lparr>o_datacontenttype := m\<rparr>) = (v3_options_of r)\<lparr>v3_datacontenttype := m\<rparr>"
  "v3_options_of (r\<lparr>o_dataschema := s\<rparr>) = (v3_options_of r)\<lparr>v3_dataschema := s\<rparr>"
  "v3_options_of (r\<lparr>o_subject := s'\<rparr>) = (v3_options_of r)\<lparr>v3_subject := s'\<rparr>"
  "v3_options_of (r\<lparr>o_time := t\<rparr>) = (v3_options_of r)\<lparr>v3_time := t\<rparr>"
  "v3_options_of (r\<lparr>o_extensions := x\<rparr>) = (v3_options_of r)\<lparr>v3_extensions := x\<rparr>"
  "v3_options_of (r\<lparr>o_data := d\<rparr>) = (v3_options_of r)\<lparr>v3_data := v3_data_of d\<rparr>"
  by (simp_all add: v3_options_of_def)

lemma v3_builder_sel [simp]:
  "v3b_id (v3_builder_of b) = b_id b" "v3b_source (v3_builder_of b) = b_source b" "v3b_type (v3_builder_of b) = b_type b"
  "v3b_rest (v3_builder_of b) = v3_options_of (b_rest b)"
  by (simp_all add: v3_builder_of_def)

lemma v3_builder_upd:
  "v3_builder_of (b\<lparr>b_id := i\<rparr>) = (v3_builder_of b)\<lparr>v3b_id := i\<rparr>"
  "v3_builder_of (b\<lparr>b_source := s\<rparr>) = (v3_builder_of b)\<lparr>v3b_source := s\<rparr>"
  "v3_builder_of (b\<lparr>b_type := t\<rparr>) = (v3_builder_of b)\<lparr>v3b_type := t\<rparr>"
  "v3_builder_of (b\<lparr>b_rest := r\<rparr>) = (v3_builder_of b)\<lparr>v3b_rest := v3_options_of r\<rparr>"
  by (simp_all add: v3_builder_of_def)

lemmas v3_images = v3_options_upd v3_builder_upd

lemma to_v3_eq: "to_v3 ev = \<lparr>v3_id = e_id ev, v3_source = e_source ev, v3_type = e_type ev, v3_rest = v3_options_of (e_rest ev)\<rparr>"
  by (simp add: to_v3_def event_to_v3_def v3_options_of_def v3_data_of_def split: prod.split)

lemma to_v3_sel [simp]:
  "v3_id (to_v3 ev) = e_id ev" "v3_source (to_v3 ev) = e_source ev" "v3_type (to_v3 ev) = e_type ev"
  "v3_rest (to_v3 ev) = v3_options_of (e_rest ev)"
  by (simp_all add: to_v3_eq)

lemma v3_new_builder_of: "v3_builder_of new_builder = v3_new_builder"
  by (simp add: v3_builder_of_def new_builder_def v3_new_builder_def v3_options_of_def no_options_def
      v3_no_options_def v3_data_of_simps)

lemma v3_build_of: "v3_build (v3_builder_of b) = on_ok to_v3 (build b)"
  by (simp add: v3_build_def build_def to_v3_eq split: option.split)

text \<open>The operations on an event do not depend on the generation.\<close>

lemma v3_operations:
  "to_v3 (set_data payload media ev) = v3_set_data (v3_data_of payload) media (to_v3 ev)"
  "to_v3 (set_extension name v ev) = v3_set_extension name v (to_v3 ev)"
  "map_prod id to_v3 (remove_extension name ev) = v3_remove_extension name (to_v3 ev)"
  "v3_extension name (to_v3 ev) = extension name ev"
  "v3_lint (to_v3 ev) = lint ev"
  by (simp_all add: v3_set_data_def set_data_def v3_set_extension_def set_extension_def v3_remove_extension_def
      remove_extension_def v3_extension_def extension_def v3_lint_def lint_def recommended_name_length_def to_v3_eq v3_images split: option.split)

lemma v3_get_ext_of: "v3_get_ext fs (to_v3 ev) = get_ext fs ev"
  by (induction fs) (simp_all add: v3_operations split: option.split)

lemma v3_set_ext_of: "map_prod id to_v3 (set_ext fs vs ev) = v3_set_ext fs vs (to_v3 ev)"
proof (induction fs vs ev rule: set_ext.induct)
  case (1 f fs v vs ev)
  have "snd (v3_remove_extension (f_name f) (to_v3 ev)) = to_v3 (snd (remove_extension (f_name f) ev))"
    using v3_operations(3) [of "f_name f" ev] by (metis snd_map_prod)
  with 1 show ?case by (auto simp: v3_operations split: option.split sum.split)
qed simp_all

end
