(* ===== verification/V3_Format.thy ===== *)
theory V3_Format
  imports V3_Core V3_Json
begin

text \<open>
  \<open>include/cloudevents/v3/format/json_format.hpp\<close> but for the readers by name of \<open>V3_Json\<close>: the JSON
  format of the third generation. The functions of that file that do not mention an event have the
  text of the current ones, whose definitions stand for both.
\<close>

section \<open>Writing\<close>

definition v3_encode_data :: "'j codec \<Rightarrow> 'j v3_data \<Rightarrow> 'j \<Rightarrow> 'j result" where
  "v3_encode_data C data root =
     (case data of
        V3_none \<Rightarrow> Inr root
      | V3_binary held \<Rightarrow> Inr (c_set C root ''data_base64'' (built_string C (base64_encode held)))
      | V3_text held \<Rightarrow> Inr (c_set C root ''data'' (c_make_string C held))
      | V3_document held \<Rightarrow>
          (case v3_document_get C held of
             Some own \<Rightarrow> Inr (c_set C root ''data'' (c_copy C own))
           | None \<Rightarrow>
               (case c_parse C (v3_document_dump held) of
                  Inl _ \<Rightarrow> fail parse_error ''data is not well-formed JSON'' ''/data''
                | Inr converted \<Rightarrow> Inr (c_set C root ''data'' converted)))
      | V3_json_text held \<Rightarrow>
          (case c_parse C held of
             Inl _ \<Rightarrow> fail parse_error ''data is not well-formed JSON'' ''/data''
           | Inr parsed \<Rightarrow> Inr (c_set C root ''data'' parsed)))"

fun v3_set_extensions :: "'j codec \<Rightarrow> extension_map \<Rightarrow> 'j \<Rightarrow> 'j result" where
  "v3_set_extensions C [] root = Inr root"
| "v3_set_extensions C ((name, attribute) # rest) root =
     and_then_at (encode_attribute C attribute) name
       (\<lambda>encoded. v3_set_extensions C rest (c_set C root name encoded))"

definition v3_to_value_writing :: "'j codec \<Rightarrow> 'j v3_event \<Rightarrow> string option \<Rightarrow> ('j \<Rightarrow> 'j result) \<Rightarrow> 'j result" where
  "v3_to_value_writing C ev media write_data =
     (let root = c_make_object C;
          root = c_set C root ''specversion'' (c_make_string C spec_version_view);
          root = c_set C root ''id'' (c_make_string C (v3_id ev));
          root = c_set C root ''source'' (c_make_string C (v3_source ev));
          root = c_set C root ''type'' (c_make_string C (v3_type ev));
          root = set_optional C ''datacontenttype'' (map_option (c_make_string C) media) root;
          root = set_optional C ''dataschema'' (map_option (c_make_string C) (v3_dataschema (v3_rest ev))) root;
          root = set_optional C ''subject'' (map_option (c_make_string C) (v3_subject (v3_rest ev))) root;
          root = set_optional C ''time'' (map_option (\<lambda>t. built_string C (to_string t)) (v3_time (v3_rest ev))) root
      in and_then (v3_set_extensions C (v3_extensions (v3_rest ev)) root) write_data)"

definition v3_to_value :: "'j codec \<Rightarrow> 'j v3_event \<Rightarrow> 'j result" where
  "v3_to_value C ev =
     v3_to_value_writing C ev (v3_datacontenttype (v3_rest ev)) (v3_encode_data C (v3_data (v3_rest ev)))"

definition v3_json_encode :: "'j codec \<Rightarrow> 'j v3_event \<Rightarrow> string result" where
  "v3_json_encode C ev = and_then (v3_to_value C ev) (\<lambda>document. Inr (c_dump C document))"

fun v3_push_events :: "'j codec \<Rightarrow> 'j v3_event list \<Rightarrow> 'j \<Rightarrow> 'j result" where
  "v3_push_events C [] arr = Inr arr"
| "v3_push_events C (ev # events) arr =
     and_then (v3_to_value C ev) (\<lambda>document. v3_push_events C events (c_push C arr document))"

definition v3_json_encode_batch :: "'j codec \<Rightarrow> 'j v3_event list \<Rightarrow> string result" where
  "v3_json_encode_batch C events =
     and_then (v3_push_events C events (c_make_array C)) (\<lambda>arr. Inr (c_dump C arr))"

section \<open>Reading\<close>

definition v3_store_time :: "'j codec \<Rightarrow> 'j member_ref option \<Rightarrow> 'j v3_options \<Rightarrow> 'j v3_options result" where
  "v3_store_time C member into =
     and_then (optional_text_of C member ''time'') (\<lambda>txt.
       case txt of
         Some present \<Rightarrow> and_then_at (parse_timestamp present) ''time'' (\<lambda>parsed. Inr (into\<lparr>v3_time := Some parsed\<rparr>))
       | None \<Rightarrow> Inr into)"

definition v3_read_context :: "'j codec \<Rightarrow> 'j members \<Rightarrow> 'j v3_builder \<Rightarrow> 'j v3_builder result" where
  "v3_read_context C found into =
     and_then (required_text_of C (mm_specversion found) ''specversion'') (\<lambda>version.
     and_then (spec_version_make version) (\<lambda>_.
     and_then (store_required C id_policy (mm_id found) ''id'') (\<lambda>slot. let into = into\<lparr>v3b_id := slot\<rparr> in
     and_then (store_required C source_policy (mm_source found) ''source'') (\<lambda>slot. let into = into\<lparr>v3b_source := slot\<rparr> in
     and_then (store_required C type_policy (mm_type found) ''type'') (\<lambda>slot. let into = into\<lparr>v3b_type := slot\<rparr> in
     and_then (store_optional C datacontenttype_policy (mm_datacontenttype found) ''datacontenttype''
       (v3_datacontenttype (v3b_rest into))) (\<lambda>slot. let into = into\<lparr>v3b_rest := v3b_rest into\<lparr>v3_datacontenttype := slot\<rparr>\<rparr> in
     and_then (store_optional C dataschema_policy (mm_dataschema found) ''dataschema''
       (v3_dataschema (v3b_rest into))) (\<lambda>slot. let into = into\<lparr>v3b_rest := v3b_rest into\<lparr>v3_dataschema := slot\<rparr>\<rparr> in
     and_then (store_optional C subject_policy (mm_subject found) ''subject''
       (v3_subject (v3b_rest into))) (\<lambda>slot. let into = into\<lparr>v3b_rest := v3b_rest into\<lparr>v3_subject := slot\<rparr>\<rparr> in
     and_then (v3_store_time C (mm_time found) (v3b_rest into)) (\<lambda>rest.
     Inr (into\<lparr>v3b_rest := rest\<rparr>))))))))))"

definition v3_read_extension :: "'j codec \<Rightarrow> string \<Rightarrow> 'j \<Rightarrow> 'j v3_options \<Rightarrow> unit result \<times> 'j v3_options" where
  "v3_read_extension C name member into =
     (if c_kind_of C member = K_null then (Inr (), into)
      else (case make_validated extension_name_policy name of
          Inl e \<Rightarrow> (forward_failure_at e name, into)
        | Inr attribute \<Rightarrow>
            (case decode_attribute C member of
               Inl e \<Rightarrow> (forward_failure_at e name, into)
             | Inr decoded \<Rightarrow>
                 (Inr (), into\<lparr>v3_extensions := om_insert_or_assign attribute decoded (v3_extensions into)\<rparr>))))"

fun v3_visit_members ::
  "'j codec \<Rightarrow> (string \<times> 'j) list \<Rightarrow> nat \<Rightarrow> 'j members \<Rightarrow> unit result \<Rightarrow> 'j v3_options \<Rightarrow>
   'j members \<times> unit result \<times> 'j v3_options"
where
  "v3_visit_members C [] i found extensions_read rest = (found, extensions_read, rest)"
| "v3_visit_members C ((name, member) # ms) i found extensions_read rest =
     (case claim found name (i, member) of (claimed, found) \<Rightarrow>
        if claimed \<or> \<not> is_ok extensions_read
        then v3_visit_members C ms (Suc i) found extensions_read rest
        else (case v3_read_extension C name member rest of (extensions_read, rest) \<Rightarrow>
            v3_visit_members C ms (Suc i) found extensions_read rest))"

definition v3_json_payload ::
  "'j codec \<Rightarrow> nat \<Rightarrow> 'j member_ref \<Rightarrow> 'j option \<Rightarrow> payload_mode \<Rightarrow> string option \<Rightarrow> 'j v3_data" where
  "v3_json_payload C fresh data owned mode own_text =
     (case mode of
        P_text \<Rightarrow> V3_json_text (case own_text of Some txt \<Rightarrow> txt | None \<Rightarrow> c_dump C (snd data))
      | P_copy \<Rightarrow> V3_document (v3_document_make C fresh (c_copy C (snd data)))
      | P_move \<Rightarrow>
          (case owned of
             None \<Rightarrow> V3_document (v3_document_make C fresh (c_copy C (snd data)))
           | Some document \<Rightarrow>
               if c_find C document ''data'' \<noteq> Some (fst data)
               then V3_document (v3_document_make C fresh (c_copy C (snd data)))
               else V3_document (v3_document_make C fresh (c_extract C document ''data''))))"

definition v3_decode_data ::
  "'j codec \<Rightarrow> nat \<Rightarrow> 'j members \<Rightarrow> 'j option \<Rightarrow> payload_mode \<Rightarrow> string option \<Rightarrow> bool \<Rightarrow> 'j v3_options \<Rightarrow>
   ('j v3_options \<times> 'j option) result" where
  "v3_decode_data C fresh found owned mode own_text wants_member into =
     (if mm_data found \<noteq> None \<and> mm_data_base64 found \<noteq> None
      then fail data_conflict ''data and data_base64 are mutually exclusive'' ''data''
      else (case mm_data_base64 found of
          Some (_, member) \<Rightarrow>
            (case c_as_string C member of
               Inl _ \<Rightarrow> fail invalid_attribute_value ''data_base64 must be a JSON string'' ''data_base64''
             | Inr txt \<Rightarrow> and_then_at (base64_decode txt) ''data_base64''
                 (\<lambda>decoded. Inr (into\<lparr>v3_data := V3_binary decoded\<rparr>, None)))
        | None \<Rightarrow>
            (case mm_data found of
               None \<Rightarrow> Inr (into, None)
             | Some data \<Rightarrow>
                 let declared_non_json = (case v3_datacontenttype into of
                       Some media \<Rightarrow> \<not> is_json_content_type media | None \<Rightarrow> False)
                 in if declared_non_json \<and> c_kind_of C (snd data) = K_string
                    then (case c_as_string C (snd data) of
                        Inl _ \<Rightarrow> fail invalid_attribute_value ''data must be a JSON string'' ''data''
                      | Inr txt \<Rightarrow> Inr (into\<lparr>v3_data := V3_text txt\<rparr>, None))
                    else Inr (into\<lparr>v3_data := v3_json_payload C fresh data owned mode own_text\<rparr>,
                           if wants_member \<and> mode \<noteq> P_move then Some (snd data) else None))))"

definition v3_read_event ::
  "'j codec \<Rightarrow> nat \<Rightarrow> 'j \<Rightarrow> 'j option \<Rightarrow> payload_mode \<Rightarrow> string option \<Rightarrow> bool \<Rightarrow> ('j v3_event \<times> 'j option) result" where
  "v3_read_event C fresh document owned mode own_text wants_member =
     (if c_kind_of C document \<noteq> K_object
      then fail parse_error ''a CloudEvent must be a JSON object'' ''''
      else (case v3_visit_members C (c_members C document) 0 no_members (Inr ()) (v3b_rest v3_new_builder) of
          (found, extensions_read, rest) \<Rightarrow>
            and_then (v3_read_context C found (v3_new_builder\<lparr>v3b_rest := rest\<rparr>)) (\<lambda>under_construction.
            and_then (v3_decode_data C fresh found owned mode own_text wants_member (v3b_rest under_construction)) (\<lambda>(rest, json_member).
            and_then extensions_read (\<lambda>_.
            and_then (v3_build (under_construction\<lparr>v3b_rest := rest\<rparr>)) (\<lambda>ev. Inr (ev, json_member)))))))"

record ('j, 'a) v3_reader =
  v3_keeps_event :: bool
  v3_reads :: "'j v3_event \<Rightarrow> 'j option \<Rightarrow> 'a result"

definition v3_keep_event :: "('j, 'j v3_event) v3_reader" where
  "v3_keep_event = \<lparr>v3_keeps_event = True, v3_reads = (\<lambda>ev _. Inr ev)\<rparr>"

definition v3_typed_reader :: "('j v3_event \<Rightarrow> 'j option \<Rightarrow> 'a result) \<Rightarrow> ('j, 'a) v3_reader" where
  "v3_typed_reader read = \<lparr>v3_keeps_event = False, v3_reads = read\<rparr>"

definition v3_from_value_reading :: "'j codec \<Rightarrow> nat \<Rightarrow> ('j, 'a) v3_reader \<Rightarrow> 'j \<Rightarrow> 'a result" where
  "v3_from_value_reading C fresh R document =
     and_then (v3_read_event C fresh document None P_copy None (\<not> v3_keeps_event R)) (\<lambda>(ev, json_member). v3_reads R ev json_member)"

definition v3_from_value :: "'j codec \<Rightarrow> nat \<Rightarrow> 'j \<Rightarrow> 'j v3_event result" where
  "v3_from_value C fresh document = v3_from_value_reading C fresh v3_keep_event document"

definition v3_decode_reading :: "'j codec \<Rightarrow> nat \<Rightarrow> ('j, 'a) v3_reader \<Rightarrow> string \<Rightarrow> decode_options \<Rightarrow> 'a result" where
  "v3_decode_reading C fresh R txt options =
     and_then_at (c_parse C txt) '''' (\<lambda>document.
       and_then (if retains txt options
           then v3_read_event C fresh document (Some document) P_move None (\<not> v3_keeps_event R)
           else v3_read_event C fresh document (Some document) P_text (data_member_text txt) (\<not> v3_keeps_event R))
         (\<lambda>(ev, json_member). v3_reads R ev json_member))"

definition v3_json_decode :: "'j codec \<Rightarrow> nat \<Rightarrow> string \<Rightarrow> decode_options \<Rightarrow> 'j v3_event result" where
  "v3_json_decode C fresh txt options = v3_decode_reading C fresh v3_keep_event txt options"

fun v3_visit_elements ::
  "'j codec \<Rightarrow> nat \<Rightarrow> ('j, 'a) v3_reader \<Rightarrow> payload_mode \<Rightarrow> batch_slices \<Rightarrow> 'j list \<Rightarrow> 'a list result"
where
  "v3_visit_elements C fresh R mode own_texts [] = Inr []"
| "v3_visit_elements C fresh R mode own_texts (element # elements) =
     (case (if mode = P_text then next_slice own_texts else (None, own_texts)) of (own_text, own_texts) \<Rightarrow>
        and_then (v3_read_event C fresh element (Some element) mode own_text (\<not> v3_keeps_event R)) (\<lambda>(ev, json_member).
        and_then (v3_reads R ev json_member) (\<lambda>out.
        and_then (v3_visit_elements C (Suc fresh) R mode own_texts elements) (\<lambda>events. Inr (out # events)))))"

definition v3_decode_batch_reading ::
  "'j codec \<Rightarrow> nat \<Rightarrow> ('j, 'a) v3_reader \<Rightarrow> string \<Rightarrow> decode_options \<Rightarrow> 'a list result" where
  "v3_decode_batch_reading C fresh R txt options =
     and_then_at (c_parse C txt) '''' (\<lambda>document.
       if c_kind_of C document \<noteq> K_array then fail parse_error ''a batch must be a JSON array'' ''''
       else
         let event_count = c_size_of C document;
             mode = (if retains_batch (length txt) event_count options then P_move else P_text)
         in v3_visit_elements C fresh R mode (batch_data_slices txt) (c_elements C document))"

definition v3_json_decode_batch :: "'j codec \<Rightarrow> nat \<Rightarrow> string \<Rightarrow> decode_options \<Rightarrow> 'j v3_event list result" where
  "v3_json_decode_batch C fresh txt options = v3_decode_batch_reading C fresh v3_keep_event txt options"

section \<open>The entry points of a typed reader\<close>

definition v3_typed_decode ::
  "'j codec \<Rightarrow> nat \<Rightarrow> ('j v3_event \<Rightarrow> 'j option \<Rightarrow> 'a result) \<Rightarrow> string \<Rightarrow> decode_options \<Rightarrow> 'a result" where
  "v3_typed_decode C fresh read txt options = v3_decode_reading C fresh (v3_typed_reader read) txt options"

definition v3_typed_decode_batch ::
  "'j codec \<Rightarrow> nat \<Rightarrow> ('j v3_event \<Rightarrow> 'j option \<Rightarrow> 'a result) \<Rightarrow> string \<Rightarrow> decode_options \<Rightarrow> 'a list result" where
  "v3_typed_decode_batch C fresh read txt options = v3_decode_batch_reading C fresh (v3_typed_reader read) txt options"

definition v3_typed_from_value :: "'j codec \<Rightarrow> nat \<Rightarrow> ('j v3_event \<Rightarrow> 'j option \<Rightarrow> 'a result) \<Rightarrow> 'j \<Rightarrow> 'a result" where
  "v3_typed_from_value C fresh read document = v3_from_value_reading C fresh (v3_typed_reader read) document"

definition v3_typed_to_value :: "'j codec \<Rightarrow> 'j v3_event \<Rightarrow> string \<Rightarrow> 'j \<Rightarrow> 'j result" where
  "v3_typed_to_value C ev media payload =
     v3_to_value_writing C ev (Some media) (\<lambda>root. Inr (c_set C root ''data'' payload))"


section \<open>The same text is written\<close>

lemma v3_document_of:
  "v3_document_get C \<lparr>v3_address = doc_address d, v3_model = doc_model d\<rparr> = document_get C d"
  "v3_document_dump \<lparr>v3_address = doc_address d, v3_model = doc_model d\<rparr> = document_dump d"
  by (simp_all add: v3_document_get_def v3_built_by_def document_get_def built_by_def v3_document_dump_def document_dump_def)

lemma v3_encode_data_of: "v3_encode_data C (v3_data_of data) = encode_data C data"
  by (cases data) (simp_all add: fun_eq_iff v3_encode_data_def encode_data_def v3_data_of_simps v3_document_of
      split: option.split)

lemma v3_set_extensions_of: "v3_set_extensions C exts root = set_extensions C exts root"
proof (induction C exts root rule: v3_set_extensions.induct)
  case (2 C n a exts root)
  then show ?case by (cases "encode_attribute C a") simp_all
qed simp

lemma v3_to_value_writing_of: "v3_to_value_writing C (to_v3 ev) media write = to_value_writing C ev media write"
  by (simp add: v3_to_value_writing_def to_value_writing_def v3_set_extensions_of)

lemma v3_to_value_of: "v3_to_value C (to_v3 ev) = to_value C ev"
  by (simp add: v3_to_value_def to_value_def v3_to_value_writing_of v3_encode_data_of)

lemma v3_encode_of: "v3_json_encode C (to_v3 ev) = json_encode C ev"
  by (simp add: v3_json_encode_def json_encode_def v3_to_value_of)

lemma v3_encode_batch_of: "v3_json_encode_batch C (map to_v3 evs) = json_encode_batch C evs"
proof -
  have "v3_push_events C (map to_v3 evs) arr = push_events C evs arr" for arr
    by (induction evs arbitrary: arr) (auto simp: v3_to_value_of intro: and_then_cong)
  then show ?thesis by (simp add: v3_json_encode_batch_def json_encode_batch_def)
qed


section \<open>The same event is read\<close>

lemma v3_store_time_of: "v3_store_time C m (v3_options_of r) = on_ok v3_options_of (store_time C m r)"
  by (simp add: v3_store_time_def store_time_def on_ok_and_then on_ok_and_then_at v3_images option.case_distrib
      cong: option.case_cong)

lemma v3_read_context_of: "v3_read_context C found (v3_builder_of b) = on_ok v3_builder_of (read_context C found b)"
proof -
  have "v3_store_time C m (v3_options_of r\<lparr>v3_datacontenttype := c, v3_dataschema := d, v3_subject := s\<rparr>) =
      on_ok v3_options_of (store_time C m (r\<lparr>o_datacontenttype := c, o_dataschema := d, o_subject := s\<rparr>))" for m r c d s
    using v3_store_time_of [of C m "r\<lparr>o_datacontenttype := c, o_dataschema := d, o_subject := s\<rparr>"]
    by (simp add: v3_images)
  then show ?thesis
    by (simp add: v3_read_context_def read_context_def on_ok_and_then and_then_on_ok Let_def v3_images)
qed

lemma v3_read_extension_of:
  "v3_read_extension C name member (v3_options_of r) = map_prod id v3_options_of (read_extension C name member r)"
  by (simp add: v3_read_extension_def read_extension_def v3_images split: sum.split)

lemma v3_visit_members_of:
  "v3_visit_members C ms i found x (v3_options_of r) =
     map_prod id (map_prod id v3_options_of) (visit_members C ms i found x r)"
  by (induction C ms i found x r rule: visit_members.induct)
    (auto simp: v3_read_extension_of split: prod.split)

lemma v3_json_payload_of:
  "v3_json_payload C fresh data owned mode own_text = v3_data_of (json_payload C fresh data owned mode own_text)"
  by (simp add: v3_json_payload_def json_payload_def v3_data_of_simps(4) split: payload_mode.split option.split)

lemma v3_decode_data_of:
  "v3_decode_data C fresh found owned mode own_text wants (v3_options_of r) =
     on_ok (map_prod v3_options_of id) (decode_data C fresh found owned mode own_text wants r)"
  by (simp add: v3_decode_data_def decode_data_def on_ok_and_then_at v3_images Let_def v3_json_payload_of v3_data_of_simps
      split: option.split sum.split)

lemma v3_read_event_of:
  fixes C :: "'j codec"
  shows "v3_read_event C fresh document owned mode own_text wants =
    on_ok (map_prod to_v3 id) (read_event C fresh document owned mode own_text wants)"
proof (cases "c_kind_of C document = K_object")
  case True
  obtain found x rest where v: "visit_members C (c_members C document) 0 no_members (Inr ()) (b_rest new_builder) = (found, x, rest)"
    by (metis prod_cases3)
  note new = v3_new_builder_of [where 'a = 'j, symmetric]
  have "v3_visit_members C (c_members C document) 0 no_members (Inr ()) (v3b_rest v3_new_builder) = (found, x, v3_options_of rest)"
    using v3_visit_members_of [of C "c_members C document" 0 no_members "Inr ()" "b_rest new_builder"] v
    by (simp add: new)
  moreover have "v3_new_builder\<lparr>v3b_rest := v3_options_of rest\<rparr> = v3_builder_of (new_builder\<lparr>b_rest := rest\<rparr>)"
    by (simp add: v3_images new)
  ultimately show ?thesis
    using True v
    by (simp add: v3_read_event_def read_event_def v3_read_context_of and_then_on_ok on_ok_and_then and_then_Inr
        v3_decode_data_of v3_builder_upd(4) [symmetric] v3_build_of case_prod_unfold)
qed (simp add: v3_read_event_def read_event_def)

text \<open>A reader of third-generation events as one of current events.\<close>

definition reader_on_v3 :: "('j, 'a) v3_reader \<Rightarrow> ('j, 'a) reader" where
  "reader_on_v3 R = \<lparr>keeps_event = v3_keeps_event R, reads = (\<lambda>ev. v3_reads R (to_v3 ev))\<rparr>"

lemma v3_decode_reading_of: "v3_decode_reading C fresh R t options = decode_reading C fresh (reader_on_v3 R) t options"
  by (cases "retains t options")
    (simp_all add: v3_decode_reading_def decode_reading_def v3_read_event_of and_then_on_ok reader_on_v3_def case_prod_unfold)

lemma v3_visit_elements_of:
  "v3_visit_elements C fresh R mode texts els = visit_elements C fresh (reader_on_v3 R) mode texts els"
  by (induction els arbitrary: fresh texts)
    (simp_all add: v3_read_event_of and_then_on_ok reader_on_v3_def case_prod_unfold)

lemma v3_decode_batch_reading_of:
  "v3_decode_batch_reading C fresh R t options = decode_batch_reading C fresh (reader_on_v3 R) t options"
  by (simp add: v3_decode_batch_reading_def decode_batch_reading_def v3_visit_elements_of Let_def cong: if_cong)

text \<open>A function on what a reader makes of the events of a batch.\<close>

definition mapped_reader :: "('a \<Rightarrow> 'b) \<Rightarrow> ('j, 'a) reader \<Rightarrow> ('j, 'b) reader" where
  "mapped_reader f R = \<lparr>keeps_event = keeps_event R, reads = (\<lambda>ev m. on_ok f (reads R ev m))\<rparr>"

lemma keep_event_on_v3: "reader_on_v3 v3_keep_event = mapped_reader to_v3 keep_event"
  by (simp add: reader_on_v3_def v3_keep_event_def keep_event_def mapped_reader_def)

lemma decode_mapped:
  "decode_reading C fresh (mapped_reader f R) t options = on_ok f (decode_reading C fresh R t options)"
  by (cases "retains t options")
    (simp_all add: decode_reading_def mapped_reader_def on_ok_and_then_at on_ok_and_then case_prod_unfold)

lemma v3_decode_of: "v3_json_decode C fresh t options = on_ok to_v3 (json_decode C fresh t options)"
  by (simp add: v3_json_decode_def json_decode_def v3_decode_reading_of keep_event_on_v3 decode_mapped)

lemma visit_elements_mapped:
  "visit_elements C fresh (mapped_reader f R) mode texts els = on_ok (map f) (visit_elements C fresh R mode texts els)"
  by (induction els arbitrary: fresh texts)
    (simp_all add: mapped_reader_def on_ok_and_then and_then_on_ok and_then_Inr case_prod_unfold)

lemma decode_batch_mapped:
  "decode_batch_reading C fresh (mapped_reader f R) t options = on_ok (map f) (decode_batch_reading C fresh R t options)"
  by (simp add: decode_batch_reading_def visit_elements_mapped on_ok_and_then_at if_distrib [of "on_ok (map f)"] Let_def
      cong: if_cong)

lemma v3_decode_batch_of: "v3_json_decode_batch C fresh t options = on_ok (map to_v3) (json_decode_batch C fresh t options)"
  by (simp add: v3_json_decode_batch_def json_decode_batch_def v3_decode_batch_reading_of keep_event_on_v3
      decode_batch_mapped)

end
