(* ===== verification/V3_Bindings.thy ===== *)
theory V3_Bindings
  imports V3_Format Generations
begin

text \<open>
  \<open>include/cloudevents/v3/binding\<close>: the HTTP, Kafka and NATS bindings of the third generation. A
  binary-mode body is kept as text or octets, and structured mode decodes with the default options.
  The functions that do not mention an event have the text of the current ones, whose definitions
  stand for both.
\<close>

section \<open>What the bindings share\<close>

definition v3_apply_attribute :: "traits \<Rightarrow> 'j v3_builder \<Rightarrow> string \<Rightarrow> string \<Rightarrow> 'j v3_builder result" where
  "v3_apply_attribute T into attribute v =
     (if attribute = ''datacontenttype''
      then if t_content_type_as_attribute T
           then and_then (store_attribute datacontenttype_policy v)
             (\<lambda>slot. Inr (into\<lparr>v3b_rest := v3b_rest into\<lparr>v3_datacontenttype := slot\<rparr>\<rparr>))
           else fail invalid_argument
             ''this binding carries datacontenttype in its content-type field, not as a prefixed attribute'' attribute
      else if attribute = ''specversion'' then and_then (spec_version_make v) (\<lambda>_. Inr into)
      else if attribute = ''id'' then and_then (store_attribute id_policy v) (\<lambda>slot. Inr (into\<lparr>v3b_id := slot\<rparr>))
      else if attribute = ''source'' then and_then (store_attribute source_policy v) (\<lambda>slot. Inr (into\<lparr>v3b_source := slot\<rparr>))
      else if attribute = ''type'' then and_then (store_attribute type_policy v) (\<lambda>slot. Inr (into\<lparr>v3b_type := slot\<rparr>))
      else if attribute = ''dataschema''
      then and_then (store_attribute dataschema_policy v) (\<lambda>slot. Inr (into\<lparr>v3b_rest := v3b_rest into\<lparr>v3_dataschema := slot\<rparr>\<rparr>))
      else if attribute = ''subject''
      then and_then (store_attribute subject_policy v) (\<lambda>slot. Inr (into\<lparr>v3b_rest := v3b_rest into\<lparr>v3_subject := slot\<rparr>\<rparr>))
      else if attribute = ''time''
      then and_then_at (parse_timestamp v) ''time'' (\<lambda>parsed. Inr (into\<lparr>v3b_rest := v3b_rest into\<lparr>v3_time := Some parsed\<rparr>\<rparr>))
      else and_then (make_validated extension_name_policy attribute) (\<lambda>extension.
        Inr (into\<lparr>v3b_rest := v3b_rest into\<lparr>v3_extensions :=
          om_insert_or_assign extension (Str v) (v3_extensions (v3b_rest into))\<rparr>\<rparr>)))"

definition v3_write_attributes :: "traits \<Rightarrow> 'j v3_event \<Rightarrow> raw_headers \<Rightarrow> writing" where
  "v3_write_attributes T ev into =
     (let w = (Inr (), into);
          w = put_attribute T ''specversion'' spec_version_view w;
          w = put_attribute T ''id'' (v3_id ev) w;
          w = put_attribute T ''source'' (v3_source ev) w;
          w = put_attribute T ''type'' (v3_type ev) w;
          w = put_present T ''dataschema'' (v3_dataschema (v3_rest ev)) w;
          w = put_present T ''subject'' (v3_subject (v3_rest ev)) w;
          w = put_present T ''time'' (map_option to_string (v3_time (v3_rest ev))) w;
          (failure, into) = put_extensions T (v3_extensions (v3_rest ev)) w
      in if \<not> is_ok failure then (failure, into)
         else (case v3_datacontenttype (v3_rest ev) of
             None \<Rightarrow> (failure, into)
           | Some media \<Rightarrow>
               if t_content_type_as_attribute T then put_attribute T ''datacontenttype'' media (failure, into)
               else (failure, put T (t_content_type_header T) media into)))"

fun v3_read_fields :: "traits \<Rightarrow> raw_headers \<Rightarrow> 'j v3_builder \<Rightarrow> 'j v3_builder result" where
  "v3_read_fields T [] b = Inr b"
| "v3_read_fields T ((name, raw_value) # rest) b =
     (if \<not> carries_prefix T name then v3_read_fields T rest b
      else let attribute = attribute_name_of T name
        in and_then_at (t_decode_value T raw_value) attribute (\<lambda>decoded.
           and_then (v3_apply_attribute T b attribute decoded) (\<lambda>b. v3_read_fields T rest b)))"

definition v3_read_attributes :: "traits \<Rightarrow> raw_headers \<Rightarrow> 'j v3_builder result" where
  "v3_read_attributes T delivered =
     (case first_repeated_name T delivered of
        Some repeated \<Rightarrow> fail invalid_argument
          ''two fields carry the same attribute, so which one is meant is undecidable'' repeated
      | None \<Rightarrow> v3_read_fields T delivered v3_new_builder)"

definition v3_write_body :: "'j v3_event \<Rightarrow> message \<Rightarrow> message" where
  "v3_write_body ev into =
     (case v3_data (v3_rest ev) of
        V3_none \<Rightarrow> into
      | V3_binary held \<Rightarrow> into\<lparr>body := held\<rparr>
      | V3_text held \<Rightarrow> into\<lparr>body := to_bytes held\<rparr>
      | V3_document held \<Rightarrow> into\<lparr>body := to_bytes (v3_document_dump held)\<rparr>
      | V3_json_text held \<Rightarrow> into\<lparr>body := to_bytes held\<rparr>)"

definition v3_read_body :: "binary \<Rightarrow> string option \<Rightarrow> 'j v3_data" where
  "v3_read_body b media =
     (if b = [] then V3_none
      else if (case media of Some m \<Rightarrow> is_json_content_type m | None \<Rightarrow> False) then V3_json_text (to_text b)
      else V3_binary b)"

definition v3_encode_structured :: "traits \<Rightarrow> 'j codec \<Rightarrow> 'j v3_event \<Rightarrow> message result" where
  "v3_encode_structured T C ev =
     and_then (v3_json_encode C ev) (\<lambda>txt.
       Inr (empty_message\<lparr>header_fields := put T (t_content_type_header T) json_content_type [], body := to_bytes txt\<rparr>))"

definition v3_decode_structured :: "'j codec \<Rightarrow> nat \<Rightarrow> message \<Rightarrow> 'j v3_event result" where
  "v3_decode_structured C fresh incoming = v3_json_decode C fresh (text_of (body incoming)) default_decode_options"

text \<open>The end of every reader of a binary-mode message.\<close>

definition v3_declare_media_type :: "string option \<Rightarrow> 'j v3_builder \<Rightarrow> 'j v3_builder result" where
  "v3_declare_media_type declared b =
     (case declared of
        None \<Rightarrow> Inr b
      | Some m \<Rightarrow> and_then (make_validated datacontenttype_policy m)
          (\<lambda>media. Inr (b\<lparr>v3b_rest := v3b_rest b\<lparr>v3_datacontenttype := Some media\<rparr>\<rparr>)))"

definition v3_build_with_body :: "binary \<Rightarrow> 'j v3_builder \<Rightarrow> 'j v3_event result" where
  "v3_build_with_body b under_construction =
     v3_build (under_construction\<lparr>v3b_rest := v3b_rest under_construction\<lparr>v3_data :=
       v3_read_body b (v3_datacontenttype (v3b_rest under_construction))\<rparr>\<rparr>)"


section \<open>HTTP\<close>

definition v3_http_to_message :: "value_policy \<Rightarrow> 'j codec \<Rightarrow> 'j v3_event \<Rightarrow> content_mode \<Rightarrow> message result" where
  "v3_http_to_message V C ev mode =
     (if mode = structured then v3_encode_structured (http_traits V) C ev
      else if mode = batched
      then fail invalid_argument ''a batch carries several events; use to_batch_message'' ''''
      else (case v3_write_attributes (http_traits V) ev [] of (written, hs) \<Rightarrow>
        and_then written (\<lambda>_. Inr (v3_write_body ev (empty_message\<lparr>header_fields := hs\<rparr>)))))"

definition v3_http_to_batch_message :: "'j codec \<Rightarrow> 'j v3_event list \<Rightarrow> message result" where
  "v3_http_to_batch_message C events =
     and_then (v3_json_encode_batch C events) (\<lambda>txt.
       Inr (empty_message\<lparr>header_fields := set_field http_content_type_header json_batch_content_type [],
         body := to_bytes txt\<rparr>))"

definition v3_http_from_message :: "value_policy \<Rightarrow> 'j codec \<Rightarrow> nat \<Rightarrow> message \<Rightarrow> 'j v3_event result" where
  "v3_http_from_message V C fresh request =
     (let mode = http_detect_content_mode request
      in if mode = structured then v3_decode_structured C fresh request
         else if mode = batched
         then fail invalid_argument ''this message is a batch; use from_batch_message'' ''''
         else if \<not> contains ''ce-specversion'' (header_fields request)
         then fail not_a_cloudevent ''no ce-specversion header and no CloudEvents content type'' ''''
         else and_then (v3_read_attributes (http_traits V) (header_fields request)) (\<lambda>b.
           and_then (v3_declare_media_type (find_field http_content_type_header (header_fields request)) b)
             (v3_build_with_body (body request))))"

definition v3_http_from_batch_message :: "'j codec \<Rightarrow> nat \<Rightarrow> message \<Rightarrow> 'j v3_event list result" where
  "v3_http_from_batch_message C fresh request =
     (if http_detect_content_mode request \<noteq> batched
      then fail not_a_cloudevent ''the content type is not a CloudEvents batch'' ''''
      else v3_json_decode_batch C fresh (text_of (body request)) default_decode_options)"


section \<open>Kafka\<close>

definition v3_kafka_to_message :: "'j codec \<Rightarrow> 'j v3_event \<Rightarrow> content_mode \<Rightarrow> message result" where
  "v3_kafka_to_message C ev mode =
     (if mode = batched then fail invalid_argument ''the Kafka binding defines no batch mode'' ''''
      else if mode = structured then v3_encode_structured kafka_traits C ev
      else (case v3_write_attributes kafka_traits ev [] of (written, hs) \<Rightarrow>
        and_then written (\<lambda>_. Inr (v3_write_body ev (empty_message\<lparr>header_fields := hs\<rparr>)))))"

definition v3_kafka_from_message :: "'j codec \<Rightarrow> nat \<Rightarrow> message \<Rightarrow> 'j v3_event result" where
  "v3_kafka_from_message C fresh incoming =
     (let mode = kafka_detect_content_mode incoming
      in if mode = batched then fail invalid_argument ''the Kafka binding defines no batch mode'' ''''
         else if mode = structured then v3_decode_structured C fresh incoming
         else if \<not> contains_exact ''ce_specversion'' (header_fields incoming)
         then fail not_a_cloudevent ''no ce_specversion header and no CloudEvents content type'' ''''
         else and_then (v3_read_attributes kafka_traits (header_fields incoming)) (\<lambda>b.
           and_then (v3_declare_media_type (find_exact kafka_content_type_header (header_fields incoming)) b)
             (v3_build_with_body (body incoming))))"

definition v3_no_key_of :: "'j v3_event \<Rightarrow> string option" where
  "v3_no_key_of ev = None"

definition v3_partitionkey_of :: "'j v3_event \<Rightarrow> string option" where
  "v3_partitionkey_of ev =
     (case v3_extension ''partitionkey'' ev of None \<Rightarrow> None | Some stored \<Rightarrow> Some (render_attribute stored))"

definition v3_to_record :: "('j v3_event \<Rightarrow> string option) \<Rightarrow> 'j codec \<Rightarrow> 'j v3_event \<Rightarrow> content_mode \<Rightarrow> kafka_record result" where
  "v3_to_record key_of C ev mode =
     and_then (v3_kafka_to_message C ev mode) (\<lambda>laid_out. Inr \<lparr>kr_value = laid_out, kr_key = key_of ev\<rparr>)"


section \<open>NATS\<close>

definition v3_nats_to_payload :: "'j codec \<Rightarrow> 'j v3_event \<Rightarrow> string result" where
  "v3_nats_to_payload C ev = v3_json_encode C ev"

definition v3_nats_from_payload :: "'j codec \<Rightarrow> nat \<Rightarrow> string \<Rightarrow> 'j v3_event result" where
  "v3_nats_from_payload C fresh payload = v3_json_decode C fresh payload default_decode_options"

definition v3_nats_to_message :: "'j codec \<Rightarrow> 'j v3_event \<Rightarrow> content_mode \<Rightarrow> message result" where
  "v3_nats_to_message C ev mode =
     (if mode = batched then fail invalid_argument ''the NATS binding defines no batch mode'' ''''
      else if mode = structured then v3_encode_structured nats_traits C ev
      else (case v3_write_attributes nats_traits ev [] of (written, hs) \<Rightarrow>
        and_then written (\<lambda>_. Inr (v3_write_body ev (empty_message\<lparr>header_fields := hs\<rparr>)))))"

definition v3_nats_from_message :: "'j codec \<Rightarrow> nat \<Rightarrow> message \<Rightarrow> 'j v3_event result" where
  "v3_nats_from_message C fresh incoming =
     (if nats_detect_content_mode incoming = structured then v3_decode_structured C fresh incoming
      else if \<not> contains ''ce-specversion'' (header_fields incoming)
      then fail not_a_cloudevent ''no ce-specversion header and no CloudEvents content type'' ''''
      else and_then (v3_read_attributes nats_traits (header_fields incoming)) (v3_build_with_body (body incoming)))"


section \<open>The same messages are written\<close>

lemma v3_write_attributes_of: "v3_write_attributes T (to_v3 ev) = write_attributes T ev"
  unfolding v3_write_attributes_def write_attributes_def to_v3_sel v3_options_sel by simp

lemma v3_write_body_of: "v3_write_body (to_v3 ev) = write_body ev"
  by (cases "o_data (e_rest ev)")
    (simp_all add: fun_eq_iff v3_write_body_def write_body_def v3_data_of_simps v3_document_of)

lemma v3_encode_structured_of: "v3_encode_structured T C (to_v3 ev) = encode_structured T C ev"
  by (simp add: v3_encode_structured_def encode_structured_def v3_encode_of)

lemma v3_to_message_of:
  "v3_http_to_message V C (to_v3 ev) mode = http_to_message V C ev mode"
  "v3_kafka_to_message C (to_v3 ev) mode = kafka_to_message C ev mode"
  "v3_nats_to_message C (to_v3 ev) mode = nats_to_message C ev mode"
  "v3_http_to_batch_message C (map to_v3 evs) = http_to_batch_message C evs"
  by (simp_all add: v3_http_to_message_def http_to_message_def v3_kafka_to_message_def kafka_to_message_def
      v3_nats_to_message_def nats_to_message_def v3_encode_structured_of v3_write_attributes_of v3_write_body_of
      v3_http_to_batch_message_def http_to_batch_message_def v3_encode_batch_of)

lemma v3_keys: "v3_partitionkey_of (to_v3 ev) = partitionkey_of ev" "v3_no_key_of (to_v3 ev) = no_key_of ev"
  by (simp_all add: v3_partitionkey_of_def partitionkey_of_def v3_operations v3_no_key_of_def no_key_of_def)


section \<open>The same events are read\<close>

lemma v3_apply_attribute_of:
  "v3_apply_attribute T (v3_builder_of b) n s = on_ok v3_builder_of (apply_attribute T b n s)"
  by (simp add: v3_apply_attribute_def apply_attribute_def on_ok_and_then on_ok_and_then_at v3_images)

lemma v3_read_fields_of: "v3_read_fields T hs (v3_builder_of b) = on_ok v3_builder_of (read_fields T hs b)"
  by (induction T hs b rule: read_fields.induct)
    (simp_all add: v3_apply_attribute_of on_ok_and_then on_ok_and_then_at and_then_on_ok Let_def
      cong: and_then_cong)

lemma v3_read_attributes_of: "v3_read_attributes T hs = on_ok v3_builder_of (read_attributes T hs)"
  by (simp add: v3_read_attributes_def read_attributes_def v3_read_fields_of v3_new_builder_of [symmetric] split: option.split)

lemma v3_declare_media_type_of:
  "v3_declare_media_type declared (v3_builder_of b) = on_ok v3_builder_of (declare_media_type declared b)"
  by (simp add: v3_declare_media_type_def declare_media_type_def on_ok_and_then v3_images split: option.split)

lemma v3_build_with_body_of:
  assumes "\<not> parse_binary_body options"
  shows "v3_build_with_body bytes (v3_builder_of b) =
    on_ok to_v3 (and_then (read_body C fresh bytes (o_datacontenttype (b_rest b)) options)
      (\<lambda>payload. build (b\<lparr>b_rest := b_rest b\<lparr>o_data := payload\<rparr>\<rparr>)))"
proof -
  have d: "on_ok to_v3 (build (b\<lparr>b_rest := b_rest b\<lparr>o_data := d\<rparr>\<rparr>)) =
      v3_build ((v3_builder_of b)\<lparr>v3b_rest := (v3_options_of (b_rest b))\<lparr>v3_data := v3_data_of d\<rparr>\<rparr>)" for d
    by (simp add: v3_build_of [symmetric] v3_images)
  show ?thesis
    using assms
    by (auto simp: v3_build_with_body_def v3_read_body_def read_body_def Let_def text_of_def to_text_def d
        v3_data_of_simps split: option.split)
qed

lemma v3_binary_of:
  fixes C :: "'j codec"
  assumes "\<not> parse_binary_body options"
  shows "and_then (v3_read_attributes T hs) (\<lambda>b. and_then (v3_declare_media_type declared b) (v3_build_with_body bytes)) =
    on_ok to_v3 (and_then (read_attributes T hs) (\<lambda>b. and_then (declare_media_type declared b) (\<lambda>b.
      and_then (read_body C fresh bytes (o_datacontenttype (b_rest b)) options)
        (\<lambda>payload. build (b\<lparr>b_rest := b_rest b\<lparr>o_data := payload\<rparr>\<rparr>)))))"
  unfolding v3_read_attributes_of and_then_on_ok v3_declare_media_type_of
    v3_build_with_body_of [OF assms, where C = C and fresh = fresh] on_ok_and_then ..

text \<open>The options of the current generation that make it read as the third does.\<close>

definition v3_reading :: decode_options where
  "v3_reading = default_decode_options\<lparr>parse_binary_body := False\<rparr>"

lemma v3_decode_structured_of:
  "v3_decode_structured C fresh m = on_ok to_v3 (decode_structured C fresh m v3_reading)"
  by (simp add: v3_decode_structured_def decode_structured_def v3_decode_of json_decode_def decode_reading_def
      retains_def retains_text_of_def v3_reading_def)

text \<open>
  C25: the third generation is the current one on converted events. It writes the JSON text and the
  messages of the event that the conversion makes of a current event, singly and in a batch, and
  what it reads is the converted event or the error that the current generation reads, when that one
  leaves JSON bodies of binary mode unparsed as the third does.
\<close>

theorem third_generation_is_the_current_one:
  "v3_json_encode C (to_v3 ev) = json_encode C ev \<and>
   v3_json_encode_batch C (map to_v3 evs) = json_encode_batch C evs \<and>
   v3_json_decode C fresh t options = on_ok to_v3 (json_decode C fresh t options) \<and>
   v3_json_decode_batch C fresh t options = on_ok (map to_v3) (json_decode_batch C fresh t options) \<and>
   v3_http_to_message V C (to_v3 ev) mode = http_to_message V C ev mode \<and>
   v3_to_record v3_partitionkey_of C (to_v3 ev) mode = to_record partitionkey_of C ev mode \<and>
   v3_nats_to_message C (to_v3 ev) mode = nats_to_message C ev mode \<and>
   v3_http_from_message V C fresh m = on_ok to_v3 (http_from_message V C fresh m v3_reading) \<and>
   v3_kafka_from_message C fresh m = on_ok to_v3 (kafka_from_message C fresh m v3_reading) \<and>
   v3_nats_from_message C fresh m = on_ok to_v3 (nats_from_message C fresh m v3_reading)"
proof -
  have o: "\<not> parse_binary_body v3_reading" by (simp add: v3_reading_def)
  note b = v3_binary_of [OF o, where C = C and fresh = fresh]
  have "v3_http_from_message V C fresh m = on_ok to_v3 (http_from_message V C fresh m v3_reading)"
    by (simp add: v3_http_from_message_def http_from_message_def Let_def v3_decode_structured_of b)
  moreover have "v3_kafka_from_message C fresh m = on_ok to_v3 (kafka_from_message C fresh m v3_reading)"
    by (simp add: v3_kafka_from_message_def kafka_from_message_def Let_def v3_decode_structured_of b)
  moreover have "v3_nats_from_message C fresh m = on_ok to_v3 (nats_from_message C fresh m v3_reading)"
    using b [where declared = None]
    by (simp add: v3_nats_from_message_def nats_from_message_def Let_def v3_decode_structured_of v3_declare_media_type_def
        declare_media_type_def)
  ultimately show ?thesis
    by (simp add: v3_encode_of v3_encode_batch_of v3_decode_of v3_decode_batch_of v3_to_message_of v3_to_record_def to_record_def v3_keys)
qed

end
