(* ===== verification/Typed_Generations.thy ===== *)
theory Typed_Generations
  imports Typed_Payload V2_Compat V3_Bindings
begin

text \<open>
  Typed payloads of the earlier generations: \<open>v1/format/describe_json.hpp\<close> and
  \<open>format/typed_payload.hpp\<close> under \<open>v1\<close>, \<open>v2\<close> and \<open>v3\<close>. The second and the third generation convert
  described types with the current functions. A function that changes an event returns the changed
  event.
\<close>

section \<open>First generation: described types as JSON\<close>

fun v1_field_to_json :: "'j codec \<Rightarrow> field_value \<Rightarrow> 'j" where
  "v1_field_to_json C (V_optional v) = (case v of Some held \<Rightarrow> v1_field_to_json C held | None \<Rightarrow> c_make_null C)"
| "v1_field_to_json C (V_vector elements) =
     fold (\<lambda>element array. c_push C array (v1_field_to_json C element)) elements (c_make_array C)"
| "v1_field_to_json C (V_map entries) =
     fold (\<lambda>(key, element) obj. c_set C obj key (v1_field_to_json C element)) entries (c_make_object C)"
| "v1_field_to_json C (V_bool b) = c_make_bool C b"
| "v1_field_to_json C (V_string s) = c_make_string C s"
| "v1_field_to_json C (V_double d) = c_make_double C d"
| "v1_field_to_json C (V_int i) = c_make_int C i"

definition v1_to_json_value :: "'j codec \<Rightarrow> descriptor \<Rightarrow> field_value list \<Rightarrow> 'j" where
  "v1_to_json_value C D held =
     fold (\<lambda>(field, v) obj. c_set C obj (df_name field) (v1_field_to_json C v)) (zip D held) (c_make_object C)"

text \<open>
  One function for every member type; its two visitors are \<open>elements_from_json\<close> and
  \<open>members_from_json\<close>, which have the same text.
\<close>

fun v1_field_from_json :: "'j codec \<Rightarrow> field_type \<Rightarrow> 'j \<Rightarrow> string \<Rightarrow> field_value result" where
  "v1_field_from_json C (T_optional U) held loc =
     (if c_kind_of C held = K_null then Inr (V_optional None)
      else (case v1_field_from_json C U held loc of
          Inl e \<Rightarrow> Inl e
        | Inr inner \<Rightarrow> Inr (V_optional (Some inner))))"
| "v1_field_from_json C (T_vector U) held loc =
     (if c_kind_of C held \<noteq> K_array then fail type_mismatch ''expected a JSON array'' loc
      else map_sum id V_vector (elements_from_json (v1_field_from_json C U) (c_elements C held) loc []))"
| "v1_field_from_json C (T_map U) held loc =
     (if c_kind_of C held \<noteq> K_object then fail type_mismatch ''expected a JSON object'' loc
      else map_sum id V_map (members_from_json (v1_field_from_json C U) (c_members C held) []))"
| "v1_field_from_json C T_bool held loc =
     (case c_as_bool C held of
        Inl _ \<Rightarrow> fail type_mismatch ''expected a JSON boolean'' loc
      | Inr read \<Rightarrow> Inr (V_bool read))"
| "v1_field_from_json C T_string held loc =
     (case c_as_string C held of
        Inl _ \<Rightarrow> fail type_mismatch ''expected a JSON string'' loc
      | Inr read \<Rightarrow> Inr (V_string read))"
| "v1_field_from_json C T_double held loc =
     (case c_as_double C held of
        Inl _ \<Rightarrow> fail type_mismatch ''expected a JSON number'' loc
      | Inr read \<Rightarrow> Inr (V_double read))"
| "v1_field_from_json C U held loc =
     (case c_as_int C held of
        Inl _ \<Rightarrow> fail type_mismatch ''expected a JSON integer'' loc
      | Inr read \<Rightarrow>
          let (low, high) = (if U = T_int32 then (int32_min, int32_max) else (int64_min, int64_max))
          in if read < low \<or> read > high
             then fail out_of_range ''the integer does not fit the declared field'' loc
             else Inr (V_int read))"

fun v1_fields_from_json :: "'j codec \<Rightarrow> descriptor \<Rightarrow> 'j \<Rightarrow> field_value list result" where
  "v1_fields_from_json C [] document = Inr []"
| "v1_fields_from_json C (field # D) document =
     and_then
       (case c_find C document (df_name field) of
          None \<Rightarrow> Inr (df_initial field)
        | Some i \<Rightarrow> v1_field_from_json C (df_type field) (snd (c_members C document ! i)) (df_name field))
       (\<lambda>v. and_then (v1_fields_from_json C D document) (\<lambda>vs. Inr (v # vs)))"

definition v1_from_json_value :: "'j codec \<Rightarrow> descriptor \<Rightarrow> 'j \<Rightarrow> field_value list result" where
  "v1_from_json_value C D document =
     (if c_kind_of C document \<noteq> K_object then fail type_mismatch ''a described type decodes from a JSON object'' ''''
      else (case v1_fields_from_json C D document of
          Inl field_error \<Rightarrow> fail (err_code field_error) (err_detail field_error) (err_where field_error)
        | Inr out \<Rightarrow> Inr out))"


section \<open>First generation: typed payloads\<close>

definition v1_data_as :: "'j codec \<Rightarrow> descriptor \<Rightarrow> v1_event \<Rightarrow> field_value list result" where
  "v1_data_as C D ev =
     and_then
       (case v1_data ev of
          V1_json stored \<Rightarrow> Inr stored
        | V1_text plain \<Rightarrow>
            if case v1_datacontenttype ev of None \<Rightarrow> True | Some m \<Rightarrow> \<not> v1_is_json_content_type m
            then fail type_mismatch ''the payload is text but datacontenttype does not say it is JSON'' ''data''
            else Inr plain
        | V1_none \<Rightarrow> fail missing_required_attribute ''the event carries no payload'' ''data''
        | V1_binary _ \<Rightarrow> fail type_mismatch ''a binary payload is not a described type'' ''data'')
       (\<lambda>txt. case c_parse C txt of
          Inl e \<Rightarrow> fail (err_code e) (err_detail e) ''data''
        | Inr document \<Rightarrow>
            (case v1_from_json_value C D document of
               Inl e \<Rightarrow> fail (err_code e) (err_detail e) (if err_where e = [] then ''data'' else err_where e)
             | Inr decoded \<Rightarrow> Inr decoded))"

definition v1_typed_set_data :: "'j codec \<Rightarrow> descriptor \<Rightarrow> v1_event \<Rightarrow> field_value list \<Rightarrow> unit result \<times> v1_event" where
  "v1_typed_set_data C D ev v =
     (let document = v1_to_json_value C D v
      in (Inr (), ev\<lparr>v1_data := V1_json (c_dump C document), v1_datacontenttype := Some ''application/json''\<rparr>))"

record v1_event_of =
  v1_underlying :: v1_event

definition v1_new_event_of :: v1_event_of where
  "v1_new_event_of = \<lparr>v1_underlying = v1_empty_event\<rparr>"

definition v1_with_data :: "'j codec \<Rightarrow> descriptor \<Rightarrow> v1_event \<Rightarrow> field_value list \<Rightarrow> v1_event_of result" where
  "v1_with_data C D ev v =
     (case v1_typed_set_data C D ev v of
        (Inl e, _) \<Rightarrow> fail (err_code e) (err_detail e) (err_where e)
      | (Inr _, ev) \<Rightarrow> Inr \<lparr>v1_underlying = ev\<rparr>)"

definition v1_event_of_data :: "'j codec \<Rightarrow> descriptor \<Rightarrow> v1_event_of \<Rightarrow> field_value list result" where
  "v1_event_of_data C D held = v1_data_as C D (v1_underlying held)"

definition v1_event_of_set_data ::
  "'j codec \<Rightarrow> descriptor \<Rightarrow> v1_event_of \<Rightarrow> field_value list \<Rightarrow> unit result \<times> v1_event_of" where
  "v1_event_of_set_data C D held v =
     (case v1_typed_set_data C D (v1_underlying held) v of (written, ev) \<Rightarrow> (written, held\<lparr>v1_underlying := ev\<rparr>))"

definition v1_event_of_validate :: "v1_event_of \<Rightarrow> unit result" where
  "v1_event_of_validate held = v1_validate (v1_underlying held)"


section \<open>Second generation\<close>

definition v2_data_as :: "'j codec \<Rightarrow> descriptor \<Rightarrow> v2_event \<Rightarrow> field_value list result" where
  "v2_data_as C D ev =
     and_then
       (case w_data (w_rest ev) of
          V2_json stored \<Rightarrow> Inr stored
        | V2_text plain \<Rightarrow>
            if case w_datacontenttype (w_rest ev) of None \<Rightarrow> True | Some m \<Rightarrow> \<not> is_json_content_type m
            then fail type_mismatch ''the payload is text but datacontenttype does not say it is JSON'' ''data''
            else Inr plain
        | V2_none \<Rightarrow> fail missing_required_attribute ''the event carries no payload'' ''data''
        | V2_binary _ \<Rightarrow> fail type_mismatch ''a binary payload is not a described type'' ''data'')
       (\<lambda>txt. case c_parse C txt of
          Inl e \<Rightarrow> fail (err_code e) (err_detail e) ''data''
        | Inr document \<Rightarrow>
            (case from_json_value C D document of
               Inl e \<Rightarrow> fail (err_code e) (err_detail e) (if err_where e = [] then ''data'' else err_where e)
             | Inr decoded \<Rightarrow> Inr decoded))"

definition v2_typed_set_data :: "'j codec \<Rightarrow> descriptor \<Rightarrow> v2_event \<Rightarrow> field_value list \<Rightarrow> v2_event" where
  "v2_typed_set_data C D ev v =
     (let document = to_json_value C D v
      in v2_set_data (V2_json (c_dump C document)) (Some ''application/json'') ev)"

record v2_event_of =
  v2_underlying :: v2_event

definition v2_with_data :: "'j codec \<Rightarrow> descriptor \<Rightarrow> v2_event \<Rightarrow> field_value list \<Rightarrow> v2_event_of" where
  "v2_with_data C D ev v = \<lparr>v2_underlying = v2_typed_set_data C D ev v\<rparr>"

definition v2_event_of_data :: "'j codec \<Rightarrow> descriptor \<Rightarrow> v2_event_of \<Rightarrow> field_value list result" where
  "v2_event_of_data C D held = v2_data_as C D (v2_underlying held)"

definition v2_event_of_set_data :: "'j codec \<Rightarrow> descriptor \<Rightarrow> v2_event_of \<Rightarrow> field_value list \<Rightarrow> v2_event_of" where
  "v2_event_of_set_data C D held v = held\<lparr>v2_underlying := v2_typed_set_data C D (v2_underlying held) v\<rparr>"


section \<open>Third generation\<close>

definition v3_payload_from :: "'j codec \<Rightarrow> descriptor \<Rightarrow> 'j \<Rightarrow> field_value list result" where
  "v3_payload_from C D document =
     (case from_json_value C D document of
        Inl e \<Rightarrow> forward_failure (if err_where e = [] then e\<lparr>err_where := ''data''\<rparr> else e)
      | Inr decoded \<Rightarrow> Inr decoded)"

definition v3_payload_from_text :: "'j codec \<Rightarrow> descriptor \<Rightarrow> string \<Rightarrow> field_value list result" where
  "v3_payload_from_text C D txt = and_then_at (c_parse C txt) ''data'' (v3_payload_from C D)"

definition v3_data_as :: "'j codec \<Rightarrow> descriptor \<Rightarrow> 'j v3_event \<Rightarrow> field_value list result" where
  "v3_data_as C D ev =
     (case v3_data (v3_rest ev) of
        V3_json_text stored \<Rightarrow> v3_payload_from_text C D stored
      | V3_document document \<Rightarrow>
          (case v3_document_get C document of
             Some own \<Rightarrow> v3_payload_from C D own
           | None \<Rightarrow> v3_payload_from_text C D (v3_document_dump document))
      | V3_text plain \<Rightarrow>
          if case v3_datacontenttype (v3_rest ev) of None \<Rightarrow> True | Some m \<Rightarrow> \<not> is_json_content_type m
          then fail type_mismatch ''the payload is text but datacontenttype does not say it is JSON'' ''data''
          else v3_payload_from_text C D plain
      | V3_none \<Rightarrow> fail missing_required_attribute ''the event carries no payload'' ''data''
      | V3_binary _ \<Rightarrow> fail type_mismatch ''a binary payload is not a described type'' ''data'')"

type_synonym 'j v3_decoded = "'j v3_event \<times> field_value list"

definition v3_typed_read :: "'j codec \<Rightarrow> descriptor \<Rightarrow> 'j v3_event \<Rightarrow> 'j option \<Rightarrow> 'j v3_decoded result" where
  "v3_typed_read C D ev json_member =
     and_then (case json_member of Some member \<Rightarrow> v3_payload_from C D member | None \<Rightarrow> v3_data_as C D ev)
       (\<lambda>payload. Inr (ev, payload))"

definition v3_decode_as :: "'j codec \<Rightarrow> nat \<Rightarrow> descriptor \<Rightarrow> string \<Rightarrow> decode_options \<Rightarrow> 'j v3_decoded result" where
  "v3_decode_as C fresh D txt options = v3_typed_decode C fresh (v3_typed_read C D) txt options"

definition v3_decode_batch_as ::
  "'j codec \<Rightarrow> nat \<Rightarrow> descriptor \<Rightarrow> string \<Rightarrow> decode_options \<Rightarrow> 'j v3_decoded list result" where
  "v3_decode_batch_as C fresh D txt options = v3_typed_decode_batch C fresh (v3_typed_read C D) txt options"

definition v3_from_value_as :: "'j codec \<Rightarrow> nat \<Rightarrow> descriptor \<Rightarrow> 'j \<Rightarrow> 'j v3_decoded result" where
  "v3_from_value_as C fresh D document = v3_typed_from_value C fresh (v3_typed_read C D) document"

definition v3_encode_as :: "'j codec \<Rightarrow> descriptor \<Rightarrow> 'j v3_event \<Rightarrow> field_value list \<Rightarrow> string result" where
  "v3_encode_as C D ev payload =
     and_then
       (case v3_datacontenttype (v3_rest ev) of
          Some declared \<Rightarrow>
            if \<not> is_json_content_type declared
            then fail type_mismatch ''a typed payload is JSON but datacontenttype says otherwise'' ''datacontenttype''
            else Inr declared
        | None \<Rightarrow> Inr ''application/json'')
       (\<lambda>media. and_then (v3_typed_to_value C ev media (to_json_value C D payload)) (\<lambda>document. Inr (c_dump C document)))"

definition v3_typed_set_data :: "'j codec \<Rightarrow> nat \<Rightarrow> descriptor \<Rightarrow> 'j v3_event \<Rightarrow> field_value list \<Rightarrow> 'j v3_event" where
  "v3_typed_set_data C fresh D ev v =
     v3_set_data (V3_document (v3_document_make C fresh (to_json_value C D v))) (Some ''application/json'') ev"

record 'j v3_event_of =
  v3_underlying :: "'j v3_event"

definition v3_with_data :: "'j codec \<Rightarrow> nat \<Rightarrow> descriptor \<Rightarrow> 'j v3_event \<Rightarrow> field_value list \<Rightarrow> 'j v3_event_of" where
  "v3_with_data C fresh D ev v = \<lparr>v3_underlying = v3_typed_set_data C fresh D ev v\<rparr>"

definition v3_event_of_data :: "'j codec \<Rightarrow> descriptor \<Rightarrow> 'j v3_event_of \<Rightarrow> field_value list result" where
  "v3_event_of_data C D held = v3_data_as C D (v3_underlying held)"

definition v3_event_of_set_data ::
  "'j codec \<Rightarrow> nat \<Rightarrow> descriptor \<Rightarrow> 'j v3_event_of \<Rightarrow> field_value list \<Rightarrow> 'j v3_event_of" where
  "v3_event_of_set_data C fresh D held v = held\<lparr>v3_underlying := v3_typed_set_data C fresh D (v3_underlying held) v\<rparr>"


section \<open>The same payloads are read\<close>

lemma v1_field_to_json_eq: "v1_field_to_json C v = field_to_json C v"
proof (induction C v rule: v1_field_to_json.induct)
  case (1 C v)
  then show ?case by (cases v) simp_all
next
  case (2 C elements)
  then show ?case by (simp cong: fold_cong)
next
  case (3 C entries)
  then show ?case by (auto intro!: fold_cong)
qed simp_all

lemma v1_to_json_value_eq: "v1_to_json_value C D held = to_json_value C D held"
  by (simp add: v1_to_json_value_def to_json_value_def v1_field_to_json_eq)

lemma v1_field_from_json_eq: "v1_field_from_json C U = field_from_json C U"
proof (induction U)
  case (T_optional U)
  then show ?case by (auto simp: fun_eq_iff and_then_def forward_failure_def split: sum.split)
next
  case (T_vector U)
  have "map_sum id V_vector r = and_then r (\<lambda>out. Inr (V_vector out))" for r :: "field_value list result"
    by (cases r) simp_all
  with T_vector show ?case by (intro ext) simp
next
  case (T_map U)
  have "map_sum id V_map r = and_then r (\<lambda>out. Inr (V_map out))" for r :: "(string, field_value) omap result"
    by (cases r) simp_all
  with T_map show ?case by (intro ext) simp
qed (simp_all add: fun_eq_iff integer_from_json_def split: sum.split)

lemma v1_from_json_value_eq: "v1_from_json_value C D document = from_json_value C D document"
proof -
  have "v1_fields_from_json C D document = fields_from_json C D document" for D
    by (induction D) (simp_all add: v1_field_from_json_eq split: option.split)
  then show ?thesis
    by (auto simp: v1_from_json_value_def from_json_value_def fail_def split: sum.split)
qed

text \<open>What \<open>payload_from\<close> and \<open>payload_from_text\<close> are where an error is built anew.\<close>

lemma payload_from_fail:
  "payload_from C D document =
     (case from_json_value C D document of
        Inl e \<Rightarrow> fail (err_code e) (err_detail e) (if err_where e = [] then ''data'' else err_where e)
      | Inr decoded \<Rightarrow> Inr decoded)"
  by (auto simp: payload_from_def fail_def forward_failure_def split: sum.split)

lemma payload_from_text_fail:
  "payload_from_text C D txt =
     (case c_parse C txt of Inl e \<Rightarrow> fail (err_code e) (err_detail e) ''data'' | Inr document \<Rightarrow> payload_from C D document)"
  by (cases "c_parse C txt") (simp_all add: payload_from_text_def fail_def)

lemma payload_of_document:
  assumes "codec_text C" "one_codec C ev" "o_data (e_rest ev) = Json_document d"
  shows "data_as C D ev = payload_from_text C D (document_dump d)"
proof (cases "document_get C d")
  case (Some own)
  then have "c_parse C (document_dump d) = Inr own"
    using assms by (intro document_get_dump) (auto simp: one_codec_def)
  with assms(3) Some show ?thesis by (simp add: data_as_def payload_from_text_def)
qed (simp add: data_as_def assms(3))

lemma payload_from_text_cases:
  "(case c_parse C txt of
      Inl e \<Rightarrow> fail (err_code e) (err_detail e) ''data''
    | Inr document \<Rightarrow>
        (case from_json_value C D document of
           Inl e \<Rightarrow> fail (err_code e) (err_detail e) (if err_where e = [] then ''data'' else err_where e)
         | Inr decoded \<Rightarrow> Inr decoded)) = payload_from_text C D txt"
  unfolding payload_from_text_fail payload_from_fail ..

lemmas v1_data_as_text = v1_data_as_def [unfolded v1_from_json_value_eq payload_from_text_cases]
lemmas v2_data_as_text = v2_data_as_def [unfolded payload_from_text_cases]

lemma v1_data_as_eq:
  assumes "codec_text C" "one_codec C ev"
  shows "v1_data_as C D (downgrade ev) = data_as C D ev"
proof (cases "o_data (e_rest ev)")
  case (Json_document d)
  with payload_of_document [OF assms this] show ?thesis by (simp add: v1_data_as_text downgrade_def downgrade_data_def)
qed (simp_all add: v1_data_as_text downgrade_def downgrade_data_def data_as_def v1_is_json_content_type fail_def split: option.split)

lemma v2_data_as_eq:
  assumes "codec_text C" "one_codec C ev"
  shows "v2_data_as C D (v2_of ev) = data_as C D ev"
proof (cases "o_data (e_rest ev)")
  case (Json_document d)
  with payload_of_document [OF assms this] show ?thesis by (simp add: v2_data_as_text v2_data_of_def)
qed (simp_all add: v2_data_as_text v2_data_of_def data_as_def fail_def split: option.split)

lemma v3_payload_from_eq: "v3_payload_from = payload_from"
  by (simp add: fun_eq_iff v3_payload_from_def payload_from_def)

lemma v3_payload_from_text_eq: "v3_payload_from_text = payload_from_text"
  by (simp add: fun_eq_iff v3_payload_from_text_def payload_from_text_def v3_payload_from_eq)

lemma v3_data_as_eq: "v3_data_as C D (to_v3 ev) = data_as C D ev"
  by (cases "o_data (e_rest ev)")
    (simp_all add: v3_data_as_def data_as_def v3_data_of_simps v3_document_of v3_payload_from_eq v3_payload_from_text_eq
      split: option.split)


section \<open>The same payloads are written\<close>

text \<open>
  The earlier generations store a payload under \<open>application/json\<close>, whatever the event declared; the
  current one keeps a declared JSON media type and refuses another.
\<close>

definition typed_stored :: "'j codec \<Rightarrow> nat \<Rightarrow> descriptor \<Rightarrow> 'j event \<Rightarrow> field_value list \<Rightarrow> 'j event" where
  "typed_stored C fresh D ev v =
     set_data (Json_document (document_make C fresh (to_json_value C D v))) (Some ''application/json'') ev"

lemma typed_set_data_stored:
  assumes "o_datacontenttype (e_rest ev) = None \<or> o_datacontenttype (e_rest ev) = Some ''application/json''"
  shows "typed_set_data C fresh D ev v = (Inr (), typed_stored C fresh D ev v)"
  using assms application_json(2) by (auto simp: typed_set_data_def typed_stored_def Let_def)

lemma earlier_set_data:
  "v1_typed_set_data C D (downgrade ev) v = (Inr (), downgrade (typed_stored C fresh D ev v))"
  "v2_typed_set_data C D (v2_of ev) v = v2_of (typed_stored C fresh D ev v)"
  "v3_typed_set_data C fresh D (to_v3 ev) v = to_v3 (typed_stored C fresh D ev v)"
proof -
  have "document_dump (document_make C fresh v') = c_dump C v'" for v'
    by (simp add: document_dump_def document_make_def model_dump_def)
  then show "v1_typed_set_data C D (downgrade ev) v = (Inr (), downgrade (typed_stored C fresh D ev v))"
    and "v2_typed_set_data C D (v2_of ev) v = v2_of (typed_stored C fresh D ev v)"
    by (simp_all add: v1_typed_set_data_def v1_to_json_value_eq v2_typed_set_data_def typed_stored_def set_data_def
        downgrade_def downgrade_data_def v2_set_data_def v2_data_of_def v2_of_def v2_options_of_def)
  show "v3_typed_set_data C fresh D (to_v3 ev) v = to_v3 (typed_stored C fresh D ev v)"
    by (simp add: v3_typed_set_data_def typed_stored_def v3_operations)
qed

lemma v3_encode_as_eq: "v3_encode_as C D (to_v3 ev) payload = encode_as C D ev payload"
  by (simp add: v3_encode_as_def encode_as_def v3_typed_to_value_def typed_to_value_def v3_to_value_writing_of)

lemma v3_typed_reader_of:
  "reader_on_v3 (v3_typed_reader (v3_typed_read C D)) = mapped_reader (map_prod to_v3 id) (typed_reader (typed_read C D))"
  by (auto simp: reader_on_v3_def v3_typed_reader_def v3_typed_read_def typed_read_def typed_reader_def mapped_reader_def
      fun_eq_iff v3_payload_from_eq v3_data_as_eq on_ok_and_then split: option.split)

lemma v3_decoding_as:
  "v3_decode_as C fresh D txt options = on_ok (map_prod to_v3 id) (decode_as C fresh D txt options)"
  "v3_decode_batch_as C fresh D txt options = on_ok (map (map_prod to_v3 id)) (decode_batch_as C fresh D txt options)"
  by (simp_all add: v3_decode_as_def v3_typed_decode_def v3_decode_reading_of v3_typed_reader_of decode_as_def typed_decode_def
      decode_mapped v3_decode_batch_as_def v3_typed_decode_batch_def v3_decode_batch_reading_of decode_batch_as_def
      typed_decode_batch_def decode_batch_mapped)

lemma v3_from_value_as_eq: "v3_from_value_as C fresh D document = on_ok (map_prod to_v3 id) (from_value_as C fresh D document)"
proof -
  have "v3_from_value_reading C fresh R document = from_value_reading C fresh (reader_on_v3 R) document"
    for R :: "('a, 'a v3_decoded) v3_reader"
    by (simp add: v3_from_value_reading_def from_value_reading_def v3_read_event_of and_then_on_ok reader_on_v3_def case_prod_unfold)
  moreover have "from_value_reading C fresh (mapped_reader f R) document = on_ok f (from_value_reading C fresh R document)"
    for f :: "'a decoded \<Rightarrow> 'a v3_decoded" and R
    by (simp add: from_value_reading_def mapped_reader_def on_ok_and_then case_prod_unfold)
  ultimately show ?thesis
    by (simp add: v3_from_value_as_def v3_typed_from_value_def from_value_as_def typed_from_value_def v3_typed_reader_of)
qed


section \<open>One payload in every generation\<close>

text \<open>
  C27: the earlier generations read from an event the payload, or the error, that the current one
  reads, and the third decodes and encodes whole events with a payload as the current one does. They
  store a payload as the current generation stores it in an event without a media type or with
  \<open>application/json\<close>: what any generation stores, every generation reads. The codec parses back what
  it dumps, and a document of the event with the codec's identity is one of the codec.
\<close>

theorem typed_payloads_of_the_generations:
  assumes "codec_text C" "one_codec C ev"
  shows "v1_data_as C D (downgrade ev) = data_as C D ev \<and>
    v2_data_as C D (v2_of ev) = data_as C D ev \<and>
    v3_data_as C D (to_v3 ev) = data_as C D ev \<and>
    v3_encode_as C D (to_v3 ev) held = encode_as C D ev held \<and>
    v3_decode_as C fresh D txt options = on_ok (map_prod to_v3 id) (decode_as C fresh D txt options) \<and>
    v3_decode_batch_as C fresh D txt options = on_ok (map (map_prod to_v3 id)) (decode_batch_as C fresh D txt options) \<and>
    v3_from_value_as C fresh D document = on_ok (map_prod to_v3 id) (from_value_as C fresh D document) \<and>
    (let stored = typed_stored C fresh D ev held
     in v1_typed_set_data C D (downgrade ev) held = (Inr (), downgrade stored) \<and>
       v2_typed_set_data C D (v2_of ev) held = v2_of stored \<and>
       v3_typed_set_data C fresh D (to_v3 ev) held = to_v3 stored \<and>
       (o_datacontenttype (e_rest ev) \<in> {None, Some ''application/json''} \<longrightarrow>
          typed_set_data C fresh D ev held = (Inr (), stored)))"
  by (simp add: Let_def v1_data_as_eq v2_data_as_eq assms v3_data_as_eq v3_encode_as_eq v3_decoding_as v3_from_value_as_eq
      earlier_set_data typed_set_data_stored)

theorem typed_payloads_witness:
  "v1_data_as reference_codec order_type
      (snd (v1_typed_set_data reference_codec order_type (downgrade full_event) order_value)) = Inr order_value \<and>
   v2_data_as reference_codec order_type
      (v2_typed_set_data reference_codec order_type (v2_of full_event) order_value) = Inr order_value \<and>
   v3_data_as reference_codec order_type
      (v3_typed_set_data reference_codec 0 order_type (to_v3 full_event) order_value) = Inr order_value"
proof -
  let ?stored = "typed_stored reference_codec 0 order_type full_event order_value"
  have "one_codec reference_codec ?stored"
    by (simp add: one_codec_def typed_stored_def set_data_def document_make_def)
  note read = typed_payloads_of_the_generations [OF reference_text this, of order_type]
  note written = typed_payloads_of_the_generations
    [OF reference_text full_event_one_codec(1), of order_type order_value 0, unfolded Let_def]
  have "data_as reference_codec order_type ?stored = Inr order_value"
    using payload_from_written [OF reference_scalars reference_objects order_ok(3) reference_lookup order_ok(1,2)]
    by (simp add: data_as_def typed_stored_def set_data_def document_get_make)
  with read written show ?thesis by simp
qed

end
