(* ===== verification/Codec_Throws.thy ===== *)
theory Codec_Throws
  imports Shipped_Codecs Json_Round_Trip
begin

text \<open>
  Where encoding leaves by an exception. \<open>nlohmann_codec::dump\<close> calls \<open>dump\<close> of the library with its
  default handler, which throws on a string that is not UTF-8; \<open>encode\<close> and what calls it do not catch
  it. The policies keep such text out of the attributes, and nothing keeps it out of the values of
  extensions and of the text data.
\<close>

definition json_encode_throws :: "'j codec \<Rightarrow> 'j event \<Rightarrow> bool" where
  "json_encode_throws C ev = (case to_value C ev of Inl _ \<Rightarrow> False | Inr document \<Rightarrow> c_dump_throws C document)"

text \<open>A value whose strings and names are UTF-8, at every depth.\<close>

inductive utf8_value :: "('j \<Rightarrow> 'j shape) \<Rightarrow> 'j \<Rightarrow> bool" for view where
  utf8_scalar: "shape_kind (view v) \<notin> {K_string, K_array, K_object} \<Longrightarrow> utf8_value view v"
| utf8_string: "view v = S_string s \<Longrightarrow> is_valid_utf8 s \<Longrightarrow> utf8_value view v"
| utf8_array: "view v = S_array vs \<Longrightarrow> (\<And>w. w \<in> set vs \<Longrightarrow> utf8_value view w) \<Longrightarrow> utf8_value view v"
| utf8_object: "view v = S_object ms \<Longrightarrow> (\<And>n w. (n, w) \<in> set ms \<Longrightarrow> is_valid_utf8 n \<and> utf8_value view w) \<Longrightarrow> utf8_value view v"

lemma utf8_value_string: "view v = S_string s \<Longrightarrow> utf8_value view v \<longleftrightarrow> is_valid_utf8 s"
  by (auto elim: utf8_value.cases intro: utf8_string)

lemma utf8_value_object:
  "view v = S_object ms \<Longrightarrow> utf8_value view v \<longleftrightarrow> (\<forall>(n, w) \<in> set ms. is_valid_utf8 n \<and> utf8_value view w)"
  by (auto elim: utf8_value.cases intro: utf8_object)

text \<open>The documented behaviour of the library's \<open>dump\<close>.\<close>

definition nlohmann_throws :: "'j nlohmann \<Rightarrow> ('j \<Rightarrow> 'j shape) \<Rightarrow> bool" where
  "nlohmann_throws A view \<longleftrightarrow> (\<forall>v. nj_dump A v = None \<longleftrightarrow> \<not> utf8_value view v)"

text \<open>Encoding throws exactly if a member that is written has a name or a value that is not UTF-8.\<close>

lemma json_encode_throws_iff:
  assumes d: "nlohmann_documented A view conv" "nlohmann_throws A view" and ev: "event_ok ev"
    and D: "data_entries (nlohmann_codec A) (o_data (e_rest ev)) = Inr D"
  shows "json_encode_throws (nlohmann_codec A) ev \<longleftrightarrow>
    (\<exists>(n, v) \<in> set (context_entries (nlohmann_codec A) ev (o_datacontenttype (e_rest ev)) @
       extension_entries (nlohmann_codec A) ev @ D). \<not> is_valid_utf8 n \<or> \<not> utf8_value view v)"
proof -
  let ?C = "nlohmann_codec A"
  let ?E = "context_entries ?C ev (o_datacontenttype (e_rest ev)) @ extension_entries ?C ev @ D"
  define root where "root = set_all ?C ?E (c_make_object ?C)"
  note p = nlohmann_presents [OF d(1)]
  have C: "codec_objects ?C" using laws_on_all [OF presents_laws [OF p]] by simp
  have o: "c_kind_of ?C (c_make_object ?C) = K_object" "c_members ?C (c_make_object ?C) = []"
    using C by (simp_all add: codec_objects_def)
  have "c_kind_of ?C root = K_object \<and> mset (c_members ?C root) = mset ?E"
    using set_all_members [OF C o(1), of ?E] written_distinct [OF ev D] o(2) by (simp add: root_def)
  moreover obtain ms where ms: "view root = S_object ms"
    using calculation by (auto simp: presents_kind [OF p] object_shape)
  moreover have "c_members ?C root = ms" using presents_members [OF p ms] by simp
  ultimately have "set ms = set ?E" by (metis set_mset_mset)
  moreover have "to_value ?C ev = Inr root" by (simp add: to_value_all D root_def)
  ultimately show ?thesis
    using d(2) by (auto simp: json_encode_throws_def nlohmann_codec_def nlohmann_throws_def utf8_value_object [where view = view, OF ms])
qed

text \<open>So an event whose extension holds text that is not UTF-8 is encoded by no value and no error.\<close>

lemma extension_text_throws:
  assumes d: "nlohmann_documented A view conv" "nlohmann_throws A view" and ev: "event_ok ev"
    and D: "data_entries (nlohmann_codec A) (o_data (e_rest ev)) = Inr D"
    and s: "(n, Str s) \<in> set (o_extensions (e_rest ev))" "\<not> is_valid_utf8 s"
  shows "json_encode_throws (nlohmann_codec A) ev"
proof -
  let ?v = "nj_of_string A s"
  have "view ?v = S_string s" using d(1) by (simp add: nlohmann_documented_def makes_def)
  then have "\<not> utf8_value view ?v" using s(2) by (simp add: utf8_value_string)
  moreover have "(n, ?v) \<in> set (extension_entries (nlohmann_codec A) ev)"
    using s(1) by (force simp: extension_entries_def attribute_json_def nlohmann_codec_def)
  ultimately show ?thesis unfolding json_encode_throws_iff [OF d ev D] by auto
qed

end
