(* ===== verification/Protobuf_Normal.thy ===== *)
theory Protobuf_Normal
  imports Protobuf_Safety
begin

text \<open>
  What the Protobuf reader returns is already what the format keeps of it: its texts are UTF-8, its
  timestamps are instants in UTC, its data is binary or text. So a decoded event that is encoded
  again, within the limits, is read back as itself; and tighter limits only refuse.
\<close>

section \<open>Decoded events are normal\<close>

definition arm_normal :: "attribute_value option \<Rightarrow> bool" where
  "arm_normal v \<longleftrightarrow>
     (case v of
        None \<Rightarrow> True
      | Some a \<Rightarrow> (case text_attribute a of Some s \<Rightarrow> is_valid_utf8 s | None \<Rightarrow> True) \<and> pb_value a = a)"

lemma make_instant_normal: "make_instant seconds nanos = Inr t \<Longrightarrow> pb_time t = t"
  by (auto simp: make_instant_def pb_time_def split: if_splits)

lemma read_text_utf8: "read_text bs = Inr s \<Longrightarrow> is_valid_utf8 s \<and> s = text_view bs"
  by (auto simp: read_text_def Let_def split: if_splits)

lemma read_value_normal: "read_value bs = Inr v \<Longrightarrow> arm_normal v"
  unfolding read_value_def
proof (erule for_each_invariant)
  fix current v v'
  assume "and_then (if pf_kind current = W_varint then read_varint_arm current else read_length_arm current)
    (\<lambda>r. Inr (case r of Some _ \<Rightarrow> r | None \<Rightarrow> v)) = Inr v'" and "arm_normal v"
  then show "arm_normal v'"
    by (auto simp: and_then_eq_Inr arm_normal_def text_attribute_def pb_value_def read_varint_arm_def read_length_arm_def
        read_text_arm_def read_integer_def read_timestamp_def Let_def
        dest!: make_instant_normal read_text_utf8 split: if_splits option.splits)
qed (simp add: arm_normal_def)

lemma read_entry_normal:
  assumes "read_entry bs m = Inr m'"
  shows "\<exists>n v. m' = om_insert_or_assign n v m \<and> arm_normal v"
proof -
  from assms obtain n v where w: "for_each_field (\<lambda>current (key, v).
         if pf_kind current \<noteq> W_length_delimited then Inr (key, v)
         else if pf_number current = 1 then and_then (read_text (pf_body current)) (\<lambda>s. Inr (s, v))
         else if pf_number current = 2 then and_then (read_value (pf_body current)) (\<lambda>r. Inr (key, r))
         else Inr (key, v)) bs ([], None) = Inr (n, v)" and m: "m' = om_insert_or_assign n v m"
    by (auto simp: read_entry_def and_then_eq_Inr)
  have "arm_normal (snd (n, v))"
    by (rule for_each_invariant [OF w, where P = "\<lambda>s. arm_normal (snd s)"])
      (auto simp: arm_normal_def [of None] and_then_eq_Inr split: if_splits dest: read_value_normal)
  with m show ?thesis by auto
qed

definition wire_normal :: "raw_event \<Rightarrow> bool" where
  "wire_normal r \<longleftrightarrow> om_ok (r_attributes r) \<and> (\<forall>n v. om_find n (r_attributes r) = Some v \<longrightarrow> arm_normal v) \<and>
     (r_data_kind r = DF_text_data \<longrightarrow> is_valid_utf8 (text_view (r_data r)))"

lemma store_any_keeps:
  assumes "store_any bs q = Inr r'"
  shows "r_attributes r' = r_attributes q" "r_data_kind r' = r_data_kind q"
proof -
  from assms obtain url v where "r' = q\<lparr>r_type_url := url, r_data := v\<rparr>" "valid_uri_reference url"
    by (auto simp: store_any_def and_then_eq_Inr split: if_splits)
  then show "r_attributes r' = r_attributes q" "r_data_kind r' = r_data_kind q" by simp_all
qed

lemma store_data_normal:
  assumes "store_data current r = Inr r'" "wire_normal r"
  shows "wire_normal r'"
proof (cases "pf_number current = 6")
  case False
  note number = this
  show ?thesis
  proof (cases "pf_number current = 8")
    case True
    with number assms(1) have "store_any (pf_body current)
        (r\<lparr>r_type_url := [], r_data := pf_body current, r_data_kind := DF_proto_data\<rparr>) = Inr r'"
      by (simp add: store_data_def Let_def)
    from store_any_keeps [OF this] assms(2) show ?thesis by (simp add: wire_normal_def)
  next
    case False
    with number assms(1) obtain s where "read_text (pf_body current) = Inr s"
      "r' = r\<lparr>r_type_url := [], r_data := pf_body current, r_data_kind := DF_text_data\<rparr>"
      by (auto simp: store_data_def Let_def and_then_eq_Inr)
    with assms(2) show ?thesis by (auto simp: wire_normal_def dest: read_text_utf8)
  qed
qed (use assms in \<open>auto simp: store_data_def Let_def wire_normal_def\<close>)

lemma store_entry_normal:
  assumes "store_attribute_entry current options r = Inr r'" "wire_normal r"
  shows "wire_normal r'"
proof -
  from assms(1) obtain m where m: "read_entry (pf_body current) (r_attributes r) = Inr m"
    and r': "r' = r\<lparr>r_attribute_entries := r_attribute_entries r + 1, r_attributes := m\<rparr>"
    by (auto simp: store_attribute_entry_def Let_def and_then_eq_Inr split: if_splits)
  obtain k v where "m = om_insert_or_assign k v (r_attributes r)" "arm_normal v" using read_entry_normal [OF m] by blast
  with assms(2) show ?thesis by (auto simp: r' wire_normal_def om_ok_insert om_find_insert split: if_splits)
qed

lemma store_required_normal: "pb_store_required current r = Inr r' \<Longrightarrow> wire_normal r \<Longrightarrow> wire_normal r'"
  by (auto simp: pb_store_required_def wire_normal_def and_then_eq_Inr split: if_splits)

lemma store_field_normal: "store_field options current r = Inr r' \<Longrightarrow> wire_normal r \<Longrightarrow> wire_normal r'"
  unfolding store_field_def
  by (auto split: if_splits intro: store_entry_normal store_data_normal store_required_normal)

lemma scan_event_normal: "scan_event bs options = Inr r \<Longrightarrow> wire_normal r"
  unfolding scan_event_def
  by (erule for_each_invariant) (auto simp: wire_normal_def no_raw_event_def om_find_def dest: store_field_normal [unfolded wire_normal_def])

definition options_normal :: "'j options \<Rightarrow> bool" where
  "options_normal rest \<longleftrightarrow> (\<forall>n a. (n, a) \<in> set (o_extensions rest) \<longrightarrow> arm_normal (Some a)) \<and>
     map_option pb_time (o_time rest) = o_time rest"

lemma pb_apply_attribute_normal:
  assumes "pb_apply_attribute n a into = Inr into'" "options_normal into" "arm_normal (Some a)"
  shows "options_normal into' \<and> o_data into' = o_data into"
proof -
  have "(n, b) \<in> set (om_insert_or_assign k a (o_extensions into)) \<Longrightarrow> arm_normal (Some b)" for k n b
    using om_insert_subset [of k a "o_extensions into"] assms(2,3) by (auto simp: options_normal_def)
  with assms show ?thesis
    by (auto simp: pb_apply_attribute_def store_text_def pb_store_time_def store_extension_def and_then_eq_Inr and_then_at_eq_Inr
        options_normal_def arm_normal_def [of "Some (Time _)"] pb_value_def
        datacontenttype_rules.store_Inr dataschema_rules.store_Inr subject_rules.store_Inr extension_name_rules.make_Inr
        split: if_splits option.splits attribute_value.splits)
qed

lemma apply_attributes_normal:
  "apply_attributes m into = Inr into' \<Longrightarrow> options_normal into \<Longrightarrow> \<forall>(n, v) \<in> set m. arm_normal v \<Longrightarrow>
     options_normal into' \<and> o_data into' = o_data into"
proof (induction m into rule: apply_attributes.induct)
  case (2 n v m into)
  then obtain a mid where v: "v = Some a" and mid: "pb_apply_attribute n a into = Inr mid" "apply_attributes m mid = Inr into'"
    by (auto simp: and_then_eq_Inr split: option.splits)
  note step = pb_apply_attribute_normal [OF mid(1) "2.prems"(2)]
  from "2.prems"(3) v have "arm_normal (Some a)" "\<forall>(n, v) \<in> set m. arm_normal v" by auto
  with step "2.IH" [OF v mid(1) mid(2)] show ?case by simp
qed simp

lemma apply_data_normal:
  assumes "apply_data r into = Inr into'" "options_normal into" "wire_normal r" "o_data into = No_data"
  shows "options_normal into' \<and> data_utf8 (o_data into') \<and> pb_data (o_datacontenttype into') (o_data into') = o_data into'"
  using assms
  by (auto simp: apply_data_def apply_proto_data_def Let_def and_then_eq_Inr options_normal_def wire_normal_def data_utf8_def
      pb_data_def split: data_field.splits if_splits)

lemma decoded_normal:
  assumes "decode_event bs options = Inr ev"
  shows "texts_utf8 ev \<and> data_utf8 (o_data (e_rest ev)) \<and> pb_image ev = ev"
proof -
  from assms obtain r where r: "scan_event bs options = Inr r" "build_event r = Inr ev"
    by (auto simp: decode_event_def scan_limited_def and_then_eq_Inr split: if_splits)
  from r(2) obtain i s t rest rest' where
    a: "apply_attributes (r_attributes r) no_options = Inr rest" "apply_data r rest = Inr rest'"
    and b: "build \<lparr>b_id = i, b_source = s, b_type = t, b_rest = rest'\<rparr> = Inr ev"
    by (auto simp: build_event_def and_then_eq_Inr)
  note n = scan_event_normal [OF r(1)]
  have "\<forall>(n, v) \<in> set (r_attributes r). arm_normal v"
    using n om_entries_all [of "r_attributes r" "\<lambda>n v. arm_normal v"] by (simp add: wire_normal_def)
  from apply_attributes_normal [OF a(1) _ this] have o: "options_normal rest" "o_data rest = No_data"
    by (simp_all add: options_normal_def no_options_def)
  note d = apply_data_normal [OF a(2) o(1) n o(2)]
  have "e_rest ev = rest'" using b by (auto simp: build_Inr)
  with d have e: "\<forall>n a. (n, a) \<in> set (o_extensions (e_rest ev)) \<longrightarrow> arm_normal (Some a)"
    and rest: "map_option pb_time (o_time (e_rest ev)) = o_time (e_rest ev)" "data_utf8 (o_data (e_rest ev))"
      "pb_data (o_datacontenttype (e_rest ev)) (o_data (e_rest ev)) = o_data (e_rest ev)"
    by (simp_all add: options_normal_def)
  have "texts_utf8 ev" using e by (fastforce simp: texts_utf8_def arm_normal_def)
  moreover have "on_values pb_value (o_extensions (e_rest ev)) = o_extensions (e_rest ev)"
    unfolding on_values_def using e by (intro map_idI) (auto simp: arm_normal_def)
  ultimately show ?thesis using rest by (simp add: pb_image_def)
qed


section \<open>Encoding a decoded event again\<close>

text \<open>What the limits ask of an event.\<close>

definition within_limits :: "pb_options \<Rightarrow> 'j event \<Rightarrow> bool" where
  "within_limits options ev \<longleftrightarrow> length (encode_event ev (proto_type_url ev)) \<le> max_encoded_size options \<and>
     length (encode_attributes ev) \<le> max_attribute_count options"

lemma decode_again:
  assumes "decode_event bs options = Inr ev" "within_limits options' ev" "max_encoded_size options' < 2 ^ 64"
  shows "decode_event (encode_event ev (proto_type_url ev)) options' = Inr ev"
proof -
  note ok = decode_event_ok [OF assms(1)] and normal = decoded_normal [OF assms(1)]
  from decode_written [of ev "proto_type_url ev" options'] ok normal assms(2,3) proto_type_url_ok [of ev]
  show ?thesis by (simp add: within_limits_def decode_event_def pb_event_image)
qed

lemma decode_bodies_each:
  "decode_bodies bodies options before = Inr events \<Longrightarrow>
     \<forall>ev \<in> set events. ev \<in> set before \<or> (\<exists>body. decode_event body options = Inr ev)"
  by (induction bodies options before rule: decode_bodies.induct) (fastforce simp: and_then_eq_Inr)+

lemma decode_events_each:
  "decode_events bs options = Inr events \<Longrightarrow> ev \<in> set events \<Longrightarrow> \<exists>body. decode_event body options = Inr ev"
  by (auto simp: decode_events_def and_then_eq_Inr dest!: decode_bodies_each)

lemma decode_events_count: "decode_events bs options = Inr events \<Longrightarrow> length events \<le> max_batch_event_count options"
  by (auto simp: decode_events_def and_then_eq_Inr dest!: decode_bodies_ok batch_bodies_bound)

lemma field_octets_bound: "length (field_octets number bs) \<le> 20 + length bs"
  using varint_octets_length [of "push_bit 3 (ucast number) OR wire_type_value W_length_delimited"]
    varint_octets_length [of "word_of_nat (length bs)"]
  by (simp add: field_octets_def tag_octets_def)

lemma encode_events_bound:
  assumes "list_all (within_limits options) events"
  shows "length (encode_events events) \<le> length events * (20 + max_encoded_size options)"
proof -
  have "length (fields_octets (map (Pair 1) bodies)) \<le> length bodies * (20 + k)" if "\<forall>b \<in> set bodies. length b \<le> k" for bodies k
    using that
  proof (induction bodies)
    case (Cons b bodies)
    then show ?case using field_octets_bound [of 1 b] by simp
  qed simp
  from this [of "map (\<lambda>ev. encode_event ev (proto_type_url ev)) events" "max_encoded_size options"] assms
  show ?thesis by (simp add: encode_events_fields list_all_iff within_limits_def)
qed

lemma decode_batch_again:
  assumes "decode_events bs options = Inr events" "list_all (within_limits options') events"
    and "length (encode_events events) < 2 ^ 64" "max_encoded_size options' < 2 ^ 64"
    and "length events \<le> max_batch_event_count options'"
  shows "decode_events (encode_events events) options' = Inr events"
proof -
  let ?bodies = "map (\<lambda>ev. encode_event ev (proto_type_url ev)) events"
  have e: "encode_events events = fields_octets (map (Pair 1) ?bodies)" by (rule encode_events_fields)
  have "\<forall>f \<in> set (map (Pair 1) ?bodies). field_number_ok (fst f)" by (simp add: numbers_ok)
  note f = for_each_fields [OF this assms(3) [unfolded e]]
  have b: "batch_bodies (encode_events events) options' = Inr ?bodies"
    unfolding batch_bodies_def e f using batch_bodies_written [of "[]" ?bodies options'] assms(5) by simp
  have "decode_event (encode_event ev (proto_type_url ev)) options' = Inr (pb_image ev)" if "ev \<in> set events" for ev
    using decode_events_each [OF assms(1) that] that assms(2,4) decode_again [of _ options ev options'] decoded_normal [of _ options ev]
    by (auto simp: list_all_iff)
  moreover have "map pb_image events = events"
    using decode_events_each [OF assms(1)] decoded_normal [of _ options] by (intro map_idI) blast
  ultimately show ?thesis using decode_bodies_written [of events options' "[]"] by (simp add: decode_events_def b)
qed


section \<open>Tighter limits only refuse\<close>

lemma for_each_mono:
  "for_each_field visit bs s = Inr t \<Longrightarrow> (\<And>current s s'. visit current s = Inr s' \<Longrightarrow> visit' current s = Inr s') \<Longrightarrow>
     for_each_field visit' bs s = Inr t"
proof (induction visit bs s rule: for_each_field.induct)
  case (1 visit bs s)
  note step = "1.prems"(1) [unfolded for_each_field.simps [of visit bs s]]
  show ?case
  proof (cases "bs = []")
    case False
    with step obtain f rest where r: "read_field bs = Inr (f, rest)" by (auto split: sum.splits)
    show ?thesis
    proof (cases f)
      case None
      with step r False "1.IH"(1) [OF False r refl None] "1.prems"(2) show ?thesis
        by (simp add: for_each_field.simps [of visit' bs])
    next
      case (Some current)
      with step r False obtain u where u: "visit current s = Inr u" "for_each_field visit rest u = Inr t"
        by (auto simp: and_then_eq_Inr)
      show ?thesis
        using "1.IH"(2) [OF False r refl Some u(1) u(2) "1.prems"(2)] "1.prems"(2) [OF u(1)] r False Some
        by (simp add: for_each_field.simps [of visit' bs])
    qed
  qed (use step in \<open>simp add: for_each_field.simps [of visit' bs]\<close>)
qed

lemma scan_limited_mono:
  assumes "scan_limited bs tight = Inr r"
    and "max_encoded_size tight \<le> max_encoded_size loose" "max_attribute_count tight \<le> max_attribute_count loose"
  shows "scan_limited bs loose = Inr r"
proof -
  have "store_field tight current q = Inr q' \<Longrightarrow> store_field loose current q = Inr q'" for current q q'
    using assms(3) by (auto simp: store_field_def store_attribute_entry_def Let_def split: if_splits)
  with assms show ?thesis
    by (auto simp: scan_limited_def scan_event_def split: if_splits intro: for_each_mono)
qed

lemma decode_event_mono:
  assumes "decode_event bs tight = Inr ev"
    and "max_encoded_size tight \<le> max_encoded_size loose" "max_attribute_count tight \<le> max_attribute_count loose"
  shows "decode_event bs loose = Inr ev"
  using assms(1) scan_limited_mono [OF _ assms(2,3)] by (auto simp: decode_event_def and_then_eq_Inr)


section \<open>The limits are not closed under decoding\<close>

text \<open>
  An event without a media type that is written as \<open>google.protobuf.Any\<close> is read back with
  \<open>application/protobuf\<close>: one attribute more than were read. At the limit, what the reader accepts
  it refuses once it is encoded again.
\<close>

lemma scanned_attributes_bound: "scan_limited bs options = Inr r \<Longrightarrow> length (r_attributes r) \<le> max_attribute_count options"
  by (auto simp: scan_limited_def wire_ok_def dest!: scan_event_ok split: if_splits)

lemma event_attributes_length: "length (event_attributes ev) = card {n. om_find n (event_attributes ev) \<noteq> None}"
proof -
  have "{n. om_find n (event_attributes ev) \<noteq> None} = set (map fst (event_attributes ev))"
    by (auto simp: om_find_def map_of_eq_None_iff image_iff)
  then show ?thesis using distinct_card [OF om_ok_distinct [OF event_attributes_om_ok [of ev]]] by simp
qed

lemma any_adds_an_attribute:
  assumes "event_ok ev" "o_datacontenttype (e_rest ev) = None" "o_data (e_rest ev) = Binary_data v"
  shows "length (event_attributes ev) < length (event_attributes (pb_event (Some url) ev))"
proof -
  let ?keys = "\<lambda>ev :: 'a event. {n. om_find n (event_attributes ev) \<noteq> None}"
  let ?ev = "pb_event (Some url) ev"
  have x: "o_extensions (e_rest ?ev) = on_values pb_value (o_extensions (e_rest ev))"
    "o_datacontenttype (e_rest ?ev) = Some ''application/protobuf''"
    "o_time (e_rest ?ev) = map_option pb_time (o_time (e_rest ev))" "o_subject (e_rest ?ev) = o_subject (e_rest ev)"
    "o_dataschema (e_rest ev) \<noteq> None \<Longrightarrow> o_dataschema (e_rest ?ev) \<noteq> None"
    by (auto simp: pb_event_def pb_payload_def assms(2,3) pb_attributes_def opt_or_def)
  have "n \<in> ?keys ev \<Longrightarrow> n \<in> ?keys ?ev" for n
    using x by (auto simp: find_event_attributes context_attribute_def find_on_values split: option.splits if_splits)
  moreover have "om_find ''datacontenttype'' (o_extensions (e_rest ev)) = None"
    by (rule extension_not_context [OF assms(1)]) (simp add: map_attribute_names_def)
  then have "''datacontenttype'' \<in> ?keys ?ev" "''datacontenttype'' \<notin> ?keys ev"
    using assms(2) x(2) by (simp_all add: find_event_attributes context_attribute_def)
  ultimately have "?keys ev \<subset> ?keys ?ev" by blast
  moreover have "finite (?keys ?ev)"
    by (rule finite_subset [of _ "fst ` set (event_attributes ?ev)"]) (auto simp: om_find_def dest!: map_of_SomeD intro: rev_image_eqI)
  ultimately show ?thesis unfolding event_attributes_length by (rule psubset_card_mono [rotated])
qed

text \<open>What is read back from a decoded event's encoding was within the limits.\<close>

lemma read_back_within_limits:
  assumes "decode_event bs loose = Inr ev" "decode_event (encode_event ev (proto_type_url ev)) options = Inr ev'"
    and "max_encoded_size options < 2 ^ 64"
  shows "within_limits options ev"
proof -
  let ?again = "encode_event ev (proto_type_url ev)"
  let ?options = "options\<lparr>max_attribute_count := length (event_attributes ev) + max_attribute_count options\<rparr>"
  obtain r where r: "scan_limited ?again options = Inr r" using assms(2) by (auto simp: decode_event_def and_then_eq_Inr)
  then have l: "length ?again \<le> max_encoded_size options" by (auto simp: scan_limited_def split: if_splits)
  note normal = decode_event_ok [OF assms(1)] decoded_normal [OF assms(1)]
  have "scan_event ?again ?options = Inr (wire_event ev (proto_type_url ev))"
    using normal l assms(3) proto_type_url_ok [of ev] by (intro scan_written) simp_all
  moreover have "scan_limited ?again ?options = Inr r" by (rule scan_limited_mono [OF r]) simp_all
  ultimately have "r = wire_event ev (proto_type_url ev)" by (auto simp: scan_limited_def split: if_splits)
  then have "length (r_attributes r) = length (encode_attributes ev)"
    by (simp add: wire_event_def written_data_def encode_attributes_values on_values_def split: data_t.split option.split)
  with scanned_attributes_bound [OF r] l show ?thesis by (simp add: within_limits_def)
qed

lemma any_outgrows_limits:
  fixes ev :: "'j event"
  assumes "event_ok ev" "texts_utf8 ev" "o_datacontenttype (e_rest ev) = None" "o_data (e_rest ev) = Binary_data v"
    and "length (encode_event ev (Some [])) \<le> max_encoded_size options" "max_encoded_size options < 2 ^ 64"
    and "length (encode_attributes ev) = max_attribute_count options"
  shows "decode_event (encode_event ev (Some [])) options = Inr (pb_event (Some []) ev)"
    "\<not> within_limits options (pb_event (Some []) ev)"
proof -
  have "valid_uri_reference []" by code_simp
  then have u: "url_ok (Some [])" "data_utf8 (o_data (e_rest ev))"
    using assms(4) by (simp_all add: url_ok_def data_utf8_def)
  show "decode_event (encode_event ev (Some [])) options = Inr (pb_event (Some []) ev)"
    using decode_written [OF assms(1,2) u(2,1) _ assms(5,6)] assms(7) by (simp add: decode_event_def)
  have "length (encode_attributes ev) < length (encode_attributes (pb_event (Some []) ev))"
    using any_adds_an_attribute [OF assms(1,3,4), of "[]"] by (simp add: encode_attributes_values on_values_def)
  then show "\<not> within_limits options (pb_event (Some []) ev)" using assms(7) by (simp add: within_limits_def)
qed

text \<open>
  C40: whatever the limits, an event of as many attributes as they allow, with binary data and no media
  type, that is written as \<open>google.protobuf.Any\<close> is accepted, encodes again, and is refused then.
\<close>

theorem protobuf_limits_not_closed:
  fixes ev :: "'j event"
  assumes "event_ok ev" "texts_utf8 ev" "o_datacontenttype (e_rest ev) = None" "o_data (e_rest ev) = Binary_data v"
    and "protobuf_encode_proto_data ev [] = Inr encoded"
    and "length encoded \<le> max_encoded_size options" "max_encoded_size options < 2 ^ 64"
    and "length (encode_attributes ev) = max_attribute_count options"
  shows "\<exists>(decoded :: 'j event) again. protobuf_decode encoded options = Inr decoded \<and> protobuf_encode decoded = Inr again \<and>
    \<not> is_ok (protobuf_decode again options :: 'j event result)"
proof -
  have e: "encoded = encode_event ev (Some [])"
    using assms(4,5) by (auto simp: protobuf_encode_proto_data_def encode_event_as_any_def split: if_splits)
  note out = any_outgrows_limits [OF assms(1-4) assms(6) [unfolded e] assms(7,8)]
  then show ?thesis
    using read_back_within_limits [OF out(1) _ assms(7)] by (auto simp: e is_ok_iff protobuf_decode_def protobuf_encode_def)
qed

definition bare_event :: "unit event" where
  "bare_event = \<lparr>e_id = ''1'', e_source = ''/s'', e_type = ''t'', e_rest = no_options\<lparr>o_data := Binary_data [1]\<rparr>\<rparr>"

definition no_attributes :: pb_options where
  "no_attributes = default_pb_options\<lparr>max_attribute_count := 0\<rparr>"

theorem protobuf_limits_not_closed_witness:
  "\<exists>(decoded :: unit event) again.
     and_then (protobuf_encode_proto_data bare_event []) (\<lambda>encoded. protobuf_decode encoded no_attributes) = Inr decoded \<and>
     protobuf_encode decoded = Inr again \<and> \<not> is_ok (protobuf_decode again no_attributes :: unit event result)"
proof -
  have ok: "event_ok bare_event" "texts_utf8 bare_event"
    by (simp_all add: bare_event_def event_ok_def no_options_def options_ok_def accepted_by_def texts_utf8_def om_ok_def
        id_policy_def source_policy_def type_policy_def check_text_None is_valid_utf8_ascii_list)
  have "is_ok (protobuf_encode_proto_data bare_event [])" by code_simp
  then obtain encoded where e: "protobuf_encode_proto_data bare_event [] = Inr encoded" by (auto simp: is_ok_iff)
  have "length (projr (protobuf_encode_proto_data bare_event [])) \<le> 50" by code_simp
  then have l: "length encoded \<le> max_encoded_size no_attributes"
    by (simp add: e no_attributes_def default_pb_options_def default_max_encoded_size_def)
  have "encode_attributes bare_event = []" by code_simp
  then have n: "length (encode_attributes bare_event) = max_attribute_count no_attributes"
    by (simp add: no_attributes_def)
  have b: "o_datacontenttype (e_rest bare_event) = None" "o_data (e_rest bare_event) = Binary_data [1]"
    "max_encoded_size no_attributes < 2 ^ 64"
    by (simp_all add: bare_event_def no_options_def no_attributes_def default_pb_options_def default_max_encoded_size_def)
  show ?thesis unfolding e and_then_simps(2) by (rule protobuf_limits_not_closed [OF ok b(1,2) e l b(3) n])
qed

end
