(* ===== verification/Fuzz_Input.thy ===== *)
theory Fuzz_Input
  imports Messages Events
begin

text \<open>
  What the fuzz targets under \<open>fuzz\<close> share. A target is run on octets of the fuzzer's choice; it
  returns, or it ends the process with \<open>__builtin_trap\<close> because a promise of the SDK is broken. The
  model of a target is a function to \<open>outcome\<close>. A call whose result a target throws away cannot
  trap and changes nothing: it is left out.
\<close>

section \<open>Traps\<close>

datatype outcome = Returns | Traps

definition trap_unless :: "bool \<Rightarrow> outcome" where
  "trap_unless holds = (if \<not> holds then Traps else Returns)"

text \<open>\<open>first; rest\<close>: what follows a trap is not reached.\<close>

definition next_check :: "outcome \<Rightarrow> outcome \<Rightarrow> outcome" where
  "next_check first rest = (case first of Returns \<Rightarrow> rest | Traps \<Rightarrow> Traps)"

fun all_checks :: "outcome list \<Rightarrow> outcome" where
  "all_checks [] = Returns"
| "all_checks (first # rest) = next_check first (all_checks rest)"

lemma trap_unless_returns [simp]: "trap_unless holds = Returns \<longleftrightarrow> holds" "trap_unless holds = Traps \<longleftrightarrow> \<not> holds"
  by (simp_all add: trap_unless_def)

lemma next_check_returns [simp]: "next_check first rest = Returns \<longleftrightarrow> first = Returns \<and> rest = Returns"
  by (cases first) (simp_all add: next_check_def)

lemma all_checks_returns [simp]: "all_checks checks = Returns \<longleftrightarrow> (\<forall>check \<in> set checks. check = Returns)"
  by (induction checks) auto


section \<open>A message from the input\<close>

text \<open>\<open>std::string_view::find\<close> of a character from a position on.\<close>

definition find_char :: "char \<Rightarrow> string \<Rightarrow> nat \<Rightarrow> nat option" where
  "find_char c s pos =
     (let found = pos + length (takeWhile (\<lambda>x. x \<noteq> c) (drop pos s))
      in if found < length s then Some found else None)"

lemma find_char_bounds: "find_char c s pos = Some i \<Longrightarrow> pos \<le> i \<and> i < length s"
  by (auto simp: find_char_def Let_def split: if_splits)

text \<open>
  The loop of \<open>build\<close>: one \<open>name: value\<close> line after the other; the fields so far and the position
  after the blank line.
\<close>

function build_from :: "string \<Rightarrow> nat \<Rightarrow> raw_headers \<Rightarrow> raw_headers \<times> nat" where
  "build_from input pos hs =
     (if pos < length input
      then let line_end = find_char (CHR 0x0A) input pos;
               line = (case line_end of
                   None \<Rightarrow> take (length input - pos) (drop pos input)
                 | Some e \<Rightarrow> take (e - pos) (drop pos input))
        in if line = [] then (hs, case line_end of None \<Rightarrow> length input | Some e \<Rightarrow> e + 1)
           else let hs = (case find_char (CHR '':'') line 0 of
                    Some colon \<Rightarrow> add (take colon line) (drop (colon + 1) line) hs
                  | None \<Rightarrow> hs)
             in case line_end of None \<Rightarrow> (hs, length input) | Some e \<Rightarrow> build_from input (e + 1) hs
      else (hs, pos))"
  by pat_completeness auto
termination
  by (relation "measure (\<lambda>(input, pos, hs). length input - pos)") (auto dest!: find_char_bounds sym [of "Some _"])

declare build_from.simps [simp del]

definition build_message :: "string \<Rightarrow> message" where
  "build_message input =
     (case build_from input 0 [] of (hs, pos) \<Rightarrow>
        \<lparr>header_fields = hs, body = map uchar (drop pos input)\<rparr>)"

end
