(* ===== verification/Fuzz_Protobuf.thy ===== *)
theory Fuzz_Protobuf
  imports Protobuf_Normal Binding_Protobuf Fuzz_Input
begin

text \<open>
  \<open>fuzz/fuzz_protobuf_format.cpp\<close>: what the Protobuf target asks of the reader, of the writer and of the
  bindings around them, and on which inputs it does not trap. Protobuf data is never a JSON
  document, so the values of a codec do not occur here: the events are over the type \<open>unit\<close>.
\<close>

section \<open>The checks\<close>

definition tight :: pb_options where
  "tight = \<lparr>max_encoded_size = 64, max_attribute_count = 2, max_batch_event_count = 2\<rparr>"

definition check_event_round_trip :: "unit event \<Rightarrow> outcome" where
  "check_event_round_trip decoded =
     (case protobuf_encode decoded of
        Inl _ \<Rightarrow> Traps
      | Inr encoded \<Rightarrow>
          next_check
            (case protobuf_decode encoded default_pb_options of
               Inl _ \<Rightarrow> Traps
             | Inr again \<Rightarrow> trap_unless (event_equal again decoded))
            (case protobuf_encode decoded of
               Inl _ \<Rightarrow> Traps
             | Inr repeated \<Rightarrow> trap_unless (repeated = encoded)))"

definition check_batch_round_trip :: "unit event list \<Rightarrow> outcome" where
  "check_batch_round_trip events =
     (case protobuf_encode_batch events of
        Inl _ \<Rightarrow> Traps
      | Inr encoded \<Rightarrow>
          (case protobuf_decode_batch encoded default_pb_options of
             Inl _ \<Rightarrow> Traps
           | Inr again \<Rightarrow> trap_unless (list_all2 event_equal again events)))"

definition check_limits_agree :: "binary \<Rightarrow> unit event result \<Rightarrow> outcome" where
  "check_limits_agree input unlimited =
     (case protobuf_decode input tight of
        Inl _ \<Rightarrow> Returns
      | Inr limited \<Rightarrow>
          (case unlimited of Inl _ \<Rightarrow> Traps | Inr ev \<Rightarrow> trap_unless (event_equal limited ev)))"

definition agree :: "unit event result \<Rightarrow> unit event result \<Rightarrow> bool" where
  "agree left right =
     (case (left, right) of
        (Inr a, Inr b) \<Rightarrow> event_equal a b
      | (Inl e, Inl e') \<Rightarrow> err_code e = err_code e'
      | _ \<Rightarrow> False)"

definition accepted_spellings :: "string list" where
  "accepted_spellings =
    [''application/cloudevents+protobuf'',
     ''APPLICATION/CloudEvents+Protobuf; charset=utf-8'',
     CHR '' '' # CHR 0x09 # ''application/cloudevents+protobuf ;a=b'']"

definition refused_spellings :: "string list" where
  "refused_spellings =
    [''application/cloudevents+protobufx'',
     ''application/cloudevents-batch+protobuf'',
     ''application/cloudevents+json'',
     '''']"

definition message_of :: "string \<Rightarrow> string \<Rightarrow> binary \<Rightarrow> message" where
  "message_of header type content = \<lparr>header_fields = [(header, type)], body = content\<rparr>"

definition not_an_event :: "unit event result \<Rightarrow> bool" where
  "not_an_event read = (case read of Inl e \<Rightarrow> err_code e = not_a_cloudevent | Inr _ \<Rightarrow> False)"

text \<open>
  \<open>check_bindings_agree\<close>. The writers never fail, so the source dereferences their results; here a
  failure would be passed on and would disagree.
\<close>

definition check_readers_agree :: "binary \<Rightarrow> string \<Rightarrow> pb_options \<Rightarrow> unit event result \<Rightarrow> outcome" where
  "check_readers_agree input spelled options plain =
     all_checks (map trap_unless
      [agree (http_from_message_protobuf (message_of ''content-TYPE'' spelled input) options) plain,
       agree (kafka_from_message_protobuf (message_of ''content-type'' spelled input) options) plain,
       agree (nats_from_message_protobuf (message_of ''Content-Type'' spelled input) options) plain,
       agree (nats_from_payload_protobuf input options) plain])"

definition check_refused :: "binary \<Rightarrow> string \<Rightarrow> outcome" where
  "check_refused input other =
     all_checks (map trap_unless
      [not_an_event (http_from_message_protobuf (message_of ''Content-Type'' other input) default_pb_options),
       not_an_event (kafka_from_message_protobuf (message_of ''content-type'' other input) default_pb_options),
       not_an_event (nats_from_message_protobuf (message_of ''Content-Type'' other input) default_pb_options)])"

definition check_written_back :: "unit event result \<Rightarrow> outcome" where
  "check_written_back plain =
     (case plain of
        Inl _ \<Rightarrow> Returns
      | Inr ev \<Rightarrow>
          trap_unless
           (agree (and_then (http_to_message_protobuf ev) (\<lambda>m. http_from_message_protobuf m default_pb_options)) plain \<and>
            agree (and_then (kafka_to_message_protobuf ev) (\<lambda>m. kafka_from_message_protobuf m default_pb_options)) plain \<and>
            agree (and_then (nats_to_message_protobuf ev) (\<lambda>m. nats_from_message_protobuf m default_pb_options)) plain \<and>
            agree (and_then (nats_to_payload_protobuf ev) (\<lambda>payload. nats_from_payload_protobuf payload default_pb_options)) plain))"

definition check_bindings_agree :: "binary \<Rightarrow> outcome" where
  "check_bindings_agree input =
     (let plain = protobuf_decode input default_pb_options;
          limited = protobuf_decode input tight;
          spelled = accepted_spellings ! (length input mod length accepted_spellings)
      in next_check (check_readers_agree input spelled default_pb_options plain)
          (next_check (check_readers_agree input spelled tight limited)
            (next_check (all_checks (map (check_refused input) refused_spellings))
              (check_written_back plain))))"

definition check_detailed :: "(unit event \<times> string option) result \<Rightarrow> unit event result \<Rightarrow> outcome" where
  "check_detailed detailed decoded =
     (case (detailed, decoded) of
        (Inr (ev, _), Inr ev') \<Rightarrow> trap_unless (event_equal ev ev')
      | (Inl _, Inl _) \<Rightarrow> Returns
      | _ \<Rightarrow> Traps)"

definition fuzz_protobuf_format :: "binary \<Rightarrow> outcome" where
  "fuzz_protobuf_format input =
     (let decoded = protobuf_decode input default_pb_options
      in next_check (case decoded of Inl _ \<Rightarrow> Returns | Inr ev \<Rightarrow> check_event_round_trip ev)
          (next_check (check_limits_agree input decoded)
            (next_check (check_detailed (protobuf_decode_detailed input default_pb_options) decoded)
              (next_check
                (case protobuf_decode_batch input default_pb_options of
                   Inl _ \<Rightarrow> Returns
                 | Inr batch \<Rightarrow> check_batch_round_trip batch)
                (check_bindings_agree input)))))"


section \<open>The bindings around the format\<close>

lemma agree_refl: "agree r r"
  by (cases r) (simp_all add: agree_def event_equal_refl)

lemma structured_read:
  assumes "header = t_content_type_header T \<or> (\<not> t_case_sensitive_names T \<and> iequals header (t_content_type_header T))"
  shows "decode_protobuf_structured T (message_of header type content) options =
    (if iequals (media_type_essence type) pb_content_type then protobuf_decode content options
     else fail not_a_cloudevent ''the content type is not application/cloudevents+protobuf'' '''')"
  using assms by (auto simp: decode_protobuf_structured_def message_of_def Let_def)

lemma accepted_essence: "\<forall>spelled \<in> set accepted_spellings. iequals (media_type_essence spelled) pb_content_type"
  by code_simp

lemma refused_essence: "\<forall>other \<in> set refused_spellings. \<not> iequals (media_type_essence other) pb_content_type"
  by code_simp

lemma content_type_spellings:
  "iequals ''content-TYPE'' ''Content-Type''" "iequals ''Content-Type'' ''Content-Type''"
  by code_simp+

lemma traits_headers:
  "t_content_type_header (http_traits V) = ''Content-Type''" "\<not> t_case_sensitive_names (http_traits V)"
  "t_content_type_header kafka_traits = ''content-type''" "t_content_type_header nats_traits = ''Content-Type''"
  "\<not> t_case_sensitive_names nats_traits"
  by (simp_all add: http_traits_def http_content_type_header_def kafka_traits_def kafka_content_type_header_def nats_traits_def)

text \<open>The limits \<open>tight\<close> are below the default ones, which a 64-bit length holds.\<close>

lemma limits_bound:
  "max_encoded_size tight \<le> max_encoded_size default_pb_options"
  "max_attribute_count tight \<le> max_attribute_count default_pb_options"
  "max_encoded_size default_pb_options < 2 ^ 64"
  "max_batch_event_count default_pb_options * (20 + max_encoded_size default_pb_options) < 2 ^ 64"
  by (simp_all add: tight_def default_pb_options_def default_max_encoded_size_def default_max_attribute_count_def
      default_max_batch_event_count_def)

lemma readers_agree:
  assumes "spelled \<in> set accepted_spellings"
  shows "check_readers_agree input spelled options (protobuf_decode input options) = Returns"
proof -
  have e: "iequals (media_type_essence spelled) pb_content_type" using accepted_essence assms by blast
  show ?thesis
    by (simp add: check_readers_agree_def http_from_message_protobuf_def kafka_from_message_protobuf_def
        nats_from_message_protobuf_def nats_from_payload_protobuf_def structured_read traits_headers
        content_type_spellings e agree_refl)
qed

lemma others_refused:
  assumes "other \<in> set refused_spellings"
  shows "check_refused input other = Returns"
proof -
  have e: "\<not> iequals (media_type_essence other) pb_content_type" using refused_essence assms by blast
  show ?thesis
    by (simp add: check_refused_def http_from_message_protobuf_def kafka_from_message_protobuf_def
        nats_from_message_protobuf_def structured_read traits_headers content_type_spellings e not_an_event_def fail_def)
qed


section \<open>What is decoded is written and read again\<close>

lemma check_event_round_trip_iff:
  assumes "protobuf_decode input default_pb_options = Inr ev"
  shows "check_event_round_trip ev = Returns \<longleftrightarrow> within_limits default_pb_options ev"
proof
  note d = assms [unfolded protobuf_decode_def]
  assume "within_limits default_pb_options ev"
  from decode_again [OF d this limits_bound(3)] show "check_event_round_trip ev = Returns"
    by (simp add: check_event_round_trip_def protobuf_encode_def protobuf_decode_def event_equal_refl)
next
  assume "check_event_round_trip ev = Returns"
  then show "within_limits default_pb_options ev"
    using read_back_within_limits [OF assms [unfolded protobuf_decode_def] _ limits_bound(3)]
    by (auto simp: check_event_round_trip_def protobuf_encode_def protobuf_decode_def split: sum.splits)
qed

lemma check_batch_returns:
  assumes d: "protobuf_decode_batch input default_pb_options = Inr events" and l: "list_all (within_limits default_pb_options) events"
  shows "check_batch_round_trip events = Returns"
proof -
  note d = d [unfolded protobuf_decode_batch_def]
  note n = decode_events_count [OF d]
  have "length (encode_events events) < 2 ^ 64"
    using encode_events_bound [OF l] mult_le_mono1 [OF n, of "20 + max_encoded_size default_pb_options"] limits_bound(4)
    by linarith
  from decode_batch_again [OF d l this limits_bound(3) n] show ?thesis
    by (simp add: check_batch_round_trip_def protobuf_encode_batch_def protobuf_decode_batch_def list_all2_same event_equal_refl)
qed

lemma written_back:
  assumes "\<And>ev. plain = Inr ev \<Longrightarrow> protobuf_decode input default_pb_options = Inr ev \<and> within_limits default_pb_options ev"
  shows "check_written_back plain = Returns"
proof (cases plain)
  case (Inr ev)
  note a = assms [OF this]
  have d: "protobuf_decode (encode_event ev (proto_type_url ev)) default_pb_options = Inr ev"
    using decode_again [of input default_pb_options ev default_pb_options] a limits_bound(3) by (simp add: protobuf_decode_def)
  have m: "and_then (encode_protobuf_structured T ev) (\<lambda>m. decode_protobuf_structured T m default_pb_options) = Inr ev" for T
    using d by (simp add: encode_protobuf_structured_def decode_protobuf_structured_def protobuf_encode_def protobuf_essence)
  show ?thesis
    using d by (simp add: Inr check_written_back_def http_to_message_protobuf_def http_from_message_protobuf_def
        kafka_to_message_protobuf_def kafka_from_message_protobuf_def nats_to_message_protobuf_def
        nats_from_message_protobuf_def nats_to_payload_protobuf_def nats_from_payload_protobuf_def m protobuf_encode_def agree_refl)
qed (simp add: check_written_back_def)

lemma limits_agree: "check_limits_agree input (protobuf_decode input default_pb_options) = Returns"
  by (auto simp: check_limits_agree_def protobuf_decode_def event_equal_refl split: sum.split
      dest!: decode_event_mono [OF _ limits_bound(1,2)])

lemma detailed_agrees:
  "check_detailed (protobuf_decode_detailed input options) (protobuf_decode input options) = Returns"
  by (simp add: check_detailed_def protobuf_decode_detailed_def decode_detailed_event_def protobuf_decode_def
      decode_event_def Let_def and_then_def event_equal_refl split: sum.split)

text \<open>
  C16: the Protobuf fuzz target, on any input whose batch reading, if it has one, gives events that
  keep the limits when they are encoded again, returns exactly if the event it reads, if any, keeps
  them too. Nothing else can trap: whatever is decoded is encoded and read back as an equal event,
  tight limits only refuse, every spelling of the media type and every binding agrees with the
  format, and other media types are refused with \<open>not_a_cloudevent\<close>.
\<close>

theorem fuzz_protobuf_format_returns:
  assumes "\<And>events. protobuf_decode_batch input default_pb_options = Inr events \<Longrightarrow>
      list_all (within_limits default_pb_options) (events :: unit event list)"
  shows "fuzz_protobuf_format input = Returns \<longleftrightarrow>
    (\<forall>ev :: unit event. protobuf_decode input default_pb_options = Inr ev \<longrightarrow> within_limits default_pb_options ev)"
    (is "_ \<longleftrightarrow> ?kept")
proof -
  let ?plain = "protobuf_decode input default_pb_options :: unit event result"
  let ?spelled = "accepted_spellings ! (length input mod length accepted_spellings)"
  have s: "?spelled \<in> set accepted_spellings" by (rule nth_mem) (simp add: accepted_spellings_def)
  have r: "all_checks (map (check_refused input) refused_spellings) = Returns" using others_refused by auto
  have e: "(case ?plain of Inl _ \<Rightarrow> Returns | Inr ev \<Rightarrow> check_event_round_trip ev) = Returns \<longleftrightarrow> ?kept"
    using check_event_round_trip_iff by (auto split: sum.splits)
  have w: "?kept \<Longrightarrow> check_written_back ?plain = Returns" by (rule written_back) simp_all
  have b: "(case protobuf_decode_batch input default_pb_options of Inl _ \<Rightarrow> Returns | Inr batch \<Rightarrow> check_batch_round_trip batch) = Returns"
    using assms check_batch_returns by (auto split: sum.split)
  show ?thesis
    using w by (auto simp: fuzz_protobuf_format_def check_bindings_agree_def Let_def e b r detailed_agrees limits_agree readers_agree [OF s])
qed

text \<open>An input that holds an event, which is within the limits when it is written again.\<close>

definition proto_input :: binary where
  "proto_input = encode_event proto_event (proto_type_url proto_event)"

lemma unreadable_body: "\<not> is_ok (decode_event [49] options)"
proof -
  have "\<not> is_ok (read_field [49])" by code_simp
  then show ?thesis
    by (auto simp: is_ok_iff decode_event_def scan_limited_def scan_event_def and_then_eq_Inr
        for_each_field.simps [of _ "[49]"] split: sum.splits if_splits)
qed

lemma pb_image_sizes: "length (encode_event (pb_image proto_event) (proto_type_url (pb_image proto_event))) \<le> 200"
  "length (encode_attributes (pb_image proto_event)) = 5"
  by code_simp+

text \<open>The octets of one event, read as a batch: its id is taken for an event.\<close>

lemma event_as_batch:
  assumes "length (encode_event ev url) < 2 ^ 64" "0 < max_batch_event_count options"
  shows "batch_bodies (encode_event ev url) options = Inr [to_bytes (e_id ev)]"
proof -
  let ?visit = "\<lambda>current bodies.
    if pf_kind current \<noteq> W_length_delimited \<or> pf_number current \<noteq> 1 then Inr bodies
    else if length bodies \<ge> max_batch_event_count options
    then fail out_of_range ''the batch has more events than the limit allows'' ''''
    else Inr (bodies @ [pf_body current])"
  have others: "\<forall>f \<in> set fs. fst f \<noteq> 1 \<Longrightarrow> visit_all ?visit fs bodies = Inr bodies" for fs bodies
    by (induction fs) auto
  have o: "\<forall>f \<in> set (tl (event_fields ev url)). fst f \<noteq> 1"
    by (auto simp: event_fields_def entry_fields_def data_fields_def split: data_t.splits option.splits)
  have h: "event_fields ev url = (1, to_bytes (e_id ev)) # tl (event_fields ev url)" by (simp add: event_fields_def)
  have "visit_all ?visit (event_fields ev url) [] = Inr [to_bytes (e_id ev)]"
    by (subst h) (use assms(2) others [OF o] in simp)
  with for_each_fields [OF event_fields_numbers [of ev url], of ?visit "[]"] assms(1) show ?thesis
    by (simp add: batch_bodies_def encode_event_fields)
qed

lemma proto_input_batch: "\<not> is_ok (protobuf_decode_batch proto_input default_pb_options)"
proof -
  have "to_bytes (e_id proto_event) = [49]" by code_simp
  then have "batch_bodies proto_input default_pb_options = Inr [[49]]"
    using event_as_batch [of proto_event "proto_type_url proto_event" default_pb_options] proto_event_sizes(1)
    by (simp add: proto_input_def default_pb_options_def default_max_batch_event_count_def)
  then show ?thesis using unreadable_body
   by (auto simp: is_ok_iff protobuf_decode_batch_def decode_events_def and_then_eq_Inr)
qed

theorem fuzz_protobuf_format_returns_witness: "fuzz_protobuf_format proto_input = Returns"
proof -
  have "within_limits default_pb_options (pb_image proto_event)"
    using pb_image_sizes by (simp add: within_limits_def default_pb_options_def default_max_encoded_size_def default_max_attribute_count_def)
  moreover have "decode_event proto_input default_pb_options = Inr (pb_image proto_event)"
    using decode_written [OF proto_event_ok proto_type_url_ok [of proto_event], of default_pb_options] proto_event_sizes
    by (simp add: proto_input_def pb_event_image decode_event_def default_pb_options_def default_max_encoded_size_def
        default_max_attribute_count_def)
  ultimately show ?thesis
    using fuzz_protobuf_format_returns [of proto_input] proto_input_batch by (auto simp: is_ok_iff protobuf_decode_def)
qed


section \<open>Where the target traps\<close>

text \<open>
  An event with as many extensions as the reader takes, and data that is written as
  \<open>google.protobuf.Any\<close>: the reader adds a media type.
\<close>

definition crowd :: "nat \<Rightarrow> extension_map" where
  "crowd n = map (\<lambda>k. (replicate (Suc k) CHR ''x'', Bool True)) [0..<n]"

definition crowded_event :: "unit event" where
  "crowded_event = \<lparr>e_id = ''1'', e_source = ''/s'', e_type = ''t'',
     e_rest = no_options\<lparr>o_extensions := crowd default_max_attribute_count, o_data := Binary_data [1]\<rparr>\<rparr>"

definition crowded_input :: binary where
  "crowded_input = encode_event crowded_event (Some [])"

lemma replicate_less: "k < n \<Longrightarrow> replicate k (c :: char) < replicate n c"
proof (induction n arbitrary: k)
  case (Suc n)
  then show ?case by (cases k) auto
qed simp

lemma crowd_facts:
  "om_ok (crowd n)" "length (crowd n) = n"
  "(name, a) \<in> set (crowd n) \<Longrightarrow> a = Bool True \<and> (\<exists>k < n. name = replicate (Suc k) CHR ''x'')"
  by (auto simp: crowd_def om_ok_def comp_def sorted_wrt_map sorted_wrt_iff_nth_less replicate_less
      simp del: replicate.simps)

lemma crowded_ok: "event_ok crowded_event" "texts_utf8 crowded_event"
proof -
  have name: "p_check extension_name_policy (replicate (Suc k) CHR ''x'') = None" for k
    by (simp add: extension_name_policy_def check_extension_name_None valid_attribute_name_iff name_char_def is_lower_def
        reserved_name_def reserved_names_def)
  show "event_ok crowded_event"
    using crowd_facts name
    by (fastforce simp: crowded_event_def event_ok_def options_ok_def no_options_def accepted_by_def value_ok_def
        id_policy_def source_policy_def type_policy_def check_text_None is_valid_utf8_ascii_list simp del: replicate.simps)
  show "texts_utf8 crowded_event"
    by (auto simp: crowded_event_def texts_utf8_def text_attribute_def no_options_def dest!: crowd_facts(3))
qed

lemma crowded_attributes: "event_attributes crowded_event = crowd default_max_attribute_count"
  by (rule om.same_entries [OF event_attributes_om_ok crowd_facts(1)])
    (simp add: find_event_attributes context_attribute_def crowded_event_def no_options_def)

text \<open>The size of what is written, from the sizes of its fields.\<close>

lemma fields_octets_bound:
  "\<forall>f \<in> set fs. length (snd f) \<le> k \<Longrightarrow> length (fields_octets fs) \<le> length fs * (20 + k)"
proof (induction fs)
  case (Cons f fs)
  then show ?case using field_octets_bound [of "fst f" "snd f"] by (cases f) auto
qed simp

lemma crowded_size: "length crowded_input \<le> 2000000"
proof -
  have true: "length (encode_value (Bool True)) \<le> 30"
    using varint_octets_length [of 1] varint_octets_length [of "push_bit 3 (ucast (1 :: u32)) OR wire_type_value W_varint"]
    by (simp add: encode_value_def put_arm_def put_octets varint_field_octets_def tag_octets_def)
  have entry: "length (entry_octets name (encode_value a)) \<le> 1100" if "(name, a) \<in> set (crowd 1024)" for name a
    using crowd_facts(3) [OF that] true field_octets_bound [of 1 "to_bytes name"] field_octets_bound [of 2 "encode_value (Bool True)"]
    by (auto simp: entry_octets_def to_bytes_def)
  have any: "length (any_octets [] [1]) \<le> 1100" using field_octets_bound [of 2 "[1]"] by (simp add: any_octets_def)
  have f: "event_fields crowded_event (Some []) = [(1, to_bytes ''1''), (2, to_bytes ''/s''), (3, to_bytes ''1.0''),
      (4, to_bytes ''t'')] @ entry_fields (crowd 1024) @ [(8, any_octets [] [1])]"
    unfolding event_fields_def crowded_attributes
    by (simp add: data_fields_def crowded_event_def default_max_attribute_count_def spec_version_view_def)
  have n: "length (event_fields crowded_event (Some [])) = 1029"
    using crowd_facts(2) [of 1024] by (simp add: f entry_fields_def)
  have "\<forall>f \<in> set (event_fields crowded_event (Some [])). length (snd f) \<le> 1100"
    using entry any by (auto simp: f entry_fields_def to_bytes_def)
  from fields_octets_bound [OF this] n show ?thesis by (simp add: crowded_input_def encode_event_fields)
qed

lemma fuzz_protobuf_traps: "fuzz_protobuf_format crowded_input = Traps"
proof -
  have b: "o_datacontenttype (e_rest crowded_event) = None" "o_data (e_rest crowded_event) = Binary_data [1]"
    by (simp_all add: crowded_event_def no_options_def)
  have l: "length (encode_event crowded_event (Some [])) \<le> max_encoded_size default_pb_options"
    using crowded_size by (simp add: crowded_input_def default_pb_options_def default_max_encoded_size_def)
  have n: "length (encode_attributes crowded_event) = max_attribute_count default_pb_options"
    using crowd_facts(2) [of default_max_attribute_count]
    by (simp add: encode_attributes_values on_values_def crowded_attributes default_pb_options_def)
  note out = any_outgrows_limits [OF crowded_ok b l limits_bound(3) n]
  then have "check_event_round_trip (pb_event (Some []) crowded_event) \<noteq> Returns"
    using check_event_round_trip_iff [of crowded_input] by (simp add: crowded_input_def protobuf_decode_def)
  then show ?thesis
    using out(1) by (cases "check_event_round_trip (pb_event (Some []) crowded_event)")
      (simp_all add: fuzz_protobuf_format_def Let_def next_check_def crowded_input_def protobuf_decode_def)
qed

end
