(* ===== verification/Fuzz_Values.thy ===== *)
theory Fuzz_Values
  imports Fuzz_Input Base64 Timestamp_Laws
begin

text \<open>
  \<open>fuzz/fuzz_base64.cpp\<close> and \<open>fuzz/fuzz_timestamp.cpp\<close>: a value that is read is written and read again.
  Base64 keeps that promise for every input. A timestamp keeps it exactly if its local time fits the
  64-bit count of nanoseconds that the writer computes.
\<close>

definition fuzz_base64 :: "string \<Rightarrow> outcome" where
  "fuzz_base64 input =
     (case base64_decode input of
        Inl _ \<Rightarrow> Returns
      | Inr decoded \<Rightarrow>
          (case base64_decode (base64_encode decoded) of
             Inl _ \<Rightarrow> Traps
           | Inr again \<Rightarrow> trap_unless (again = decoded)))"

definition fuzz_timestamp :: "string \<Rightarrow> outcome" where
  "fuzz_timestamp input =
     (case parse_timestamp input of
        Inl _ \<Rightarrow> Returns
      | Inr parsed \<Rightarrow>
          (case parse_timestamp (to_string parsed) of
             Inl _ \<Rightarrow> Traps
           | Inr again \<Rightarrow> trap_unless (again = parsed)))"

lemma fuzz_base64_returns: "fuzz_base64 input = Returns"
  by (simp add: fuzz_base64_def base64_decode_encode split: sum.split)

text \<open>
  C39: the base64 target traps on no input. The timestamp target traps on exactly the inputs that
  name a time whose local time is beyond a 64-bit count of nanoseconds, such as
  2262-04-12T23:46:14+23:59.
\<close>

theorem fuzz_timestamp_traps_iff:
  "fuzz_base64 input = Returns \<and>
   (fuzz_timestamp input = Traps \<longleftrightarrow> (\<exists>t. parse_timestamp input = Inr t \<and> \<not> local_fits t)) \<and>
   fuzz_timestamp ''2262-04-12T23:46:14+23:59'' = Traps"
proof (intro conjI)
  show "fuzz_base64 input = Returns" by (rule fuzz_base64_returns)
  show "fuzz_timestamp input = Traps \<longleftrightarrow> (\<exists>t. parse_timestamp input = Inr t \<and> \<not> local_fits t)"
  proof (cases "parse_timestamp input")
    case (Inr t)
    have "parse_timestamp (to_string t) = Inr t \<longleftrightarrow> local_fits t"
      using parse_timestamp_to_string wrapped_text [of t] parse_timestamp_ts_ok [OF Inr] by (auto simp: is_ok_iff)
    then show ?thesis by (cases "parse_timestamp (to_string t)") (auto simp: fuzz_timestamp_def Inr)
  qed (simp add: fuzz_timestamp_def)
  show "fuzz_timestamp ''2262-04-12T23:46:14+23:59'' = Traps" by code_simp
qed

end
