(* ===== verification/Binding_Utf8.thy ===== *)
theory Binding_Utf8
  imports Binding_Safety
begin

text \<open>
  The texts of an event that a binding reads are UTF-8: header values are decoded and checked, and a
  JSON codec whose parser refuses what is not UTF-8 hands out UTF-8 strings. So a binding can write
  in binary mode what it read.
\<close>

section \<open>What the parser promises\<close>

text \<open>
  The documented behaviour of nlohmann's parser: a text that is not UTF-8 is a parse error, and so is
  an escape that names no character. The strings among the members of what is parsed are UTF-8.
\<close>

definition members_utf8 :: "'j codec \<Rightarrow> 'j \<Rightarrow> bool" where
  "members_utf8 C v =
     list_all (\<lambda>(_, member). case c_as_string C member of Inr s \<Rightarrow> is_valid_utf8 s | Inl _ \<Rightarrow> True) (c_members C v)"

definition codec_utf8 :: "'j codec \<Rightarrow> bool" where
  "codec_utf8 C \<longleftrightarrow> (\<forall>txt v. c_parse C txt = Inr v \<longrightarrow> members_utf8 C v)"

text \<open>A codec that keeps the promise: it refuses every object with a string that does not.\<close>

definition strict_parse :: "'j codec \<Rightarrow> 'j codec" where
  "strict_parse C = C\<lparr>c_parse := \<lambda>txt. and_then (c_parse C txt) (\<lambda>v.
     if members_utf8 C v then Inr v else fail parse_error ''the text is not UTF-8'' '''')\<rparr>"

lemma strict_parse_utf8: "codec_utf8 (strict_parse C)"
  by (auto simp: codec_utf8_def strict_parse_def and_then_eq_Inr members_utf8_def split: if_splits)


section \<open>Extensions\<close>

definition extensions_utf8 :: "extension_map \<Rightarrow> bool" where
  "extensions_utf8 exts \<longleftrightarrow>
     (\<forall>(n, a) \<in> set exts. case text_attribute a of Some s \<Rightarrow> is_valid_utf8 s | None \<Rightarrow> True)"

lemma texts_utf8_extensions: "texts_utf8 ev \<longleftrightarrow> extensions_utf8 (o_extensions (e_rest ev))"
  by (simp add: texts_utf8_def extensions_utf8_def)

lemma no_extensions_utf8 [simp]: "extensions_utf8 []"
  by (simp add: extensions_utf8_def)

lemma extensions_utf8_insert:
  "extensions_utf8 exts \<Longrightarrow> (\<And>s. text_attribute a = Some s \<Longrightarrow> is_valid_utf8 s) \<Longrightarrow>
     extensions_utf8 (om_insert_or_assign name a exts)"
  using om_insert_subset [of name a exts] by (fastforce simp: extensions_utf8_def split: option.split)


section \<open>JSON\<close>

lemma read_extension_utf8:
  assumes "read_extension C name member into = (r, into')" "extensions_utf8 (o_extensions into)"
    and "case c_as_string C member of Inr s \<Rightarrow> is_valid_utf8 s | Inl _ \<Rightarrow> True"
  shows "extensions_utf8 (o_extensions into')"
  using assms
  by (auto simp: read_extension_def decode_attribute_def and_then_at_eq_Inr text_attribute_def extension_name_rules.make_Inr
      intro!: extensions_utf8_insert split: if_splits sum.splits kind.splits)

lemma read_extensions_utf8:
  "read_extensions C ms r into = (r', into') \<Longrightarrow> extensions_utf8 (o_extensions into) \<Longrightarrow>
     list_all (\<lambda>(_, member). case c_as_string C member of Inr s \<Rightarrow> is_valid_utf8 s | Inl _ \<Rightarrow> True) ms \<Longrightarrow>
     extensions_utf8 (o_extensions into')"
proof (induction C ms r into rule: read_extensions.induct)
  case (2 C name v ms r into)
  show ?case
  proof (cases "is_ok r")
    case True
    obtain r1 into1 where e: "read_extension C name v into = (r1, into1)" by fastforce
    with 2 True read_extension_utf8 [OF e] show ?thesis by auto
  qed (use 2 in simp)
qed simp

lemma read_context_extensions: "read_context C found into = Inr into' \<Longrightarrow> o_extensions (b_rest into') = o_extensions (b_rest into)"
  by (auto simp: read_context_def and_then_eq_Inr and_then_at_eq_Inr store_time_def Let_def split: option.splits)

lemma decode_data_extensions:
  "decode_data C fresh found owned mode own_text wants into = Inr (into', m) \<Longrightarrow> o_extensions into' = o_extensions into"
  by (auto simp: decode_data_def and_then_at_eq_Inr Let_def split: if_splits option.splits sum.splits)

lemma read_event_utf8:
  assumes "read_event C fresh document owned mode own_text wants = Inr (ev, m)" "members_utf8 C document"
  shows "texts_utf8 ev"
proof -
  from assms(1) obtain rest b rest' where
    e: "read_extensions C (extension_members (c_members C document)) (Inr ()) no_options = (Inr (), rest)"
    and c: "read_context C (found_in (c_members C document) 0) (new_builder\<lparr>b_rest := rest\<rparr>) = Inr b"
    and d: "decode_data C fresh (found_in (c_members C document) 0) owned mode own_text wants (b_rest b) = Inr (rest', m)"
    and b: "build (b\<lparr>b_rest := rest'\<rparr>) = Inr ev"
    unfolding read_event_Inr by blast
  have "extensions_utf8 (o_extensions rest)"
    using assms(2) by (intro read_extensions_utf8 [OF e])
      (auto simp: no_options_def members_utf8_def extension_members_def list_all_iff)
  with read_context_extensions [OF c] decode_data_extensions [OF d] b show ?thesis
    by (auto simp: texts_utf8_extensions build_Inr)
qed

lemma json_decode_utf8:
  assumes "codec_utf8 C" "json_decode C fresh txt options = Inr ev"
  shows "texts_utf8 ev"
  using assms
  by (auto simp: json_decode_def decode_reading_def and_then_at_eq_Inr and_then_eq_Inr codec_utf8_def
      split: prod.splits if_splits dest!: read_event_utf8)


section \<open>Binary mode\<close>

text \<open>The values that the bindings take out of a header are UTF-8.\<close>

definition decodes_utf8 :: "traits \<Rightarrow> bool" where
  "decodes_utf8 T \<longleftrightarrow> (\<forall>v s. t_decode_value T v = Inr s \<longrightarrow> is_valid_utf8 s)"

lemma traits_decode_utf8:
  "decodes_utf8 (http_traits percent_encoded_values)" "decodes_utf8 kafka_traits" "decodes_utf8 nats_traits"
  "decodes_utf8 (mqtt_traits names)"
  by (auto simp: decodes_utf8_def http_traits_def percent_encoded_values_def kafka_traits_def kafka_encode_value_def
      nats_traits_def mqtt_traits_def mqtt_encode_value_def percent_decode_def and_then_eq_Inr split: if_splits)

lemma apply_attribute_utf8:
  "apply_attribute T b attribute v = Inr b' \<Longrightarrow> is_valid_utf8 v \<Longrightarrow> extensions_utf8 (o_extensions (b_rest b)) \<Longrightarrow>
     extensions_utf8 (o_extensions (b_rest b'))"
  by (auto simp: apply_attribute_def and_then_eq_Inr and_then_at_eq_Inr text_attribute_def
      intro!: extensions_utf8_insert split: if_splits)

lemma read_fields_utf8:
  "read_fields T hs b = Inr b' \<Longrightarrow> decodes_utf8 T \<Longrightarrow> extensions_utf8 (o_extensions (b_rest b)) \<Longrightarrow>
     extensions_utf8 (o_extensions (b_rest b'))"
proof (induction T hs b rule: read_fields.induct)
  case (2 T name raw_value rest b)
  show ?case
  proof (cases "carries_prefix T name")
    case True
    with "2.prems"(1) obtain v b1 where v: "t_decode_value T raw_value = Inr v"
      and b1: "apply_attribute T b (attribute_name_of T name) v = Inr b1" "read_fields T rest b1 = Inr b'"
      by (auto simp: Let_def and_then_eq_Inr and_then_at_eq_Inr)
    have "is_valid_utf8 v" using "2.prems"(2) v by (simp add: decodes_utf8_def)
    from "2.IH"(2) [of "attribute_name_of T name"] True b1 "2.prems"(2) apply_attribute_utf8 [OF b1(1) this "2.prems"(3)]
    show ?thesis by simp
  qed (use 2 in simp)
qed simp

lemma read_attributes_utf8:
  "read_attributes T hs = Inr b \<Longrightarrow> decodes_utf8 T \<Longrightarrow> extensions_utf8 (o_extensions (b_rest b))"
  by (auto simp: read_attributes_def new_builder_def no_options_def dest: read_fields_utf8 split: option.splits)

lemma declare_media_type_extensions:
  "declare_media_type declared b = Inr b' \<Longrightarrow> o_extensions (b_rest b') = o_extensions (b_rest b)"
  by (auto simp: declare_media_type_def and_then_eq_Inr split: option.splits)

lemma build_data_utf8:
  "build (b\<lparr>b_rest := b_rest b\<lparr>o_data := d\<rparr>\<rparr>) = Inr ev \<Longrightarrow> extensions_utf8 (o_extensions (b_rest b)) \<Longrightarrow> texts_utf8 ev"
  by (auto simp: build_Inr texts_utf8_extensions dest!: sym [of _ "e_rest ev"])

lemma bindings_read_utf8:
  assumes "codec_utf8 C"
    and "http_from_message percent_encoded_values C fresh m options = Inr ev \<or> kafka_from_message C fresh m options = Inr ev \<or>
      nats_from_message C fresh m options = Inr ev \<or> mqtt_from_message names C fresh m options = Inr ev"
  shows "texts_utf8 ev"
  using assms(2)
proof (elim disjE)
  assume "http_from_message percent_encoded_values C fresh m options = Inr ev"
  then show ?thesis
    using traits_decode_utf8(1) json_decode_utf8 [OF assms(1)]
    by (auto simp: http_from_message_def Let_def and_then_eq_Inr decode_structured_def split: if_splits
        dest!: read_attributes_utf8 declare_media_type_extensions build_data_utf8)
next
  assume "kafka_from_message C fresh m options = Inr ev"
  then show ?thesis
    using traits_decode_utf8(2) json_decode_utf8 [OF assms(1)]
    by (auto simp: kafka_from_message_def Let_def and_then_eq_Inr decode_structured_def split: if_splits
        dest!: read_attributes_utf8 declare_media_type_extensions build_data_utf8)
next
  assume "nats_from_message C fresh m options = Inr ev"
  then show ?thesis
    using traits_decode_utf8(3) json_decode_utf8 [OF assms(1)]
    by (auto simp: nats_from_message_def Let_def and_then_eq_Inr decode_structured_def split: if_splits
        dest!: read_attributes_utf8 build_data_utf8)
next
  assume "mqtt_from_message names C fresh m options = Inr ev"
  then show ?thesis
    using traits_decode_utf8(4) json_decode_utf8 [OF assms(1)]
    by (auto simp: mqtt_from_message_def mqtt_decode_binary_def and_then_eq_Inr decode_structured_def
        split: if_splits content_mode.splits
        dest!: read_attributes_utf8 declare_media_type_extensions build_data_utf8)
qed

text \<open>What encodes every UTF-8 text writes every event whose texts are UTF-8.\<close>

lemma put_all_succeeds:
  "\<forall>p \<in> set texts. is_ok (t_encode_value T (snd p)) \<Longrightarrow> \<exists>hs'. put_all T texts (Inr (), hs) = (Inr (), hs')"
proof (induction texts arbitrary: hs)
  case (Cons p texts)
  then obtain encoded where "t_encode_value T (snd p) = Inr encoded" by (auto simp: is_ok_iff)
  with Cons show ?case by (cases p) (simp add: put_attribute_def)
qed simp

lemma write_attributes_succeeds:
  assumes "event_ok ev" "texts_utf8 ev" "\<And>s. is_valid_utf8 s \<Longrightarrow> is_ok (t_encode_value T s)"
  shows "\<exists>hs. write_attributes T ev [] = (Inr (), hs)"
proof -
  have "\<forall>p \<in> set (attribute_texts T ev). is_ok (t_encode_value T (snd p))"
    using attribute_texts_utf8 [OF assms(1,2)] assms(3) by blast
  from put_all_succeeds [OF this] obtain hs where "put_all T (attribute_texts T ev) (Inr (), []) = (Inr (), hs)" by blast
  then show ?thesis by (simp add: write_attributes_all)
qed

lemma traits_encode_utf8:
  "is_valid_utf8 s \<Longrightarrow> is_ok (t_encode_value (http_traits percent_encoded_values) s)"
  "is_valid_utf8 s \<Longrightarrow> is_ok (t_encode_value kafka_traits s)" "is_ok (t_encode_value nats_traits s)"
  by (simp_all add: http_traits_def percent_encoded_values_def kafka_traits_def kafka_encode_value_def nats_traits_def)

lemma binary_mode_writes:
  assumes "event_ok ev" "texts_utf8 ev"
  shows "is_ok (http_to_message percent_encoded_values C ev binary_mode)" "is_ok (kafka_to_message C ev binary_mode)"
    "is_ok (nats_to_message C ev binary_mode)"
  using write_attributes_succeeds [OF assms, of "http_traits percent_encoded_values"]
    write_attributes_succeeds [OF assms, of kafka_traits] write_attributes_succeeds [OF assms, of nats_traits] traits_encode_utf8
  by (auto simp: http_to_message_def kafka_to_message_def nats_to_message_def)

end
