(* ===== verification/Fuzz_Messages.thy ===== *)
theory Fuzz_Messages
  imports Fuzz_Input Binding_Utf8
begin

text \<open>
  \<open>fuzz/fuzz_http_message.cpp\<close>, \<open>fuzz_kafka_message.cpp\<close> and the header half of
  \<open>fuzz_nats_payload.cpp\<close>: a message built from the input is read, and what was read is written in
  binary mode. With a JSON parser that refuses what is not UTF-8, no input makes a target trap.
\<close>

section \<open>The targets\<close>

definition fuzz_http_message :: "'j codec \<Rightarrow> nat \<Rightarrow> string \<Rightarrow> outcome" where
  "fuzz_http_message C fresh input =
     (let request = build_message input
      in case http_from_message percent_encoded_values C fresh request default_decode_options of
          Inl _ \<Rightarrow> Returns
        | Inr decoded \<Rightarrow> trap_unless (is_ok (http_to_message percent_encoded_values C decoded binary_mode)))"

text \<open>A failure to write comes first: it leaves no record whose key is looked at.\<close>

definition fuzz_kafka_message :: "'j codec \<Rightarrow> nat \<Rightarrow> string \<Rightarrow> outcome" where
  "fuzz_kafka_message C fresh input =
     (let incoming = build_message input
      in case kafka_from_message C fresh incoming default_decode_options of
          Inl _ \<Rightarrow> Returns
        | Inr decoded \<Rightarrow>
            next_check (trap_unless (is_ok (kafka_to_message C decoded binary_mode)))
              (let before = decoded
               in case to_record partitionkey_of C decoded binary_mode of
                   Inl _ \<Rightarrow> Traps
                 | Inr keyed \<Rightarrow>
                     next_check (trap_unless (event_equal decoded before))
                       (trap_unless (\<not> (kr_key keyed \<noteq> None \<and>
                          find_exact ''ce_partitionkey'' (header_fields (kr_value keyed)) = None)))))"

definition fuzz_nats_message :: "'j codec \<Rightarrow> nat \<Rightarrow> string \<Rightarrow> outcome" where
  "fuzz_nats_message C fresh payload =
     (let incoming = build_message payload
      in case nats_from_message C fresh incoming default_decode_options of
          Inl _ \<Rightarrow> Returns
        | Inr from_headers \<Rightarrow> trap_unless (is_ok (nats_to_message C from_headers binary_mode)))"


section \<open>A key travels as a header\<close>

lemma partitionkey_travels:
  assumes "event_ok ev" "kafka_to_message C ev binary_mode = Inr m" "partitionkey_of ev \<noteq> None"
  shows "find_exact ''ce_partitionkey'' (header_fields m) \<noteq> None"
proof -
  from assms(2) obtain hs where w: "write_attributes kafka_traits ev [] = (Inr (), hs)" and hs: "header_fields m = hs"
    by (auto simp: kafka_to_message_def and_then_eq_Inr empty_message_def write_body_eq split: prod.splits)
  have ct: "\<not> carries_prefix kafka_traits (t_content_type_header kafka_traits)"
    by (simp add: kafka_traits_def carries_prefix_def starts_with_def kafka_content_type_header_def)
  obtain a where "(''partitionkey'', a) \<in> set (o_extensions (e_rest ev))"
    using assms(3) by (auto simp: partitionkey_of_def extension_def om_find_def dest!: map_of_SomeD split: option.splits)
  then have "(''partitionkey'', render_attribute a) \<in> set (attribute_texts kafka_traits ev)"
    by (auto simp: attribute_texts_def)
  then have "kafka.field_of (''partitionkey'', render_attribute a) \<in> set hs"
    using kafka.write_attributes_fields(1) [OF assms(1) w disjI1 [OF ct]] by auto
  then have "''ce_partitionkey'' \<in> fst ` set hs"
    unfolding kafka.field_of_def by (force simp: kafka_traits_def)
  then show ?thesis by (simp add: hs find_exact_map_of map_of_eq_None_iff)
qed


section \<open>No input traps\<close>

lemma http_message_returns:
  assumes "codec_utf8 C"
  shows "fuzz_http_message C fresh input = Returns"
  using bindings_read_utf8 [OF assms] http_read_ok binary_mode_writes(1)
  by (fastforce simp: fuzz_http_message_def Let_def split: sum.split)

lemma nats_message_returns:
  assumes "codec_utf8 C"
  shows "fuzz_nats_message C fresh input = Returns"
  using bindings_read_utf8 [OF assms] nats_read_ok binary_mode_writes(3)
  by (fastforce simp: fuzz_nats_message_def Let_def split: sum.split)

lemma kafka_message_returns:
  assumes "codec_utf8 C"
  shows "fuzz_kafka_message C fresh input = Returns"
proof (cases "kafka_from_message C fresh (build_message input) default_decode_options")
  case (Inr ev)
  then have ok: "event_ok ev" "texts_utf8 ev" using kafka_read_ok bindings_read_utf8 [OF assms] by blast+
  from binary_mode_writes(2) [OF this, of C] obtain m where m: "kafka_to_message C ev binary_mode = Inr m"
    by (auto simp: is_ok_iff)
  then show ?thesis
    using partitionkey_travels [OF ok(1) m] by (cases "partitionkey_of ev = None")
      (simp_all add: fuzz_kafka_message_def Let_def Inr to_record_def event_equal_refl)
qed (simp add: fuzz_kafka_message_def)

text \<open>
  C17: the HTTP and the Kafka target, and the header half of the NATS target, trap on no input:
  whatever a binding reads, headers or JSON, it can write in binary mode, the key of a Kafka
  record is computed without changing the event, and it travels as a header too.
\<close>

theorem fuzz_messages_return:
  assumes "codec_utf8 C"
  shows "fuzz_http_message C fresh input = Returns \<and> fuzz_kafka_message C fresh input = Returns \<and>
    fuzz_nats_message C fresh input = Returns"
  using assms by (simp add: http_message_returns kafka_message_returns nats_message_returns)

definition kafka_input :: string where
  "kafka_input = ''ce_specversion:1.0'' @ [CHR 0x0A] @ ''ce_id:1'' @ [CHR 0x0A] @ ''ce_source:/s'' @ [CHR 0x0A] @
     ''ce_type:t'' @ [CHR 0x0A] @ ''ce_partitionkey:k'' @ [CHR 0x0A, CHR 0x0A] @ ''x''"

theorem fuzz_messages_return_witness:
  "(case kafka_from_message (strict_parse reference_codec) 0 (build_message kafka_input) default_decode_options of
      Inr ev \<Rightarrow> partitionkey_of ev = Some ''k''
    | Inl _ \<Rightarrow> False) \<and>
   fuzz_http_message (strict_parse reference_codec) 0 kafka_input = Returns \<and>
   fuzz_kafka_message (strict_parse reference_codec) 0 kafka_input = Returns \<and>
   fuzz_nats_message (strict_parse reference_codec) 0 kafka_input = Returns"
proof -
  have "case kafka_from_message (strict_parse reference_codec) 0 (build_message kafka_input) default_decode_options of
      Inr ev \<Rightarrow> partitionkey_of ev = Some ''k''
    | Inl _ \<Rightarrow> False" by code_simp
  then show ?thesis using fuzz_messages_return [OF strict_parse_utf8, of reference_codec 0 kafka_input] by blast
qed

end
