(* ===== verification/Json_Normal.thy ===== *)
theory Json_Normal
  imports Json_Properties
begin

text \<open>
  What the JSON reader returns is already what JSON keeps of an event: extensions that JSON has a
  type for, text data only under a media type that is not JSON, documents of the reader's codec. So
  it is always written again, and read back as an equal event, unless it has grown beyond the
  retention limit.
\<close>

section \<open>Decoded events are normal\<close>

definition declared_non_json :: "string option \<Rightarrow> bool" where
  "declared_non_json media \<longleftrightarrow> (case media of Some m \<Rightarrow> \<not> is_json_content_type m | None \<Rightarrow> False)"

definition data_normal :: "'j codec \<Rightarrow> string option \<Rightarrow> 'j data_t \<Rightarrow> bool" where
  "data_normal C media d \<longleftrightarrow>
     (case d of Text_data _ \<Rightarrow> declared_non_json media
      | Json_document held \<Rightarrow>
          (\<exists>a v. held = document_make C a v \<and> \<not> (declared_non_json media \<and> c_kind_of C v = K_string))
      | _ \<Rightarrow> True)"

lemma data_normal_simps [simp]:
  "data_normal C media No_data" "data_normal C media (Binary_data b)" "data_normal C media (Json_text s)"
  "data_normal C media (Text_data s) \<longleftrightarrow> declared_non_json media"
  "\<not> (declared_non_json media \<and> c_kind_of C v = K_string) \<Longrightarrow> data_normal C media (Json_document (document_make C a v))"
  by (auto simp: data_normal_def)

definition extensions_normal :: "extension_map \<Rightarrow> bool" where
  "extensions_normal exts \<longleftrightarrow> (\<forall>(n, a) \<in> set exts. json_attribute a = a)"

lemma extensions_normal_insert:
  "extensions_normal exts \<Longrightarrow> json_attribute a = a \<Longrightarrow> extensions_normal (om_insert_or_assign n a exts)"
  using om_insert_subset [of n a exts] by (auto simp: extensions_normal_def)

lemma json_extensions_normal: "extensions_normal exts \<Longrightarrow> json_extensions exts = exts"
  unfolding json_extensions_def extensions_normal_def by (rule map_idI) auto

lemma read_extension_normal:
  "read_extension C name member into = (r, into') \<Longrightarrow> extensions_normal (o_extensions into) \<Longrightarrow>
     extensions_normal (o_extensions into') \<and> o_data into' = o_data into"
  by (auto simp: read_extension_def decode_attribute_def and_then_at_eq_Inr json_attribute_def extension_name_rules.make_Inr
      intro!: extensions_normal_insert split: if_splits sum.splits kind.splits)

lemma read_extensions_normal:
  "read_extensions C ms r into = (r', into') \<Longrightarrow> extensions_normal (o_extensions into) \<Longrightarrow>
     extensions_normal (o_extensions into') \<and> o_data into' = o_data into"
proof (induction C ms r into rule: read_extensions.induct)
  case (2 C name v ms r into)
  obtain r1 into1 where e: "read_extension C name v into = (r1, into1)" by fastforce
  with 2 read_extension_normal [OF e] show ?case by (cases "is_ok r") auto
qed simp

lemma read_context_keeps:
  "read_context C found into = Inr into' \<Longrightarrow>
     o_extensions (b_rest into') = o_extensions (b_rest into) \<and> o_data (b_rest into') = o_data (b_rest into)"
  by (auto simp: read_context_def and_then_eq_Inr and_then_at_eq_Inr store_time_def Let_def split: option.splits)

definition holds_text :: "'j data_t \<Rightarrow> bool" where
  "holds_text d = (case d of Json_text _ \<Rightarrow> True | _ \<Rightarrow> False)"

definition holds_document :: "'j data_t \<Rightarrow> bool" where
  "holds_document d = (case d of Json_document _ \<Rightarrow> True | _ \<Rightarrow> False)"

definition event_normal :: "'j codec \<Rightarrow> 'j event \<Rightarrow> bool" where
  "event_normal C ev \<longleftrightarrow> extensions_normal (o_extensions (e_rest ev)) \<and>
     data_normal C (o_datacontenttype (e_rest ev)) (o_data (e_rest ev))"

lemma decode_data_normal:
  assumes "decode_data C fresh found owned mode own False into = Inr (rest, m)" "o_data into = No_data"
    and "mode = P_copy \<and> owned = None \<or> mode = P_text" "\<forall>v. c_copy C v = v"
  shows "o_extensions rest = o_extensions into \<and> data_normal C (o_datacontenttype rest) (o_data rest) \<and>
    (mode = P_copy \<longrightarrow> \<not> holds_text (o_data rest)) \<and> (mode = P_text \<longrightarrow> \<not> holds_document (o_data rest))"
  using assms
  by (auto simp: decode_data_def and_then_at_eq_Inr Let_def json_payload_def declared_non_json_def
      holds_text_def holds_document_def split: if_splits option.splits sum.splits)

lemma read_event_normal:
  assumes "read_event C fresh document owned mode own False = Inr (ev, m)"
    and "mode = P_copy \<and> owned = None \<or> mode = P_text" "\<forall>v. c_copy C v = v"
  shows "event_normal C ev \<and> (mode = P_copy \<longrightarrow> \<not> holds_text (o_data (e_rest ev))) \<and>
    (mode = P_text \<longrightarrow> \<not> holds_document (o_data (e_rest ev)))"
proof -
  from assms(1) obtain rest b rest' where
    e: "read_extensions C (extension_members (c_members C document)) (Inr ()) no_options = (Inr (), rest)"
    and c: "read_context C (found_in (c_members C document) 0) (new_builder\<lparr>b_rest := rest\<rparr>) = Inr b"
    and d: "decode_data C fresh (found_in (c_members C document) 0) owned mode own False (b_rest b) = Inr (rest', m)"
    and b: "build (b\<lparr>b_rest := rest'\<rparr>) = Inr ev"
    unfolding read_event_Inr by blast
  have n: "extensions_normal (o_extensions rest)" "o_data rest = No_data"
    using read_extensions_normal [OF e] by (simp_all add: no_options_def extensions_normal_def)
  have "e_rest ev = rest'" using b by (auto simp: build_Inr)
  then show ?thesis
    using n read_context_keeps [OF c] decode_data_normal [OF d _ assms(2,3)] by (auto simp: event_normal_def)
qed

lemma json_decode_normal:
  assumes "codec_lookup C" "json_decode C fresh txt options = Inr ev"
  shows "event_normal C ev \<and> (if retains txt options then \<not> holds_text (o_data (e_rest ev))
    else \<not> holds_document (o_data (e_rest ev)))"
proof -
  have copy: "\<forall>v. c_copy C v = v" using assms(1) by (simp add: codec_lookup_def)
  from assms(2) obtain document where p: "c_parse C txt = Inr document"
    by (auto simp: json_decode_def decode_reading_def and_then_at_eq_Inr)
  show ?thesis
  proof (cases "retains txt options")
    case True
    with assms p have "from_value C fresh document = Inr ev" using json_decode_retained by metis
    with True read_event_normal [OF _ disjI1 copy] show ?thesis by (auto simp: from_value_Inr)
  next
    case False
    with assms(2) p obtain m where
      "read_event C fresh document (Some document) P_text (data_member_text txt) False = Inr (ev, m)"
      by (auto simp: json_decode_def decode_reading_def and_then_eq_Inr)
    from read_event_normal [OF this disjI2 copy] False show ?thesis by simp
  qed
qed


section \<open>Encoding a decoded event again\<close>

lemma normal_data_encodes:
  "data_normal C media d \<Longrightarrow> \<not> holds_text d \<Longrightarrow> \<exists>D. data_entries C d = Inr D"
  by (auto simp: data_normal_def holds_text_def data_entries_def document_get_make split: data_t.splits)

lemma normal_encodes:
  assumes "event_normal C ev" "\<not> holds_text (o_data (e_rest ev))"
  shows "\<exists>encoded. json_encode C ev = Inr encoded"
proof -
  obtain D where "data_entries C (o_data (e_rest ev)) = Inr D"
    using normal_data_encodes [of C _ "o_data (e_rest ev)"] assms by (auto simp: event_normal_def)
  then show ?thesis by (simp add: json_encode_def to_value_all)
qed

lemma json_data_equal:
  assumes "codec_scalars C" "codec_lookup C" "codec_values C" "data_normal C media d" "\<not> holds_text d"
  shows "data_equal (json_data C fresh media d) d"
proof (cases d)
  case (Json_document held)
  with assms(4) obtain a v where h: "held = document_make C a v" "\<not> (declared_non_json media \<and> c_kind_of C v = K_string)"
    by (auto simp: data_normal_def)
  have "json_data C fresh media d = Json_document (document_make C fresh v)"
    using h(2) assms(2) by (simp add: Json_document h(1) json_data_def document_get_make json_value_data_def
        codec_lookup_def declared_non_json_def)
  moreover have "document_equal (document_make C fresh v) (document_make C a v)"
    using assms(3) by (simp add: document_equal_def document_make_def model_identity_def model_equal_value_def codec_values_def)
  ultimately show ?thesis by (simp add: data_equal_def Json_document h(1))
qed (use assms in \<open>auto simp: json_data_def data_normal_def json_value_data_def declared_non_json_def codec_scalars_def
    holds_text_def data_equal_def\<close>)

lemma json_image_equal:
  assumes "codec_scalars C" "codec_lookup C" "codec_values C" "event_normal C ev" "\<not> holds_text (o_data (e_rest ev))"
  shows "event_equal (json_image C fresh ev) ev"
  using json_data_equal [OF assms(1-3) _ assms(5)] assms(4)
  by (simp add: event_normal_def event_equal_def json_image_def options_equal_def json_extensions_normal)

text \<open>Data that is not a JSON value is read in one way, whatever the mode.\<close>

lemma decode_data_any_mode:
  assumes "decode_data C fresh found None P_copy None False into = Inr (rest, m)" "\<not> holds_document (o_data rest)"
  shows "decode_data C fresh found owned mode own False into = Inr (rest, None)"
  using assms
  by (auto simp: decode_data_def and_then_at_eq_Inr Let_def json_payload_def holds_document_def
      split: if_splits option.splits sum.splits)

lemma json_data_same:
  assumes "codec_scalars C" "data_normal C media d" "\<not> holds_text d" "\<not> holds_document d"
  shows "json_data C fresh media d = d"
  using assms by (cases d)
    (auto simp: json_data_def json_value_data_def declared_non_json_def codec_scalars_def holds_text_def holds_document_def)

text \<open>Above the retention limit, an event without a document is read back too.\<close>

lemma json_decode_encoded_text:
  assumes C: "codec_scalars C" "codec_objects C" "codec_lookup C" "codec_text C"
    and ev: "event_ok ev" "time_fits ev" "event_normal C ev"
    and data: "\<not> holds_text (o_data (e_rest ev))" "\<not> holds_document (o_data (e_rest ev))"
    and out: "json_encode C ev = Inr txt" "\<not> retains txt options"
  shows "json_decode C fresh txt options = Inr ev"
proof -
  let ?r = "e_rest ev"
  from out(1) obtain root where r: "to_value C ev = Inr root" "txt = c_dump C root"
    by (auto simp: json_encode_def and_then_eq_Inr)
  have p: "c_parse C txt = Inr root" using C(4) r by (simp add: codec_text_def)
  from r(1) obtain D where D: "data_entries C (o_data ?r) = Inr D"
    and root: "root = set_all C (context_entries C ev (o_datacontenttype ?r) @ extension_entries C ev @ D) (c_make_object C)"
    by (auto simp: to_value_all and_then_eq_Inr)
  note m = written_members [OF C(2) ev(1) D root]
  note dm = map_of_written(9,10) [OF ev(1) D, of "o_datacontenttype ?r", folded m(2)]
  have n: "json_extensions (o_extensions ?r) = o_extensions ?r"
    "json_data C fresh (o_datacontenttype ?r) (o_data ?r) = o_data ?r"
    using ev(3) data C(1) by (simp_all add: event_normal_def json_extensions_normal json_data_same)
  from decode_data_written [OF C(1) D dm, of "?r\<lparr>o_extensions := json_extensions (o_extensions ?r), o_data := No_data\<rparr>" fresh]
  have "decode_data C fresh (found_in (c_members C root) 0) None P_copy None False
      (?r\<lparr>o_extensions := json_extensions (o_extensions ?r), o_data := No_data\<rparr>) = Inr (?r, None)"
    by (simp add: n)
  from read_event_written [OF C(1,2) ev(1,2) D root decode_data_any_mode [OF this data(2), of "Some root" P_text]]
  have "read_event C fresh root (Some root) P_text (data_member_text txt) False = Inr (ev, None)" by simp
  then show ?thesis using p out(2) by (simp add: json_decode_def decode_reading_def)
qed

text \<open>What was written for a time that does not fit is no event: the reader refuses its time.\<close>

lemma unreadable_time:
  assumes C: "codec_scalars C" "codec_objects C" and ev: "event_ok ev" "\<not> time_fits ev" and D: "data_entries C d = Inr D"
    and root: "root = set_all C (context_entries C ev media @ extension_entries C ev @ D) (c_make_object C)"
  shows "\<not> is_ok (read_event C fresh root owned mode own wants)"
proof
  assume "is_ok (read_event C fresh root owned mode own wants)"
  then obtain b b' where "read_context C (found_in (c_members C root) 0) b = Inr b'"
    by (auto simp: is_ok_iff read_event_Inr)
  then obtain into into' where s: "store_time C (first_ref ''time'' (c_members C root) 0) into = Inr into'"
    by (auto simp: read_context_def and_then_eq_Inr Let_def found_in_def)
  from ev obtain t where t: "o_time (e_rest ev) = Some t" "ts_ok t" "\<not> local_fits t"
    by (auto simp: time_fits_def event_ok_def options_ok_def split: option.splits)
  have "map_of (c_members C root) ''time'' = Some (built_string C (to_string t))"
    using map_of_written(8) [OF ev(1) D, of media] written_members(2) [OF C(2) ev(1) D root] t(1) by simp
  then obtain k where "first_ref ''time'' (c_members C root) 0 = Some (k, built_string C (to_string t))"
    using first_ref_map_of [of "''time''" "c_members C root" 0] by auto
  with s built_string_reads [OF C(1), of "to_string t"] have "is_ok (parse_timestamp (to_string t))"
    by (auto simp: store_time_def optional_text_of_def and_then_at_eq_Inr is_ok_iff)
  with wrapped_text [OF t(2,3)] show False by blast
qed

lemma json_decode_unreadable_time:
  assumes C: "codec_scalars C" "codec_objects C" "codec_text C" and ev: "event_ok ev" "\<not> time_fits ev"
    and out: "json_encode C ev = Inr encoded"
  shows "\<not> is_ok (json_decode C fresh encoded options)"
proof -
  let ?r = "e_rest ev"
  from out obtain root where r: "to_value C ev = Inr root" "encoded = c_dump C root"
    by (auto simp: json_encode_def and_then_eq_Inr)
  have p: "c_parse C encoded = Inr root" using C(3) r by (simp add: codec_text_def)
  from r(1) obtain D where D: "data_entries C (o_data ?r) = Inr D"
    and root: "root = set_all C (context_entries C ev (o_datacontenttype ?r) @ extension_entries C ev @ D) (c_make_object C)"
    by (auto simp: to_value_all and_then_eq_Inr)
  show ?thesis using unreadable_time [OF C(1,2) ev D root]
    by (auto simp: json_decode_def decode_reading_def p is_ok_iff and_then_eq_Inr split: if_splits)
qed

text \<open>
  So a decoded event that is encoded is read back as an equal event, if its time fits and its JSON
  data fits the retention limit again; and only then.
\<close>

lemma json_decode_again:
  assumes C: "codec_scalars C" "codec_objects C" "codec_lookup C" "codec_text C" "codec_values C"
    and ev: "json_decode C fresh txt options = Inr ev" "retains txt options"
    and encoded: "json_encode C ev = Inr encoded"
  shows "(\<exists>again. json_decode C fresh' encoded options = Inr again \<and> event_equal again ev) \<longleftrightarrow>
    time_fits ev \<and> (retains encoded options \<or> \<not> holds_document (o_data (e_rest ev)))"
proof (cases "time_fits ev")
  case time: True
  have n: "event_normal C ev" "\<not> holds_text (o_data (e_rest ev))" using json_decode_normal [OF C(3) ev(1)] ev(2) by simp_all
  note ok = json_decode_ok [OF ev(1)]
  show ?thesis
  proof (cases "retains encoded options")
    case True
    with json_decode_encoded [OF C(1-4) ok time encoded True, of fresh'] json_image_equal [OF C(1,3,5) n]
    show ?thesis using time by auto
  next
    case False
    show ?thesis
    proof (cases "holds_document (o_data (e_rest ev))")
      case True
      have "\<not> event_equal again ev" if "json_decode C fresh' encoded options = Inr again" for again
        using json_decode_normal [OF C(3) that] False True
        by (auto simp: event_equal_def options_equal_def data_equal_def holds_document_def split: data_t.splits)
      with True False show ?thesis by blast
    next
      case no_document: False
      from json_decode_encoded_text [OF C(1-4) ok time n no_document encoded False, of fresh'] no_document
      show ?thesis using time by (auto simp: event_equal_refl)
    qed
  qed
qed (use json_decode_unreadable_time [OF C(1,2,4) json_decode_ok [OF ev(1)] _ encoded] in \<open>auto simp: is_ok_iff\<close>)

end
