(* ===== verification/Json_Grammar.thy ===== *)
theory Json_Grammar
  imports Swar Json_Laws
begin

text \<open>
  The bracket and string structure of a JSON text, as RFC 8259 has it and as a lenient reader may
  widen it, and the scanner of \<open>include/cloudevents/format/detail/json_slice.hpp\<close> on such a text: what
  \<open>data_member_text\<close> returns is the text of the one member that is named \<open>data\<close>.
\<close>

section \<open>The structure of a JSON text\<close>

text \<open>
  A string is read to the first quotation mark that no backslash precedes; a scalar is a run of
  characters that are not punctuation; an array and an object are lists of values with whitespace
  between the tokens. A reader may refuse more (a control character in a string, a number that is
  none), and reads no text that has not this structure.
\<close>

inductive string_body :: "string \<Rightarrow> bool" where
  body_end: "string_body []"
| body_char: "c \<noteq> CHR 0x22 \<Longrightarrow> c \<noteq> CHR 0x5C \<Longrightarrow> string_body b \<Longrightarrow> string_body (c # b)"
| body_escape: "string_body b \<Longrightarrow> string_body (CHR 0x5C # c # b)"

definition quoted :: "string \<Rightarrow> string" where
  "quoted b = CHR 0x22 # b @ [CHR 0x22]"

definition blank :: "string \<Rightarrow> bool" where
  "blank w \<longleftrightarrow> set w \<subseteq> set json_whitespace"

definition scalar_text :: "string \<Rightarrow> bool" where
  "scalar_text t \<longleftrightarrow> t \<noteq> [] \<and> (\<forall>c \<in> set t. class_of c = C_scalar_start \<or> class_of c = C_other)"

inductive value_text :: "string \<Rightarrow> bool"
  and items_text :: "string \<Rightarrow> bool"
  and members_text :: "(string \<times> string) list \<Rightarrow> string \<Rightarrow> bool"
where
  value_scalar: "scalar_text t \<Longrightarrow> value_text t"
| value_string: "string_body b \<Longrightarrow> value_text (quoted b)"
| value_no_items: "blank w \<Longrightarrow> value_text (CHR ''['' # w @ '']'')"
| value_array: "items_text t \<Longrightarrow> value_text (CHR ''['' # t @ '']'')"
| value_no_members: "blank w \<Longrightarrow> value_text (CHR ''{'' # w @ ''}'')"
| value_object: "members_text ms t \<Longrightarrow> value_text (CHR ''{'' # t @ ''}'')"
| items_one: "blank w \<Longrightarrow> value_text t \<Longrightarrow> blank w' \<Longrightarrow> items_text (w @ t @ w')"
| items_more: "blank w \<Longrightarrow> value_text t \<Longrightarrow> blank w' \<Longrightarrow> items_text u \<Longrightarrow> items_text (w @ t @ w' @ CHR '','' # u)"
| members_one:
    "blank w1 \<Longrightarrow> string_body n \<Longrightarrow> blank w2 \<Longrightarrow> blank w3 \<Longrightarrow> value_text t \<Longrightarrow> blank w4 \<Longrightarrow>
     members_text [(n, t)] (w1 @ quoted n @ w2 @ CHR '':'' # w3 @ t @ w4)"
| members_more:
    "blank w1 \<Longrightarrow> string_body n \<Longrightarrow> blank w2 \<Longrightarrow> blank w3 \<Longrightarrow> value_text t \<Longrightarrow> blank w4 \<Longrightarrow> members_text ms u \<Longrightarrow>
     members_text ((n, t) # ms) (w1 @ quoted n @ w2 @ CHR '':'' # w3 @ t @ w4 @ CHR '','' # u)"

text \<open>
  The text of an object with these members, the names as they are spelt: after a byte order mark, if
  there is one, and to the end of the text or to a zero octet, where some readers stop.
\<close>

definition byte_order_mark :: string where
  "byte_order_mark = [CHR 0xEF, CHR 0xBB, CHR 0xBF]"

inductive object_text :: "(string \<times> string) list \<Rightarrow> string \<Rightarrow> bool" where
  "mark = [] \<or> mark = byte_order_mark \<Longrightarrow> blank w1 \<Longrightarrow> ms = [] \<and> blank t \<or> members_text ms t \<Longrightarrow> blank w2 \<Longrightarrow>
     rest = [] \<or> hd rest = CHR 0x00 \<Longrightarrow> object_text ms (mark @ w1 @ CHR ''{'' # t @ CHR ''}'' # w2 @ rest)"


section \<open>A scanner at a place of a text\<close>

definition placed :: "string \<Rightarrow> string \<Rightarrow> slicer" where
  "placed pre post = \<lparr>sl_text = pre @ post, sl_pos = length pre, sl_lost = False\<rparr>"

lemma placed_simps [simp]:
  "sl_text (placed pre post) = pre @ post" "sl_pos (placed pre post) = length pre" "\<not> sl_lost (placed pre post)"
  by (simp_all add: placed_def)

lemma peek_placed: "peek (placed pre post) k = (if k < length post then post ! k else CHR 0x00)"
  by (simp add: placed_def peek_def sl_at_def nth_append)

lemma peek_placed_simps [simp]:
  "peek (placed pre (c # post)) 0 = c" "peek (placed pre []) k = CHR 0x00"
  "peek (placed pre (c # post)) (Suc k) = peek (placed (pre @ [c]) post) k"
  by (simp_all add: peek_placed)

lemma placed_move: "(placed pre (t @ post))\<lparr>sl_pos := length pre + length t\<rparr> = placed (pre @ t) post"
  by (simp add: placed_def)

lemma placed_next: "(placed pre (c # post))\<lparr>sl_pos := Suc (length pre)\<rparr> = placed (pre @ [c]) post"
  by (simp add: placed_def)

lemma span_text: "sl_text s = pre @ t @ post \<Longrightarrow> i = length pre \<Longrightarrow> j = i + length t \<Longrightarrow> span s i j = t"
  by (simp add: span_def)

text \<open>What follows a value: whitespace, a comma or a closing bracket.\<close>

definition followed :: "string \<Rightarrow> bool" where
  "followed post \<longleftrightarrow> post \<noteq> [] \<and> ends_scalar (hd post)"

lemma class_blank [simp]: "c \<in> set json_whitespace \<Longrightarrow> class_of c = C_whitespace"
proof -
  assume "c \<in> set json_whitespace"
  then consider "c = CHR '' ''" | "c = CHR 0x09" | "c = CHR 0x0A" | "c = CHR 0x0D" unfolding json_whitespace_def by auto
  then show ?thesis by cases (simp_all add: class_of_def scalar_first_characters_def json_whitespace_def)
qed

lemma class_punctuation [simp]:
  "class_of CHR ''['' = C_open" "class_of CHR ''{'' = C_open" "class_of CHR '']'' = C_close" "class_of CHR ''}'' = C_close"
  "class_of CHR '','' = C_comma" "class_of CHR '':'' = C_colon" "class_of CHR 0x22 = C_quote"
  by (simp_all add: class_of_def scalar_first_characters_def json_whitespace_def)

lemma blank_Nil [simp]: "blank []" by (simp add: blank_def)
lemma blank_Cons [simp]: "blank (c # w) \<longleftrightarrow> c \<in> set json_whitespace \<and> blank w" by (simp add: blank_def)

lemma followed_simps [simp]:
  "followed (CHR '','' # post)" "followed (CHR ''}'' # post)" "followed (CHR '']'' # post)"
  by (simp_all add: followed_def ends_scalar_def)

lemma followed_blank [simp]: "blank w \<Longrightarrow> followed post \<Longrightarrow> followed (w @ post)"
  by (cases w) (simp_all add: followed_def ends_scalar_def)

subsection \<open>Whitespace\<close>

definition dark :: "string \<Rightarrow> bool" where
  "dark post \<longleftrightarrow> post = [] \<or> class_of (hd post) \<noteq> C_whitespace"

lemma dark_Cons [simp]: "dark (c # post) \<longleftrightarrow> class_of c \<noteq> C_whitespace" by (simp add: dark_def)

lemma skip_space_from_placed:
  "blank w \<Longrightarrow> dark post \<Longrightarrow> skip_space_from (pre @ w @ post) (length pre) = length pre + length w"
proof (induction w arbitrary: pre)
  case Nil
  then show ?case by (subst skip_space_from.simps) (auto simp: dark_def hd_conv_nth nth_append)
next
  case (Cons c w)
  with Cons.IH [of "pre @ [c]"] show ?case by (subst skip_space_from.simps) simp
qed

lemma skip_space_placed [simp]: "blank w \<Longrightarrow> dark post \<Longrightarrow> skip_space (placed pre (w @ post)) = placed (pre @ w) post"
  by (simp add: skip_space_def skip_space_from_placed placed_def)

lemmas skip_space_here = skip_space_placed [of "[]", simplified]

lemma take_char_placed:
  "blank w \<Longrightarrow> class_of d \<noteq> C_whitespace \<Longrightarrow>
     take_char c (placed pre (w @ d # post)) =
       (if d = c then (True, placed (pre @ w @ [d]) post) else (False, placed (pre @ w) (d # post)))"
  by (simp add: take_char_def Let_def placed_next)

lemma next_is_placed:
  "blank w \<Longrightarrow> class_of d \<noteq> C_whitespace \<Longrightarrow>
     next_is c (placed pre (w @ d # post)) = (d = c, placed (pre @ w) (d # post))"
  by (simp add: next_is_def Let_def)

subsection \<open>Strings\<close>

lemma string_run_end_placed:
  "string_run_end (placed pre (c # post)) (length pre) =
     (if ends_string_run c then length pre else string_run_end (placed (pre @ [c]) post) (length (pre @ [c])))"
  by (simp add: string_run_end_def run_end_words_bytes run_end_bytes.simps [of "pre @ c # post" "length pre"])

lemma string_loop_char:
  assumes "\<not> ends_string_run c"
  shows "string_loop e (placed pre (c # post)) = string_loop e (placed (pre @ [c]) post)"
proof -
  have p: "(placed pre (c # post))\<lparr>sl_pos := p\<rparr> = (placed (pre @ [c]) post)\<lparr>sl_pos := p\<rparr>" for p by (simp add: placed_def)
  show ?thesis using assms
    unfolding string_loop.simps [of e "placed pre (c # post)"] string_loop.simps [of e "placed (pre @ [c]) post"]
    by (simp add: string_run_end_placed p)
qed

lemma string_loop_stop:
  assumes "ends_string_run c"
  shows "string_loop e (placed pre (c # post)) =
     (if c = CHR 0x22 then (Some e, placed (pre @ [c]) post)
      else if c \<noteq> CHR 0x5C then (None, placed pre (c # post))
      else (case escape (placed pre (c # post)) of (False, s) \<Rightarrow> (None, s) | (True, s) \<Rightarrow> string_loop True s))"
proof -
  have p: "(placed pre (c # post))\<lparr>sl_pos := length pre\<rparr> = placed pre (c # post)" by (simp add: placed_def)
  show ?thesis using assms
    by (simp add: string_loop.simps [of e "placed pre (c # post)"] string_run_end_placed Let_def placed_next p)
qed

lemma hex_body:
  assumes "string_body b" "one_of hex_digits (peek (placed pre (b @ CHR 0x22 # post)) 0)"
  shows "\<exists>c b'. b = c # b' \<and> string_body b' \<and> one_of hex_digits c"
  using assms by (cases b rule: string_body.cases) (auto simp: one_of_def hex_digits_def)

lemma hex_bodies:
  assumes "string_body b" "\<forall>k < n. one_of hex_digits (peek (placed pre (b @ CHR 0x22 # post)) k)"
  shows "\<exists>h b'. b = h @ b' \<and> length h = n \<and> string_body b' \<and> CHR 0x5C \<notin> set h"
  using assms
proof (induction n arbitrary: pre b)
  case (Suc n)
  then obtain c b' where b: "b = c # b'" "string_body b'" "one_of hex_digits c" using hex_body [of b] by blast
  have "\<forall>k < n. one_of hex_digits (peek (placed (pre @ [c]) (b' @ CHR 0x22 # post)) k)"
    using Suc.prems(2) by (auto simp: b(1) dest: spec [where x = "Suc _"])
  from Suc.IH [OF b(2) this] obtain h b'' where "b' = h @ b''" "length h = n" "string_body b''" "CHR 0x5C \<notin> set h" by blast
  moreover have "c \<noteq> CHR 0x5C" using b(3) by (auto simp: one_of_def hex_digits_def)
  ultimately show ?case using b(1) by (intro exI [of _ "c # h"] exI [of _ b'']) simp
qed auto

lemma escape_placed:
  assumes "string_body (CHR 0x5C # c # b)" "escape (placed pre ((CHR 0x5C # c # b) @ CHR 0x22 # post)) = (True, s')"
  shows "\<exists>h b'. CHR 0x5C # c # b = h @ b' \<and> h \<noteq> [] \<and> hd h = CHR 0x5C \<and> string_body b' \<and> s' = placed (pre @ h) (b' @ CHR 0x22 # post)"
proof -
  have b: "string_body b" using assms(1) by cases simp_all
  show ?thesis
  proof (cases "one_of single_character_escapes c")
    case True
    then have "s' = (placed pre ((CHR 0x5C # c # b) @ CHR 0x22 # post))\<lparr>sl_pos := length pre + 2\<rparr>"
      using assms(2) by (simp add: escape_def)
    then have "s' = placed (pre @ [CHR 0x5C, c]) (b @ CHR 0x22 # post)" by (simp add: placed_def)
    with b show ?thesis by (intro exI [of _ "[CHR 0x5C, c]"] exI [of _ b]) simp
  next
    case False
    have "list_all (\<lambda>digit. one_of hex_digits (peek (placed pre ((CHR 0x5C # c # b) @ CHR 0x22 # post)) (2 + digit))) [0..<4]"
      using assms(2) False by (simp add: escape_def split: if_splits)
    then have "\<forall>k < 4. one_of hex_digits (peek (placed (pre @ [CHR 0x5C, c]) (b @ CHR 0x22 # post)) k)"
      by (auto simp: list_all_iff)
    from hex_bodies [OF b this] obtain h b' where h: "b = h @ b'" "length h = 4" "string_body b'" by blast
    have "s' = (placed pre ((CHR 0x5C # c # b) @ CHR 0x22 # post))\<lparr>sl_pos := length pre + 6\<rparr>"
      using assms(2) False by (simp add: escape_def split: if_splits)
    then have "s' = placed (pre @ CHR 0x5C # c # h) (b' @ CHR 0x22 # post)" by (simp add: placed_def h)
    with h show ?thesis by (intro exI [of _ "CHR 0x5C # c # h"] exI [of _ b']) simp
  qed
qed

lemma string_loop_body:
  assumes "string_body b" "string_loop e (placed pre (b @ CHR 0x22 # post)) = (Some e', s')"
  shows "s' = placed (pre @ b @ [CHR 0x22]) post \<and> (e' \<longleftrightarrow> e \<or> CHR 0x5C \<in> set b)"
  using assms
proof (induction "length b" arbitrary: b e pre rule: less_induct)
  case less
  from less.prems(1) show ?case
  proof cases
    case body_end
    with less.prems(2) show ?thesis by (simp add: string_loop_stop ends_string_run_def)
  next
    case (body_char c b1)
    show ?thesis
    proof (cases "ends_string_run c")
      case True
      with body_char less.prems(2) show ?thesis by (simp add: string_loop_stop)
    next
      case False
      with body_char less.prems(2) have "string_loop e (placed (pre @ [c]) (b1 @ CHR 0x22 # post)) = (Some e', s')"
        by (simp add: string_loop_char)
      from less.hyps [OF _ body_char(4) this] body_char show ?thesis by auto
    qed
  next
    case (body_escape b1 c)
    with less.prems(2) obtain s1 where e: "escape (placed pre ((CHR 0x5C # c # b1) @ CHR 0x22 # post)) = (True, s1)"
      and l: "string_loop True s1 = (Some e', s')"
      by (auto simp: string_loop_stop ends_string_run_def split: prod.splits bool.splits)
    from escape_placed [OF less.prems(1) [unfolded body_escape(1)] e] obtain h b2 where
      h: "b = h @ b2" "h \<noteq> []" "hd h = CHR 0x5C" "string_body b2" "s1 = placed (pre @ h) (b2 @ CHR 0x22 # post)"
      using body_escape(1) by auto
    have "CHR 0x5C \<in> set b" using h(1,2,3) by (cases h) simp_all
    with less.hyps [OF _ h(4) l [unfolded h(5)]] h(1,2) show ?thesis by simp
  qed
qed

lemma string_token_placed:
  assumes "string_body b" "string_token (placed pre (quoted b @ post)) = (Some e, s')"
  shows "s' = placed (pre @ quoted b) post \<and> (e \<longleftrightarrow> CHR 0x5C \<in> set b)"
  using string_loop_body [OF assms(1), of False "pre @ [CHR 0x22]" post e s'] assms(2)
  by (simp add: string_token_def quoted_def placed_next split: if_splits)

subsection \<open>Scalars\<close>

lemma scalar_end_placed:
  "\<forall>c \<in> set t. \<not> ends_scalar c \<Longrightarrow> followed post \<Longrightarrow> scalar_end (pre @ t @ post) (length pre) = length pre + length t"
proof (induction t arbitrary: pre)
  case Nil
  then show ?case by (subst scalar_end.simps) (auto simp: followed_def hd_conv_nth nth_append)
next
  case (Cons c t)
  with Cons.IH [of "pre @ [c]"] show ?case by (subst scalar_end.simps) simp
qed

lemma scalar_placed:
  assumes "scalar_text t" "followed post" "scalar (placed pre (t @ post)) = (True, s')"
  shows "s' = placed (pre @ t) post"
proof -
  obtain c t' where t: "t = c # t'" using assms(1) by (cases t) (auto simp: scalar_text_def)
  have "\<forall>c \<in> set t'. \<not> ends_scalar c" using assms(1) by (auto simp: t scalar_text_def ends_scalar_def)
  from scalar_end_placed [OF this assms(2), of "pre @ [c]"] assms(3)
  have "s' = (placed pre (t @ post))\<lparr>sl_pos := length pre + length t\<rparr>"
    by (auto simp: t scalar_def Let_def split: if_splits)
  then show ?thesis by (simp add: placed_move)
qed


section \<open>The loop over the tokens of a container\<close>

lemma value_loop_placed:
  "value_loop d p (placed pre (c # post)) =
     (let next = placed (pre @ [c]) post
      in case class_of c of
          C_whitespace \<Rightarrow> value_loop d p next
        | C_open \<Rightarrow> value_loop (Suc d) C_open next
        | C_close \<Rightarrow>
            if p = C_comma then (False, placed pre (c # post))
            else if d = 1 then (True, next)
            else value_loop (d - 1) C_close next
        | C_comma \<Rightarrow> value_loop d C_comma next
        | C_colon \<Rightarrow> value_loop d C_colon next
        | C_quote \<Rightarrow>
            (case string_token (placed pre (c # post)) of
               (None, s') \<Rightarrow> (False, s')
             | (Some _, s') \<Rightarrow> value_loop d C_quote s')
        | C_scalar_start \<Rightarrow>
            (case scalar (placed pre (c # post)) of
               (False, s') \<Rightarrow> (False, s')
             | (True, s') \<Rightarrow> value_loop d C_scalar_start s')
        | C_other \<Rightarrow> (False, placed pre (c # post)))"
  unfolding value_loop.simps [of d p "placed pre (c # post)"]
  by (cases "class_of c") (simp_all add: sl_at_def placed_next nth_append Let_def)

text \<open>Inside a container the loop comes to the end of a token or of a value, or it has no success.\<close>

definition passes :: "string \<Rightarrow> bool" where
  "passes t \<longleftrightarrow>
     (\<forall>d p pre post s'. 0 < d \<longrightarrow> followed post \<longrightarrow> value_loop d p (placed pre (t @ post)) = (True, s') \<longrightarrow>
        (\<exists>p'. value_loop d p' (placed (pre @ t) post) = (True, s')))"

lemma passesI:
  "(\<And>d p pre post s'. 0 < d \<Longrightarrow> followed post \<Longrightarrow> value_loop d p (placed pre (t @ post)) = (True, s') \<Longrightarrow>
      \<exists>p'. value_loop d p' (placed (pre @ t) post) = (True, s')) \<Longrightarrow> passes t"
  by (simp add: passes_def)

lemma passesD:
  "passes t \<Longrightarrow> 0 < d \<Longrightarrow> followed post \<Longrightarrow> value_loop d p (placed pre (t @ post)) = (True, s') \<Longrightarrow>
     \<exists>p'. value_loop d p' (placed (pre @ t) post) = (True, s')"
  by (simp add: passes_def)

lemma passes_Nil: "passes []"
  by (simp add: passes_def) blast

lemma passes_append:
  assumes "passes a" "passes b" "\<And>post. followed post \<Longrightarrow> followed (b @ post)"
  shows "passes (a @ b)"
proof (rule passesI)
  fix d p pre post s'
  assume "(0 :: nat) < d" "followed post" "value_loop d p (placed pre ((a @ b) @ post)) = (True, s')"
  with passesD [OF assms(1), of d "b @ post" p pre s'] assms(3) obtain p' where
    "value_loop d p' (placed (pre @ a) (b @ post)) = (True, s')" by auto
  from passesD [OF assms(2) \<open>0 < d\<close> \<open>followed post\<close> this]
  show "\<exists>p'. value_loop d p' (placed (pre @ a @ b) post) = (True, s')" by simp
qed

lemma passes_char:
  assumes "class_of c \<in> {C_whitespace, C_comma, C_colon}" "passes t"
  shows "passes (c # t)"
proof (rule passesI)
  fix d p pre post s'
  assume "(0 :: nat) < d" "followed post" "value_loop d p (placed pre ((c # t) @ post)) = (True, s')"
  with assms(1) obtain p' where "value_loop d p' (placed (pre @ [c]) (t @ post)) = (True, s')"
    by (auto simp: value_loop_placed)
  from passesD [OF assms(2) \<open>0 < d\<close> \<open>followed post\<close> this]
  show "\<exists>p'. value_loop d p' (placed (pre @ c # t) post) = (True, s')" by simp
qed

lemma passes_blank: "blank w \<Longrightarrow> passes t \<Longrightarrow> passes (w @ t)"
  by (induction w) (simp_all add: passes_char)

lemma passes_quoted:
  assumes "string_body b" "passes t"
  shows "passes (quoted b @ t)"
proof (rule passesI)
  fix d p pre post s'
  assume d: "(0 :: nat) < d" "followed post" and l: "value_loop d p (placed pre ((quoted b @ t) @ post)) = (True, s')"
  have "quoted b @ t @ post = CHR 0x22 # b @ CHR 0x22 # t @ post" by (simp add: quoted_def)
  with l obtain e s1 where e: "string_token (placed pre (quoted b @ t @ post)) = (Some e, s1)"
    "value_loop d C_quote s1 = (True, s')"
    by (auto simp: value_loop_placed split: prod.splits option.splits)
  with string_token_placed [OF assms(1) e(1)]
  have "value_loop d C_quote (placed (pre @ quoted b) (t @ post)) = (True, s')" by simp
  from passesD [OF assms(2) d this]
  show "\<exists>p'. value_loop d p' (placed (pre @ quoted b @ t) post) = (True, s')" by simp
qed

lemma passes_scalar:
  assumes "scalar_text t"
  shows "passes t"
proof (rule passesI)
  fix d p pre post s'
  assume d: "(0 :: nat) < d" "followed post" and l: "value_loop d p (placed pre (t @ post)) = (True, s')"
  obtain c t' where t: "t = c # t'" using assms(1) by (cases t) (auto simp: scalar_text_def)
  with assms(1) have "class_of c = C_scalar_start \<or> class_of c = C_other" by (simp add: scalar_text_def)
  with l obtain s1 where s: "scalar (placed pre (t @ post)) = (True, s1)" "value_loop d C_scalar_start s1 = (True, s')"
    by (auto simp: t value_loop_placed split: prod.splits bool.splits)
  with scalar_placed [OF assms d(2) s(1)]
  show "\<exists>p'. value_loop d p' (placed (pre @ t) post) = (True, s')" by auto
qed

text \<open>A container, at any depth: what is inside is passed, and the bracket closes it.\<close>

lemma container_loop:
  assumes "passes t" "class_of a = C_open" "class_of z = C_close"
    and "value_loop d p (placed pre (a # t @ z # post)) = (True, s')"
  shows "if d = 0 then s' = placed (pre @ a # t @ [z]) post
    else value_loop d C_close (placed (pre @ a # t @ [z]) post) = (True, s')"
proof -
  have "value_loop (Suc d) C_open (placed (pre @ [a]) (t @ z # post)) = (True, s')"
    using assms(2,4) by (simp add: value_loop_placed)
  moreover have "followed (z # post)" using assms(3) by (simp add: followed_def ends_scalar_def)
  ultimately obtain p' where "value_loop (Suc d) p' (placed (pre @ a # t) (z # post)) = (True, s')"
    using passesD [OF assms(1), of "Suc d" "z # post" C_open "pre @ [a]" s'] by auto
  with assms(3) show ?thesis by (auto simp: value_loop_placed Let_def split: if_splits)
qed

lemma passes_container:
  assumes "passes t" "class_of a = C_open" "class_of z = C_close"
  shows "passes (a # t @ [z])"
proof (rule passesI)
  fix d p pre post s'
  assume "(0 :: nat) < d" "value_loop d p (placed pre ((a # t @ [z]) @ post)) = (True, s')"
  with container_loop [OF assms, of d p pre post s']
  show "\<exists>p'. value_loop d p' (placed (pre @ a # t @ [z]) post) = (True, s')" by auto
qed

lemma passes_value: "value_text t \<Longrightarrow> passes t"
  and passes_items: "items_text t \<Longrightarrow> passes t"
  and passes_members: "members_text ms t \<Longrightarrow> passes t"
proof (induction rule: value_text_items_text_members_text.inducts)
  case (value_string b)
  then show ?case using passes_quoted [OF _ passes_Nil] by simp
next
  case (value_no_items w)
  then show ?case using passes_container passes_blank [OF _ passes_Nil] by simp
next
  case (value_no_members w)
  then show ?case using passes_container passes_blank [OF _ passes_Nil] by simp
qed (simp_all add: passes_scalar passes_container passes_append passes_blank passes_quoted passes_char passes_Nil
    passes_blank [OF _ passes_Nil, simplified])


section \<open>The members of an event\<close>

lemma slice_value_placed:
  assumes "value_text t" "followed post" "slice_value (placed pre (t @ post)) = (True, s')"
  shows "s' = placed (pre @ t) post"
proof -
  have container: "s' = placed (pre @ a # u @ [z]) post"
    if "passes u" "t = a # u @ [z]" "a = CHR ''{'' \<or> a = CHR ''[''" "class_of z = C_close" for a u z
  proof -
    have a: "class_of a = C_open" using that(3) by auto
    have "value_loop 0 C_open (placed pre (a # u @ z # post)) = (True, s')"
      using assms(3) that(2,3) by (auto simp: slice_value_def Let_def)
    from container_loop [OF that(1) a that(4) this] show ?thesis by simp
  qed
  from assms(1) show ?thesis
  proof cases
    case value_scalar
    obtain c t' where t: "t = c # t'" using value_scalar by (cases t) (auto simp: scalar_text_def)
    with value_scalar have "class_of c = C_scalar_start \<or> class_of c = C_other" by (simp add: scalar_text_def)
    then have "c \<noteq> CHR 0x22" "c \<noteq> CHR ''{''" "c \<noteq> CHR ''[''" by auto
    with assms(3) have "scalar (placed pre (t @ post)) = (True, s')" by (simp add: t slice_value_def)
    from scalar_placed [OF value_scalar assms(2) this] show ?thesis .
  next
    case (value_string b)
    have "peek (placed pre (t @ post)) 0 = CHR 0x22" by (simp add: value_string quoted_def)
    with assms(3) obtain e where "string_token (placed pre (quoted b @ post)) = (Some e, s')"
      by (auto simp: slice_value_def Let_def value_string split: prod.splits)
    from string_token_placed [OF value_string(2) this] show ?thesis by (simp add: value_string)
  next
    case (value_no_items w)
    with container [of w "CHR ''[''" "CHR '']''"] show ?thesis by (simp add: passes_blank [OF _ passes_Nil, simplified])
  next
    case (value_no_members w)
    with container [of w "CHR ''{''" "CHR ''}''"] show ?thesis by (simp add: passes_blank [OF _ passes_Nil, simplified])
  next
    case (value_array u)
    with container [of u "CHR ''[''" "CHR '']''"] show ?thesis by (simp add: passes_items)
  next
    case (value_object ms u)
    with container [of u "CHR ''{''" "CHR ''}''"] show ?thesis by (auto simp: passes_members)
  qed
qed

lemma value_hd: "value_text t \<Longrightarrow> t \<noteq> [] \<and> class_of (hd t) \<noteq> C_whitespace"
  by (erule value_text.cases) (auto simp: quoted_def scalar_text_def dest!: bspec dest: hd_in_set)

lemma dark_value: "value_text t \<Longrightarrow> dark (t @ post)"
  using value_hd [of t] by (cases t) (simp_all add: dark_def)

lemma next_member_Some:
  "next_member s = (Some m, s') \<Longrightarrow>
     \<exists>e s1 s2. string_token (skip_space s) = (Some e, s1) \<and> take_char CHR '':'' s1 = (True, s2) \<and>
       slice_value (skip_space s2) = (True, s') \<and>
       m = \<lparr>m_name = span s1 (sl_pos (skip_space s) + 1) (sl_pos s1 - 1),
         m_value = span s' (sl_pos (skip_space s2)) (sl_pos s'), m_escaped_name = e\<rparr>"
  by (auto simp: next_member_def Let_def split: prod.splits option.splits bool.splits)

lemma next_member_placed:
  assumes "blank w1" "string_body n" "blank w2" "blank w3" "value_text t" "followed post"
    and "next_member (placed pre (w1 @ quoted n @ w2 @ CHR '':'' # w3 @ t @ post)) = (Some m, s')"
  shows "m_name m = n \<and> m_value m = t \<and> (m_escaped_name m \<longleftrightarrow> CHR 0x5C \<in> set n) \<and>
    s' = placed (pre @ w1 @ quoted n @ w2 @ CHR '':'' # w3 @ t) post"
proof -
  let ?name = "pre @ w1" and ?after = "w2 @ CHR '':'' # w3 @ t @ post"
  have "dark (quoted n @ ?after)" by (simp add: quoted_def)
  then have skip: "skip_space (placed pre (w1 @ quoted n @ ?after)) = placed ?name (quoted n @ ?after)"
    using assms(1) by simp
  from next_member_Some [OF assms(7)] obtain e s1 s2 where tok: "string_token (placed ?name (quoted n @ ?after)) = (Some e, s1)"
    and colon: "take_char CHR '':'' s1 = (True, s2)" and v: "slice_value (skip_space s2) = (True, s')"
    and m: "m = \<lparr>m_name = span s1 (length ?name + 1) (sl_pos s1 - 1),
      m_value = span s' (sl_pos (skip_space s2)) (sl_pos s'), m_escaped_name = e\<rparr>"
    unfolding skip placed_simps by blast
  from string_token_placed [OF assms(2) tok] have s1: "s1 = placed (?name @ quoted n) ?after" "e \<longleftrightarrow> CHR 0x5C \<in> set n" by auto
  have s2: "s2 = placed (pre @ w1 @ quoted n @ w2 @ [CHR '':'']) (w3 @ t @ post)"
    using colon assms(3) by (simp add: s1(1) take_char_placed)
  from assms(4) dark_value [OF assms(5)] have s2': "skip_space s2 = placed (pre @ w1 @ quoted n @ w2 @ CHR '':'' # w3) (t @ post)"
    using skip_space_placed [of w3 "t @ post" "pre @ w1 @ quoted n @ w2 @ [CHR '':'']"] by (simp add: s2)
  from slice_value_placed [OF assms(5,6) v [unfolded s2']]
  have s3: "s' = placed (pre @ w1 @ quoted n @ w2 @ CHR '':'' # w3 @ t) post" by simp
  have "span s1 (length ?name + 1) (sl_pos s1 - 1) = n"
    by (rule span_text [where pre = "?name @ [CHR 0x22]" and post = "CHR 0x22 # ?after"]) (simp_all add: s1(1) quoted_def)
  moreover have "span s' (sl_pos (skip_space s2)) (sl_pos s') = t"
    by (rule span_text [where pre = "pre @ w1 @ quoted n @ w2 @ CHR '':'' # w3" and post = post]) (simp_all add: s2' s3)
  ultimately show ?thesis using s1(2) by (simp add: m s3)
qed

lemma skip_space_twice: "skip_space (skip_space s) = skip_space s"
proof -
  have "skip_space_from t (skip_space_from t p) = skip_space_from t p" for t p
  proof (induction t p rule: skip_space_from.induct)
    case (1 t p)
    show ?case
    proof (cases "p < length t \<and> class_of (t ! p) = C_whitespace")
      case True
      then have "skip_space_from t p = skip_space_from t (Suc p)" by (simp add: skip_space_from.simps [of t p])
      with 1 [OF True] show ?thesis by simp
    next
      case False
      then have "skip_space_from t p = p" unfolding skip_space_from.simps [of t p] by (simp only: if_False)
      then show ?thesis by simp
    qed
  qed
  then show ?thesis by (simp add: skip_space_def)
qed

lemma members_loop_space: "members_loop data certain (skip_space s) = members_loop data certain s"
  unfolding members_loop.simps [of data certain "skip_space s"] members_loop.simps [of data certain s]
  by (simp add: next_member_def skip_space_twice)

text \<open>The names are spelt without a backslash; these are the values of the members named \<open>data\<close>.\<close>

definition plain_names :: "(string \<times> string) list \<Rightarrow> bool" where
  "plain_names ms \<longleftrightarrow> (\<forall>m \<in> set ms. CHR 0x5C \<notin> set (fst m))"

definition texts_of :: "string \<Rightarrow> (string \<times> string) list \<Rightarrow> string list" where
  "texts_of name ms = map snd (filter (\<lambda>m. fst m = name) ms)"

abbreviation member_after :: "string option \<Rightarrow> string \<Rightarrow> string \<Rightarrow> string option" where
  "member_after data n t \<equiv> (if n = ''data'' then Some t else data)"

abbreviation certain_after :: "string option \<Rightarrow> bool \<Rightarrow> string \<Rightarrow> bool" where
  "certain_after data certain n \<equiv> CHR 0x5C \<notin> set n \<and> certain \<and> (n = ''data'' \<longrightarrow> data = None)"

lemma members_loop_member:
  assumes "blank w1" "string_body n" "blank w2" "blank w3" "value_text t" "blank w4" "c = CHR '','' \<or> c = CHR ''}''"
    and "members_loop data certain (placed pre (w1 @ quoted n @ w2 @ CHR '':'' # w3 @ t @ w4 @ c # post)) = (Some d, s')"
  shows "\<exists>data'. (certain_after data certain n \<longrightarrow> data' = member_after data n t) \<and>
    (if c = CHR ''}'' then certain_after data certain n \<and> data' = Some d
     else members_loop data' (certain_after data certain n)
       (placed (pre @ w1 @ quoted n @ w2 @ CHR '':'' # w3 @ t @ w4 @ [c]) post) = (Some d, s'))"
proof -
  let ?s = "placed pre (w1 @ quoted n @ w2 @ CHR '':'' # w3 @ t @ w4 @ c # post)"
  from assms(8) obtain m s1 where m: "next_member ?s = (Some m, s1)"
    unfolding members_loop.simps [of data certain ?s] by (auto split: prod.splits option.splits)
  have f: "followed (w4 @ c # post)" using assms(6,7) by auto
  from next_member_placed [OF assms(1-5) f m] have names: "m_name m = n" "m_value m = t" "m_escaped_name m \<longleftrightarrow> CHR 0x5C \<in> set n"
    and s1: "s1 = placed (pre @ w1 @ quoted n @ w2 @ CHR '':'' # w3 @ t) (w4 @ c # post)" by auto
  define data' where "data' = (if CHR 0x5C \<notin> set n \<and> n = ''data'' then Some t else data)"
  have certain: "(if m_escaped_name m then False
      else if m_name m = ''data'' then certain \<and> data = None else certain) = certain_after data certain n"
    and data': "(if \<not> m_escaped_name m \<and> m_name m = ''data'' then Some (m_value m) else data) = data'"
    by (auto simp: names data'_def)
  have l: "members_loop data certain ?s = (case take_char CHR ''}'' s1 of
      (True, s2) \<Rightarrow> (if certain_after data certain n then data' else None, s2)
    | (False, s2) \<Rightarrow> (case take_char CHR '','' s2 of
         (False, s3) \<Rightarrow> (None, lose s3)
       | (True, s3) \<Rightarrow> (case next_is CHR ''}'' s3 of
            (True, s4) \<Rightarrow> (None, lose s4)
          | (False, s4) \<Rightarrow> members_loop data' (certain_after data certain n) s4)))"
    unfolding members_loop.simps [of data certain ?s] m prod.case option.case Let_def certain data' ..
  show ?thesis
  proof (cases "c = CHR ''}''")
    case True
    with l assms(8) have "certain_after data certain n \<and> data' = Some d"
      by (simp add: s1 take_char_placed [OF assms(6)] split: if_splits)
    with True show ?thesis by (intro exI [of _ data']) (auto simp: data'_def)
  next
    case False
    let ?after = "placed (pre @ w1 @ quoted n @ w2 @ CHR '':'' # w3 @ t @ w4 @ [c]) post"
    from False assms(7) have comma: "c = CHR '',''" by simp
    have "members_loop data certain ?s = (case next_is CHR ''}'' ?after of
        (True, s4) \<Rightarrow> (None, lose s4)
      | (False, s4) \<Rightarrow> members_loop data' (certain_after data certain n) s4)"
      using l take_char_placed [of "[]" "CHR '',''" "CHR '',''" "pre @ w1 @ quoted n @ w2 @ CHR '':'' # w3 @ t @ w4" post]
      by (simp add: s1 take_char_placed [OF assms(6)] comma)
    with assms(8) have "members_loop data' (certain_after data certain n) (skip_space ?after) = (Some d, s')"
      by (auto simp: next_is_def Let_def split: prod.splits bool.splits)
    with False show ?thesis by (intro exI [of _ data']) (simp add: members_loop_space data'_def)
  qed
qed

lemma members_loop_placed:
  assumes "members_text ms t" "members_loop data certain (placed pre (t @ CHR ''}'' # post)) = (Some d, s')"
  shows "certain \<and> plain_names ms \<and> (case data of None \<Rightarrow> [] | Some d0 \<Rightarrow> [d0]) @ texts_of ''data'' ms = [d]"
proof -
  have "members_text ms t \<Longrightarrow> members_loop data certain (placed pre (t @ CHR ''}'' # post)) = (Some d, s') \<Longrightarrow> ?thesis"
  proof (induction ms t arbitrary: data certain pre
      rule: value_text_items_text_members_text.inducts(3) [where ?P1.0 = "\<lambda>_. True" and ?P2.0 = "\<lambda>_. True"])
    case (members_one w1 n w2 w3 t w4)
    from members_loop_member [of w1 n w2 w3 t w4 "CHR ''}''" data certain pre post d s'] members_one
    show ?case by (auto simp: plain_names_def texts_of_def split: if_splits)
  next
    case (members_more w1 n w2 w3 t w4 ms u)
    from members_loop_member [of w1 n w2 w3 t w4 "CHR '',''" data certain pre "u @ CHR ''}'' # post" d s'] members_more
    obtain data' where d: "certain_after data certain n \<longrightarrow> data' = member_after data n t"
      and l: "members_loop data' (certain_after data certain n)
        (placed (pre @ w1 @ quoted n @ w2 @ CHR '':'' # w3 @ t @ w4 @ [CHR '','']) (u @ CHR ''}'' # post)) = (Some d, s')"
      by auto
    from members_more.IH [OF l] d show ?case
      by (auto simp: plain_names_def texts_of_def split: if_splits option.splits)
  qed simp_all
  with assms show ?thesis by blast
qed

text \<open>The text of the data member is what the scanner returns, if it returns one: it is the one member of the name.\<close>

lemma data_member_text_sound:
  assumes "object_text ms txt" "data_member_text txt = Some own"
  shows "plain_names ms \<and> texts_of ''data'' ms = [own]"
  using assms(1)
proof cases
  case (1 mark w1 t w2 rest)
  obtain s where d: "event_data (new_slicer txt) = (Some own, s)"
    using assms(2) by (auto simp: data_member_text_def split: prod.splits if_splits bool.splits)
  have new: "new_slicer u = placed [] u" for u by (simp add: new_slicer_def placed_def)
  let ?body = "t @ CHR ''}'' # w2 @ rest"
  show ?thesis
  proof (cases mark)
    case Nil
    have "skip_space (placed [] (w1 @ CHR ''{'' # ?body)) = placed w1 (CHR ''{'' # ?body)"
      using 1(3) skip_space_placed [of w1 "CHR ''{'' # ?body" "[]"] by simp
    with d have e: "(case take_char CHR ''}'' (placed (w1 @ [CHR ''{'']) ?body) of
        (True, s) \<Rightarrow> (None, s) | (False, s) \<Rightarrow> members_loop None True s) = (Some own, s)"
      by (simp add: event_data_def new 1(1) Nil Let_def placed_next)
    show ?thesis
    proof (cases "ms = [] \<and> blank t")
      case True
      with e take_char_placed [of t "CHR ''}''" "CHR ''}''" "w1 @ [CHR ''{'']" "w2 @ rest"] show ?thesis by simp
    next
      case False
      with 1(4) have m: "members_text ms t" by blast
      from e have "members_loop None True (skip_space (placed (w1 @ [CHR ''{'']) ?body)) = (Some own, s)"
        by (auto simp: take_char_def Let_def split: if_splits)
      with members_loop_placed [OF m, of None True "w1 @ [CHR ''{'']" "w2 @ rest" own s] show ?thesis
        by (simp add: members_loop_space)
    qed
  next
    case (Cons c mark')
    with 1(2) have "class_of c = C_other" "txt = c # mark' @ w1 @ CHR ''{'' # ?body" "c \<noteq> CHR ''{''"
      using 1(1) by (auto simp: byte_order_mark_def class_of_def scalar_first_characters_def json_whitespace_def)
    with d skip_space_placed [where w = "[]" and pre = "[]" and post = "c # mark' @ w1 @ CHR ''{'' # ?body"] show ?thesis
      by (auto simp: event_data_def new Let_def split: prod.splits bool.splits)
  qed
qed

section \<open>What the SDK relies on in a codec's reader\<close>

text \<open>
  A codec reads JSON: a text that it reads as an object has the structure of an object; and where the
  names are spelt without a backslash, a name that occurs once names the member whose value is read
  from the member's own text. This is RFC 8259 and says nothing of the scanner.
\<close>

definition codec_reads_members :: "'j codec \<Rightarrow> bool" where
  "codec_reads_members C \<longleftrightarrow>
     (\<forall>txt document. c_parse C txt = Inr document \<and> c_kind_of C document = K_object \<longrightarrow>
        (\<exists>ms. object_text ms txt \<and>
           (plain_names ms \<longrightarrow> (\<forall>name t. texts_of name ms = [t] \<longrightarrow>
              (\<exists>v. map_of (c_members C document) name = Some v \<and> c_parse C t = Inr v)))))"

text \<open>So the slice that the scanner takes for the data member is read back as that member.\<close>

lemma own_text_read:
  assumes "codec_reads_members C" "c_parse C txt = Inr document" "c_kind_of C document = K_object"
    and "data_member_text txt = Some own" "first_ref ''data'' (c_members C document) i = Some (k, v)"
  shows "c_parse C own = Inr v"
proof -
  from assms(1-3) obtain ms where ms: "object_text ms txt"
    and read: "plain_names ms \<Longrightarrow> texts_of ''data'' ms = [own] \<Longrightarrow>
      \<exists>v. map_of (c_members C document) ''data'' = Some v \<and> c_parse C own = Inr v"
    unfolding codec_reads_members_def by blast
  from data_member_text_sound [OF ms assms(4)] read first_ref_map_of [of "''data''" "c_members C document" i] assms(5)
  show ?thesis by auto
qed

end
