(* ===== verification/Reference_Reader.thy ===== *)
theory Reference_Reader
  imports Json_Grammar Reference_Codec
begin

text \<open>
  The reference codec with a reader that accepts what its printer prints, and nothing else. What it
  accepts has the structure of a JSON text, and the text of a member is read as the member's value.
\<close>

definition canonical_parse :: "'j codec \<Rightarrow> 'j codec" where
  "canonical_parse C = C\<lparr>c_parse := \<lambda>input. and_then (c_parse C input) (\<lambda>v.
     if c_dump C v = input then Inr v else fail parse_error ''the text is not canonical'' '''')\<rparr>"

definition canonical_codec :: "jv codec" where
  "canonical_codec = canonical_parse reference_codec"

lemma canonical_laws:
  "codec_scalars canonical_codec" "codec_objects canonical_codec" "codec_lookup canonical_codec"
  "codec_values canonical_codec" "codec_text canonical_codec"
  using reference_scalars reference_objects reference_lookup reference_values reference_text
  by (simp_all add: canonical_codec_def canonical_parse_def codec_scalars_def codec_objects_def codec_lookup_def
      codec_values_def codec_text_def split: option.splits)

lemma canonical_Inr: "c_parse canonical_codec input = Inr v \<Longrightarrow> input = print_json v"
  by (auto simp: canonical_codec_def canonical_parse_def and_then_eq_Inr reference_codec_def split: if_splits)

lemma canonical_reads_printed: "c_parse canonical_codec (print_json v) = Inr v"
  using canonical_laws(5) by (simp add: codec_text_def canonical_codec_def canonical_parse_def reference_codec_def)


section \<open>What is printed has the structure of a JSON text\<close>

abbreviation spelling :: "string \<Rightarrow> string" where
  "spelling s \<equiv> concat (map print_char s)"

lemma hex_char_plain: "d < 16 \<Longrightarrow> hex_char d \<noteq> CHR 0x22 \<and> hex_char d \<noteq> CHR 0x5C"
proof -
  assume "d < 16"
  then have "(of_char (hex_char d) :: nat) = (if d < 10 then 48 + d else 87 + d)" by (simp add: hex_char_def)
  then have "(of_char (hex_char d) :: nat) \<noteq> of_char (CHR 0x22)" "(of_char (hex_char d) :: nat) \<noteq> of_char (CHR 0x5C)"
    by (simp_all split: if_splits)
  then show ?thesis by metis
qed

lemma string_body_print_char:
  assumes "string_body b"
  shows "string_body (print_char c @ b)"
proof -
  have "(of_char c :: nat) < 32 \<Longrightarrow> (of_char c :: nat) div 16 < 16" by simp
  with assms hex_char_plain [of "of_char c div 16"] hex_char_plain [of "of_char c mod 16"] show ?thesis
    by (auto simp: print_char_def intro!: string_body.intros)
qed

lemma string_body_spelling: "string_body (spelling s)"
  using string_body_print_char by (induction s) (simp_all add: body_end)

lemma print_string_quoted: "print_string s = quoted (spelling s)"
  by (simp add: print_string_def quoted_def)

lemma plain_spelling: "CHR 0x5C \<notin> set (spelling s) \<Longrightarrow> spelling s = s"
  by (induction s) (auto simp: print_char_def split: if_splits)

lemma scalar_text_int: "scalar_text (dec_int i)"
proof -
  have d: "class_of c = C_scalar_start" if "is_digit c" for c
  proof -
    have "(of_char c :: nat) \<in> {48, 49, 50, 51, 52, 53, 54, 55, 56, 57}" using that by (simp add: is_digit_iff) presburger
    then have "c \<in> char_of ` {48 :: nat, 49, 50, 51, 52, 53, 54, 55, 56, 57}" by (metis char_of_char image_eqI)
    moreover have "char_of ` {48 :: nat, 49, 50, 51, 52, 53, 54, 55, 56, 57} \<subseteq> set ''0123456789''" by (simp add: char_of_def bit_0)
    ultimately have "c \<in> set ''0123456789''" by blast
    then have "c \<in> set scalar_first_characters" by (auto simp: scalar_first_characters_def)
    then show ?thesis by (simp add: class_of_def)
  qed
  have "class_of CHR ''-'' = C_scalar_start" by (simp add: class_of_def scalar_first_characters_def)
  with d dec_nat_digits show ?thesis by (auto simp: scalar_text_def dec_int_def)
qed

lemma items_printed:
  "vs \<noteq> [] \<Longrightarrow> \<forall>v \<in> set vs. value_text (print_json v) \<Longrightarrow> items_text (separated (map print_json vs))"
proof (induction vs)
  case (Cons v vs)
  with items_one [of "[]" "print_json v" "[]"] items_more [of "[]" "print_json v" "[]" "separated (map print_json vs)"]
  show ?case by (cases "vs = []") (simp_all add: separated_Cons)
qed simp

lemma members_printed:
  "ms \<noteq> [] \<Longrightarrow> \<forall>(n, v) \<in> set ms. value_text (print_json v) \<Longrightarrow>
     members_text (map (\<lambda>(n, v). (spelling n, print_json v)) ms)
       (separated (map (\<lambda>(n, v). print_string n @ '':'' @ print_json v) ms))"
proof (induction ms)
  case (Cons m ms)
  obtain n v where m: "m = (n, v)" by fastforce
  note one = members_one [OF _ string_body_spelling [of n], of "[]" "[]" "[]" "print_json v" "[]"]
  note more = members_more [OF _ string_body_spelling [of n], of "[]" "[]" "[]" "print_json v" "[]"]
  from Cons one more show ?case by (cases "ms = []") (simp_all add: separated_Cons m print_string_quoted)
qed simp

lemma value_printed: "value_text (print_json v)"
proof (induction v rule: print_json.induct)
  case 1
  show ?case by (rule value_scalar) (simp add: scalar_text_def class_of_def scalar_first_characters_def json_whitespace_def)
next
  case (2 b)
  show ?case by (rule value_scalar) (simp add: scalar_text_def class_of_def scalar_first_characters_def json_whitespace_def)
next
  case (3 i)
  show ?case using value_scalar scalar_text_int by simp
next
  case (4 s)
  show ?case using value_string string_body_spelling by (simp add: print_string_quoted)
next
  case (5 vs)
  with items_printed [of vs] value_array value_no_items [of "[]"] show ?case by (cases "vs = []") simp_all
next
  case (6 ms)
  then have "\<forall>(n, v) \<in> set ms. value_text (print_json v)" by auto
  with members_printed [of ms] value_object value_no_members [of "[]"] show ?case by (cases "ms = []") auto
qed

lemma object_printed: "object_text (map (\<lambda>(n, v). (spelling n, print_json v)) ms) (print_json (J_object ms))"
proof -
  let ?t = "separated (map (\<lambda>(n, v). print_string n @ '':'' @ print_json v) ms)"
  have "map (\<lambda>(n, v). (spelling n, print_json v)) ms = [] \<and> blank ?t \<or>
      members_text (map (\<lambda>(n, v). (spelling n, print_json v)) ms) ?t"
    using members_printed [of ms] value_printed by (cases "ms = []") auto
  from object_text.intros [OF _ _ this, of "[]" "[]" "[]" "[]"] show ?thesis by simp
qed

lemma texts_of_printed:
  "plain_names (map (\<lambda>(n, v). (spelling n, print_json v)) ms) \<Longrightarrow>
     texts_of name (map (\<lambda>(n, v). (spelling n, print_json v)) ms) = [t] \<Longrightarrow>
     \<exists>v. map_of ms name = Some v \<and> print_json v = t"
proof (induction ms)
  case (Cons m ms)
  obtain n v where m: "m = (n, v)" by fastforce
  with Cons.prems(1) have "spelling n = n" by (simp add: plain_names_def plain_spelling)
  with Cons show ?case by (auto simp: m texts_of_def plain_names_def)
qed (simp add: texts_of_def)

lemma canonical_reads_members: "codec_reads_members canonical_codec"
  unfolding codec_reads_members_def
proof (intro allI impI, elim conjE)
  fix input document
  assume p: "c_parse canonical_codec input = Inr document" and k: "c_kind_of canonical_codec document = K_object"
  from k obtain ms where ms: "document = J_object ms"
    by (auto simp: canonical_codec_def canonical_parse_def reference_codec_def split: jv.splits)
  have members: "c_members canonical_codec document = ms"
    by (simp add: ms canonical_codec_def canonical_parse_def reference_codec_def)
  let ?ms = "map (\<lambda>(n, v). (spelling n, print_json v)) ms"
  have "object_text ?ms input" using object_printed [of ms] canonical_Inr [OF p] ms by simp
  moreover have "\<exists>v. map_of (c_members canonical_codec document) name = Some v \<and> c_parse canonical_codec t = Inr v"
    if "plain_names ?ms" "texts_of name ?ms = [t]" for name t
    using texts_of_printed [OF that] canonical_reads_printed by (auto simp: members)
  ultimately show "\<exists>ms. object_text ms input \<and> (plain_names ms \<longrightarrow> (\<forall>name t. texts_of name ms = [t] \<longrightarrow>
      (\<exists>v. map_of (c_members canonical_codec document) name = Some v \<and> c_parse canonical_codec t = Inr v)))"
    by blast
qed

end
