(* ===== verification/Fuzz_Typed.thy ===== *)
theory Fuzz_Typed
  imports Fuzz_Input Typed_Payload Json_Normal Reference_Reader
begin

text \<open>
  \<open>fuzz/fuzz_typed.cpp\<close>: the typed layer on an event of the fuzzer's choice. A described extension
  is read, written and read again; a payload is read with its event and after it; a payload that was
  read is stored, and is written with the event.
\<close>

section \<open>The target\<close>

definition parcel :: descriptor where
  "parcel = [\<lparr>df_name = ''label'', df_type = T_string, df_initial = V_string ''''\<rparr>,
     \<lparr>df_name = ''weight'', df_type = T_int32, df_initial = V_int 0\<rparr>,
     \<lparr>df_name = ''fragile'', df_type = T_bool, df_initial = V_bool False\<rparr>,
     \<lparr>df_name = ''marks'', df_type = T_vector T_string, df_initial = V_vector []\<rparr>]"

definition same_parcel :: "field_value list \<Rightarrow> field_value list \<Rightarrow> bool" where
  "same_parcel left right \<longleftrightarrow> left = right"

definition check_decode_as_agrees :: "'j codec \<Rightarrow> nat \<Rightarrow> string \<Rightarrow> decode_options \<Rightarrow> outcome" where
  "check_decode_as_agrees C fresh txt options =
     (let typed = decode_as C fresh parcel txt options;
          decoded = json_decode C (Suc fresh) txt options
      in case decoded of
           Inl _ \<Rightarrow> if is_ok typed then Traps else Returns
         | Inr ev \<Rightarrow>
             let payload = data_as C parcel ev
             in if is_ok typed \<noteq> is_ok payload then Traps
                else (case (typed, payload) of
                    (Inl e, Inl e') \<Rightarrow> if err_code e \<noteq> err_code e' then Traps else Returns
                  | (Inr (typed_event, typed_payload), Inr held) \<Rightarrow>
                      if \<not> event_equal typed_event ev \<or> \<not> same_parcel typed_payload held then Traps else Returns
                  | _ \<Rightarrow> Returns))"

definition check_extension_roundtrip :: "ext_field list \<Rightarrow> 'j event \<Rightarrow> outcome" where
  "check_extension_roundtrip fs subject =
     (case get_ext fs subject of
        Inl _ \<Rightarrow> Returns
      | Inr read \<Rightarrow>
          (case set_ext fs read subject of
             (Inl _, _) \<Rightarrow> Traps
           | (Inr _, again) \<Rightarrow>
               (case get_ext fs again of
                  Inl _ \<Rightarrow> Traps
                | Inr second \<Rightarrow> trap_unless (second = read))))"

text \<open>The block for an event that has a payload of the described type.\<close>

definition check_payload_stored :: "'j codec \<Rightarrow> nat \<Rightarrow> 'j event \<Rightarrow> field_value list \<Rightarrow> bool \<Rightarrow> outcome" where
  "check_payload_stored C fresh decoded payload refusable =
     (case typed_set_data C fresh parcel decoded payload of
        (stored, again) \<Rightarrow>
          if is_ok stored = refusable then Traps
          else if is_ok stored
          then (case data_as C parcel again of
              Inl _ \<Rightarrow> Traps
            | Inr second \<Rightarrow> trap_unless (same_parcel second payload))
          else trap_unless (event_equal again decoded))"

definition check_payload_written :: "'j codec \<Rightarrow> nat \<Rightarrow> 'j event \<Rightarrow> field_value list \<Rightarrow> bool \<Rightarrow> outcome" where
  "check_payload_written C fresh decoded payload refusable =
     (case encode_as C parcel decoded payload of
        Inl _ \<Rightarrow> if \<not> refusable then Traps else Returns
      | Inr written \<Rightarrow>
          if refusable then Traps
          else (case decode_as C fresh parcel written default_decode_options of
              Inl _ \<Rightarrow> Traps
            | Inr (_, back) \<Rightarrow> trap_unless (same_parcel back payload)))"

definition check_payload :: "'j codec \<Rightarrow> nat \<Rightarrow> 'j event \<Rightarrow> outcome" where
  "check_payload C fresh decoded =
     (case data_as C parcel decoded of
        Inl _ \<Rightarrow> Returns
      | Inr payload \<Rightarrow>
          let refusable = (case o_datacontenttype (e_rest decoded) of
                Some media \<Rightarrow> \<not> is_json_content_type media | None \<Rightarrow> False)
          in next_check (check_payload_stored C fresh decoded payload refusable)
               (check_payload_written C (Suc fresh) decoded payload refusable))"

definition always_text :: decode_options where
  "always_text = default_decode_options\<lparr>retain_document_up_to := 0\<rparr>"

text \<open>What a call allocates is fresh: two addresses for each of the two comparisons, one for the event.\<close>

definition fuzz_typed :: "'j codec \<Rightarrow> nat \<Rightarrow> string \<Rightarrow> outcome" where
  "fuzz_typed C fresh txt =
     all_checks
       [check_decode_as_agrees C fresh txt default_decode_options,
        check_decode_as_agrees C (fresh + 2) txt always_text,
        (case json_decode C (fresh + 4) txt default_decode_options of
           Inl _ \<Rightarrow> Returns
         | Inr decoded \<Rightarrow>
             all_checks
               [check_extension_roundtrip tracing decoded,
                check_extension_roundtrip partitioning decoded,
                check_extension_roundtrip sampled_rate decoded,
                check_extension_roundtrip sequence decoded,
                check_extension_roundtrip dataref decoded,
                check_payload C (fresh + 5) decoded])]"


section \<open>A described extension that was read\<close>

lemma from_chars_int32_range: "from_chars_int32 s = Some (i, r) \<Longrightarrow> int32_min \<le> i \<and> i \<le> int32_max"
  by (auto simp: from_chars_int32_def Let_def split: if_splits)

lemma read_attribute_ok:
  assumes "read_attribute F stored loc = Inr held" "value_ok stored"
  shows "has_kind F held \<and> value_ok held"
proof (cases "has_kind F stored")
  case False
  with assms(1) obtain s where "stored = Str s" "from_attribute_text F s loc = Inr held"
    by (auto simp: read_attribute_def split: attribute_value.splits)
  then show ?thesis
    by (auto simp: from_attribute_text_def has_kind_def value_ok_def dest: from_chars_int32_range parse_timestamp_ts_ok
        split: field_kind.splits if_splits option.splits prod.splits list.splits sum.splits)
qed (use assms in \<open>simp add: read_attribute_def\<close>)

lemma extension_value_ok: "event_ok ev \<Longrightarrow> extension name ev = Some v \<Longrightarrow> value_ok v"
  by (simp add: event_ok_def options_ok_extensions extensions_ok_def extension_def)

lemma get_ext_ok: "event_ok ev \<Longrightarrow> get_ext fs ev = Inr vs \<Longrightarrow> ext_value_ok fs vs"
proof (induction fs arbitrary: vs)
  case (Cons f fs)
  show ?case
  proof (cases "extension (f_name f) ev")
    case None
    with Cons show ?thesis by (auto simp: and_then_eq_Inr ext_value_ok_def split: if_splits)
  next
    case (Some stored)
    with Cons.prems obtain held vs' where r: "read_attribute (f_kind f) stored (f_name f) = Inr held"
      and "get_ext fs ev = Inr vs'" "vs = Some held # vs'" by (auto simp: and_then_eq_Inr)
    with Cons read_attribute_ok [OF r extension_value_ok [OF Cons.prems(1) Some]]
    show ?thesis by (simp add: ext_value_ok_def)
  qed
qed (simp add: ext_value_ok_def)

lemma set_ext_total:
  "\<forall>f \<in> set fs. p_check extension_name_policy (f_name f) = None \<Longrightarrow> fst (set_ext fs vs ev) = Inr ()"
  by (induction fs vs ev rule: set_ext.induct) (auto simp: make_validated_def split: option.split)

lemma extension_roundtrip_returns:
  assumes "event_ok subject" "distinct (map f_name fs)" "\<forall>f \<in> set fs. p_check extension_name_policy (f_name f) = None"
  shows "check_extension_roundtrip fs subject = Returns"
proof (cases "get_ext fs subject")
  case (Inr vs)
  obtain again where s: "set_ext fs vs subject = (Inr (), again)"
    using set_ext_total [OF assms(3), of vs subject] by (cases "set_ext fs vs subject") auto
  from set_get_ext [OF assms(1) get_ext_ok [OF assms(1) Inr] assms(2) s] s
  show ?thesis by (simp add: check_extension_roundtrip_def Inr)
qed (simp add: check_extension_roundtrip_def)

lemma shipped_extensions:
  "fs \<in> {tracing, partitioning, sampled_rate, sequence, dataref} \<Longrightarrow>
     distinct (map f_name fs) \<and> (\<forall>f \<in> set fs. p_check extension_name_policy (f_name f) = None)"
  by (auto simp: tracing_def partitioning_def sampled_rate_def sequence_def dataref_def extension_name_policy_def
      check_extension_name_None valid_attribute_name_iff name_char_def is_lower_def reserved_name_def reserved_names_def)

section \<open>A payload read with its event, and after it\<close>

text \<open>The same data, at whatever address a document has.\<close>

definition alike :: "'j codec \<Rightarrow> 'j data_t \<Rightarrow> 'j data_t \<Rightarrow> bool" where
  "alike C d d' \<longleftrightarrow> d' = d \<or>
     (\<exists>a a' v. d = Json_document (document_make C a v) \<and> d' = Json_document (document_make C a' v))"

definition with_payload :: "'j event \<Rightarrow> 'j data_t \<Rightarrow> 'j event" where
  "with_payload ev d = ev\<lparr>e_rest := (e_rest ev)\<lparr>o_data := d\<rparr>\<rparr>"

lemma with_payload_same: "with_payload ev (o_data (e_rest ev)) = ev"
  by (simp add: with_payload_def)

lemma made_equal: "codec_values C \<Longrightarrow> document_equal (document_make C a v) (document_make C a' v)"
  by (simp add: document_equal_def document_make_def model_identity_def model_equal_value_def codec_values_def)

lemma alike_equal: "codec_values C \<Longrightarrow> alike C (o_data (e_rest ev)) d \<Longrightarrow> event_equal ev (with_payload ev d)"
  unfolding alike_def
proof (elim disjE exE conjE)
  fix a a' v
  assume "codec_values C" "o_data (e_rest ev) = Json_document (document_make C a v)" "d = Json_document (document_make C a' v)"
  then show ?thesis using made_equal [of C a v a']
    by (simp add: with_payload_def event_equal_def options_equal_def data_equal_def)
qed (simp add: with_payload_same event_equal_refl)

lemma alike_data_as: "alike C (o_data (e_rest ev)) d \<Longrightarrow> data_as C D (with_payload ev d) = data_as C D ev"
  unfolding alike_def
  by (elim disjE exE conjE) (simp add: with_payload_same, simp add: with_payload_def data_as_def document_get_make)

lemma alike_json_payload: "alike C (json_payload C fresh data owned mode own) (json_payload C fresh' data owned mode own)"
  by (auto simp: json_payload_def alike_def split: payload_mode.split option.split)

lemma decode_data_event:
  assumes "decode_data C fresh found owned mode own True into = Inr (rest, m)"
  shows "\<exists>d. decode_data C fresh' found owned mode own False into = Inr (rest\<lparr>o_data := d\<rparr>, None) \<and> alike C (o_data rest) d"
proof (cases "mm_data found")
  case None
  with assms show ?thesis
    by (intro exI [of _ "o_data rest"]) (auto simp: decode_data_def alike_def and_then_at_eq_Inr split: option.splits sum.splits)
next
  case (Some data)
  with assms have b: "mm_data_base64 found = None" by (cases "mm_data_base64 found") (auto simp: decode_data_def fail_def)
  show ?thesis
  proof (cases "(case o_datacontenttype into of Some media \<Rightarrow> \<not> is_json_content_type media | None \<Rightarrow> False) \<and>
      c_kind_of C (snd data) = K_string")
    case True
    with assms show ?thesis
      by (intro exI [of _ "o_data rest"]) (auto simp: decode_data_def alike_def Some b Let_def split: sum.splits)
  next
    case False
    with assms have "rest = into\<lparr>o_data := json_payload C fresh data owned mode own\<rparr>"
      by (simp only: decode_data_def Some b Let_def) simp
    with False show ?thesis using alike_json_payload [of C fresh data owned mode own fresh']
      by (intro exI [of _ "json_payload C fresh' data owned mode own"]) (simp only: decode_data_def Some b Let_def, auto)
  qed
qed

lemma decode_data_member:
  "decode_data C fresh found owned mode own True into = Inr (rest, Some v) \<Longrightarrow>
     mode \<noteq> P_move \<and> (\<exists>k. mm_data found = Some (k, v) \<and> o_data rest = json_payload C fresh (k, v) owned mode own)"
  by (auto simp: decode_data_def and_then_at_eq_Inr Let_def split: if_splits option.splits sum.splits)

lemma read_event_again:
  assumes "read_event C fresh document owned mode own True = Inr (ev, m)"
  shows "(\<exists>d. read_event C fresh' document owned mode own False = Inr (with_payload ev d, None) \<and>
      alike C (o_data (e_rest ev)) d) \<and>
    (\<forall>v. m = Some v \<longrightarrow> mode \<noteq> P_move \<and> (\<exists>k. first_ref ''data'' (c_members C document) 0 = Some (k, v) \<and>
      o_data (e_rest ev) = json_payload C fresh (k, v) owned mode own))"
proof -
  from assms obtain rest b rest' where k: "c_kind_of C document = K_object"
    and e: "read_extensions C (extension_members (c_members C document)) (Inr ()) no_options = (Inr (), rest)"
    and c: "read_context C (found_in (c_members C document) 0) (new_builder\<lparr>b_rest := rest\<rparr>) = Inr b"
    and d: "decode_data C fresh (found_in (c_members C document) 0) owned mode own True (b_rest b) = Inr (rest', m)"
    and b: "build (b\<lparr>b_rest := rest'\<rparr>) = Inr ev"
    unfolding read_event_Inr by blast
  from decode_data_event [OF d] obtain d' where
    d': "decode_data C fresh' (found_in (c_members C document) 0) owned mode own False (b_rest b) =
      Inr (rest'\<lparr>o_data := d'\<rparr>, None)" "alike C (o_data rest') d'" by blast
  have ev: "e_rest ev = rest'" using b by (auto simp: build_Inr)
  have "build (b\<lparr>b_rest := rest'\<lparr>o_data := d'\<rparr>\<rparr>) = Inr (with_payload ev d')"
    using b by (auto simp: build_Inr with_payload_def)
  with k e c d' have "read_event C fresh' document owned mode own False = Inr (with_payload ev d', None)"
    unfolding read_event_Inr by blast
  moreover have "mm_data (found_in (c_members C document) 0) = first_ref ''data'' (c_members C document) 0"
    by (simp add: found_in_def)
  ultimately show ?thesis using d d'(2) ev decode_data_member by metis
qed

lemma read_event_fails:
  "read_event C fresh document owned mode own True = Inl e \<Longrightarrow> read_event C fresh' document owned mode own False = Inl e"
  using read_event_strip [of C fresh document owned mode own True fresh' owned mode own False]
  by (cases "read_event C fresh' document owned mode own False") auto

lemma payload_of_text: "c_parse C kept = Inr v \<Longrightarrow> payload_from_text C D kept = payload_from C D v"
  by (simp add: payload_from_text_def)

text \<open>
  So \<open>decode_as\<close> is \<open>decode\<close> followed by \<open>data_as\<close>, with one and the same error or with one payload and
  equal events.
\<close>

lemma decode_as_agrees:
  assumes C: "codec_text C" "codec_values C" "codec_reads_members C"
  shows "case json_decode C fresh' input options of
      Inl e \<Rightarrow> decode_as C fresh D input options = Inl e
    | Inr ev \<Rightarrow>
        (case data_as C D ev of
           Inl e \<Rightarrow> decode_as C fresh D input options = Inl e
         | Inr held \<Rightarrow> \<exists>ev'. decode_as C fresh D input options = Inr (ev', held) \<and> event_equal ev' ev)"
proof (cases "c_parse C input")
  case (Inl e)
  then show ?thesis by (simp add: json_decode_def decode_as_def typed_decode_def decode_reading_def and_then_at_def
        forward_failure_at_def fail_def)
next
  case (Inr document)
  define mode where "mode = (if retains input options then P_move else P_text)"
  define own where "own = (if retains input options then None else data_member_text input)"
  have typed: "decode_as C fresh D input options =
      and_then (read_event C fresh document (Some document) mode own True) (\<lambda>(ev, m). typed_read C D ev m)"
    by (simp add: decode_as_def typed_decode_def decode_reading_def typed_reader_def Inr mode_def own_def)
  have plain: "json_decode C fresh' input options =
      and_then (read_event C fresh' document (Some document) mode own False) (\<lambda>(ev, m). Inr ev)"
    by (simp add: json_decode_def decode_reading_def Inr mode_def own_def)
  show ?thesis
  proof (cases "read_event C fresh document (Some document) mode own True")
    case (Inl e)
    with read_event_fails [OF Inl, of fresh'] show ?thesis by (simp add: typed plain)
  next
    case r: (Inr read)
    obtain ev m where p: "read = (ev, m)" by fastforce
    note again = read_event_again [OF r [unfolded p], of fresh']
    then obtain d where d: "read_event C fresh' document (Some document) mode own False = Inr (with_payload ev d, None)"
      "alike C (o_data (e_rest ev)) d" by blast
    have object: "c_kind_of C document = K_object" using r by (simp add: p read_event_Inr)
    have "typed_read C D ev m = typed_read C D ev None"
    proof (cases m)
      case (Some v)
      with again obtain k where k: "mode \<noteq> P_move" "first_ref ''data'' (c_members C document) 0 = Some (k, v)"
        "o_data (e_rest ev) = json_payload C fresh (k, v) (Some document) mode own" by blast
      then obtain kept where "o_data (e_rest ev) = Json_text kept" "c_parse C kept = Inr v"
        using own_text_read [OF C(3) Inr object] C(1)
        by (auto simp: mode_def own_def json_payload_def codec_text_def split: if_splits option.splits)
      then show ?thesis by (simp add: Some typed_read_def data_as_def payload_of_text)
    qed simp
    with alike_data_as [OF d(2), of D] alike_equal [OF C(2) d(2)] show ?thesis
      by (simp add: typed plain d(1) r p typed_read_def split: sum.split)
  qed
qed

lemma decode_as_agrees_returns:
  assumes "codec_text C" "codec_values C" "codec_reads_members C"
  shows "check_decode_as_agrees C fresh input options = Returns"
  using decode_as_agrees [OF assms, where input = input and fresh = fresh and fresh' = "Suc fresh" and D = parcel and options = options]
  by (auto simp: check_decode_as_agrees_def same_parcel_def Let_def split: sum.splits)

section \<open>A payload that was read, stored and written\<close>

lemma parcel_laws:
  "distinct (field_names parcel)" "codec_containers C \<Longrightarrow> codec_describes C parcel"
  "\<forall>field \<in> set parcel. of_type (df_type field) (df_initial field)"
  by (simp_all add: parcel_def field_names_def codec_describes_def int32_min_def int32_max_def)

lemma data_as_of_type:
  assumes "data_as C D ev = Inr held" "\<forall>field \<in> set D. of_type (df_type field) (df_initial field)"
  shows "described_value D held"
proof -
  obtain document where "payload_from C D document = Inr held"
    using assms(1) by (auto simp: data_as_def payload_from_text_def and_then_at_eq_Inr
        split: data_t.splits option.splits if_splits)
  then have "fields_from_json C D document = Inr held"
    by (auto simp: payload_from_def from_json_value_def forward_failure_def fail_def split: sum.splits if_splits)
  from fields_of_type [OF this assms(2)] show ?thesis .
qed

lemma payload_stored_returns:
  assumes "codec_scalars C" "codec_objects C" "codec_lookup C" "codec_containers C" "data_as C parcel ev = Inr held"
  shows "check_payload_stored C fresh ev held (declared_non_json (o_datacontenttype (e_rest ev))) = Returns"
proof -
  obtain r ev' where s: "typed_set_data C fresh parcel ev held = (r, ev')" by fastforce
  note t = typed_data_round_trip [OF assms(1,2) parcel_laws(2) [OF assms(4)] assms(3) parcel_laws(1)
      data_as_of_type [OF assms(5) parcel_laws(3)] s]
  have "is_ok r \<longleftrightarrow> \<not> declared_non_json (o_datacontenttype (e_rest ev))"
    using s by (auto simp: typed_set_data_def Let_def declared_non_json_def fail_def split: option.splits if_splits)
  with t show ?thesis
    by (auto simp: check_payload_stored_def s same_parcel_def event_equal_refl split: if_splits)
qed

lemma encode_as_ok:
  "is_ok (encode_as C D ev held) \<longleftrightarrow> \<not> declared_non_json (o_datacontenttype (e_rest ev))"
  by (auto simp: encode_as_def declared_non_json_def typed_to_value_def to_value_writing_all fail_def split: option.split)

lemma encode_as_unreadable_time:
  assumes C: "codec_scalars C" "codec_objects C" "codec_lookup C" "codec_text C" and ev: "event_ok ev" "\<not> time_fits ev"
    and out: "encode_as C D ev held = Inr written"
  shows "\<not> is_ok (decode_as C fresh D' written options)"
proof -
  let ?v = "to_json_value C D held"
  note w = encode_as_written [OF out]
  let ?root = "set_all C (context_entries C ev (Some (declared_json ev)) @ extension_entries C ev @ [(''data'', ?v)]) (c_make_object C)"
  have p: "c_parse C written = Inr ?root" using w C(4) by (simp add: codec_text_def)
  have D: "data_entries C (Json_document (document_make C 0 ?v)) = Inr [(''data'', ?v)]"
    using C(3) by (simp add: data_entries_def document_get_make codec_lookup_def)
  from unreadable_time [OF C(1,2) ev D refl] show ?thesis
    by (auto simp: decode_as_def typed_decode_def decode_reading_def p is_ok_iff and_then_eq_Inr split: if_splits)
qed

lemma payload_written_returns:
  assumes C: "codec_scalars C" "codec_objects C" "codec_lookup C" "codec_text C" "codec_containers C"
    and ev: "event_ok ev" "data_as C parcel ev = Inr held"
  shows "check_payload_written C fresh ev held (declared_non_json (o_datacontenttype (e_rest ev))) = Returns \<longleftrightarrow>
    declared_non_json (o_datacontenttype (e_rest ev)) \<or> time_fits ev"
proof (cases "encode_as C parcel ev held")
  case (Inl e)
  with encode_as_ok [of C parcel ev held] show ?thesis by (simp add: check_payload_written_def)
next
  case (Inr written)
  with encode_as_ok [of C parcel ev held] have n: "\<not> declared_non_json (o_datacontenttype (e_rest ev))" by simp
  show ?thesis
  proof (cases "time_fits ev")
    case True
    from decode_as_encoded [OF C(1,2) parcel_laws(2) [OF C(5)] C(3,4) parcel_laws(1)
        data_as_of_type [OF ev(2) parcel_laws(3)] ev(1) True Inr, of fresh default_decode_options]
    show ?thesis using n True by (auto simp: check_payload_written_def Inr same_parcel_def)
  next
    case False
    from encode_as_unreadable_time [OF C(1-4) ev(1) False Inr, of fresh parcel default_decode_options]
    show ?thesis using n False by (auto simp: check_payload_written_def Inr is_ok_iff split: sum.split)
  qed
qed

lemma payload_returns:
  assumes C: "codec_scalars C" "codec_objects C" "codec_lookup C" "codec_text C" "codec_containers C" and ev: "event_ok ev"
  shows "check_payload C fresh ev = Returns \<longleftrightarrow>
    \<not> is_ok (data_as C parcel ev) \<or> declared_non_json (o_datacontenttype (e_rest ev)) \<or> time_fits ev"
proof (cases "data_as C parcel ev")
  case (Inr held)
  from payload_stored_returns [OF C(1-3,5) Inr, of fresh] payload_written_returns [OF C ev Inr, of "Suc fresh"]
  show ?thesis by (simp add: check_payload_def Inr declared_non_json_def)
qed (simp add: check_payload_def)


section \<open>Where the target traps\<close>

lemma traps_iff: "outcome = Traps \<longleftrightarrow> outcome \<noteq> Returns"
  by (cases outcome) simp_all

text \<open>
  C20: with a codec that keeps the laws (those of values and of objects, that what it dumps it reads
  back, and that it reads the members of an object as RFC 8259 has them), the typed target returns on
  every text but one kind: a text of an event that has a payload of the type under a JSON media type,
  or under none, and whose local time does not fit; what \<open>encode_as\<close> writes for it is refused by
  \<open>decode_as\<close>. So reading an event with its payload agrees with reading one after the other, in the
  error code and in the values, whatever the retention limit, where the scanner's slice of the text is
  the payload too; a described extension that was read is set and read again; a payload that was read
  is stored, and is refused under another media type without a change of the event.
\<close>

theorem fuzz_typed_traps_iff:
  assumes "codec_scalars C" "codec_objects C" "codec_lookup C" "codec_text C" "codec_values C" "codec_containers C"
    and "codec_reads_members C"
  shows "fuzz_typed C fresh input = Traps \<longleftrightarrow>
    (\<exists>ev. json_decode C (fresh + 4) input default_decode_options = Inr ev \<and> is_ok (data_as C parcel ev) \<and>
      \<not> declared_non_json (o_datacontenttype (e_rest ev)) \<and> \<not> time_fits ev)"
proof (cases "json_decode C (fresh + 4) input default_decode_options")
  case (Inl e)
  then show ?thesis using decode_as_agrees_returns [OF assms(4,5,7)] by (simp add: fuzz_typed_def traps_iff)
next
  case (Inr ev)
  note ok = json_decode_ok [OF Inr]
  have "check_extension_roundtrip fs ev = Returns" if "fs \<in> {tracing, partitioning, sampled_rate, sequence, dataref}" for fs
    using extension_roundtrip_returns [OF ok] shipped_extensions [OF that] by blast
  then show ?thesis
    using decode_as_agrees_returns [OF assms(4,5,7)] payload_returns [OF assms(1-4,6) ok, of "fresh + 5"]
    by (simp add: fuzz_typed_def traps_iff Inr)
qed

text \<open>An event with a parcel, at a time that fits and at one that does not.\<close>

definition parcel_event :: "string \<Rightarrow> string" where
  "parcel_event t = print_json (J_object [(''specversion'', J_string ''1.0''), (''id'', J_string ''1''),
     (''source'', J_string ''/s''), (''type'', J_string ''t''), (''time'', J_string t),
     (''data'', J_object [(''label'', J_string ''p''), (''weight'', J_int 3), (''marks'', J_array [J_string ''m''])])])"

lemma string_run_end_code [code]: "string_run_end s pos = run_end_bytes (sl_text s) pos"
  by (simp add: string_run_end_def run_end_words_bytes)

lemma canonical_containers: "codec_containers canonical_codec"
proof -
  have "codec_containers reference_codec" using order_ok(3) by (simp add: codec_describes_def order_type_def)
  then show ?thesis by (simp add: codec_containers_def canonical_codec_def canonical_parse_def)
qed

theorem fuzz_typed_traps_iff_witness:
  "fuzz_typed canonical_codec 0 (parcel_event ''2024-02-29T12:00:00Z'') = Returns \<and>
   fuzz_typed canonical_codec 0 (parcel_event ''2262-04-12T23:46:14+23:59'') = Traps"
proof -
  have fits: "(case json_decode canonical_codec 4 (parcel_event ''2024-02-29T12:00:00Z'') default_decode_options of
      Inr ev \<Rightarrow> time_fits ev | Inl _ \<Rightarrow> True)"
    by code_simp
  have late: "(case json_decode canonical_codec 4 (parcel_event ''2262-04-12T23:46:14+23:59'') default_decode_options of
      Inr ev \<Rightarrow> is_ok (data_as canonical_codec parcel ev) \<and> \<not> declared_non_json (o_datacontenttype (e_rest ev)) \<and>
        \<not> time_fits ev
    | Inl _ \<Rightarrow> False)"
    by code_simp
  note t = fuzz_typed_traps_iff [OF canonical_laws(1-3,5,4) canonical_containers canonical_reads_members,
      where fresh = 0, simplified]
  from t [of "parcel_event ''2024-02-29T12:00:00Z''"] t [of "parcel_event ''2262-04-12T23:46:14+23:59''"] fits late
  show ?thesis by (auto simp: traps_iff split: sum.splits)
qed

end
