(* ===== verification/Fuzz_Json.thy ===== *)
theory Fuzz_Json
  imports Fuzz_Messages Fuzz_Typed
begin

text \<open>
  The round trips of \<open>fuzz/fuzz_json_decode.cpp\<close> and \<open>fuzz/fuzz_nats_payload.cpp\<close>: what is decoded is
  encoded, and the encoding decodes to an equal event. The retention limit decides: a text within it
  whose encoding is beyond it is a document at first, and a text then.
\<close>

section \<open>The targets\<close>

text \<open>The first block of the JSON target.\<close>

definition check_decoded_json :: "'j codec \<Rightarrow> nat \<Rightarrow> string \<Rightarrow> outcome" where
  "check_decoded_json C fresh txt =
     (case json_decode C fresh txt default_decode_options of
        Inl _ \<Rightarrow> Returns
      | Inr decoded \<Rightarrow>
          (case json_encode C decoded of
             Inl _ \<Rightarrow> Traps
           | Inr encoded \<Rightarrow>
               (case json_decode C (Suc fresh) encoded default_decode_options of
                  Inl _ \<Rightarrow> Traps
                | Inr again \<Rightarrow> trap_unless (event_equal again decoded))))"

text \<open>
  The payload kept as text above the limit, where the scanner finds one, against the document that
  the same input has below it.
\<close>

definition check_text_matches_document :: "'j codec \<Rightarrow> nat \<Rightarrow> string \<Rightarrow> outcome" where
  "check_text_matches_document C fresh txt =
     (let as_text = json_decode C fresh txt always_text;
          as_document = json_decode C (Suc fresh) txt default_decode_options
      in if is_ok as_text \<noteq> is_ok as_document then Traps
         else (case (as_text, as_document) of
             (Inr text_event, Inr document_event) \<Rightarrow>
               (case (o_data (e_rest text_event), data_member_text txt) of
                  (Json_text kept, Some own_text) \<Rightarrow>
                    if kept \<noteq> own_text then Traps
                    else (case o_data (e_rest document_event) of
                        Json_document document \<Rightarrow>
                          (case (document_get C document, c_parse C kept) of
                             (Some own, Inr reparsed) \<Rightarrow> trap_unless (c_dump C reparsed = c_dump C own)
                           | _ \<Rightarrow> Traps)
                      | _ \<Rightarrow> Traps)
                | _ \<Rightarrow> Returns)
           | _ \<Rightarrow> Returns))"

text \<open>\<open>C\<close> is \<open>nlohmann_codec\<close> and \<open>M\<close> the \<open>mini_codec\<close> of the tests.\<close>

definition fuzz_json_decode :: "'j codec \<Rightarrow> 'm codec \<Rightarrow> nat \<Rightarrow> string \<Rightarrow> outcome" where
  "fuzz_json_decode C M fresh txt =
     all_checks
       [check_decoded_json C fresh txt,
        check_text_matches_document C (fresh + 2) txt,
        check_text_matches_document M (fresh + 4) txt]"

definition fuzz_nats_payload :: "'j codec \<Rightarrow> nat \<Rightarrow> string \<Rightarrow> outcome" where
  "fuzz_nats_payload C fresh payload =
     next_check (fuzz_nats_message C fresh payload)
       (case nats_from_payload C fresh payload default_decode_options of
          Inl _ \<Rightarrow> Returns
        | Inr decoded \<Rightarrow>
            (case nats_to_payload C decoded of
               Inl _ \<Rightarrow> Traps
             | Inr reserialized \<Rightarrow>
                 (case nats_from_payload C (Suc fresh) reserialized default_decode_options of
                    Inl _ \<Rightarrow> Traps
                  | Inr again \<Rightarrow> trap_unless (event_equal again decoded))))"



section \<open>The text kept above the limit\<close>

lemma decode_data_text:
  assumes "decode_data C fresh found owned P_text (Some own) False into = Inr (rest, m)" "o_data rest = Json_text kept"
    and "decode_data C fresh' found owned' P_move None False into = Inr (rest', m')" "o_data into = No_data"
  shows "kept = own \<and> (\<exists>k v. mm_data found = Some (k, v) \<and> o_data rest' = json_payload C fresh' (k, v) owned' P_move None)"
proof (cases "mm_data found")
  case None
  with assms(1,2,4) show ?thesis by (auto simp: decode_data_def and_then_at_eq_Inr split: option.splits sum.splits)
next
  case (Some data)
  with assms(1) have b: "mm_data_base64 found = None" by (cases "mm_data_base64 found") (auto simp: decode_data_def fail_def)
  with Some assms show ?thesis
    by (cases data) (auto simp: decode_data_def json_payload_def [where mode = P_text] Let_def split: if_splits sum.splits)
qed

lemma kept_text_read:
  assumes C: "codec_lookup C" "codec_reads_members C" and p: "c_parse C txt = Inr document"
    and t: "read_event C fresh document (Some document) P_text (data_member_text txt) False = Inr (ev, m)"
      "read_event C fresh' document (Some document) P_move None False = Inr (ev', m')"
    and kept: "o_data (e_rest ev) = Json_text kept" "data_member_text txt = Some own_text"
  shows "kept = own_text \<and> (\<exists>v. o_data (e_rest ev') = Json_document (document_make C fresh' v) \<and> c_parse C kept = Inr v)"
proof -
  from t obtain rest b r r' where
    object: "c_kind_of C document = K_object" and e: "read_extensions C (extension_members (c_members C document)) (Inr ()) no_options = (Inr (), rest)"
    and c: "read_context C (found_in (c_members C document) 0) (new_builder\<lparr>b_rest := rest\<rparr>) = Inr b"
    and d: "decode_data C fresh (found_in (c_members C document) 0) (Some document) P_text (Some own_text) False (b_rest b) = Inr (r, m)"
      "decode_data C fresh' (found_in (c_members C document) 0) (Some document) P_move None False (b_rest b) = Inr (r', m')"
    and b: "build (b\<lparr>b_rest := r\<rparr>) = Inr ev" "build (b\<lparr>b_rest := r'\<rparr>) = Inr ev'"
    by (auto simp: kept(2) read_event_Inr)
  have rests: "e_rest ev = r" "e_rest ev' = r'" using b by (auto simp: build_Inr)
  have "o_data (b_rest b) = No_data"
    using read_context_keeps [OF c] read_extensions_normal [OF e] by (simp add: no_options_def extensions_normal_def)
  from decode_data_text [OF d(1) _ d(2) this] kept(1) rests obtain k v where
    "kept = own_text" "mm_data (found_in (c_members C document) 0) = Some (k, v)"
    and o: "o_data r' = json_payload C fresh' (k, v) (Some document) P_move None" by auto
  then have f: "kept = own_text" "first_ref ''data'' (c_members C document) 0 = Some (k, v)" by (simp_all add: found_in_def)
  have "o_data r' = Json_document (document_make C fresh' v)"
    using o json_payload_move [OF C(1) f(2), of fresh' None None] C(1) by (simp add: json_payload_def codec_lookup_def)
  moreover have "c_parse C kept = Inr v" using own_text_read [OF C(2) p object kept(2) f(2)] f(1) by simp
  ultimately show ?thesis using f(1) rests by auto
qed

lemma text_matches_document_returns:
  assumes C: "codec_lookup C" "codec_reads_members C" and small: "retains txt default_decode_options"
  shows "check_text_matches_document C fresh txt = Returns"
proof (cases "c_parse C txt")
  case (Inr document)
  define as_text where "as_text = read_event C fresh document (Some document) P_text (data_member_text txt) False"
  define as_document where "as_document = read_event C (Suc fresh) document (Some document) P_move None False"
  have large: "\<not> retains txt always_text" by (simp add: retains_def retains_text_of_def always_text_def)
  have plain: "json_decode C fresh txt always_text = and_then as_text (\<lambda>(ev, m). Inr ev)"
    "json_decode C (Suc fresh) txt default_decode_options = and_then as_document (\<lambda>(ev, m). Inr ev)"
    using large small by (simp_all add: json_decode_def decode_reading_def Inr as_text_def as_document_def)
  have same: "is_ok as_text = is_ok as_document"
    using read_event_strip [of C fresh document "Some document" P_text "data_member_text txt" False "Suc fresh"
        "Some document" P_move None False, folded as_text_def as_document_def]
    by (cases as_text; cases as_document) auto
  show ?thesis
  proof (cases as_text)
    case (Inl e)
    with same obtain e' where "as_document = Inl e'" by (cases as_document) auto
    with Inl show ?thesis by (simp add: check_text_matches_document_def plain)
  next
    case (Inr x)
    with same obtain y where y: "as_document = Inr y" by (auto simp: is_ok_iff)
    with Inr obtain ev m ev' m' where t: "as_text = Inr (ev, m)" "as_document = Inr (ev', m')" by (cases x; cases y) simp
    show ?thesis
    proof (cases "\<exists>kept own_text. o_data (e_rest ev) = Json_text kept \<and> data_member_text txt = Some own_text")
      case True
      then obtain kept own_text where k: "o_data (e_rest ev) = Json_text kept" "data_member_text txt = Some own_text" by blast
      from kept_text_read [OF C \<open>c_parse C txt = Inr document\<close> t [unfolded as_text_def as_document_def] k] k show ?thesis
        by (auto simp: check_text_matches_document_def plain t document_get_make)
    qed (auto simp: check_text_matches_document_def plain t split: data_t.split option.split)
  qed
qed (simp add: check_text_matches_document_def json_decode_def decode_reading_def and_then_at_def forward_failure_at_def)


section \<open>Where they trap\<close>

text \<open>
  C18: for a text within the retention limit that decodes to an event, with codecs that keep the
  laws and read the members of an object as RFC 8259 has them: the event encodes, and the JSON target
  returns exactly if the local time of the event fits and the encoding is within the limit too or the
  event has no JSON data. Where the encoding is longer than the limit, the data of one event is a
  document and of the other a text, they are not equal, and the target traps; where the local time
  does not fit, what was written for it is refused, and the target traps. The rest of the JSON target
  never traps, with either codec: the slice of the text that the scanner takes for the payload above
  the limit is the document below it. The payload half of the NATS target does what the first block
  of the JSON target does.
\<close>

theorem fuzz_json_returns_iff:
  assumes "codec_scalars C" "codec_objects C" "codec_lookup C" "codec_text C" "codec_values C"
    and "json_decode C fresh payload default_decode_options = Inr ev" "retains payload default_decode_options"
    and "codec_lookup M" "codec_reads_members C" "codec_reads_members M"
  shows "(\<exists>encoded. json_encode C ev = Inr encoded \<and>
      (fuzz_json_decode C M fresh payload = Returns \<longleftrightarrow>
        time_fits ev \<and> (retains encoded default_decode_options \<or> \<not> holds_document (o_data (e_rest ev))))) \<and>
    fuzz_nats_payload C fresh payload = next_check (fuzz_nats_message C fresh payload) (check_decoded_json C fresh payload)"
proof
  have n: "event_normal C ev" "\<not> holds_text (o_data (e_rest ev))"
    using json_decode_normal [OF assms(3,6)] assms(7) by simp_all
  from normal_encodes [OF n] obtain encoded where e: "json_encode C ev = Inr encoded" by blast
  have "check_decoded_json C fresh payload = Returns \<longleftrightarrow>
      (\<exists>again. json_decode C (Suc fresh) encoded default_decode_options = Inr again \<and> event_equal again ev)"
    by (simp add: check_decoded_json_def assms(6) e split: sum.split)
  with json_decode_again [OF assms(1-7) e, of "Suc fresh"]
  have "check_decoded_json C fresh payload = Returns \<longleftrightarrow>
      time_fits ev \<and> (retains encoded default_decode_options \<or> \<not> holds_document (o_data (e_rest ev)))" by simp
  moreover have "fuzz_json_decode C M fresh payload = Returns \<longleftrightarrow> check_decoded_json C fresh payload = Returns"
    using assms(3,7-10) by (simp add: fuzz_json_decode_def text_matches_document_returns)
  ultimately show "\<exists>encoded. json_encode C ev = Inr encoded \<and>
      (fuzz_json_decode C M fresh payload = Returns \<longleftrightarrow>
        time_fits ev \<and> (retains encoded default_decode_options \<or> \<not> holds_document (o_data (e_rest ev))))" using e by blast
  show "fuzz_nats_payload C fresh payload = next_check (fuzz_nats_message C fresh payload) (check_decoded_json C fresh payload)"
    unfolding fuzz_nats_payload_def check_decoded_json_def nats_from_payload_def nats_to_payload_def ..
qed

text \<open>An event with JSON data, within the limit.\<close>

definition json_input :: string where
  "json_input = projr (json_encode reference_codec (full_event\<lparr>e_rest := (e_rest full_event)\<lparr>o_data := Json_text ''[1]''\<rparr>\<rparr>))"

theorem fuzz_json_returns_iff_witness: "fuzz_json_decode canonical_codec canonical_codec 0 json_input = Returns"
proof -
  define ev where "ev = projr (json_decode canonical_codec 0 json_input default_decode_options)"
  have d: "is_ok (json_decode canonical_codec 0 json_input default_decode_options)" by code_simp
  then have ev: "json_decode canonical_codec 0 json_input default_decode_options = Inr ev"
    by (auto simp: ev_def is_ok_iff)
  have r: "retains json_input default_decode_options" by code_simp
  have t: "time_fits ev" unfolding ev_def by code_simp
  have e: "(case json_encode canonical_codec ev of Inr encoded \<Rightarrow> retains encoded default_decode_options | Inl _ \<Rightarrow> True)"
    unfolding ev_def by code_simp
  from fuzz_json_returns_iff [OF canonical_laws(1-3,5,4) ev r
      canonical_laws(3) canonical_reads_members canonical_reads_members] e t
  show ?thesis by auto
qed

end
