(* ===== verification/Fuzz_Mqtt.thy ===== *)
theory Fuzz_Mqtt
  imports Fuzz_Messages Json_Normal
begin

text \<open>
  \<open>fuzz/fuzz_mqtt_message.cpp\<close>: a message is read under both name policies; a structured one agrees
  with its payload alone; what was read is written in structured mode, and in binary mode if its
  values fit; what binary mode wrote is read again.
\<close>

section \<open>The target\<close>

definition mqtt_exercise :: "string \<Rightarrow> 'j codec \<Rightarrow> nat \<Rightarrow> message \<Rightarrow> outcome" where
  "mqtt_exercise names C fresh incoming =
     (case mqtt_from_message names C fresh incoming default_decode_options of
        Inl _ \<Rightarrow> Returns
      | Inr decoded \<Rightarrow>
          next_check
            (if mqtt_detect_content_mode incoming = structured
             then (case mqtt_from_payload_message C (Suc fresh) incoming default_decode_options of
                 Inl _ \<Rightarrow> Traps
               | Inr from_payload \<Rightarrow> trap_unless (event_equal decoded from_payload))
             else Returns)
            (next_check (trap_unless (is_ok (mqtt_to_message names C decoded structured)))
              (case mqtt_to_message names C decoded binary_mode of
                 Inl _ \<Rightarrow> Returns
               | Inr written \<Rightarrow>
                   trap_unless (is_ok (mqtt_from_message names C (Suc fresh) written default_decode_options)))))"

definition fuzz_mqtt_message :: "'j codec \<Rightarrow> nat \<Rightarrow> string \<Rightarrow> outcome" where
  "fuzz_mqtt_message C fresh input =
     (let incoming = build_message input
      in next_check (mqtt_exercise unprefixed_names C fresh incoming)
           (mqtt_exercise prefixed_names C (Suc (Suc fresh)) incoming))"


section \<open>A decode does not depend on the addresses\<close>

lemma json_payload_fresh:
  assumes "codec_values C"
  shows "data_equal (json_payload C fresh data owned mode own) (json_payload C fresh' data owned mode own)"
proof -
  have "document_equal (document_make C a v) (document_make C b v)" for a b v
    using assms by (simp add: document_equal_def document_make_def model_identity_def model_equal_value_def codec_values_def)
  then show ?thesis by (simp add: json_payload_def data_equal_def split: payload_mode.split option.split)
qed

lemma decode_data_fresh:
  assumes "codec_values C" "decode_data C fresh found owned mode own w into = Inr (rest, m)"
  shows "\<exists>d. decode_data C fresh' found owned mode own w into = Inr (rest\<lparr>o_data := d\<rparr>, m) \<and> data_equal (o_data rest) d"
proof (cases "\<exists>data. mm_data_base64 found = None \<and> mm_data found = Some data \<and>
    \<not> (declared_non_json (o_datacontenttype into) \<and> c_kind_of C (snd data) = K_string)")
  case True
  then obtain data where "decode_data C x found owned mode own w into =
      Inr (into\<lparr>o_data := json_payload C x data owned mode own\<rparr>, if w \<and> mode \<noteq> P_move then Some (snd data) else None)" for x
    by (auto simp: decode_data_def declared_non_json_def)
  with assms json_payload_fresh [OF assms(1), of fresh data owned mode own fresh'] show ?thesis by auto
next
  case False
  then have "decode_data C fresh' found owned mode own w into = decode_data C fresh found owned mode own w into"
    by (auto simp: decode_data_def declared_non_json_def Let_def split: option.split)
  with assms(2) show ?thesis by (intro exI [of _ "o_data rest"]) (simp add: data_equal_refl)
qed

lemma read_event_fresh:
  assumes "codec_values C" "read_event C fresh document owned mode own w = Inr (ev, m)"
  shows "\<exists>ev'. read_event C fresh' document owned mode own w = Inr (ev', m) \<and> event_equal ev ev'"
proof -
  from assms(2) obtain rest b rest' where
    r: "c_kind_of C document = K_object"
      "read_extensions C (extension_members (c_members C document)) (Inr ()) no_options = (Inr (), rest)"
      "read_context C (found_in (c_members C document) 0) (new_builder\<lparr>b_rest := rest\<rparr>) = Inr b"
    and d: "decode_data C fresh (found_in (c_members C document) 0) owned mode own w (b_rest b) = Inr (rest', m)"
    and b: "build (b\<lparr>b_rest := rest'\<rparr>) = Inr ev"
    unfolding read_event_Inr by blast
  from decode_data_fresh [OF assms(1) d, of fresh'] obtain d' where
    d': "decode_data C fresh' (found_in (c_members C document) 0) owned mode own w (b_rest b) = Inr (rest'\<lparr>o_data := d'\<rparr>, m)"
      "data_equal (o_data rest') d'" by blast
  have "build (b\<lparr>b_rest := rest'\<lparr>o_data := d'\<rparr>\<rparr>) = Inr (ev\<lparr>e_rest := rest'\<lparr>o_data := d'\<rparr>\<rparr>)"
    using b by (auto simp: build_Inr)
  with r d'(1) have "read_event C fresh' document owned mode own w = Inr (ev\<lparr>e_rest := rest'\<lparr>o_data := d'\<rparr>\<rparr>, m)"
    unfolding read_event_Inr by blast
  moreover have "event_equal ev (ev\<lparr>e_rest := rest'\<lparr>o_data := d'\<rparr>\<rparr>)"
    using b d'(2) by (auto simp: build_Inr event_equal_def options_equal_def)
  ultimately show ?thesis by blast
qed

lemma json_decode_fresh:
  assumes "codec_values C" "json_decode C fresh txt options = Inr ev"
  shows "\<exists>ev'. json_decode C fresh' txt options = Inr ev' \<and> event_equal ev ev'"
proof -
  from assms(2) obtain document where p: "c_parse C txt = Inr document"
    by (auto simp: json_decode_def decode_reading_def and_then_at_eq_Inr)
  obtain mode own where j: "json_decode C x txt options =
      and_then (read_event C x document (Some document) mode own False) (\<lambda>(ev, _). Inr ev)" for x
    by (cases "retains txt options") (auto simp: json_decode_def decode_reading_def p)
  with assms(2) obtain m where "read_event C fresh document (Some document) mode own False = Inr (ev, m)"
    by (auto simp: and_then_eq_Inr)
  from read_event_fresh [OF assms(1) this, of fresh'] show ?thesis by (auto simp: j)
qed


section \<open>What is read is normal\<close>

lemma apply_attribute_normal:
  "apply_attribute T b attribute v = Inr b' \<Longrightarrow> extensions_normal (o_extensions (b_rest b)) \<Longrightarrow>
     extensions_normal (o_extensions (b_rest b'))"
  by (auto simp: apply_attribute_def and_then_eq_Inr and_then_at_eq_Inr json_attribute_def
      intro!: extensions_normal_insert split: if_splits)

lemma read_fields_normal:
  "read_fields T hs b = Inr b' \<Longrightarrow> extensions_normal (o_extensions (b_rest b)) \<Longrightarrow>
     extensions_normal (o_extensions (b_rest b'))"
  by (induction T hs b rule: read_fields.induct)
    (auto simp: Let_def and_then_eq_Inr and_then_at_eq_Inr dest: apply_attribute_normal split: if_splits)

lemma read_attributes_normal:
  "read_attributes T hs = Inr b \<Longrightarrow> extensions_normal (o_extensions (b_rest b))"
  by (auto simp: read_attributes_def new_builder_def no_options_def extensions_normal_def
      dest: read_fields_normal [unfolded extensions_normal_def] split: option.splits)

lemma read_body_normal:
  assumes "read_body C fresh b media options = Inr d" "retains (text_of b) options" "parse_binary_body options"
  shows "data_normal C media d \<and> \<not> holds_text d"
  using assms by (auto simp: read_body_def and_then_eq_Inr Let_def retains_def holds_text_def declared_non_json_def
      split: if_splits option.splits)

lemma mqtt_read_normal:
  assumes "mqtt_from_message names C fresh m options = Inr ev" "codec_lookup C"
    and "retains (text_of (body m)) options" "parse_binary_body options"
  shows "event_normal C ev \<and> \<not> holds_text (o_data (e_rest ev))"
proof (cases "mqtt_detect_content_mode m")
  case binary_mode
  with assms(1) obtain hs b b' d where b: "read_attributes (mqtt_traits names) hs = Inr b"
    "declare_media_type (find_exact mqtt_content_type_header (header_fields m)) b = Inr b'"
    and d: "read_body C fresh (body m) (o_datacontenttype (b_rest b')) options = Inr d"
    and ev: "build (b'\<lparr>b_rest := b_rest b'\<lparr>o_data := d\<rparr>\<rparr>) = Inr ev"
    by (auto simp: mqtt_from_message_def mqtt_decode_binary_def and_then_eq_Inr split: if_splits)
  have "e_rest ev = b_rest b'\<lparr>o_data := d\<rparr>" using ev by (auto simp: build_Inr)
  with read_attributes_normal [OF b(1)] declare_media_type_extensions [OF b(2)] read_body_normal [OF d assms(3,4)]
  show ?thesis by (simp add: event_normal_def)
next
  case structured
  with assms(1) have "json_decode C fresh (text_of (body m)) options = Inr ev"
    by (auto simp: mqtt_from_message_def decode_structured_def split: if_splits)
  from json_decode_normal [OF assms(2) this] assms(3) show ?thesis by simp
next
  case batched
  with assms(1) show ?thesis by (auto simp: mqtt_from_message_def fail_def split: if_splits)
qed

text \<open>
  What binary mode writes is read again, unless the payload is binary data under a JSON media type
  that is no JSON.
\<close>

definition payload_readable :: "'j codec \<Rightarrow> 'j event \<Rightarrow> bool" where
  "payload_readable C ev \<longleftrightarrow>
     (case (o_data (e_rest ev), o_datacontenttype (e_rest ev)) of
        (Binary_data b, Some m) \<Rightarrow> is_json_content_type m \<and> b \<noteq> [] \<longrightarrow> is_ok (c_parse C (text_of b))
      | _ \<Rightarrow> True)"

lemma read_body_again:
  assumes "event_normal C ev" "\<not> holds_text (o_data (e_rest ev))" "codec_text C"
  shows "is_ok (read_body C fresh (payload_bytes (o_data (e_rest ev))) (o_datacontenttype (e_rest ev)) default_decode_options) \<longleftrightarrow>
    payload_readable C ev"
proof (cases "o_data (e_rest ev)")
  case (Json_document held)
  with assms(1) obtain a v where "held = document_make C a v" by (auto simp: event_normal_def data_normal_def)
  then have "c_parse C (text_of (to_bytes (document_dump held))) = Inr v"
    using assms(3) by (simp add: codec_text_def document_dump_def document_make_def model_dump_def)
  then show ?thesis by (simp add: Json_document read_body_def payload_bytes_def payload_readable_def Let_def)
next
  case (Binary_data b)
  then show ?thesis
    by (cases "c_parse C (text_of b)")
      (auto simp: read_body_def payload_bytes_def payload_readable_def Let_def default_decode_options_def split: option.split)
qed (use assms in \<open>auto simp: read_body_def payload_bytes_def payload_readable_def holds_text_def event_normal_def
    declared_non_json_def split: option.splits\<close>)

section \<open>Where the target traps\<close>

text \<open>Whatever else holds: what is written in binary mode and refused then makes the target trap.\<close>

lemma mqtt_exercise_traps:
  assumes "mqtt_from_message names C fresh m default_decode_options = Inr ev"
    and "mqtt_to_message names C ev binary_mode = Inr w"
    and "\<not> is_ok (mqtt_from_message names C (Suc fresh) w default_decode_options)"
  shows "mqtt_exercise names C fresh m = Traps"
  using assms by (cases "mqtt_exercise names C fresh m") (auto simp: mqtt_exercise_def)

lemma mqtt_exercise_iff:
  assumes C: "codec_scalars C" "codec_objects C" "codec_lookup C" "codec_text C" "codec_values C"
    and names: "names = unprefixed_names \<or> names = prefixed_names"
    and read: "mqtt_from_message names C fresh m default_decode_options = Inr ev"
    and body: "retains (text_of (body m)) default_decode_options"
    and ev: "time_fits ev" "texts_utf8 ev" "media_type_declares_no_mode ev"
  shows "mqtt_exercise names C fresh m = Returns \<longleftrightarrow>
    (is_ok (mqtt_to_message names C ev binary_mode) \<longrightarrow> payload_readable C ev)"
proof -
  note n = mqtt_read_normal [OF read C(3) body]
  have normal: "event_normal C ev" "\<not> holds_text (o_data (e_rest ev))" using n by (simp_all add: default_decode_options_def)
  note ok = mqtt_read_ok [OF read]
  have payload: "mqtt_detect_content_mode m = structured \<Longrightarrow>
      \<exists>ev'. mqtt_from_payload_message C (Suc fresh) m default_decode_options = Inr ev' \<and> event_equal ev ev'"
    using read json_decode_fresh [OF C(5), of fresh "text_of (body m)" default_decode_options ev "Suc fresh"]
    by (auto simp: mqtt_from_message_def mqtt_from_payload_message_def decode_structured_def split: if_splits)
  have written: "is_ok (mqtt_to_message names C ev structured)"
    using normal_encodes [OF normal] by (auto simp: mqtt_to_message_def encode_structured_def)
  have again: "is_ok (mqtt_from_message names C (Suc fresh) w default_decode_options) \<longleftrightarrow> payload_readable C ev"
    if "mqtt_to_message names C ev binary_mode = Inr w" for w
    using mqtt_round_trip_of [OF mqtt_names [OF names] ok ev that] read_body_again [OF normal C(4), of "Suc fresh"]
    by (auto simp: is_ok_iff and_then_eq_Inr)
  show ?thesis
    using payload written again
    by (auto simp: mqtt_exercise_def read is_ok_iff split: sum.split)
qed

text \<open>
  A structured message with binary data under a JSON media type, and one whose media type is that
  of a CloudEvent.
\<close>

definition structured_event :: "string \<Rightarrow> string \<Rightarrow> jv event" where
  "structured_event media payload = \<lparr>e_id = ''1'', e_source = ''/s'', e_type = ''t'',
     e_rest = no_options\<lparr>o_datacontenttype := Some media, o_data := Binary_data (to_bytes payload)\<rparr>\<rparr>"

definition structured_input :: "string \<Rightarrow> string \<Rightarrow> string" where
  "structured_input media payload =
     ''content-type:application/cloudevents+json'' @ [CHR 0x0A, CHR 0x0A] @
     projr (json_encode reference_codec (structured_event media payload))"

lemma structured_encodes:
  "json_encode reference_codec (structured_event media payload) =
     Inr (projr (json_encode reference_codec (structured_event media payload)))"
  by (simp add: json_encode_def to_value_all data_entries_def structured_event_def no_options_def)

lemma build_structured:
  "build_message (structured_input media payload) =
     \<lparr>header_fields = [(''content-type'', ''application/cloudevents+json'')],
      body = to_bytes (projr (json_encode reference_codec (structured_event media payload)))\<rparr>"
proof -
  have "build_message (''content-type:application/cloudevents+json'' @ [CHR 0x0A, CHR 0x0A] @ rest) =
      \<lparr>header_fields = [(''content-type'', ''application/cloudevents+json'')], body = to_bytes rest\<rparr>" for rest
    by (simp add: build_message_def build_from.simps find_char_def Let_def add_def to_bytes_def)
  then show ?thesis by (simp only: structured_input_def)
qed

lemma read_structured_input:
  assumes "p_check datacontenttype_policy media = None"
    and "retains (projr (json_encode reference_codec (structured_event media payload))) default_decode_options"
  shows "mqtt_from_message unprefixed_names reference_codec 0 (build_message (structured_input media payload))
    default_decode_options = Inr (structured_event media payload)"
proof -
  let ?ev = "structured_event media payload"
  have ok: "event_ok ?ev" "time_fits ?ev"
    using assms(1) by (simp_all add: structured_event_def no_options_def event_ok_def options_ok_def accepted_by_def om_ok_def
        id_policy_def source_policy_def type_policy_def check_text_None is_valid_utf8_ascii_list time_fits_def)
  have "json_image reference_codec 0 ?ev = ?ev"
    by (simp add: json_image_def json_extensions_def json_data_def structured_event_def no_options_def)
  with json_decode_encoded [OF reference_scalars reference_objects reference_lookup reference_text ok structured_encodes assms(2), of 0]
  have "json_decode reference_codec 0 (projr (json_encode reference_codec ?ev)) default_decode_options = Inr ?ev" by simp
  then show ?thesis
    by (simp add: build_structured mqtt_from_message_def mqtt_detect_content_mode_def mqtt_content_type_header_def
        starts_with_def decode_structured_def)
qed

lemma traps_unless_read_again:
  assumes "p_check datacontenttype_policy media = None"
    and "retains (projr (json_encode reference_codec (structured_event media payload))) default_decode_options"
    and "is_ok (mqtt_to_message unprefixed_names reference_codec (structured_event media payload) binary_mode)"
    and "\<not> is_ok (and_then (mqtt_to_message unprefixed_names reference_codec (structured_event media payload) binary_mode)
      (\<lambda>w. mqtt_from_message unprefixed_names reference_codec (Suc 0) w default_decode_options))"
  shows "fuzz_mqtt_message reference_codec 0 (structured_input media payload) = Traps"
proof -
  from assms(3) obtain w where w: "mqtt_to_message unprefixed_names reference_codec (structured_event media payload) binary_mode = Inr w"
    by (auto simp: is_ok_iff)
  with assms(4) have "\<not> is_ok (mqtt_from_message unprefixed_names reference_codec (Suc 0) w default_decode_options)" by simp
  from mqtt_exercise_traps [OF read_structured_input [OF assms(1,2)] w this]
  show ?thesis by (simp add: fuzz_mqtt_message_def Let_def next_check_def)
qed

lemma binary_under_json: "fuzz_mqtt_message reference_codec 0 (structured_input ''application/json'' ''a'') = Traps"
  by (rule traps_unless_read_again) code_simp+

lemma media_of_a_cloudevent:
  "fuzz_mqtt_message reference_codec 0 (structured_input ''application/cloudevents+json'' ''1'') = Traps"
  by (rule traps_unless_read_again) code_simp+

text \<open>
  C19: the MQTT target, under either policy for the names, with a codec that keeps the laws, on a
  message whose body is within the retention limit and that is read as an event with UTF-8 texts, a
  time that can be written and a media type that is not a CloudEvent's, returns exactly if binary
  mode refuses the event or the payload it writes can be read: whatever is read is written in
  structured mode, and a structured message is read as its payload alone. It traps on binary data
  under a JSON media type that is no JSON, and on a media type that is a CloudEvent's.
\<close>

theorem fuzz_mqtt_message_traps:
  assumes "codec_scalars C" "codec_objects C" "codec_lookup C" "codec_text C" "codec_values C"
    and "names = unprefixed_names \<or> names = prefixed_names"
    and "mqtt_from_message names C fresh m default_decode_options = Inr ev"
    and "retains (text_of (body m)) default_decode_options"
    and "time_fits ev" "texts_utf8 ev" "media_type_declares_no_mode ev"
  shows "(mqtt_exercise names C fresh m = Returns \<longleftrightarrow>
      (is_ok (mqtt_to_message names C ev binary_mode) \<longrightarrow> payload_readable C ev)) \<and>
    fuzz_mqtt_message reference_codec 0 (structured_input ''application/json'' ''a'') = Traps \<and>
    fuzz_mqtt_message reference_codec 0 (structured_input ''application/cloudevents+json'' ''1'') = Traps"
  using mqtt_exercise_iff [OF assms] binary_under_json media_of_a_cloudevent by simp

theorem fuzz_mqtt_message_traps_witness:
  "mqtt_exercise unprefixed_names reference_codec 0 (build_message (structured_input ''application/json'' ''1'')) = Returns"
proof -
  let ?m = "build_message (structured_input ''application/json'' ''1'')"
  let ?ev = "structured_event ''application/json'' ''1''"
  have media: "p_check datacontenttype_policy ''application/json'' = None" by code_simp
  have size: "retains (projr (json_encode reference_codec ?ev)) default_decode_options" by code_simp
  note r = read_structured_input [OF media size]
  have b: "retains (text_of (body ?m)) default_decode_options" using size by (simp add: build_structured)
  have e: "time_fits ?ev" "texts_utf8 ?ev" by (simp_all add: structured_event_def no_options_def time_fits_def texts_utf8_def)
  have e': "media_type_declares_no_mode ?ev" "payload_readable reference_codec ?ev" by code_simp+
  from fuzz_mqtt_message_traps [OF reference_scalars reference_objects reference_lookup reference_text reference_values
      disjI1 [OF refl] r b e e'(1)] e'(2)
  show ?thesis by simp
qed

end
